(* ===== verification/Prelude.thy ===== *)
theory Prelude
  imports Main "HOL-Library.Char_ord" "HOL-Library.List_Lexorder"
begin

text \<open>
  What every theory of the development shares: the rule collections, signed 64-bit arithmetic as Go
  has it, the parts of Go's \<^verbatim>\<open>strings\<close>, \<^verbatim>\<open>strconv\<close> and \<^verbatim>\<open>fmt\<close> packages
  that the gateway calls, written over \<^typ>\<open>string\<close> (a Go string is a byte sequence, and so is a
  \<^typ>\<open>char list\<close>), and generic lemmas on lists and association lists.
\<close>

section \<open>Rule collections\<close>

named_theorems script_simps \<open>equations that run a Redis command or a Lua script\<close>
named_theorems key_simps \<open>equations and inequations between Redis key names\<close>
named_theorems inv_intros \<open>rules that establish a component invariant\<close>

section \<open>Signed 64-bit integers and durations\<close>

text \<open>
  Go's \<^verbatim>\<open>int\<close> and \<^verbatim>\<open>int64\<close> on the gateway's platforms are two's complement with
  64 bits. A value is an \<^typ>\<open>int\<close>; where the code adds or multiplies values that come from outside,
  the wrap-around is written out with \<open>wrap64\<close>.
\<close>

definition wrap64 :: "int \<Rightarrow> int" where
  "wrap64 x = (x + 2 ^ 63) mod 2 ^ 64 - 2 ^ 63"

definition int64 :: "int \<Rightarrow> bool" where
  "int64 x \<longleftrightarrow> - (2 ^ 63) \<le> x \<and> x < 2 ^ 63"

lemma wrap64_id [simp]: "int64 x \<Longrightarrow> wrap64 x = x"
  by (simp add: wrap64_def int64_def)

lemma int64_wrap64 [simp]: "int64 (wrap64 x)"
  by (simp add: wrap64_def int64_def algebra_simps)

lemma int64_small: "0 \<le> x \<Longrightarrow> x < 2 ^ 63 \<Longrightarrow> int64 x"
  by (simp add: int64_def)

text \<open>
  \<^verbatim>\<open>time.Duration\<close> counts nanoseconds. \<open>ceil_secs\<close> is
  \<^verbatim>\<open>int64(math.Ceil(d.Seconds()))\<close> and \<open>trunc_secs\<close> is
  \<^verbatim>\<open>int(d.Seconds())\<close>, both without the rounding of the intermediate
  \<^verbatim>\<open>float64\<close> (exact below about four million seconds).
\<close>

abbreviation second :: int where
  "second \<equiv> 1000000000"

definition ceil_secs :: "int \<Rightarrow> int" where
  "ceil_secs d = - ((- d) div second)"

definition trunc_secs :: "int \<Rightarrow> int" where
  "trunc_secs d = sgn d * (\<bar>d\<bar> div second)"

lemma ceil_secs_pos: "0 < d \<Longrightarrow> 1 \<le> ceil_secs d"
  by (simp add: ceil_secs_def)

lemma ceil_secs_covers: "d \<le> ceil_secs d * second"
  by (simp add: ceil_secs_def)

lemma ceil_secs_mult [simp]: "ceil_secs (n * second) = n"
  by (simp add: ceil_secs_def)

lemma trunc_secs_mult [simp]: "trunc_secs (n * second) = n"
  by (simp add: trunc_secs_def sgn_mult abs_mult sgn_mult_abs)

section \<open>Package strings\<close>

text \<open>\<^verbatim>\<open>strings.HasPrefix\<close>, \<^verbatim>\<open>HasSuffix\<close>, \<^verbatim>\<open>TrimPrefix\<close>,
  \<^verbatim>\<open>TrimSuffix\<close> and \<^verbatim>\<open>Contains\<close>.\<close>

definition HasPrefix :: "string \<Rightarrow> string \<Rightarrow> bool" where
  "HasPrefix s p \<longleftrightarrow> take (length p) s = p"

definition HasSuffix :: "string \<Rightarrow> string \<Rightarrow> bool" where
  "HasSuffix s p \<longleftrightarrow> length p \<le> length s \<and> drop (length s - length p) s = p"

definition TrimPrefix :: "string \<Rightarrow> string \<Rightarrow> string" where
  "TrimPrefix s p = (if HasPrefix s p then drop (length p) s else s)"

definition TrimSuffix :: "string \<Rightarrow> string \<Rightarrow> string" where
  "TrimSuffix s p = (if HasSuffix s p then take (length s - length p) s else s)"

fun Contains :: "string \<Rightarrow> string \<Rightarrow> bool" where
  "Contains [] sub = (sub = [])"
| "Contains (c # cs) sub = (HasPrefix (c # cs) sub \<or> Contains cs sub)"

lemma HasPrefix_iff: "HasPrefix s p \<longleftrightarrow> (\<exists>r. s = p @ r)"
  by (auto simp: HasPrefix_def) (metis append_take_drop_id)

lemma HasSuffix_iff: "HasSuffix s p \<longleftrightarrow> (\<exists>r. s = r @ p)"
  by (auto simp: HasSuffix_def) (metis append_take_drop_id)

lemma HasPrefix_append [simp]: "HasPrefix (p @ r) p"
  by (auto simp: HasPrefix_iff)

lemma HasSuffix_append [simp]: "HasSuffix (r @ p) p"
  by (auto simp: HasSuffix_iff)

lemma TrimPrefix_append [simp]: "TrimPrefix (p @ r) p = r"
  by (simp add: TrimPrefix_def)

lemma TrimSuffix_append [simp]: "TrimSuffix (r @ p) p = r"
  by (simp add: TrimSuffix_def)

lemma Contains_iff: "Contains s sub \<longleftrightarrow> (\<exists>a b. s = a @ sub @ b)"
proof (induction s)
  case (Cons c cs)
  show ?case
  proof
    assume "Contains (c # cs) sub"
    then consider "HasPrefix (c # cs) sub" | "Contains cs sub" by auto
    then show "\<exists>a b. c # cs = a @ sub @ b"
    proof cases
      case 1
      then show ?thesis by (auto simp: HasPrefix_iff intro: exI [of _ "[]"])
    next
      case 2
      then show ?thesis using Cons.IH by (metis append_Cons)
    qed
  next
    assume "\<exists>a b. c # cs = a @ sub @ b"
    then obtain a b where ab: "c # cs = a @ sub @ b" by blast
    show "Contains (c # cs) sub"
    proof (cases a)
      case Nil
      with ab have "HasPrefix (c # cs) sub" by (simp add: HasPrefix_def)
      then show ?thesis by simp
    next
      case (Cons x xs)
      with ab have "\<exists>a b. cs = a @ sub @ b" by auto
      with Cons.IH show ?thesis by simp
    qed
  qed
qed auto

text \<open>
  \<^verbatim>\<open>strings.Split(s, sep)\<close> for a one-byte separator, and
  \<^verbatim>\<open>strings.SplitN(s, sep, 2)\<close> as the pair around the first occurrence of a non-empty
  separator (\<open>None\<close> where the result has one element only).
\<close>

fun split_byte :: "char \<Rightarrow> string \<Rightarrow> string list" where
  "split_byte c [] = [[]]"
| "split_byte c (x # xs) =
     (if x = c then [] # split_byte c xs
      else case split_byte c xs of [] \<Rightarrow> [[x]] | p # ps \<Rightarrow> (x # p) # ps)"

fun cut :: "string \<Rightarrow> string \<Rightarrow> (string \<times> string) option" where
  "cut sep [] = (if sep = [] then Some ([], []) else None)"
| "cut sep (x # xs) =
     (if HasPrefix (x # xs) sep then Some ([], drop (length sep) (x # xs))
      else case cut sep xs of None \<Rightarrow> None | Some (a, b) \<Rightarrow> Some (x # a, b))"

lemma split_byte_nonempty [simp]: "split_byte c s \<noteq> []"
  by (induction s) (auto split: list.splits)

lemma cut_Some: "cut sep s = Some (a, b) \<Longrightarrow> s = a @ sep @ b"
proof (induction s arbitrary: a b)
  case (Cons x xs)
  then show ?case
    by (auto simp: HasPrefix_def split: if_splits option.splits) (metis append_take_drop_id)
qed (auto split: if_splits)

lemma cut_None: "cut sep s = None \<longleftrightarrow> \<not> Contains s sep"
  by (induction s) (auto split: option.splits)

fun join_with :: "string \<Rightarrow> string list \<Rightarrow> string" where
  "join_with sep [] = []"
| "join_with sep [x] = x"
| "join_with sep (x # y # zs) = x @ sep @ join_with sep (y # zs)"

text \<open>\<^verbatim>\<open>strings.Split\<close> is undone by \<^verbatim>\<open>strings.Join\<close>.\<close>

lemma join_split_byte: "join_with [c] (split_byte c s) = s"
proof (induction s)
  case (Cons x xs)
  obtain p ps where p: "split_byte c xs = p # ps"
    by (cases "split_byte c xs") auto
  show ?case
    using Cons p by (cases ps) auto
qed auto

section \<open>Decimal numbers: strconv and the verb \<open>%d\<close>\<close>

definition digit :: "nat \<Rightarrow> char" where
  "digit d = char_of (48 + d)"

fun utoa :: "nat \<Rightarrow> string" where
  "utoa n = (if n < 10 then [digit n] else utoa (n div 10) @ [digit (n mod 10)])"

declare utoa.simps [simp del]

definition itoa :: "int \<Rightarrow> string" where
  "itoa i = (if i < 0 then CHR ''-'' # utoa (nat (- i)) else utoa (nat i))"

fun atou :: "nat \<Rightarrow> string \<Rightarrow> nat option" where
  "atou acc [] = Some acc"
| "atou acc (c # cs) =
     (let d = of_char c in
      if 48 \<le> d \<and> d < (58 :: nat) then atou (10 * acc + (d - 48)) cs else None)"

text \<open>
  \<open>atoi\<close> is \<^verbatim>\<open>strconv.ParseInt(s, 10, 64)\<close> with its error as \<open>None\<close>: an optional
  sign, at least one digit, digits only, and a value of 64 bits.
\<close>

definition atoi :: "string \<Rightarrow> int option" where
  "atoi s =
     (let body = (case s of c # cs \<Rightarrow> if c = CHR ''-'' \<or> c = CHR ''+'' then cs else s | [] \<Rightarrow> []);
          neg = (case s of c # _ \<Rightarrow> c = CHR ''-'' | [] \<Rightarrow> False)
      in if body = [] then None
         else case atou 0 body of
           None \<Rightarrow> None
         | Some n \<Rightarrow> (let i = (if neg then - int n else int n) in if int64 i then Some i else None))"

lemma of_char_digit: "d < 10 \<Longrightarrow> of_char (digit d) = 48 + d"
  by (simp add: digit_def)

lemma atou_append: "atou a (s @ t) = (case atou a s of None \<Rightarrow> None | Some b \<Rightarrow> atou b t)"
  by (induction s arbitrary: a) (auto simp: Let_def)

lemma atou_utoa: "atou 0 (utoa n) = Some n"
proof (induction n rule: utoa.induct)
  case (1 n)
  show ?case
  proof (cases "n < 10")
    case True
    then show ?thesis by (simp add: utoa.simps [of n] of_char_digit)
  next
    case False
    with 1 have "atou 0 (utoa (n div 10)) = Some (n div 10)" by simp
    moreover have "10 * (n div 10) + n mod 10 = n" by simp
    ultimately show ?thesis
      using False by (simp add: utoa.simps [of n] atou_append of_char_digit)
  qed
qed

lemma utoa_not_Nil [simp]: "utoa n \<noteq> []"
  by (simp add: utoa.simps [of n])

lemma utoa_digits: "c \<in> set (utoa n) \<Longrightarrow> \<exists>d<10. c = digit d"
proof (induction n arbitrary: c rule: utoa.induct)
  case (1 n)
  show ?case
  proof (cases "n < 10")
    case True
    with "1.prems" show ?thesis by (auto simp: utoa.simps [of n])
  next
    case False
    with "1.prems" have "c \<in> set (utoa (n div 10)) \<or> c = digit (n mod 10)"
      by (auto simp: utoa.simps [of n])
    then show ?thesis
      using "1.IH" [OF False] by (auto intro: exI [of _ "n mod 10"])
  qed
qed

lemma digit_not_sign:
  assumes "d < 10"
  shows "digit d \<noteq> CHR ''-''" and "digit d \<noteq> CHR ''+''" and "digit d \<noteq> CHR ''|''"
proof -
  from assms have "of_char (digit d) = (48 :: nat) + d" by (rule of_char_digit)
  then show "digit d \<noteq> CHR ''-''" "digit d \<noteq> CHR ''+''" "digit d \<noteq> CHR ''|''"
    using assms by auto
qed

lemma hd_utoa: "\<exists>d<10. \<exists>cs. utoa n = digit d # cs"
  using utoa_digits [of "hd (utoa n)" n] by (cases "utoa n") auto

theorem atoi_itoa [simp]: "int64 i \<Longrightarrow> atoi (itoa i) = Some i"
proof (cases "i < 0")
  case True
  assume "int64 i"
  with True show ?thesis
    by (simp add: atoi_def itoa_def atou_utoa)
next
  case False
  assume i: "int64 i"
  obtain d cs where d: "d < 10" "utoa (nat i) = digit d # cs"
    using hd_utoa by blast
  have "atou 0 (digit d # cs) = Some (nat i)"
    using atou_utoa [of "nat i"] d by simp
  with False i d digit_not_sign [OF d(1)] show ?thesis
    by (simp add: atoi_def itoa_def)
qed

section \<open>Lists\<close>

text \<open>A loop that appends an element the first time it is seen.\<close>

fun first_occurrences :: "'a set \<Rightarrow> 'a list \<Rightarrow> 'a list" where
  "first_occurrences seen [] = []"
| "first_occurrences seen (x # xs) =
     (if x \<in> seen then first_occurrences seen xs
      else x # first_occurrences (insert x seen) xs)"

lemma set_first_occurrences: "set (first_occurrences seen xs) = set xs - seen"
  by (induction xs arbitrary: seen) auto

lemma distinct_first_occurrences: "distinct (first_occurrences seen xs)"
  by (induction xs arbitrary: seen) (auto simp: set_first_occurrences)

lemma map_of_filter_fst:
  "map_of (filter (\<lambda>p. P (fst p)) xs) k = (if P k then map_of xs k else None)"
  by (induction xs) auto

end
