(* ===== verification/Config.thy ===== *)
theory Config
  imports Prelude Complex_Main "HOL-Library.AList"
begin

text \<open>
  The gateway's configuration (\<^verbatim>\<open>internal/config/config.go\<close>): the structures the YAML file is
  decoded into, their duration accessors, \<^verbatim>\<open>applyDefaults\<close> and \<^verbatim>\<open>validate\<close> with every
  error it reports. A Go map is an association list with distinct keys, in the order an iteration over it
  visits them; a pointer that may be nil is an option. \<^verbatim>\<open>time.ParseDuration\<close> is the argument
  \<open>pd\<close> (nanoseconds, \<open>None\<close> for its error). YAML decoding and \<^verbatim>\<open>os.Expand\<close> are not modelled.
\<close>

type_synonym ('k, 'v) gomap = "('k \<times> 'v) list"
type_synonym parse_duration = "string \<Rightarrow> int option"

section \<open>Structures\<close>

record RateLimitConfig =
  Rate :: int
  Period :: string
  TokenRate :: int
  TokenPeriod :: string
  MaxConcurrent :: int
  ProcessingTime :: int
  ProcessingPeriod :: string

text \<open>The zero value \<^verbatim>\<open>RateLimitConfig{}\<close>.\<close>

definition no_limits :: RateLimitConfig where
  "no_limits = \<lparr>Rate = 0, Period = [], TokenRate = 0, TokenPeriod = [], MaxConcurrent = 0,
     ProcessingTime = 0, ProcessingPeriod = []\<rparr>"

record PolicyMatch =
  m_Groups :: "string list"
  m_Roles :: "string list"
  m_Scopes :: "string list"
  m_Consumers :: "string list"
  m_UserTypes :: "string list"

record PolicyRule =
  Match :: PolicyMatch
  AllowModels :: "string list"
  AllowServiceTypes :: "string list"
  Limits :: "RateLimitConfig option"

record PoliciesConfig =
  Default :: string
  Rules :: "PolicyRule list"

record IntrospectionAuthConfig =
  Endpoint :: string
  ClientID :: string

record AuthConfig =
  Mode :: string
  Issuer :: string
  Audiences :: "string list"
  Validation :: string
  Introspection :: "IntrospectionAuthConfig option"

record ServiceHealthConfig =
  h_Disabled :: bool
  h_Timeout :: string
  h_Path :: string
  h_Method :: string

record BackendConfig =
  b_URL :: string
  b_Weight :: int
  b_Headers :: "(string, string) gomap"
  b_Model :: string

record BackendPoolMember = BackendConfig +
  mb_RateLimit :: RateLimitConfig
  mb_MaxConcurrent :: int

record BackendPoolConfig =
  Members :: "BackendPoolMember list"
  pool_Headers :: "(string, string) gomap"
  pool_RateLimit :: RateLimitConfig
  pool_MaxConcurrent :: int
  PriorityReservedConcurrent :: int

record RealtimeConfig =
  rt_Path :: string
  rt_BackendPath :: string
  rt_SampleRate :: int
  rt_BytesPerSample :: int
  rt_Channels :: int
  rt_MaxSessionSeconds :: int
  rt_MaxAudioSeconds :: int
  rt_MaxConcurrentPerConsumer :: int
  rt_InfoPaths :: "string list"
  rt_AllowedOrigins :: "string list"

record VisibilityConfig =
  UserTypes :: "string list"
  Groups :: "string list"

record GuardrailsStageConfig =
  gs_Action :: string
  gs_Checks :: "string list"
  gs_Streaming :: string
  gs_StreamWindowTokens :: int

record GuardrailModelConfig =
  gm_Name :: string
  gm_Endpoint :: string
  gm_Kind :: string
  gm_Categories :: "string list"
  gm_Mode :: string
  gm_Action :: string
  gm_Threshold :: rat
  gm_Timeout :: string
  gm_OnError :: string
  gm_MaxInputTokens :: int
  gm_CacheTTL :: string

record GuardrailsAsyncConfig =
  ga_Action :: string
  ga_Checks :: "string list"
  ga_Models :: "GuardrailModelConfig list"
  ga_ScanTimeout :: string
  ga_OnTimeout :: string

record FlaggedSamplesConfig =
  fs_Enabled :: bool
  fs_Redact :: "string list"

record GuardrailsConfig =
  g_Action :: string
  g_Checks :: "string list"
  g_Models :: "GuardrailModelConfig list"
  g_Output :: "GuardrailsStageConfig option"
  g_Async :: "GuardrailsAsyncConfig option"
  g_FlaggedSamples :: "FlaggedSamplesConfig option"

record ServiceConfig =
  sc_Type :: string
  sc_Model :: string
  sc_Default :: bool
  sc_Operations :: "(string, string list) gomap"
  sc_InferenceURL :: string
  sc_Backends :: "BackendConfig list"
  sc_BackendPool :: string
  sc_AcceptedExts :: "string list"
  sc_MaxFileSizeMB :: int
  sc_MaxConcurrentSync :: int
  sc_PriorityReservedSync :: int
  sc_InferenceHeaders :: "(string, string) gomap"
  sc_BackendModel :: string
  sc_FallbackModel :: string
  sc_Provider :: string
  sc_ResponseCacheTTL :: int
  sc_Retries :: int
  sc_Guardrails :: GuardrailsConfig
  sc_BudgetGroup :: string
  sc_TokenLimits :: "(string, RateLimitConfig) gomap"
  sc_Health :: ServiceHealthConfig
  sc_Deprecated :: bool
  sc_Visibility :: VisibilityConfig
  sc_Realtime :: "RealtimeConfig option"

record S3Config =
  s3_Endpoint :: string
  s3_Region :: string
  s3_Bucket :: string

record JobTTLConfig =
  ttl_Global :: string
  ttl_Completed :: string
  ttl_Pending :: string
  ttl_Failed :: string
  ttl_Cancelled :: string

record WebhookConfig =
  MaxRetries :: int
  RetryBackoff :: string
  MaxBackoff :: string
  SigningSecret :: string

record CircuitBreakerConfig =
  cb_Enabled :: bool
  FailureThreshold :: int
  Cooldown :: string

record Config =
  Addr :: string
  ReadTimeout :: int
  IdleTimeout :: int
  HealthTimeout :: string
  HealthInterval :: string
  RedisAddr :: string
  PendingMaxAge :: string
  GCInterval :: string
  OrphanMinAge :: string
  IgnorePaths :: "string list"
  Services :: "ServiceConfig list"
  S3 :: S3Config
  Auth :: AuthConfig
  Policies :: "PoliciesConfig option"
  RateLimits :: "(string, (string, RateLimitConfig) gomap) gomap"
  BackendPools :: "(string, BackendPoolConfig) gomap"
  CircuitBreaker :: CircuitBreakerConfig

section \<open>Durations\<close>

definition parseDuration :: "parse_duration \<Rightarrow> string \<Rightarrow> int" where
  "parseDuration pd s = (case pd s of Some d \<Rightarrow> if d > 0 then d else 0 | None \<Rightarrow> 0)"

definition MaxRetriesOrDefault :: "WebhookConfig \<Rightarrow> int" where
  "MaxRetriesOrDefault w = (if MaxRetries w > 0 then MaxRetries w else 3)"

definition RetryBackoffDuration :: "parse_duration \<Rightarrow> WebhookConfig \<Rightarrow> int" where
  "RetryBackoffDuration pd w =
     (let d = parseDuration pd (RetryBackoff w) in if d > 0 then d else 30 * second)"

definition MaxBackoffDuration :: "parse_duration \<Rightarrow> WebhookConfig \<Rightarrow> int" where
  "MaxBackoffDuration pd w =
     (let d = parseDuration pd (MaxBackoff w) in if d > 0 then d else 10 * 60 * second)"

lemma parseDuration_nonneg [simp]: "0 \<le> parseDuration pd s"
  by (simp add: parseDuration_def split: option.splits)

section \<open>Defaults\<close>

definition or_default :: "string \<Rightarrow> string \<Rightarrow> string" where
  "or_default d s = (if s = [] then d else s)"

definition applyDefaults :: "Config \<Rightarrow> Config" where
  "applyDefaults c =
     (let cb = CircuitBreaker c in
      c\<lparr>Addr := or_default '':8080'' (Addr c),
        ReadTimeout := (if ReadTimeout c = 0 then 120 * second else ReadTimeout c),
        IdleTimeout := (if IdleTimeout c = 0 then 120 * second else IdleTimeout c),
        HealthTimeout := or_default ''5s'' (HealthTimeout c),
        HealthInterval := or_default ''30s'' (HealthInterval c),
        PendingMaxAge := or_default ''2h'' (PendingMaxAge c),
        GCInterval := or_default ''15m'' (GCInterval c),
        OrphanMinAge := or_default ''5m'' (OrphanMinAge c),
        IgnorePaths := (if IgnorePaths c = []
                        then [''/health'', ''/metrics'', ''/docs'', ''/openapi.yaml''] else IgnorePaths c),
        Services := map (\<lambda>s. if sc_MaxFileSizeMB s = 0 then s\<lparr>sc_MaxFileSizeMB := 100\<rparr> else s) (Services c),
        CircuitBreaker :=
          (if cb_Enabled cb
           then cb\<lparr>FailureThreshold := (if FailureThreshold cb \<le> 0 then 5 else FailureThreshold cb),
                   Cooldown := or_default ''30s'' (Cooldown cb)\<rparr>
           else cb)\<rparr>)"

section \<open>Validation\<close>

text \<open>
  One constructor per message of \<^verbatim>\<open>validate\<close>; the arguments are what the message names.
  A check returns the first error it meets, \<open>None\<close> for none.
\<close>

datatype config_error =
    InvalidAuthMode string
  | InvalidPoliciesDefault string
  | PoliciesNeedAuth
  | PolicyRateNeedsPeriod nat
  | PolicyTokenRateNeedsPeriod nat
  | OAuthIssuerRequired
  | OAuthAudiencesRequired
  | InvalidValidation string
  | IntrospectionRequired
  | IntrospectionClientIDRequired
  | IntrospectionEndpointRequired
  | S3EndpointRequired
  | S3RegionRequired
  | S3BucketRequired
  | RedisAddrRequired
  | NoServices
  | EmptyServiceType
  | RealtimePathRequired string
  | RealtimePathNotAbsolute string string
  | RealtimePathNotExact string string
  | RealtimePathReserved string string
  | RealtimePathDuplicate string
  | TokenRateNeedsPeriod string string
  | ProcessingTimeNeedsPeriod string string
  | PoolNoMembers string
  | PoolMemberEmptyURL string nat
  | PoolMemberDuplicateURL string nat
  | PoolMemberNegativeWeight string nat
  | PoolMemberNegativeConcurrent string nat
  | PoolMemberRateLimit string nat config_error
  | PoolNegativeConcurrent string
  | PoolNegativeReserved string
  | PoolRateLimit string config_error
  | RateNeedsPeriod
  | TokenRateUnsupported
  | MaxConcurrentUnsupported
  | ProcessingTimeUnsupported
  | UnknownProvider string
  | NegativeCacheTTL string
  | InvalidStreaming string
  | BackendEmptyURL string nat
  | BackendNegativeWeight string nat
  | PoolExcludesBackends string
  | PoolExcludesURL string
  | PoolUndefined string string
  | TokenLimitNeedsPeriod string string
  | InvalidGuardrailsAction string
  | UnknownCheck string string
  | InvalidOutputAction string
  | UnknownOutputCheck string string
  | BudgetGroupCollides string
  | BudgetGroupSpansTypes string
  | BudgetGroupMemberUnlimited string string
  | BudgetGroupLimitsDiffer string string
  | ModelTwoBudgetKeys string

text \<open>A run of checks, the first error winning: a loop body over a list, or statements in sequence.\<close>

fun first_error :: "'e option list \<Rightarrow> 'e option" where
  "first_error [] = None"
| "first_error (None # es) = first_error es"
| "first_error (Some e # es) = Some e"

definition check :: "bool \<Rightarrow> 'e \<Rightarrow> 'e option" where
  "check bad e = (if bad then Some e else None)"

lemma first_error_None [simp]: "first_error es = None \<longleftrightarrow> (\<forall>e\<in>set es. e = None)"
  by (induction es rule: first_error.induct) auto

lemma check_None [simp]: "check bad e = None \<longleftrightarrow> \<not> bad"
  by (simp add: check_def)

definition indexed :: "'a list \<Rightarrow> (nat \<times> 'a) list" where
  "indexed xs = zip [0..<length xs] xs"

definition validate_auth :: "Config \<Rightarrow> config_error option" where
  "validate_auth c = check (Mode (Auth c) \<notin> {'''', ''oauth2'', ''proxy''}) (InvalidAuthMode (Mode (Auth c)))"

definition validate_policies :: "Config \<Rightarrow> config_error option" where
  "validate_policies c =
     (case Policies c of
        None \<Rightarrow> None
      | Some p \<Rightarrow> first_error
          ([check (Default p \<notin> {'''', ''deny'', ''allow''}) (InvalidPoliciesDefault (Default p)),
            check ((Rules p \<noteq> [] \<or> Default p = ''deny'' \<or> Default p = '''') \<and> Mode (Auth c) = '''')
              PoliciesNeedAuth] @
           map (\<lambda>(i, r). case Limits r of
                  None \<Rightarrow> None
                | Some l \<Rightarrow> first_error
                    [check (Rate l > 0 \<and> Period l = []) (PolicyRateNeedsPeriod i),
                     check (TokenRate l > 0 \<and> TokenPeriod l = []) (PolicyTokenRateNeedsPeriod i)])
             (indexed (Rules p))))"

definition validate_oauth2 :: "Config \<Rightarrow> config_error option" where
  "validate_oauth2 c =
     (let a = Auth c;
          needsIntrospection = (Validation a = ''introspection'' \<or>
            (Validation a = ''auto'' \<and> Introspection a \<noteq> None))
      in if Mode a \<noteq> ''oauth2'' then None
         else first_error
           [check (Issuer a = []) OAuthIssuerRequired,
            check (Audiences a = []) OAuthAudiencesRequired,
            check (Validation a \<notin> {'''', ''auto'', ''jwt'', ''introspection''}) (InvalidValidation (Validation a)),
            (if \<not> needsIntrospection then None
             else case Introspection a of
               None \<Rightarrow> Some IntrospectionRequired
             | Some i \<Rightarrow> first_error
                 [check (ClientID i = []) IntrospectionClientIDRequired,
                  check (Endpoint i = [] \<and> Issuer a = []) IntrospectionEndpointRequired])])"

definition validate_required :: "Config \<Rightarrow> config_error option" where
  "validate_required c = first_error
     ([check (s3_Endpoint (S3 c) = []) S3EndpointRequired,
       check (s3_Region (S3 c) = []) S3RegionRequired,
       check (s3_Bucket (S3 c) = []) S3BucketRequired,
       check (RedisAddr c = []) RedisAddrRequired,
       check (Services c = []) NoServices] @
      map (\<lambda>s. check (sc_Type s = []) EmptyServiceType) (Services c))"

text \<open>The realtime loop carries the set of paths seen so far across services.\<close>

fun realtime_paths :: "string \<Rightarrow> string list \<Rightarrow> string set \<Rightarrow> config_error + string set" where
  "realtime_paths m [] seen = Inr seen"
| "realtime_paths m (p # ps) seen =
     (case first_error
        [check (\<not> HasPrefix p ''/'') (RealtimePathNotAbsolute m p),
         check (CHR ''{'' \<in> set p \<or> CHR ''*'' \<in> set p) (RealtimePathNotExact m p),
         check (p \<in> {''/v1/models'', ''/health'', ''/metrics''}) (RealtimePathReserved m p),
         check (p \<in> seen) (RealtimePathDuplicate p)] of
        Some e \<Rightarrow> Inl e
      | None \<Rightarrow> realtime_paths m ps (insert p seen))"

fun validate_realtime :: "ServiceConfig list \<Rightarrow> string set \<Rightarrow> config_error option" where
  "validate_realtime [] seen = None"
| "validate_realtime (s # ss) seen =
     (case sc_Realtime s of
        None \<Rightarrow> validate_realtime ss seen
      | Some rt \<Rightarrow>
          if rt_Path rt = [] then Some (RealtimePathRequired (sc_Model s))
          else (case realtime_paths (sc_Model s) (rt_Path rt # rt_InfoPaths rt) seen of
                  Inl e \<Rightarrow> Some e
                | Inr seen' \<Rightarrow> validate_realtime ss seen'))"

definition validate_rate_limits :: "Config \<Rightarrow> config_error option" where
  "validate_rate_limits c = first_error
     (concat (map (\<lambda>(svcType, userLimits). map (\<lambda>(userType, l). first_error
        [check (TokenRate l > 0 \<and> TokenPeriod l = []) (TokenRateNeedsPeriod svcType userType),
         check (ProcessingTime l > 0 \<and> ProcessingPeriod l = []) (ProcessingTimeNeedsPeriod svcType userType)])
        userLimits) (RateLimits c)))"

definition validatePoolRateLimit :: "RateLimitConfig \<Rightarrow> config_error option" where
  "validatePoolRateLimit rl = first_error
     [check (Rate rl > 0 \<and> Period rl = []) RateNeedsPeriod,
      check (TokenRate rl \<noteq> 0 \<or> TokenPeriod rl \<noteq> []) TokenRateUnsupported,
      check (MaxConcurrent rl \<noteq> 0) MaxConcurrentUnsupported,
      check (ProcessingTime rl \<noteq> 0 \<or> ProcessingPeriod rl \<noteq> []) ProcessingTimeUnsupported]"

definition validate_pool :: "string \<times> BackendPoolConfig \<Rightarrow> config_error option" where
  "validate_pool np =
     (let (name, pool) = np; urls = map b_URL (Members pool) in first_error
       ([check (Members pool = []) (PoolNoMembers name)] @
        map (\<lambda>(i, m). first_error
          [check (b_URL m = []) (PoolMemberEmptyURL name i),
           check (b_URL m \<in> set (take i urls)) (PoolMemberDuplicateURL name i),
           check (b_Weight m < 0) (PoolMemberNegativeWeight name i),
           check (mb_MaxConcurrent m < 0) (PoolMemberNegativeConcurrent name i),
           map_option (PoolMemberRateLimit name i) (validatePoolRateLimit (mb_RateLimit m))])
          (indexed (Members pool)) @
        [check (pool_MaxConcurrent pool < 0) (PoolNegativeConcurrent name),
         check (PriorityReservedConcurrent pool < 0) (PoolNegativeReserved name),
         map_option (PoolRateLimit name) (validatePoolRateLimit (pool_RateLimit pool))]))"

text \<open>The pools are visited in the order of their sorted names.\<close>

definition validate_pools :: "Config \<Rightarrow> config_error option" where
  "validate_pools c = first_error (map validate_pool (sort_key fst (BackendPools c)))"

definition validChecks :: "string list" where
  "validChecks = [''pii'', ''pii_fr'', ''pii_us'', ''pii_uk'', ''pii_es'', ''pii_it'', ''secrets'']"

definition validActions :: "string list" where
  "validActions = [''block'', ''redact'', ''flag'']"

definition validProviders :: "string list" where
  "validProviders = [''openai'', ''anthropic'', ''ollama'', ''passthrough'']"

definition validate_service :: "Config \<Rightarrow> ServiceConfig \<Rightarrow> config_error option" where
  "validate_service c svc =
     (let ty = sc_Type svc; g = sc_Guardrails svc in first_error
       ([check (sc_Provider svc \<noteq> [] \<and> sc_Provider svc \<notin> set validProviders) (UnknownProvider ty),
         check (sc_ResponseCacheTTL svc < 0) (NegativeCacheTTL ty),
         (case g_Output g of None \<Rightarrow> None
          | Some out \<Rightarrow> check (gs_Streaming out \<notin> {'''', ''flag'', ''block'', ''buffer''}) (InvalidStreaming ty))] @
        map (\<lambda>(i, b). first_error
          [check (b_URL b = []) (BackendEmptyURL ty i),
           check (b_Weight b < 0) (BackendNegativeWeight ty i)]) (indexed (sc_Backends svc)) @
        (if sc_BackendPool svc = [] then []
         else [check (sc_Backends svc \<noteq> []) (PoolExcludesBackends ty),
               check (sc_InferenceURL svc \<noteq> []) (PoolExcludesURL ty),
               check (map_of (BackendPools c) (sc_BackendPool svc) = None)
                 (PoolUndefined ty (sc_BackendPool svc))]) @
        map (\<lambda>(userType, l). check (TokenRate l > 0 \<and> TokenPeriod l = [])
          (TokenLimitNeedsPeriod (sc_Model svc) userType)) (sc_TokenLimits svc) @
        [check (g_Action g \<noteq> [] \<and> g_Action g \<notin> set validActions) (InvalidGuardrailsAction ty)] @
        map (\<lambda>ck. check (ck \<notin> set validChecks) (UnknownCheck ty ck)) (g_Checks g) @
        (case g_Output g of
           None \<Rightarrow> []
         | Some out \<Rightarrow>
             check (gs_Action out \<noteq> [] \<and> gs_Action out \<notin> set validActions) (InvalidOutputAction ty) #
             map (\<lambda>ck. check (ck \<notin> set validChecks) (UnknownOutputCheck ty ck)) (gs_Checks out))))"

text \<open>Same user types, same token rate and period: what a shared budget window depends on.\<close>

definition tokenLimitsEqual :: "(string, RateLimitConfig) gomap \<Rightarrow> (string, RateLimitConfig) gomap \<Rightarrow> bool" where
  "tokenLimitsEqual a b \<longleftrightarrow> length a = length b \<and>
     list_all (\<lambda>(ut, av). case map_of b ut of
        None \<Rightarrow> False
      | Some bv \<Rightarrow> TokenRate av = TokenRate bv \<and> TokenPeriod av = TokenPeriod bv) a"

definition group_members :: "ServiceConfig list \<Rightarrow> string \<Rightarrow> ServiceConfig list" where
  "group_members svcs g = filter (\<lambda>s. sc_BudgetGroup s = g) svcs"

definition group_names :: "ServiceConfig list \<Rightarrow> string list" where
  "group_names svcs = remdups (filter (\<lambda>g. g \<noteq> []) (map sc_BudgetGroup svcs))"

definition validate_group :: "ServiceConfig list \<Rightarrow> string \<Rightarrow> config_error option" where
  "validate_group svcs g =
     (let ungrouped = map sc_Model (filter (\<lambda>s. sc_BudgetGroup s = [] \<and> sc_Model s \<noteq> []) svcs);
          members = group_members svcs g
      in if g \<in> set ungrouped then Some (BudgetGroupCollides g)
         else (case members of
           [] \<Rightarrow> None
         | first # rest \<Rightarrow> first_error
             (map (\<lambda>(i, m). first_error
               [check (sc_Type m \<noteq> sc_Type first) (BudgetGroupSpansTypes g),
                check (sc_TokenLimits m = []) (BudgetGroupMemberUnlimited (sc_Model m) g),
                check (i \<noteq> 0 \<and> \<not> tokenLimitsEqual (sc_TokenLimits first) (sc_TokenLimits m))
                  (BudgetGroupLimitsDiffer (sc_Model m) g)]) (indexed members))))"

definition budget_key :: "ServiceConfig \<Rightarrow> string" where
  "budget_key s = (if sc_BudgetGroup s \<noteq> [] then sc_BudgetGroup s else sc_Model s)"

fun validate_model_keys :: "ServiceConfig list \<Rightarrow> (string, string) gomap \<Rightarrow> config_error option" where
  "validate_model_keys [] ks = None"
| "validate_model_keys (s # ss) ks =
     (if sc_Model s = [] then validate_model_keys ss ks
      else case map_of ks (sc_Model s) of
        Some prev \<Rightarrow>
          if prev \<noteq> budget_key s then Some (ModelTwoBudgetKeys (sc_Model s))
          else validate_model_keys ss ((sc_Model s, budget_key s) # ks)
      | None \<Rightarrow> validate_model_keys ss ((sc_Model s, budget_key s) # ks))"

definition validate :: "Config \<Rightarrow> config_error option" where
  "validate c = first_error
     ([validate_auth c, validate_policies c, validate_oauth2 c, validate_required c,
       validate_realtime (Services c) {}, validate_rate_limits c, validate_pools c] @
      map (validate_service c) (Services c) @
      map (validate_group (Services c)) (group_names (Services c)) @
      [validate_model_keys (Services c) []])"

end
