(* ===== verification/Registry.thy ===== *)
theory Registry
  imports Config "HOL-Library.Multiset"
begin

text \<open>
  The service registry (\<^verbatim>\<open>internal/service/registry.go\<close>, \<^verbatim>\<open>backend.go\<close>): how a service's
  configuration is resolved into a runtime \<^verbatim>\<open>Def\<close> (backends, guardrail stages, realtime
  settings), how \<^verbatim>\<open>NewRegistry\<close> indexes it, and how the async, sync and realtime routes find it.
  A pointer to a \<^verbatim>\<open>Def\<close> is the value it points to: definitions are never changed after
  construction. The available-model lists of the error messages are in the order of iteration.
\<close>

section \<open>Detectors as the registry configures them\<close>

text \<open>\<^verbatim>\<open>guardrails.ModelConfig\<close> and the constructor that fills in its defaults (durations in
  nanoseconds).\<close>

record ModelConfig =
  mc_Name :: string
  mc_Endpoint :: string
  mc_Kind :: string
  mc_Categories :: "string list"
  mc_Threshold :: rat
  mc_Timeout :: int
  mc_OnError :: string
  mc_CacheTTL :: int
  mc_MaxInputTokens :: int

abbreviation KindClassifier :: string where "KindClassifier \<equiv> ''classifier''"
abbreviation KindNER :: string where "KindNER \<equiv> ''ner''"
abbreviation ModeSync :: string where "ModeSync \<equiv> ''sync''"
abbreviation ModeAsync :: string where "ModeAsync \<equiv> ''async''"
abbreviation ActionBlock :: string where "ActionBlock \<equiv> ''block''"
abbreviation ActionRedact :: string where "ActionRedact \<equiv> ''redact''"
abbreviation ActionFlag :: string where "ActionFlag \<equiv> ''flag''"

definition NewModelDetector :: "ModelConfig \<Rightarrow> ModelConfig" where
  "NewModelDetector cfg =
     cfg\<lparr>mc_Timeout := (if mc_Timeout cfg \<le> 0 then 120000000 else mc_Timeout cfg),
         mc_OnError := (if mc_OnError cfg = [] then ''fail_open'' else mc_OnError cfg)\<rparr>"

record Enforcement =
  Detector :: ModelConfig
  e_Mode :: string
  e_Action :: string

section \<open>Runtime definitions\<close>

record GuardrailsStage =
  Enabled :: bool
  Checks :: "string list"
  Action :: string
  Models :: "Enforcement list"
  Streaming :: string
  StreamWindowTokens :: int
  ScanTimeout :: int
  OnTimeoutFailClosed :: bool

definition no_stage :: GuardrailsStage where
  "no_stage = \<lparr>Enabled = False, Checks = [], Action = [], Models = [], Streaming = [],
     StreamWindowTokens = 0, ScanTimeout = 0, OnTimeoutFailClosed = False\<rparr>"

definition Enforcing :: "GuardrailsStage \<Rightarrow> bool" where
  "Enforcing s \<longleftrightarrow> Action s = ''block'' \<or> Action s = ''redact''"

record FlaggedSamplePolicy =
  sample_Enabled :: bool
  RedactGroups :: "string list"

record GuardrailsSpec =
  Input :: GuardrailsStage
  Output :: GuardrailsStage
  Async :: GuardrailsStage
  Sample :: FlaggedSamplePolicy

record RealtimeSpec =
  rs_Path :: string
  rs_BackendPath :: string
  rs_SampleRate :: int
  rs_BytesPerSample :: int
  rs_Channels :: int
  rs_MaxSessionSeconds :: int
  rs_MaxAudioSeconds :: int
  rs_MaxConcurrentPerConsumer :: int
  rs_InfoPaths :: "string list"
  rs_AllowedOrigins :: "string list"

record Backend =
  URL :: string
  Weight :: int
  Headers :: "(string, string) gomap"
  be_Model :: string

record Def =
  Type :: string
  Model :: string
  AcceptedExts :: "string list"
  MaxFileSizeMB :: int
  SupportsAsync :: bool
  MaxConcurrentSync :: int
  PriorityReservedSync :: int
  InferenceURL :: string
  Backends :: "Backend list"
  PoolName :: string
  Operations :: "(string, string list) gomap"
  InferenceHeaders :: "(string, string) gomap"
  Provider :: string
  BackendModel :: string
  BudgetGroup :: string
  FallbackModel :: string
  ResponseCacheTTL :: int
  Retries :: int
  Guardrails :: GuardrailsSpec
  HealthCheck :: ServiceHealthConfig
  Deprecated :: bool
  Visibility :: VisibilityConfig
  Realtime :: "RealtimeSpec option"

definition BytesPerSecond :: "RealtimeSpec \<Rightarrow> int" where
  "BytesPerSecond s = wrap64 (wrap64 (rs_SampleRate s * rs_BytesPerSample s) * rs_Channels s)"

definition IsRestricted :: "Def \<Rightarrow> bool" where
  "IsRestricted d \<longleftrightarrow> UserTypes (Visibility d) \<noteq> [] \<or> Groups (Visibility d) \<noteq> []"

definition VisibleTo :: "Def \<Rightarrow> string \<Rightarrow> string list \<Rightarrow> bool" where
  "VisibleTo d userType groups =
     (if \<not> IsRestricted d then True
      else if userType \<noteq> [] \<and> list_ex (\<lambda>ut. ut = userType) (UserTypes (Visibility d)) then True
      else list_ex (\<lambda>g. list_ex (\<lambda>cg. g = cg) groups) (Groups (Visibility d)))"

datatype route_error =
    UnknownServiceType string
  | MultipleModels string "string list"
  | ModelNotFound string string "string list"
  | NoServiceForPath string string "string list"
  | PatternModelUnknown string string string "string list"
  | WildcardModelUnknown string string string "string list"
  | NoSyncService string
  | NoRealtimeService string
  | NoRealtimeInfo string
  | MultipleOperations string "string list"
  | OperationNotFound string string "string list"
  | OperationNoPaths string string
  | ExtensionNotAccepted string string "string list"

definition OperationPath :: "Def \<Rightarrow> string \<Rightarrow> route_error + string" where
  "OperationPath d op =
     (if Operations d = [] then Inr []
      else if op = [] then
        (case Operations d of
           [(_, p # _)] \<Rightarrow> Inr p
         | _ \<Rightarrow> Inl (MultipleOperations (Model d) (map fst (Operations d))))
      else
        (case map_of (Operations d) op of
           None \<Rightarrow> Inl (OperationNotFound op (Model d) (map fst (Operations d)))
         | Some [] \<Rightarrow> Inl (OperationNoPaths op (Model d))
         | Some (p # _) \<Rightarrow> Inr p))"

definition IsLLM :: "Def \<Rightarrow> bool" where
  "IsLLM d \<longleftrightarrow> Provider d \<noteq> []"

definition BudgetKey :: "Def \<Rightarrow> string" where
  "BudgetKey d = (if BudgetGroup d \<noteq> [] then BudgetGroup d else Model d)"

section \<open>Path patterns\<close>

record pathPattern =
  pattern :: string
  segments :: "string list"
  defsByModel :: "(string, Def) gomap"

definition model_placeholder :: string where
  "model_placeholder = ''{model}''"

text \<open>\<^verbatim>\<open>parts[1]\<close> is out of range where the placeholder does not occur; the only caller has
  checked that it does.\<close>

definition matchModelSegment :: "string \<Rightarrow> string \<Rightarrow> string option" where
  "matchModelSegment pat actual =
     (case cut model_placeholder pat of
        None \<Rightarrow> None
      | Some (prefix, suffix) \<Rightarrow>
          if \<not> HasPrefix actual prefix \<or> \<not> HasSuffix actual suffix then None
          else if length actual < length prefix + length suffix then None
          else Some (take (length actual - length suffix - length prefix) (drop (length prefix) actual)))"

fun match_segments :: "string list \<Rightarrow> string list \<Rightarrow> string \<Rightarrow> string option" where
  "match_segments [] [] model = (if model \<noteq> [] then Some model else None)"
| "match_segments (p # ps) (u # us) model =
     (if Contains p model_placeholder then
        (case matchModelSegment p u of
           None \<Rightarrow> None
         | Some m \<Rightarrow> if m = [] then None else match_segments ps us m)
      else if u \<noteq> p then None
      else match_segments ps us model)"
| "match_segments _ _ model = None"

definition match :: "pathPattern \<Rightarrow> string \<Rightarrow> string option" where
  "match p urlPath =
     (let urlSegs = split_byte CHR ''/'' urlPath
      in if length urlSegs \<noteq> length (segments p) then None
         else match_segments (segments p) urlSegs [])"

record wildcardRoute =
  w_pattern :: string
  w_prefix :: string
  byModel :: "(string, Def) gomap"
  deflt :: "Def option"

record Registry =
  byTypeModel :: "(string, (string, Def) gomap) gomap"
  defaultByType :: "(string, Def) gomap"
  bySync :: "(string, (string, Def) gomap) gomap"
  defaultByPath :: "(string, Def) gomap"
  byPattern :: "pathPattern list"
  byWildcard :: "wildcardRoute list"
  realtimeByPath :: "(string, Def) gomap"
  realtimeInfoByPath :: "(string, Def) gomap"

section \<open>Resolving a service's configuration\<close>

definition pos_or :: "int \<Rightarrow> int \<Rightarrow> int" where
  "pos_or dflt n = (if n \<le> 0 then dflt else n)"

definition resolveRealtime :: "RealtimeConfig option \<Rightarrow> RealtimeSpec option" where
  "resolveRealtime cfg =
     (case cfg of
        None \<Rightarrow> None
      | Some c \<Rightarrow>
          if rt_Path c = [] then None
          else Some \<lparr>rs_Path = rt_Path c,
                     rs_BackendPath = (if rt_BackendPath c = [] then rt_Path c else rt_BackendPath c),
                     rs_SampleRate = pos_or 16000 (rt_SampleRate c),
                     rs_BytesPerSample = pos_or 2 (rt_BytesPerSample c),
                     rs_Channels = pos_or 1 (rt_Channels c),
                     rs_MaxSessionSeconds = rt_MaxSessionSeconds c,
                     rs_MaxAudioSeconds = rt_MaxAudioSeconds c,
                     rs_MaxConcurrentPerConsumer = rt_MaxConcurrentPerConsumer c,
                     rs_InfoPaths = rt_InfoPaths c,
                     rs_AllowedOrigins = rt_AllowedOrigins c\<rparr>)"

definition hasBackendFor :: "ServiceConfig \<Rightarrow> bool" where
  "hasBackendFor cfg \<longleftrightarrow> sc_InferenceURL cfg \<noteq> [] \<or> length (sc_Backends cfg) > 0 \<or> sc_BackendPool cfg \<noteq> []"

definition resolveStage :: "string list \<Rightarrow> string \<Rightarrow> GuardrailsStage" where
  "resolveStage checks action =
     (if checks \<noteq> []
      then no_stage\<lparr>Enabled := True, Checks := checks, Action := (if action = [] then ''block'' else action)\<rparr>
      else no_stage)"

definition parseDurationOr :: "parse_duration \<Rightarrow> string \<Rightarrow> int \<Rightarrow> int" where
  "parseDurationOr pd s dflt = (case pd s of Some d \<Rightarrow> if d > 0 then d else dflt | None \<Rightarrow> dflt)"

definition resolveModel :: "parse_duration \<Rightarrow> GuardrailModelConfig \<Rightarrow> Enforcement" where
  "resolveModel pd m =
     (let timeout = (if gm_Timeout m \<noteq> [] then (case pd (gm_Timeout m) of Some d \<Rightarrow> d | None \<Rightarrow> 120000000)
                     else 120000000);
          cacheTTL = (if gm_CacheTTL m \<noteq> [] then (case pd (gm_CacheTTL m) of Some d \<Rightarrow> d | None \<Rightarrow> 0) else 0);
          name = (if gm_Name m = [] then ''model'' else gm_Name m);
          kind = (if gm_Kind m \<noteq> KindNER then KindClassifier else gm_Kind m);
          det = NewModelDetector \<lparr>mc_Name = name, mc_Endpoint = gm_Endpoint m, mc_Kind = kind,
                  mc_Categories = gm_Categories m, mc_Threshold = gm_Threshold m, mc_Timeout = timeout,
                  mc_OnError = gm_OnError m, mc_CacheTTL = cacheTTL, mc_MaxInputTokens = gm_MaxInputTokens m\<rparr>;
          mode = (if gm_Mode m \<noteq> ModeSync then ModeAsync else gm_Mode m);
          action0 = (if gm_Action m = [] then (if kind = KindNER then ActionRedact else ActionBlock)
                     else gm_Action m);
          action = (if mode = ModeAsync then ActionFlag
                    else if action0 = ActionRedact \<and> kind \<noteq> KindNER then ActionFlag
                    else action0)
      in \<lparr>Detector = det, e_Mode = mode, e_Action = action\<rparr>)"

definition resolveModels :: "parse_duration \<Rightarrow> GuardrailModelConfig list \<Rightarrow> Enforcement list" where
  "resolveModels pd cfgs = map (resolveModel pd) (filter (\<lambda>m. gm_Endpoint m \<noteq> []) cfgs)"

definition resolveGuardrails :: "parse_duration \<Rightarrow> GuardrailsConfig \<Rightarrow> GuardrailsSpec" where
  "resolveGuardrails pd cfg =
     (let input0 = (resolveStage (g_Checks cfg) (g_Action cfg))\<lparr>Models := resolveModels pd (g_Models cfg)\<rparr>;
          input = (if Models input0 \<noteq> [] then input0\<lparr>Enabled := True\<rparr> else input0);
          output = (case g_Output cfg of
             None \<Rightarrow> no_stage
           | Some o1 \<Rightarrow> (resolveStage (gs_Checks o1) (gs_Action o1))
               \<lparr>Streaming := (if gs_Streaming o1 = [] then ''flag'' else gs_Streaming o1),
                StreamWindowTokens := (if gs_StreamWindowTokens o1 \<le> 0 then 64 else gs_StreamWindowTokens o1)\<rparr>);
          async = (case g_Async cfg of
             None \<Rightarrow> no_stage
           | Some a \<Rightarrow>
               (let a0 = (resolveStage (ga_Checks a) (ga_Action a))\<lparr>Models := resolveModels pd (ga_Models a)\<rparr>;
                    a1 = (if Models a0 \<noteq> [] then a0\<lparr>Enabled := True\<rparr> else a0);
                    a2 = (if Enabled a1 \<and> ga_Action a = [] then a1\<lparr>Action := ''flag''\<rparr> else a1)
                in a2\<lparr>ScanTimeout := parseDurationOr pd (ga_ScanTimeout a) (30 * second),
                      OnTimeoutFailClosed := (ga_OnTimeout a = ''fail_closed'')\<rparr>));
          sample = (case g_FlaggedSamples cfg of
             None \<Rightarrow> \<lparr>sample_Enabled = False, RedactGroups = []\<rparr>
           | Some f \<Rightarrow>
               if fs_Enabled f
               then \<lparr>sample_Enabled = True,
                     RedactGroups = (if fs_Redact f = [] then [''pii'', ''secrets''] else fs_Redact f)\<rparr>
               else \<lparr>sample_Enabled = False, RedactGroups = []\<rparr>)
      in \<lparr>Input = input, Output = output, Async = async, Sample = sample\<rparr>)"

definition normalizeBackends :: "BackendConfig list \<Rightarrow> string \<Rightarrow> Backend list" where
  "normalizeBackends cfgBackends legacyURL =
     (if cfgBackends \<noteq> [] then
        map (\<lambda>b. \<lparr>URL = b_URL b, Weight = b_Weight b, Headers = b_Headers b, be_Model = b_Model b\<rparr>) cfgBackends
      else if legacyURL \<noteq> [] then [\<lparr>URL = legacyURL, Weight = 1, Headers = [], be_Model = []\<rparr>]
      else [])"

definition mergeHeaders :: "(string, string) gomap \<Rightarrow> (string, string) gomap \<Rightarrow> (string, string) gomap" where
  "mergeHeaders poolHeaders memberHeaders =
     (if poolHeaders = [] \<and> memberHeaders = [] then []
      else fold (\<lambda>(k, v). AList.update k v) memberHeaders (fold (\<lambda>(k, v). AList.update k v) poolHeaders []))"

definition resolveBackends ::
  "ServiceConfig \<Rightarrow> (string, BackendPoolConfig) gomap \<Rightarrow> Backend list \<times> string" where
  "resolveBackends cfg pools =
     (if sc_Backends cfg \<noteq> [] then (normalizeBackends (sc_Backends cfg) (sc_InferenceURL cfg), [])
      else if sc_BackendPool cfg \<noteq> [] then
        (case map_of pools (sc_BackendPool cfg) of
           None \<Rightarrow> ([], [])
         | Some pool \<Rightarrow>
             (map (\<lambda>m. \<lparr>URL = b_URL m, Weight = b_Weight m,
                        Headers = mergeHeaders (pool_Headers pool) (b_Headers m), be_Model = b_Model m\<rparr>)
                (Members pool), sc_BackendPool cfg))
      else (normalizeBackends [] (sc_InferenceURL cfg), []))"

definition primary_url :: "string \<Rightarrow> Backend list \<Rightarrow> string" where
  "primary_url inferenceURL backends =
     (let u = (case filter (\<lambda>b. Weight b > 0) backends of b # _ \<Rightarrow> URL b | [] \<Rightarrow> inferenceURL)
      in if u = [] \<and> backends \<noteq> [] then URL (hd backends) else u)"

text \<open>Lower case of ASCII letters; it is used on the extensions of files. Letters beyond ASCII stay as they are.\<close>

definition to_lower :: "string \<Rightarrow> string" where
  "to_lower s = map (\<lambda>c. let n = of_char c in if 65 \<le> n \<and> n \<le> (90::nat) then char_of (n + 32) else c) s"

text \<open>The \<^verbatim>\<open>Def\<close> that \<^verbatim>\<open>NewRegistry\<close> builds for one service.\<close>

definition mk_def :: "parse_duration \<Rightarrow> (string, BackendPoolConfig) gomap \<Rightarrow> ServiceConfig \<Rightarrow> Def" where
  "mk_def pd pools cfg =
     (let (backends, poolName) = resolveBackends cfg pools
      in \<lparr>Type = sc_Type cfg, Model = sc_Model cfg,
          AcceptedExts = remdups (map to_lower (sc_AcceptedExts cfg)),
          MaxFileSizeMB = sc_MaxFileSizeMB cfg,
          SupportsAsync = (length (sc_AcceptedExts cfg) > 0),
          MaxConcurrentSync = sc_MaxConcurrentSync cfg,
          PriorityReservedSync = sc_PriorityReservedSync cfg,
          InferenceURL = primary_url (sc_InferenceURL cfg) backends,
          Backends = backends, PoolName = poolName,
          Operations = sc_Operations cfg, InferenceHeaders = sc_InferenceHeaders cfg,
          Provider = sc_Provider cfg, BackendModel = sc_BackendModel cfg,
          BudgetGroup = sc_BudgetGroup cfg, FallbackModel = sc_FallbackModel cfg,
          ResponseCacheTTL = wrap64 (sc_ResponseCacheTTL cfg * second), Retries = sc_Retries cfg,
          Guardrails = resolveGuardrails pd (sc_Guardrails cfg), HealthCheck = sc_Health cfg,
          Deprecated = sc_Deprecated cfg, Visibility = sc_Visibility cfg,
          Realtime = resolveRealtime (sc_Realtime cfg)\<rparr>)"

end
