(* ===== verification/Routing.thy ===== *)
theory Routing
  imports Registry
begin

text \<open>
  The index that \<^verbatim>\<open>NewRegistry\<close> builds over the resolved services and the lookups on it
  (\<^verbatim>\<open>internal/service/registry.go\<close>), and the order in which a request tries a service's backends
  (\<^verbatim>\<open>internal/service/backend.go\<close>). Lemmas: every route leads to a configured service that
  declares it, exact paths win over patterns and patterns over wildcards, a route by path alone agrees with
  the route by path and model, and the backend order is a permutation with the weighted choice first.
\<close>

section \<open>Building the index\<close>

fun indexPattern :: "string \<Rightarrow> string \<Rightarrow> Def \<Rightarrow> pathPattern list \<Rightarrow> pathPattern list" where
  "indexPattern pat model def [] =
     [\<lparr>pattern = pat, segments = split_byte CHR ''/'' pat, defsByModel = [(model, def)]\<rparr>]"
| "indexPattern pat model def (p # ps) =
     (if pattern p = pat then p\<lparr>defsByModel := AList.update model def (defsByModel p)\<rparr> # ps
      else p # indexPattern pat model def ps)"

fun indexWildcard :: "string \<Rightarrow> string \<Rightarrow> Def \<Rightarrow> bool \<Rightarrow> wildcardRoute list \<Rightarrow> wildcardRoute list" where
  "indexWildcard pat model def isDefault [] =
     [\<lparr>w_pattern = pat, w_prefix = TrimSuffix pat ''*'', byModel = [(model, def)],
       deflt = (if isDefault then Some def else None)\<rparr>]"
| "indexWildcard pat model def isDefault (w # ws) =
     (if w_pattern w = pat
      then w\<lparr>byModel := AList.update model def (byModel w),
             deflt := (if isDefault then Some def else deflt w)\<rparr> # ws
      else w # indexWildcard pat model def isDefault ws)"

definition empty_registry :: Registry where
  "empty_registry = \<lparr>byTypeModel = [], defaultByType = [], bySync = [], defaultByPath = [],
     byPattern = [], byWildcard = [], realtimeByPath = [], realtimeInfoByPath = []\<rparr>"

definition submap :: "('a, ('b, 'c) gomap) gomap \<Rightarrow> 'a \<Rightarrow> ('b, 'c) gomap" where
  "submap m k = (case map_of m k of None \<Rightarrow> [] | Some n \<Rightarrow> n)"

definition index_path :: "ServiceConfig \<Rightarrow> Def \<Rightarrow> string \<Rightarrow> Registry \<Rightarrow> Registry" where
  "index_path cfg def path r =
     (if path = [] then r
      else if Contains path model_placeholder then
        r\<lparr>byPattern := indexPattern path (sc_Model cfg) def (byPattern r)\<rparr>
      else if HasSuffix path ''/*'' then
        r\<lparr>byWildcard := indexWildcard path (sc_Model cfg) def (sc_Default cfg) (byWildcard r)\<rparr>
      else
        r\<lparr>bySync := AList.update path (AList.update (sc_Model cfg) def (submap (bySync r) path)) (bySync r),
          defaultByPath := (if sc_Default cfg then AList.update path def (defaultByPath r)
                            else defaultByPath r)\<rparr>)"

definition index_realtime :: "ServiceConfig \<Rightarrow> Def \<Rightarrow> Registry \<Rightarrow> Registry" where
  "index_realtime cfg def r =
     (case Realtime def of
        None \<Rightarrow> r
      | Some rt \<Rightarrow>
          if hasBackendFor cfg then
            r\<lparr>realtimeByPath := AList.update (rs_Path rt) def (realtimeByPath r),
              realtimeInfoByPath :=
                fold (\<lambda>p. AList.update p def) (filter (\<lambda>p. p \<noteq> []) (rs_InfoPaths rt)) (realtimeInfoByPath r)\<rparr>
          else r)"

definition declared_paths :: "ServiceConfig \<Rightarrow> string list" where
  "declared_paths cfg = concat (map snd (sc_Operations cfg))"

definition add_service ::
  "parse_duration \<Rightarrow> (string, BackendPoolConfig) gomap \<Rightarrow> ServiceConfig \<Rightarrow> Registry \<Rightarrow> Registry" where
  "add_service pd pools cfg r =
     (let def = mk_def pd pools cfg;
          r1 = r\<lparr>byTypeModel := AList.update (sc_Type cfg)
                   (AList.update (sc_Model cfg) def (submap (byTypeModel r) (sc_Type cfg))) (byTypeModel r),
                 defaultByType := (if sc_Default cfg then AList.update (sc_Type cfg) def (defaultByType r)
                                   else defaultByType r)\<rparr>;
          r2 = index_realtime cfg def r1;
          hasBackend = (sc_InferenceURL cfg \<noteq> [] \<or> length (sc_Backends cfg) > 0 \<or> sc_BackendPool cfg \<noteq> [])
      in if sc_Model cfg \<noteq> [] \<and> hasBackend then fold (index_path cfg def) (declared_paths cfg) r2 else r2)"

definition NewRegistry ::
  "parse_duration \<Rightarrow> (string, BackendPoolConfig) gomap \<Rightarrow> ServiceConfig list \<Rightarrow> Registry" where
  "NewRegistry pd pools cfgs = fold (add_service pd pools) cfgs empty_registry"

section \<open>Lookups\<close>

definition RouteAsync :: "Registry \<Rightarrow> string \<Rightarrow> string \<Rightarrow> route_error + Def" where
  "RouteAsync r serviceType model =
     (case map_of (byTypeModel r) serviceType of
        None \<Rightarrow> Inl (UnknownServiceType serviceType)
      | Some models \<Rightarrow>
          if model = [] then
            (case models of
               [(_, d)] \<Rightarrow> Inr d
             | _ \<Rightarrow> (case map_of (defaultByType r) serviceType of
                      Some d \<Rightarrow> Inr d
                    | None \<Rightarrow> Inl (MultipleModels serviceType (map fst models))))
          else
            (case map_of models model of
               Some d \<Rightarrow> Inr d
             | None \<Rightarrow> Inl (ModelNotFound model serviceType (map fst models))))"

definition route_exact :: "Registry \<Rightarrow> string \<Rightarrow> string \<Rightarrow> (string, Def) gomap \<Rightarrow> route_error + Def" where
  "route_exact r path model models =
     (case map_of models model of
        Some d \<Rightarrow> Inr d
      | None \<Rightarrow>
          (let err = Inl (NoServiceForPath path model (map fst models)) in
           if model = [] then
             (case models of
                [(_, d)] \<Rightarrow> Inr d
              | _ \<Rightarrow> (case map_of (defaultByPath r) path of Some d \<Rightarrow> Inr d | None \<Rightarrow> err))
           else err))"

fun route_pattern :: "pathPattern list \<Rightarrow> string \<Rightarrow> (route_error + Def) option" where
  "route_pattern [] path = None"
| "route_pattern (p # ps) path =
     (case match p path of
        None \<Rightarrow> route_pattern ps path
      | Some extracted \<Rightarrow> Some
          (case map_of (defsByModel p) extracted of
             Some d \<Rightarrow> Inr d
           | None \<Rightarrow> Inl (PatternModelUnknown path (pattern p) extracted (map fst (defsByModel p)))))"

fun route_wildcard :: "wildcardRoute list \<Rightarrow> string \<Rightarrow> string \<Rightarrow> (route_error + Def) option" where
  "route_wildcard [] path model = None"
| "route_wildcard (w # ws) path model =
     (if \<not> HasPrefix path (w_prefix w) then route_wildcard ws path model
      else Some
        (case map_of (byModel w) model of
           Some d \<Rightarrow> Inr d
         | None \<Rightarrow>
             (let err = Inl (WildcardModelUnknown path (w_pattern w) model (map fst (byModel w))) in
              if model = [] then
                (case byModel w of
                   [(_, d)] \<Rightarrow> Inr d
                 | _ \<Rightarrow> (case deflt w of Some d \<Rightarrow> Inr d | None \<Rightarrow> err))
              else err)))"

definition RouteSync :: "Registry \<Rightarrow> string \<Rightarrow> string \<Rightarrow> route_error + Def" where
  "RouteSync r path model =
     (case map_of (bySync r) path of
        Some models \<Rightarrow> route_exact r path model models
      | None \<Rightarrow>
          (case route_pattern (byPattern r) path of
             Some res \<Rightarrow> res
           | None \<Rightarrow>
               (case route_wildcard (byWildcard r) path model of
                  Some res \<Rightarrow> res
                | None \<Rightarrow> Inl (NoSyncService path))))"

definition only_def :: "(string, Def) gomap \<Rightarrow> Def option" where
  "only_def models = (case models of [(_, d)] \<Rightarrow> Some d | _ \<Rightarrow> None)"

fun resolve_pattern :: "pathPattern list \<Rightarrow> string \<Rightarrow> Def option option" where
  "resolve_pattern [] path = None"
| "resolve_pattern (p # ps) path =
     (case match p path of
        None \<Rightarrow> resolve_pattern ps path
      | Some extracted \<Rightarrow> Some (map_of (defsByModel p) extracted))"

fun resolve_wildcard :: "wildcardRoute list \<Rightarrow> string \<Rightarrow> Def option" where
  "resolve_wildcard [] path = None"
| "resolve_wildcard (w # ws) path =
     (if HasPrefix path (w_prefix w) then only_def (byModel w) else resolve_wildcard ws path)"

definition ResolveSyncByPath :: "Registry \<Rightarrow> string \<Rightarrow> Def option" where
  "ResolveSyncByPath r path =
     (case map_of (bySync r) path of
        Some models \<Rightarrow> only_def models
      | None \<Rightarrow>
          (case resolve_pattern (byPattern r) path of
             Some res \<Rightarrow> res
           | None \<Rightarrow> resolve_wildcard (byWildcard r) path))"

definition RouteRealtime :: "Registry \<Rightarrow> string \<Rightarrow> route_error + Def" where
  "RouteRealtime r path =
     (case map_of (realtimeByPath r) path of Some d \<Rightarrow> Inr d | None \<Rightarrow> Inl (NoRealtimeService path))"

definition RouteRealtimeInfo :: "Registry \<Rightarrow> string \<Rightarrow> route_error + Def" where
  "RouteRealtimeInfo r path =
     (case map_of (realtimeInfoByPath r) path of Some d \<Rightarrow> Inr d | None \<Rightarrow> Inl (NoRealtimeInfo path))"

definition HasSyncServices :: "Registry \<Rightarrow> bool" where
  "HasSyncServices r \<longleftrightarrow> bySync r \<noteq> [] \<or> byPattern r \<noteq> [] \<or> byWildcard r \<noteq> []"

definition HasRealtimeServices :: "Registry \<Rightarrow> bool" where
  "HasRealtimeServices r \<longleftrightarrow> realtimeByPath r \<noteq> []"

definition RealtimePaths :: "Registry \<Rightarrow> string list" where
  "RealtimePaths r = map fst (realtimeByPath r)"

definition RealtimeInfoPaths :: "Registry \<Rightarrow> string list" where
  "RealtimeInfoPaths r = map fst (realtimeInfoByPath r)"

definition Types :: "Registry \<Rightarrow> string list" where
  "Types r = map fst (byTypeModel r)"

definition SyncPaths :: "Registry \<Rightarrow> string list" where
  "SyncPaths r = map fst (bySync r) @ map pattern (byPattern r) @ map w_pattern (byWildcard r)"

definition pathPrefix :: "string \<Rightarrow> string" where
  "pathPrefix path =
     (let p = TrimPrefix path ''/'' in
      ''/'' @ (case cut ''/'' p of None \<Rightarrow> p | Some (a, b) \<Rightarrow> a))"

definition SyncPathPrefixes :: "Registry \<Rightarrow> string list" where
  "SyncPathPrefixes r = first_occurrences {} (map pathPrefix (SyncPaths r))"

definition MaxFileSizeForType :: "Registry \<Rightarrow> string \<Rightarrow> route_error + int" where
  "MaxFileSizeForType r serviceType =
     (case map_of (byTypeModel r) serviceType of
        None \<Rightarrow> Inl (UnknownServiceType serviceType)
      | Some models \<Rightarrow> Inr (fold (\<lambda>(_, d) m. if MaxFileSizeMB d > m then MaxFileSizeMB d else m) models 0))"

text \<open>\<^verbatim>\<open>filepath.Ext\<close>: from the last dot of the last path element on.\<close>

fun ext_rev :: "string \<Rightarrow> string \<Rightarrow> string" where
  "ext_rev [] acc = []"
| "ext_rev (c # cs) acc =
     (if c = CHR ''/'' then [] else if c = CHR ''.'' then c # acc else ext_rev cs (c # acc))"

definition Ext :: "string \<Rightarrow> string" where
  "Ext path = ext_rev (rev path) []"

definition ValidateFileDef :: "Def \<Rightarrow> string \<Rightarrow> route_error option" where
  "ValidateFileDef def filename =
     (let ext = to_lower (Ext filename) in
      if AcceptedExts def = [] then None
      else if ext \<notin> set (AcceptedExts def) then Some (ExtensionNotAccepted ext (Model def) (AcceptedExts def))
      else None)"

definition ModelsForType :: "Registry \<Rightarrow> string \<Rightarrow> string list" where
  "ModelsForType r serviceType = filter (\<lambda>m. m \<noteq> []) (map fst (submap (byTypeModel r) serviceType))"

definition ModelBudgetKeys :: "Registry \<Rightarrow> (string, string) gomap" where
  "ModelBudgetKeys r =
     fold (\<lambda>(m, def) out. if m \<noteq> [] then AList.update m (BudgetKey def) out else out)
       (concat (map snd (byTypeModel r))) []"

definition All :: "Registry \<Rightarrow> Def list" where
  "All r = concat (map (\<lambda>(_, models). map snd models) (byTypeModel r))"

definition AllModels :: "Registry \<Rightarrow> Def list" where
  "AllModels r = filter (\<lambda>d. Model d \<noteq> []) (All r)"

section \<open>Trying a service's backends\<close>

text \<open>
  \<^verbatim>\<open>rand.IntN\<close> is the argument \<open>rnd\<close>: the value it returns, in \<open>[0, total)\<close>. Where the sum of the
  weights is not positive (it has wrapped around) \<^verbatim>\<open>IntN\<close> panics: \<open>None\<close>.
\<close>

fun pick :: "int \<Rightarrow> int \<Rightarrow> Backend list \<Rightarrow> nat option" where
  "pick r cumulative [] = None"
| "pick r cumulative (b # bs) =
     (let c = wrap64 (cumulative + Weight b)
      in if r < c then Some 0 else map_option Suc (pick r c bs))"

definition total_weight :: "Backend list \<Rightarrow> int" where
  "total_weight bs = fold (\<lambda>b t. wrap64 (t + Weight b)) bs 0"

definition OrderedBackends :: "(int \<Rightarrow> int) \<Rightarrow> Backend list \<Rightarrow> Backend list option" where
  "OrderedBackends rnd backends =
     (let positives = filter (\<lambda>b. Weight b > 0) backends;
          zeroes = filter (\<lambda>b. \<not> Weight b > 0) backends;
          total = total_weight positives
      in if backends = [] then Some []
         else if positives = [] then Some backends
         else if total \<le> 0 then None
         else
           (let primaryIdx = (case pick (rnd total) 0 positives of Some i \<Rightarrow> i | None \<Rightarrow> 0);
                primary = positives ! primaryIdx;
                rest = sort_key (\<lambda>b. - Weight b) (take primaryIdx positives @ drop (Suc primaryIdx) positives)
            in Some (primary # rest @ zeroes)))"

section \<open>What the index holds\<close>

lemma in_updateD: "(a, b) \<in> set (AList.update k v al) \<Longrightarrow> a = k \<and> b = v \<or> (a, b) \<in> set al"
  by (induction al) (auto split: if_splits)

lemma keys_update_order: "map fst (AList.update k v al) = (if k \<in> fst ` set al then map fst al else map fst al @ [k])"
  by (induction al) auto

lemma map_of_submap: "map_of (submap m k) k' = (case map_of m k of None \<Rightarrow> None | Some n \<Rightarrow> map_of n k')"
  by (simp add: submap_def split: option.splits)

text \<open>\<open>declares\<close>: some configured service with a model and a backend declares the path \<open>p\<close>, and \<open>d\<close> is its
  resolved definition.\<close>

definition declares ::
  "parse_duration \<Rightarrow> (string, BackendPoolConfig) gomap \<Rightarrow> ServiceConfig list \<Rightarrow> string \<Rightarrow> string \<Rightarrow> Def \<Rightarrow> bool" where
  "declares pd pools cfgs p m d \<longleftrightarrow>
     (\<exists>cfg \<in> set cfgs. d = mk_def pd pools cfg \<and> m = sc_Model cfg \<and> m \<noteq> [] \<and> hasBackendFor cfg
        \<and> p \<in> set (declared_paths cfg))"

definition exact_ok :: "(string \<Rightarrow> string \<Rightarrow> Def \<Rightarrow> bool) \<Rightarrow> (string, (string, Def) gomap) gomap \<Rightarrow> bool" where
  "exact_ok D sync \<longleftrightarrow> (\<forall>(path, models) \<in> set sync.
     \<not> Contains path model_placeholder \<and> (\<forall>(m, d) \<in> set models. D path m d))"

definition default_ok :: "(string \<Rightarrow> string \<Rightarrow> Def \<Rightarrow> bool) \<Rightarrow> (string, Def) gomap \<Rightarrow> bool" where
  "default_ok D dflts \<longleftrightarrow> (\<forall>(path, d) \<in> set dflts. \<exists>m. D path m d)"

definition pattern_ok :: "(string \<Rightarrow> string \<Rightarrow> Def \<Rightarrow> bool) \<Rightarrow> pathPattern \<Rightarrow> bool" where
  "pattern_ok D p \<longleftrightarrow> Contains (pattern p) model_placeholder
     \<and> segments p = split_byte CHR ''/'' (pattern p) \<and> (\<forall>(m, d) \<in> set (defsByModel p). D (pattern p) m d)"

definition wildcard_ok :: "(string \<Rightarrow> string \<Rightarrow> Def \<Rightarrow> bool) \<Rightarrow> wildcardRoute \<Rightarrow> bool" where
  "wildcard_ok D w \<longleftrightarrow> \<not> Contains (w_pattern w) model_placeholder
     \<and> w_prefix w = TrimSuffix (w_pattern w) ''*'' \<and> HasSuffix (w_pattern w) ''/*''
     \<and> (\<forall>(m, d) \<in> set (byModel w). D (w_pattern w) m d)
     \<and> (\<forall>d. deflt w = Some d \<longrightarrow> (\<exists>m. D (w_pattern w) m d))"

definition index_ok :: "(string \<Rightarrow> string \<Rightarrow> Def \<Rightarrow> bool) \<Rightarrow> Registry \<Rightarrow> bool" where
  "index_ok D r \<longleftrightarrow> exact_ok D (bySync r) \<and> default_ok D (defaultByPath r)
     \<and> list_all (pattern_ok D) (byPattern r) \<and> list_all (wildcard_ok D) (byWildcard r)"

lemma pattern_ok_index:
  "list_all (pattern_ok D) ps \<Longrightarrow> Contains path model_placeholder \<Longrightarrow> D path m d \<Longrightarrow>
   list_all (pattern_ok D) (indexPattern path m d ps)"
  by (induction ps) (auto simp: pattern_ok_def dest!: in_updateD)

lemma wildcard_ok_index:
  "list_all (wildcard_ok D) ws \<Longrightarrow> HasSuffix path ''/*'' \<Longrightarrow> \<not> Contains path model_placeholder \<Longrightarrow>
   D path m d \<Longrightarrow> list_all (wildcard_ok D) (indexWildcard path m d isd ws)"
  by (induction ws) (auto simp: wildcard_ok_def dest!: in_updateD)

lemma exact_ok_models: "exact_ok D sync \<Longrightarrow> (m, d) \<in> set (submap sync path) \<Longrightarrow> D path m d"
  by (cases "map_of sync path") (auto simp: exact_ok_def submap_def dest!: map_of_SomeD)

lemma exact_ok_index:
  assumes "exact_ok D sync" and "D path m d" and "\<not> Contains path model_placeholder"
  shows "exact_ok D (AList.update path (AList.update m d (submap sync path)) sync)"
  using assms exact_ok_models [OF assms(1)]
  by (auto simp: exact_ok_def dest!: in_updateD)

lemma default_ok_index: "default_ok D dflts \<Longrightarrow> D path m d \<Longrightarrow> default_ok D (AList.update path d dflts)"
  by (auto simp: default_ok_def dest!: in_updateD)

lemma index_ok_path:
  assumes "index_ok D r" and "path \<noteq> [] \<Longrightarrow> D path (sc_Model cfg) def"
  shows "index_ok D (index_path cfg def path r)"
  using assms
  by (auto simp: index_path_def index_ok_def pattern_ok_index wildcard_ok_index exact_ok_index
      intro: default_ok_index)

lemma index_ok_paths:
  "index_ok D r \<Longrightarrow> (\<And>p. p \<in> set ps \<Longrightarrow> D p (sc_Model cfg) def) \<Longrightarrow> index_ok D (fold (index_path cfg def) ps r)"
  by (induction ps arbitrary: r) (simp_all add: index_ok_path)

lemma index_ok_realtime [simp]: "index_ok D (index_realtime cfg def r) = index_ok D r"
  by (simp add: index_realtime_def index_ok_def split: option.splits)

lemma index_ok_type [simp]: "index_ok D (r\<lparr>byTypeModel := a, defaultByType := b\<rparr>) = index_ok D r"
  by (simp add: index_ok_def)

lemma index_ok_add_service:
  assumes "index_ok (declares pd pools cfgs) r" and "cfg \<in> set cfgs"
  shows "index_ok (declares pd pools cfgs) (add_service pd pools cfg r)"
proof -
  have "declares pd pools cfgs p (sc_Model cfg) (mk_def pd pools cfg)"
    if "p \<in> set (declared_paths cfg)" "hasBackendFor cfg" "sc_Model cfg \<noteq> []" for p
    using assms(2) that by (auto simp: declares_def)
  then show ?thesis
    using assms(1) unfolding add_service_def Let_def hasBackendFor_def [symmetric]
    by (simp add: index_ok_paths del: if_split)
qed

lemma index_ok_fold:
  "index_ok (declares pd pools cfgs) r \<Longrightarrow> set cs \<subseteq> set cfgs \<Longrightarrow>
   index_ok (declares pd pools cfgs) (fold (add_service pd pools) cs r)"
  by (induction cs arbitrary: r) (auto intro: index_ok_add_service)

lemma index_ok_NewRegistry: "index_ok (declares pd pools cfgs) (NewRegistry pd pools cfgs)"
  unfolding NewRegistry_def
  by (rule index_ok_fold) (simp_all add: index_ok_def exact_ok_def default_ok_def empty_registry_def)

section \<open>Sync routing is sound\<close>

text \<open>How a request (its path and the model it names, empty when it names none) fits a declared path.\<close>

definition fits :: "string \<Rightarrow> string \<Rightarrow> string \<Rightarrow> string \<Rightarrow> bool" where
  "fits p m path model \<longleftrightarrow>
     (if Contains p model_placeholder
      then match \<lparr>pattern = p, segments = split_byte CHR ''/'' p, defsByModel = []\<rparr> path = Some m
      else (model = m \<or> model = []) \<and>
           (path = p \<or> HasSuffix p ''/*'' \<and> HasPrefix path (TrimSuffix p ''*'')))"


lemma map_of_mem: "map_of xs k = Some d \<Longrightarrow> (k, d) \<in> set xs"
  by (rule map_of_SomeD)

lemma route_exact_sound:
  assumes "index_ok D r" and "(path, models) \<in> set (bySync r)" and "route_exact r path model models = Inr d"
  shows "\<exists>m. D path m d \<and> (model = m \<or> model = [])"
proof -
  have models: "D path m' d'" if "(m', d') \<in> set models" for m' d'
    using that assms(1,2) by (auto simp: index_ok_def exact_ok_def)
  have default: "\<exists>m. D path m d'" if "map_of (defaultByPath r) path = Some d'" for d'
    using map_of_SomeD [OF that] assms(1) by (auto simp: index_ok_def default_ok_def)
  show ?thesis
    using assms(3) models default
    by (auto simp: route_exact_def Let_def dest!: map_of_mem split: option.splits if_splits list.splits)
qed

lemma route_pattern_sound:
  assumes "list_all (pattern_ok D) ps" and "route_pattern ps path = Some (Inr d)"
  shows "\<exists>p m. D p m d \<and> fits p m path model"
  using assms
proof (induction ps)
  case (Cons p ps)
  show ?case
  proof (cases "match p path")
    case None
    with Cons show ?thesis by simp
  next
    case (Some m)
    with Cons.prems have "(m, d) \<in> set (defsByModel p)"
      by (auto dest: map_of_SomeD split: option.splits)
    with Cons.prems(1) Some have "D (pattern p) m d \<and> fits (pattern p) m path model"
      by (auto simp: pattern_ok_def fits_def match_def cong: if_cong)
    then show ?thesis by blast
  qed
qed simp

lemma route_wildcard_sound:
  assumes "list_all (wildcard_ok D) ws" and "route_wildcard ws path model = Some (Inr d)"
  shows "\<exists>p m. D p m d \<and> fits p m path model"
  using assms
proof (induction ws)
  case (Cons w ws)
  show ?case
  proof (cases "HasPrefix path (w_prefix w)")
    case False
    with Cons show ?thesis by simp
  next
    case True
    have "\<exists>m. D (w_pattern w) m d \<and> (model = m \<or> model = [])"
      using Cons.prems True
      by (auto simp: wildcard_ok_def Let_def dest!: map_of_mem split: option.splits if_splits list.splits)
    with True Cons.prems(1) show ?thesis by (auto simp: wildcard_ok_def fits_def)
  qed
qed simp


text \<open>
  C3: \<^verbatim>\<open>RouteSync\<close> only ever answers with a service that the configuration declares for the
  request: a service with a model and a backend, one of whose declared paths fits the request's path and
  model (a pattern by the model it extracts, an exact path or a wildcard by the model the request names,
  or by none).
\<close>

theorem RouteSync_sound:
  assumes "RouteSync (NewRegistry pd pools cfgs) path model = Inr d"
  shows "\<exists>cfg \<in> set cfgs. d = mk_def pd pools cfg \<and> sc_Model cfg \<noteq> [] \<and> hasBackendFor cfg
           \<and> (\<exists>p \<in> set (declared_paths cfg). fits p (sc_Model cfg) path model)"
proof -
  let ?r = "NewRegistry pd pools cfgs"
  have ok: "index_ok (declares pd pools cfgs) ?r" by (rule index_ok_NewRegistry)
  have "\<exists>p m. declares pd pools cfgs p m d \<and> fits p m path model"
  proof (cases "map_of (bySync ?r) path")
    case (Some models)
    with assms ok show ?thesis
      using route_exact_sound [OF ok map_of_SomeD [OF Some]] map_of_SomeD [OF Some]
      by (fastforce simp: RouteSync_def fits_def index_ok_def exact_ok_def)
  next
    case None
    with assms ok show ?thesis
      by (auto simp: RouteSync_def index_ok_def split: option.splits
          intro: route_pattern_sound route_wildcard_sound)
  qed
  then show ?thesis by (auto simp: declares_def)
qed


section \<open>The access check by path and the route agree\<close>

lemma resolve_pattern_route:
  "resolve_pattern ps path = Some (Some d) \<Longrightarrow> route_pattern ps path = Some (Inr d)"
  by (induction ps) (auto split: option.splits)

lemma resolve_pattern_None: "resolve_pattern ps path = None \<longleftrightarrow> route_pattern ps path = None"
  by (induction ps) (auto split: option.splits)

lemma resolve_wildcard_route:
  "resolve_wildcard ws path = Some d \<Longrightarrow> \<exists>res. route_wildcard ws path model = Some res \<and> (model = [] \<longrightarrow> res = Inr d)
     \<and> (\<forall>d'. res = Inr d' \<longrightarrow> d' = d)"
  by (induction ws) (auto simp: only_def_def Let_def split: list.splits if_splits option.splits)

lemma route_exact_only:
  assumes "only_def models = Some d"
  shows "route_exact r path [] models = Inr d"
    and "route_exact r path model models = Inr d' \<Longrightarrow> d' = d"
  using assms
  by (auto simp: only_def_def route_exact_def Let_def split: list.splits if_splits option.splits)

text \<open>
  the service that \<^verbatim>\<open>ResolveSyncByPath\<close> finds for a path (the per-path rate limits and access
  policy are decided on it) is the one \<^verbatim>\<open>RouteSync\<close> sends the request to: a request that names no
  model is routed to it, and a request that names one is routed to it or refused.
\<close>

theorem ResolveSyncByPath_agrees:
  assumes "ResolveSyncByPath r path = Some d"
  shows "RouteSync r path [] = Inr d \<and> (RouteSync r path model = Inr d' \<longrightarrow> d' = d)"
proof (cases "map_of (bySync r) path")
  case (Some models)
  with assms show ?thesis
    by (auto simp: ResolveSyncByPath_def RouteSync_def route_exact_only)
next
  case None
  show ?thesis
  proof (cases "resolve_pattern (byPattern r) path")
    case (Some res)
    with None assms have "route_pattern (byPattern r) path = Some (Inr d)"
      by (simp add: ResolveSyncByPath_def resolve_pattern_route)
    with None show ?thesis by (simp add: RouteSync_def)
  next
    case no_pattern: None
    with None assms have w: "resolve_wildcard (byWildcard r) path = Some d"
      by (simp add: ResolveSyncByPath_def)
    from no_pattern None show ?thesis
      using resolve_wildcard_route [OF w, of "[]"] resolve_wildcard_route [OF w, of model]
      by (auto simp: RouteSync_def resolve_pattern_None)
  qed
qed

section \<open>Async routing\<close>

lemma index_path_type [simp]:
  "byTypeModel (index_path cfg def p r) = byTypeModel r"
  "defaultByType (index_path cfg def p r) = defaultByType r"
  by (simp_all add: index_path_def)

lemma index_paths_type [simp]:
  "byTypeModel (fold (index_path cfg def) ps r) = byTypeModel r"
  "defaultByType (fold (index_path cfg def) ps r) = defaultByType r"
  by (induction ps arbitrary: r) simp_all

lemma index_realtime_type [simp]:
  "byTypeModel (index_realtime cfg def r) = byTypeModel r"
  "defaultByType (index_realtime cfg def r) = defaultByType r"
  by (simp_all add: index_realtime_def split: option.splits)

lemma add_service_type:
  "byTypeModel (add_service pd pools cfg r) = AList.update (sc_Type cfg)
     (AList.update (sc_Model cfg) (mk_def pd pools cfg) (submap (byTypeModel r) (sc_Type cfg))) (byTypeModel r)"
  "defaultByType (add_service pd pools cfg r) =
     (if sc_Default cfg then AList.update (sc_Type cfg) (mk_def pd pools cfg) (defaultByType r) else defaultByType r)"
  by (simp_all add: add_service_def Let_def)

lemma submap_update:
  "submap (AList.update k v m) k' = (if k = k' then v else submap m k')"
  by (simp add: submap_def update_conv')

text \<open>
  The reference: among the services of a type the last entry for a model counts; a request without a
  model takes the only model of the type, else the last default.
\<close>

definition async_reference ::
  "parse_duration \<Rightarrow> (string, BackendPoolConfig) gomap \<Rightarrow> ServiceConfig list \<Rightarrow> string \<Rightarrow> string \<Rightarrow> Def option" where
  "async_reference pd pools cfgs t m =
     map_option (mk_def pd pools)
       (if m \<noteq> [] \<or> card (sc_Model ` {c \<in> set cfgs. sc_Type c = t}) = 1
        then find (\<lambda>c. sc_Type c = t \<and> (m \<noteq> [] \<longrightarrow> sc_Model c = m)) (rev cfgs)
        else find (\<lambda>c. sc_Type c = t \<and> sc_Default c) (rev cfgs))"


lemma NewRegistry_snoc:
  "NewRegistry pd pools (cfgs @ [c]) = add_service pd pools c (NewRegistry pd pools cfgs)"
  by (simp add: NewRegistry_def)

lemma byTypeModel_None: "map_of (byTypeModel (NewRegistry pd pools cfgs)) t = None \<longleftrightarrow> t \<notin> sc_Type ` set cfgs"
proof (induction cfgs rule: rev_induct)
  case (snoc c cfgs)
  then show ?case
    by (auto simp: NewRegistry_snoc add_service_type update_conv' split: if_splits)
qed (simp add: NewRegistry_def empty_registry_def)

lemma async_models_lookup:
  "map_of (submap (byTypeModel (NewRegistry pd pools cfgs)) t) m =
     map_option (mk_def pd pools) (find (\<lambda>c. sc_Type c = t \<and> sc_Model c = m) (rev cfgs))"
proof (induction cfgs rule: rev_induct)
  case (snoc c cfgs)
  then show ?case
    by (simp add: NewRegistry_snoc add_service_type submap_update update_conv')
qed (simp add: NewRegistry_def empty_registry_def submap_def)

lemma async_models_keys:
  "fst ` set (submap (byTypeModel (NewRegistry pd pools cfgs)) t) = sc_Model ` {c \<in> set cfgs. sc_Type c = t}
   \<and> distinct (map fst (submap (byTypeModel (NewRegistry pd pools cfgs)) t))"
proof (induction cfgs rule: rev_induct)
  case (snoc c cfgs)
  then show ?case
    by (auto simp: NewRegistry_snoc add_service_type submap_update dom_update distinct_update)
qed (simp add: NewRegistry_def empty_registry_def submap_def)

lemma async_default_lookup:
  "map_of (defaultByType (NewRegistry pd pools cfgs)) t =
     map_option (mk_def pd pools) (find (\<lambda>c. sc_Type c = t \<and> sc_Default c) (rev cfgs))"
proof (induction cfgs rule: rev_induct)
  case (snoc c cfgs)
  then show ?case
    by (simp add: NewRegistry_snoc add_service_type update_conv')
qed (simp add: NewRegistry_def empty_registry_def)

lemma only_model_lookup:
  assumes "distinct (map fst models)" and "card (fst ` set models) = 1"
  shows "\<exists>m d. models = [(m, d)]"
proof -
  from assms have "length models = 1"
    by (metis distinct_card length_map list.set_map)
  then show ?thesis by (cases models) auto
qed

lemma RouteAsync_spec:
  "(RouteAsync (NewRegistry pd pools cfgs) t m = Inr d \<longleftrightarrow> async_reference pd pools cfgs t m = Some d)
   \<and> (RouteAsync (NewRegistry pd pools cfgs) t m = Inl (UnknownServiceType t) \<longleftrightarrow> t \<notin> sc_Type ` set cfgs)"
proof (cases "map_of (byTypeModel (NewRegistry pd pools cfgs)) t")
  case None
  then have t: "t \<notin> sc_Type ` set cfgs" by (simp add: byTypeModel_None)
  then have "find (\<lambda>c. sc_Type c = t \<and> P c) (rev cfgs) = None" for P
    by (auto simp: find_None_iff)
  with None t show ?thesis
    by (simp add: RouteAsync_def async_reference_def)
next
  case (Some models)
  then have t: "t \<in> sc_Type ` set cfgs"
    using byTypeModel_None [of pd pools cfgs t] by simp
  have models: "models = submap (byTypeModel (NewRegistry pd pools cfgs)) t"
    by (simp add: submap_def Some)
  note keys = async_models_keys [of pd pools cfgs t, folded models]
  show ?thesis
  proof (cases "m = [] \<and> card (sc_Model ` {c \<in> set cfgs. sc_Type c = t}) = 1")
    case True
    then obtain k e where ke: "models = [(k, e)]"
      using only_model_lookup keys by metis
    have "find (\<lambda>c. sc_Type c = t) (rev cfgs) = find (\<lambda>c. sc_Type c = t \<and> sc_Model c = k) (rev cfgs)"
      using keys ke by (intro find_cong refl) (simp, blast)
    then have "async_reference pd pools cfgs t m = Some e"
      using async_models_lookup [of pd pools cfgs t k, folded models] True ke
      by (simp add: async_reference_def)
    with True t Some ke show ?thesis
      by (simp add: RouteAsync_def)
  next
    case False
    have "card (sc_Model ` {c \<in> set cfgs. sc_Type c = t}) = 1" if "models = [(k, e)]" for k e
      using conjunct1 [OF keys, symmetric] by (simp add: that)
    with False have "m = [] \<Longrightarrow> \<nexists>k e. models = [(k, e)]" by blast
    with False t Some show ?thesis
      using async_models_lookup [of pd pools cfgs t m, folded models]
        async_default_lookup [of pd pools cfgs t]
      by (auto simp: RouteAsync_def async_reference_def split: list.splits option.splits)
  qed
qed


text \<open>
  \<^verbatim>\<open>RouteAsync\<close> on the registry of a configuration gives the service the configuration means:
  for a named model its last entry under the service type; for no model the only model of the type, or
  else the last service of the type marked as default. The type is unknown exactly when no service has it.
\<close>

theorem RouteAsync_correct:
  "(RouteAsync (NewRegistry pd pools cfgs) t m = Inr d \<longleftrightarrow> async_reference pd pools cfgs t m = Some d)
   \<and> (RouteAsync (NewRegistry pd pools cfgs) t m = Inl (UnknownServiceType t) \<longleftrightarrow> t \<notin> sc_Type ` set cfgs)"
  by (rule RouteAsync_spec)

section \<open>Exact paths win\<close>

definition serves_exact :: "string \<Rightarrow> ServiceConfig \<Rightarrow> bool" where
  "serves_exact path c \<longleftrightarrow> sc_Model c \<noteq> [] \<and> hasBackendFor c \<and> path \<in> set (declared_paths c)
     \<and> path \<noteq> [] \<and> \<not> Contains path model_placeholder \<and> \<not> HasSuffix path ''/*''"

lemma index_realtime_sync [simp]: "bySync (index_realtime cfg def r) = bySync r"
  by (simp add: index_realtime_def split: option.splits)

lemma index_path_sync:
  "map_of (submap (bySync (index_path cfg def p r)) path) m =
     (if p = path \<and> m = sc_Model cfg \<and> path \<noteq> [] \<and> \<not> Contains path model_placeholder \<and> \<not> HasSuffix path ''/*''
      then Some def else map_of (submap (bySync r) path) m)"
  by (simp add: index_path_def submap_update update_conv')

lemma index_paths_sync:
  "map_of (submap (bySync (fold (index_path cfg def) ps r)) path) m =
     (if path \<in> set ps \<and> m = sc_Model cfg \<and> path \<noteq> [] \<and> \<not> Contains path model_placeholder \<and> \<not> HasSuffix path ''/*''
      then Some def else map_of (submap (bySync r) path) m)"
  by (induction ps arbitrary: r) (auto simp: index_path_sync)

lemma sync_lookup:
  "map_of (submap (bySync (NewRegistry pd pools cfgs)) path) m =
     map_option (mk_def pd pools) (find (\<lambda>c. serves_exact path c \<and> sc_Model c = m) (rev cfgs))"
proof (induction cfgs rule: rev_induct)
  case (snoc c cfgs)
  then show ?case
    unfolding NewRegistry_snoc add_service_def Let_def hasBackendFor_def [symmetric]
    by (auto simp: index_paths_sync serves_exact_def)
qed (simp add: NewRegistry_def empty_registry_def submap_def)

text \<open>
  a request whose path and model are declared exactly is served by the last service that declares them,
  whatever patterns and wildcards would fit the path as well.
\<close>

theorem RouteSync_exact:
  assumes "find (\<lambda>c. serves_exact path c \<and> sc_Model c = m) (rev cfgs) = Some c"
  shows "RouteSync (NewRegistry pd pools cfgs) path m = Inr (mk_def pd pools c)"
  using sync_lookup [of pd pools cfgs path m] assms
  by (auto simp: RouteSync_def route_exact_def map_of_submap split: option.splits)

section \<open>Patterns\<close>

lemma cut_first:
  "cut sep s = Some (a, b) \<Longrightarrow> s = a' @ sep @ b' \<Longrightarrow> length a \<le> length a'"
proof (induction s arbitrary: a b a')
  case (Cons x xs)
  show ?case
  proof (cases "HasPrefix (x # xs) sep")
    case True
    with Cons.prems(1) show ?thesis by auto
  next
    case False
    with Cons.prems(2) obtain y ys where a': "a' = y # ys"
      by (cases a') (auto simp: HasPrefix_def)
    from False Cons.prems(1) obtain a2 where "a = x # a2" "cut sep xs = Some (a2, b)"
      by (auto split: option.splits)
    with Cons.IH [of a2 b ys] Cons.prems(2) a' show ?thesis by simp
  qed
qed (auto split: if_splits)

lemma cut_SomeI:
  assumes "\<And>a' b'. a @ sep @ b = a' @ sep @ b' \<Longrightarrow> length a \<le> length a'"
  shows "cut sep (a @ sep @ b) = Some (a, b)"
proof (cases "cut sep (a @ sep @ b)")
  case None
  then show ?thesis by (auto simp: cut_None Contains_iff)
next
  case (Some p)
  obtain a2 b2 where p: "p = (a2, b2)" by (cases p)
  with Some have eq: "a @ sep @ b = a2 @ sep @ b2" by (auto dest: cut_Some)
  with Some p assms [OF eq] have "length a = length a2"
    using cut_first [of sep "a @ sep @ b" a2 b2 a b] by auto
  with eq p Some show ?thesis by simp
qed

lemma split_byte_no: "c \<notin> set s \<Longrightarrow> split_byte c s = [s]"
  by (induction s) auto

lemma split_byte_append:
  "split_byte c (s @ t) = butlast (split_byte c s) @ [last (split_byte c s) @ hd (split_byte c t)] @ tl (split_byte c t)"
proof (induction s)
  case Nil
  then show ?case by (cases "split_byte c t") auto
next
  case (Cons x s)
  obtain p ps where "split_byte c s = p # ps" by (cases "split_byte c s") auto
  with Cons show ?case by auto
qed

lemma split_byte_infix: "seg \<in> set (split_byte c s) \<Longrightarrow> \<exists>a b. s = a @ seg @ b"
proof (induction s arbitrary: seg)
  case (Cons x s)
  obtain p ps where p: "split_byte c s = p # ps" by (cases "split_byte c s") auto
  from Cons.prems p consider "seg = []" | "seg \<in> set (split_byte c s)" | "x \<noteq> c" "seg = x # p"
    by (auto split: if_splits)
  then show ?case
  proof cases
    case 2
    then show ?thesis using Cons.IH by (metis append_Cons)
  next
    case 3
    obtain r where "s = p @ r"
      using p join_split_byte [of c s] by (cases ps) auto
    with 3 have "x # s = [] @ seg @ r" by simp
    then show ?thesis by blast
  qed auto
qed auto


lemma matchModelSegment_iff:
  assumes "cut model_placeholder pat = Some (pre, suf)"
  shows "matchModelSegment pat actual = Some m \<longleftrightarrow> actual = pre @ m @ suf"
proof
  assume "matchModelSegment pat actual = Some m"
  with assms have *: "HasPrefix actual pre" "HasSuffix actual suf" "length pre + length suf \<le> length actual"
    "m = take (length actual - length suf - length pre) (drop (length pre) actual)"
    by (auto simp: matchModelSegment_def split: if_splits)
  from *(1) obtain r where r: "actual = pre @ r" by (auto simp: HasPrefix_iff)
  moreover from *(2,3) r have "length suf \<le> length r" "drop (length r - length suf) r = suf"
    by (auto simp: HasSuffix_def)
  ultimately show "actual = pre @ m @ suf"
    using *(4) by (simp add: add.commute) (metis append_take_drop_id)
next
  assume "actual = pre @ m @ suf"
  with assms show "matchModelSegment pat actual = Some m"
    using HasSuffix_append [of "pre @ m" suf] by (simp add: matchModelSegment_def)
qed

lemma match_segments_plain:
  assumes "\<forall>s \<in> set A. \<not> Contains s model_placeholder"
  shows "match_segments (A @ ps) us m = Some r \<longleftrightarrow> (\<exists>us'. us = A @ us' \<and> match_segments ps us' m = Some r)"
  using assms
proof (induction A arbitrary: us)
  case (Cons a A)
  then show ?case by (cases us) (auto split: if_splits)
qed auto

lemma match_segments_rest:
  assumes "\<forall>s \<in> set B. \<not> Contains s model_placeholder" and "m \<noteq> []"
  shows "match_segments B us m = Some r \<longleftrightarrow> us = B \<and> r = m"
  using match_segments_plain [OF assms(1), of "[]" us m r] assms(2)
  by (cases "us = B") (auto split: list.splits elim: match_segments.elims)

lemma Contains_infix: "Contains seg sub \<Longrightarrow> Contains (a @ seg @ b) sub"
  by (auto simp: Contains_iff) (metis append_assoc)

lemma no_slash_placeholder: "CHR ''/'' \<notin> set model_placeholder"
  by (simp add: model_placeholder_def)

text \<open>The segments of a path in which \<open>x\<close> stands between \<open>pre\<close> and \<open>post\<close>.\<close>

lemma split_around:
  assumes "CHR ''/'' \<notin> set x"
  shows "split_byte CHR ''/'' (pre @ x @ post) =
     butlast (split_byte CHR ''/'' pre) @
     [last (split_byte CHR ''/'' pre) @ x @ hd (split_byte CHR ''/'' post)] @ tl (split_byte CHR ''/'' post)"
  using assms by (simp add: split_byte_append [of _ pre] split_byte_append [of _ x] split_byte_no)

lemma split_byte_join: "split_byte c s = split_byte c t \<Longrightarrow> s = t"
  by (metis join_split_byte)

lemma split_last_infix: "\<exists>P. s = P @ last (split_byte c s)"
proof (induction s)
  case (Cons x s)
  obtain p ps where p: "split_byte c s = p # ps" by (cases "split_byte c s") auto
  show ?case
  proof (cases "ps = []")
    case True
    then have "s = p" using p join_split_byte [of c s] by simp
    with True p show ?thesis by auto
  next
    case False
    with Cons p show ?thesis by (auto intro: exI [of _ "x # _"])
  qed
qed simp

lemma split_hd_infix: "\<exists>Q. s = hd (split_byte c s) @ Q"
  by (metis append_Nil2 hd_Cons_tl join_split_byte join_with.simps(2,3) list.exhaust split_byte_nonempty)

lemma split_no_sep: "seg \<in> set (split_byte c s) \<Longrightarrow> c \<notin> set seg"
proof (induction s arbitrary: seg)
  case (Cons x s)
  obtain p ps where p: "split_byte c s = p # ps" by (cases "split_byte c s") auto
  with Cons show ?case by (auto split: if_splits)
qed auto


lemma match_segments_length: "match_segments ps us m = Some r \<Longrightarrow> length us = length ps"
  by (induction ps us m rule: match_segments.induct) (auto split: if_splits option.splits)

lemma match_iff: "match p path = Some m \<longleftrightarrow> match_segments (segments p) (split_byte CHR ''/'' path) [] = Some m"
  by (auto simp: match_def Let_def dest: match_segments_length split: if_splits)

lemma match_segments_one:
  assumes "\<forall>s \<in> set A. \<not> Contains s model_placeholder" and "\<forall>s \<in> set B. \<not> Contains s model_placeholder"
    and "cut model_placeholder S = Some (l, h)"
  shows "match_segments (A @ [S] @ B) us [] = Some m \<longleftrightarrow> us = A @ [l @ m @ h] @ B \<and> m \<noteq> []"
proof -
  have S: "Contains S model_placeholder"
    using assms(3) cut_None [of model_placeholder S] by fastforce
  have "match_segments (S # B) us' [] = Some m \<longleftrightarrow> us' = (l @ m @ h) # B \<and> m \<noteq> []" for us'
  proof (cases us')
    case (Cons u us'')
    note seg = matchModelSegment_iff [OF assms(3), of u]
    show ?thesis
    proof (cases "matchModelSegment S u")
      case None
      with seg [of m] show ?thesis by (auto simp: Cons S)
    next
      case (Some m')
      with seg [of m'] seg [of m] show ?thesis
        by (auto simp: Cons S match_segments_rest [OF assms(2)])
    qed
  qed simp
  then show ?thesis
    using match_segments_plain [OF assms(1), of "[S] @ B" us "[]" m] by auto
qed

text \<open>
  matching a path pattern with one \<^verbatim>\<open>{model}\<close> placeholder undoes filling it in: the pattern
  matches exactly the paths in which the placeholder is replaced by a non-empty text within one path
  segment, and extracts that text.
\<close>

theorem match_model:
  assumes cut: "cut model_placeholder pat = Some (pre, post)" and post: "\<not> Contains post model_placeholder"
  shows "match \<lparr>pattern = pat, segments = split_byte CHR ''/'' pat, defsByModel = defs\<rparr> path = Some m \<longleftrightarrow>
     path = pre @ m @ post \<and> m \<noteq> [] \<and> CHR ''/'' \<notin> set m"
proof -
  let ?A = "butlast (split_byte CHR ''/'' pre)" and ?l = "last (split_byte CHR ''/'' pre)"
  let ?h = "hd (split_byte CHR ''/'' post)" and ?B = "tl (split_byte CHR ''/'' post)"
  let ?S = "?l @ model_placeholder @ ?h"
  have pat: "pat = pre @ model_placeholder @ post" using cut by (rule cut_Some)
  have first: "length pre \<le> length a" if "pat = a @ model_placeholder @ b" for a b
    using cut that by (rule cut_first)
  have A: "\<not> Contains s model_placeholder" if "s \<in> set ?A" for s
  proof
    assume "Contains s model_placeholder"
    moreover from that have "s \<in> set (split_byte CHR ''/'' pre)" by (rule in_set_butlastD)
    ultimately obtain a b where "pre = a @ model_placeholder @ b"
      using split_byte_infix [of s _ pre] by (auto simp: Contains_iff) (metis append_assoc)
    with first [of a "b @ model_placeholder @ post"] pat show False
      by (simp add: model_placeholder_def)
  qed
  have B: "\<not> Contains s model_placeholder" if "s \<in> set ?B" for s
    using that post split_byte_infix [of s _ post] Contains_infix [of s]
    by (metis list.set_sel(2) split_byte_nonempty)
  obtain P Q where P: "pre = P @ ?l" and Q: "post = ?h @ Q"
    using split_last_infix split_hd_infix by metis
  have S: "cut model_placeholder ?S = Some (?l, ?h)"
  proof (rule cut_SomeI)
    fix a' b' assume "?S = a' @ model_placeholder @ b'"
    then have "pat = (P @ a') @ model_placeholder @ b' @ Q"
      using pat P Q by (metis append_assoc)
    from first [OF this] P show "length ?l \<le> length a'"
      by (metis add_le_cancel_left length_append)
  qed
  have "match \<lparr>pattern = pat, segments = split_byte CHR ''/'' pat, defsByModel = defs\<rparr> path = Some m \<longleftrightarrow>
        match_segments (?A @ [?S] @ ?B) (split_byte CHR ''/'' path) [] = Some m"
    using split_around [OF no_slash_placeholder, of pre post] pat by (simp add: match_iff)
  also have "\<dots> \<longleftrightarrow> split_byte CHR ''/'' path = ?A @ [?l @ m @ ?h] @ ?B \<and> m \<noteq> []"
    using A B by (intro match_segments_one S) auto
  also have "\<dots> \<longleftrightarrow> path = pre @ m @ post \<and> m \<noteq> [] \<and> CHR ''/'' \<notin> set m"
    using split_around [of m pre post] split_no_sep [of "?l @ m @ ?h" "CHR ''/''" path]
      split_byte_join [of "CHR ''/''" path "pre @ m @ post"] by auto
  finally show ?thesis .
qed


section \<open>The order of the backends\<close>

definition sum_weights :: "Backend list \<Rightarrow> int" where
  "sum_weights bs = sum_list (map Weight bs)"

lemma sum_weights_simps [simp]:
  "sum_weights [] = 0" "sum_weights (b # bs) = Weight b + sum_weights bs"
  by (simp_all add: sum_weights_def)

lemma sum_weights_nonneg: "\<forall>b \<in> set bs. 0 < Weight b \<Longrightarrow> 0 \<le> sum_weights bs"
  by (induction bs) auto

lemma total_weight_exact:
  assumes "\<forall>b \<in> set bs. 0 < Weight b" and "0 \<le> t" and "t + sum_weights bs < 2 ^ 63"
  shows "fold (\<lambda>b t. wrap64 (t + Weight b)) bs t = t + sum_weights bs"
  using assms
proof (induction bs arbitrary: t)
  case (Cons b bs)
  then have "int64 (t + Weight b)"
    using sum_weights_nonneg [of bs] by (auto intro!: int64_small)
  with Cons show ?case by simp
qed simp

text \<open>The draw \<open>r\<close> falls into the interval of the backend that \<open>pick\<close> answers with.\<close>

lemma pick_interval:
  assumes "\<forall>b \<in> set bs. 0 < Weight b" and "0 \<le> c" and "c + sum_weights bs < 2 ^ 63"
    and "c \<le> r" and "r < c + sum_weights bs"
  shows "\<exists>i < length bs. pick r c bs = Some i
           \<and> c + sum_weights (take i bs) \<le> r \<and> r < c + sum_weights (take (Suc i) bs)"
  using assms
proof (induction bs arbitrary: c)
  case (Cons b bs)
  then have w: "wrap64 (c + Weight b) = c + Weight b"
    using sum_weights_nonneg [of bs] by (auto intro!: wrap64_id int64_small)
  show ?case
  proof (cases "r < c + Weight b")
    case True
    with Cons.prems w show ?thesis by (auto intro!: exI [of _ 0])
  next
    case False
    with Cons.prems obtain i where "i < length bs" "pick r (c + Weight b) bs = Some i"
      "c + Weight b + sum_weights (take i bs) \<le> r" "r < c + Weight b + sum_weights (take (Suc i) bs)"
      using Cons.IH [of "c + Weight b"] by auto
    with False w show ?thesis by (auto intro!: exI [of _ "Suc i"])
  qed
qed simp

lemma mset_remove_nth:
  "i < length xs \<Longrightarrow> add_mset (xs ! i) (mset (take i xs @ drop (Suc i) xs)) = mset xs"
  by (metis id_take_nth_drop mset.simps(2) mset_append union_mset_add_mset_right)

lemma sorted_desc: "sorted_wrt (\<lambda>a b. Weight b \<le> Weight a) (sort_key (\<lambda>b. - Weight b) bs)"
  using sorted_sort_key [of "\<lambda>b. - Weight b" bs] by (simp add: sorted_map)

text \<open>
  C10: the order in which a request tries the backends of a service. With the weights' sum within 64 bits
  and the random draw in its range, the first backend is the one whose share of the total weight the draw
  falls into, the other weighted backends follow by descending weight, the backends of weight zero or less
  come last in their configured order, and every backend is tried exactly once.
\<close>

theorem OrderedBackends_correct:
  fixes bs :: "Backend list"
  defines "pos \<equiv> filter (\<lambda>b. 0 < Weight b) bs" and "zero \<equiv> filter (\<lambda>b. \<not> 0 < Weight b) bs"
  assumes "pos \<noteq> []" and "sum_weights pos < 2 ^ 63"
    and "0 \<le> rnd (sum_weights pos)" and "rnd (sum_weights pos) < sum_weights pos"
  shows "\<exists>i rest. i < length pos \<and> OrderedBackends rnd bs = Some (pos ! i # rest @ zero)
           \<and> sum_weights (take i pos) \<le> rnd (sum_weights pos) \<and> rnd (sum_weights pos) < sum_weights (take (Suc i) pos)
           \<and> sorted_wrt (\<lambda>a b. Weight b \<le> Weight a) rest \<and> mset (pos ! i # rest @ zero) = mset bs"
proof -
  have pos: "\<forall>b \<in> set pos. 0 < Weight b" by (simp add: pos_def)
  have total: "total_weight pos = sum_weights pos"
    using total_weight_exact [OF pos, of 0] assms(4) by (simp add: total_weight_def)
  have "bs \<noteq> []" using assms(3) by (auto simp: pos_def)
  obtain i where i: "i < length pos" "pick (rnd (sum_weights pos)) 0 pos = Some i"
    "sum_weights (take i pos) \<le> rnd (sum_weights pos)" "rnd (sum_weights pos) < sum_weights (take (Suc i) pos)"
    using pick_interval [OF pos, of 0 "rnd (sum_weights pos)"] assms(4-6) by auto
  let ?rest = "sort_key (\<lambda>b. - Weight b) (take i pos @ drop (Suc i) pos)"
  have "OrderedBackends rnd bs = Some (pos ! i # ?rest @ zero)"
    using \<open>bs \<noteq> []\<close> assms(3,5,6) i total
    by (simp add: OrderedBackends_def flip: pos_def zero_def)
  moreover have "mset (pos ! i # ?rest @ zero) = mset pos + mset zero"
    using mset_remove_nth [OF i(1)] by (metis mset.simps(2) mset_append mset_sort union_mset_add_mset_left)
  moreover have "mset pos + mset zero = mset bs"
    unfolding pos_def zero_def mset_filter by (rule multiset_partition [symmetric])
  ultimately show ?thesis
    using i sorted_desc by metis
qed


section \<open>What a validated configuration gives\<close>

lemma mk_def_simps [simp]:
  "Type (mk_def pd pools cfg) = sc_Type cfg" "Model (mk_def pd pools cfg) = sc_Model cfg"
  "BudgetGroup (mk_def pd pools cfg) = sc_BudgetGroup cfg"
  "Backends (mk_def pd pools cfg) = fst (resolveBackends cfg pools)"
  "Guardrails (mk_def pd pools cfg) = resolveGuardrails pd (sc_Guardrails cfg)"
  "Visibility (mk_def pd pools cfg) = sc_Visibility cfg"
  by (simp_all add: mk_def_def split: prod.splits)

lemma BudgetKey_mk_def [simp]: "BudgetKey (mk_def pd pools cfg) = budget_key cfg"
  by (simp add: BudgetKey_def budget_key_def)

lemma validate_model_keys_consistent:
  assumes "validate_model_keys ss ks = None" and "s \<in> set ss" and "sc_Model s \<noteq> []"
  shows "(\<forall>k. map_of ks (sc_Model s) = Some k \<longrightarrow> k = budget_key s)
       \<and> (\<forall>s' \<in> set ss. sc_Model s' = sc_Model s \<longrightarrow> budget_key s' = budget_key s)"
  using assms
proof (induction ss arbitrary: ks s)
  case (Cons a ss)
  show ?case
  proof (cases "sc_Model a = []")
    case True
    with Cons.prems have "validate_model_keys ss ks = None" "s \<in> set ss" by auto
    from Cons.IH [OF this Cons.prems(3)] True Cons.prems(3) show ?thesis by auto
  next
    case False
    with Cons.prems(1) have rest: "validate_model_keys ss ((sc_Model a, budget_key a) # ks) = None"
      and prev: "\<forall>k. map_of ks (sc_Model a) = Some k \<longrightarrow> k = budget_key a"
      by (auto split: option.splits if_splits)
    show ?thesis
    proof (cases "s \<in> set ss")
      case True
      note IH = Cons.IH [OF rest True Cons.prems(3)]
      have "budget_key a = budget_key s" if "sc_Model a = sc_Model s"
        using IH that by simp
      moreover have "k = budget_key s" if "map_of ks (sc_Model s) = Some k" for k
        using IH that prev calculation by (cases "sc_Model a = sc_Model s") auto
      ultimately show ?thesis using IH by auto
    next
      case s: False
      with Cons.prems(2) have sa: "s = a" by simp
      have "budget_key s' = budget_key a" if "s' \<in> set ss" "sc_Model s' = sc_Model a" for s'
      proof -
        have "map_of ((sc_Model a, budget_key a) # ks) (sc_Model s') = Some (budget_key a)"
          using that(2) by simp
        moreover have "sc_Model s' \<noteq> []" using that(2) False by simp
        ultimately show ?thesis using Cons.IH [OF rest that(1)] by metis
      qed
      with prev show ?thesis unfolding sa by (metis set_ConsD)
    qed
  qed
qed simp

lemma index_entries:
  "(t, models) \<in> set (byTypeModel (NewRegistry pd pools cfgs)) \<Longrightarrow> (m, d) \<in> set models \<Longrightarrow>
   \<exists>cfg \<in> set cfgs. m = sc_Model cfg \<and> d = mk_def pd pools cfg"
proof (induction cfgs arbitrary: t models m d rule: rev_induct)
  case (snoc c cfgs)
  let ?r = "NewRegistry pd pools cfgs"
  have "(m', d') \<in> set (submap (byTypeModel ?r) t') \<Longrightarrow> \<exists>cfg \<in> set cfgs. m' = sc_Model cfg \<and> d' = mk_def pd pools cfg"
    for t' m' d'
    by (cases "map_of (byTypeModel ?r) t'") (auto simp: submap_def dest!: map_of_SomeD snoc.IH)
  with snoc show ?case
    by (auto simp: NewRegistry_snoc add_service_type dest!: in_updateD)
qed (simp add: NewRegistry_def empty_registry_def)

lemma fold_update_consistent:
  assumes "\<forall>(m, d) \<in> set es. m = k \<longrightarrow> f d = v" and "map_of acc k = Some v \<or> (map_of acc k = None \<and> k \<in> fst ` set es)"
    and "k \<noteq> []"
  shows "map_of (fold (\<lambda>(m, d) out. if m \<noteq> [] then AList.update m (f d) out else out) es acc) k = Some v"
  using assms
proof (induction es arbitrary: acc)
  case (Cons e es)
  obtain a b where e: "e = (a, b)" by (cases e)
  let ?acc = "if a \<noteq> [] then AList.update a (f b) acc else acc"
  have "map_of ?acc k = Some v \<or> map_of ?acc k = None \<and> k \<in> fst ` set es"
    using Cons.prems by (auto simp: e update_conv')
  with Cons.IH [of ?acc] Cons.prems show ?case by (simp add: e)
qed auto

text \<open>
  under a validated configuration the budget window that the per-model views (usage, quota) read for a
  model is the one its requests are charged to: for every service that async routing answers with,
  \<^verbatim>\<open>ModelBudgetKeys\<close> maps its model to the service's own \<^verbatim>\<open>BudgetKey\<close>.
\<close>

theorem ModelBudgetKeys_agree:
  assumes "validate c = None"
    and "RouteAsync (NewRegistry pd pools (Services c)) t m = Inr d" and "Model d \<noteq> []"
  shows "map_of (ModelBudgetKeys (NewRegistry pd pools (Services c))) (Model d) = Some (BudgetKey d)"
proof -
  let ?r = "NewRegistry pd pools (Services c)" and ?es = "concat (map snd (byTypeModel (NewRegistry pd pools (Services c))))"
  have keys: "validate_model_keys (Services c) [] = None"
    using assms(1) by (simp add: validate_def)
  obtain s where s: "s \<in> set (Services c)" "d = mk_def pd pools s"
    using assms(2) conjunct1 [OF RouteAsync_spec, of pd pools "Services c" t m d]
    by (auto simp: async_reference_def find_Some_iff split: if_splits) (metis nth_mem set_rev length_rev)+
  then have m: "sc_Model s \<noteq> []" "Model d = sc_Model s" using assms(3) by simp_all
  note same = conjunct2 [OF validate_model_keys_consistent [OF keys s(1) m(1)]]
  have "BudgetKey d' = budget_key s" if "(m', d') \<in> set ?es" "m' = sc_Model s" for m' d'
    using that same by (auto dest!: index_entries)
  moreover have "sc_Model s \<in> fst ` set ?es"
  proof -
    have "sc_Model s \<in> fst ` set (submap (byTypeModel ?r) (sc_Type s))"
      using async_models_keys [of pd pools "Services c" "sc_Type s"] s(1) by auto
    then show ?thesis
      by (cases "map_of (byTypeModel ?r) (sc_Type s)") (auto simp: submap_def image_iff dest!: map_of_SomeD intro!: bexI)
  qed
  ultimately show ?thesis
    unfolding ModelBudgetKeys_def m(2) s(2) BudgetKey_mk_def
    by (intro fold_update_consistent) (auto simp: m(1))
qed


lemma indexed_memI: "x \<in> set xs \<Longrightarrow> \<exists>i. (i, x) \<in> set (indexed xs)"
proof -
  assume "x \<in> set xs"
  then obtain i where "i < length xs" "xs ! i = x" by (auto simp: in_set_conv_nth)
  then have "(i, x) \<in> set (indexed xs)" by (auto simp: indexed_def in_set_zip intro: exI [of _ i])
  then show ?thesis by blast
qed

lemma validated_pool:
  assumes "validate c = None" and "map_of (BackendPools c) n = Some pool"
  shows "Members pool \<noteq> [] \<and> (\<forall>m \<in> set (Members pool). b_URL m \<noteq> [] \<and> 0 \<le> b_Weight m)"
proof -
  have "validate_pools c = None" using assms(1) by (simp add: validate_def)
  with map_of_SomeD [OF assms(2)] have p: "validate_pool (n, pool) = None"
    by (auto simp: validate_pools_def)
  then have "\<forall>(i, m) \<in> set (indexed (Members pool)). b_URL m \<noteq> [] \<and> 0 \<le> b_Weight m"
    by (simp add: validate_pool_def Let_def ball_Un split_beta not_less)
  then have "\<forall>m \<in> set (Members pool). b_URL m \<noteq> [] \<and> 0 \<le> b_Weight m"
    using indexed_memI by fastforce
  with p show ?thesis by (simp add: validate_pool_def)
qed

lemma validated_service:
  assumes "validate c = None" and "s \<in> set (Services c)"
  shows "(\<forall>b \<in> set (sc_Backends s). b_URL b \<noteq> [] \<and> 0 \<le> b_Weight b)
       \<and> (sc_BackendPool s \<noteq> [] \<longrightarrow> sc_Backends s = [] \<and> sc_InferenceURL s = []
            \<and> map_of (BackendPools c) (sc_BackendPool s) \<noteq> None)"
proof -
  have v: "validate_service c s = None" using assms by (simp add: validate_def)
  have "\<forall>(i, b) \<in> set (indexed (sc_Backends s)). b_URL b \<noteq> [] \<and> 0 \<le> b_Weight b"
    using v by (simp add: validate_service_def Let_def ball_Un split_beta not_less)
  then have "\<forall>b \<in> set (sc_Backends s). b_URL b \<noteq> [] \<and> 0 \<le> b_Weight b"
    using indexed_memI by fastforce
  moreover from v have "sc_BackendPool s \<noteq> [] \<longrightarrow> sc_Backends s = [] \<and> sc_InferenceURL s = []
      \<and> map_of (BackendPools c) (sc_BackendPool s) \<noteq> None"
    by (auto simp: validate_service_def Let_def)
  ultimately show ?thesis by blast
qed

text \<open>
  under a validated configuration every service that is meant to have a backend (an inference URL,
  its own backends or a pool) resolves to at least one, each with a URL and a weight that is not negative,
  so the failover loop never starts empty and the weighted draw never sees a negative share.
\<close>

theorem validated_backends:
  assumes "validate c = None" and "s \<in> set (Services c)" and "hasBackendFor s"
  shows "Backends (mk_def pd (BackendPools c) s) \<noteq> []
       \<and> (\<forall>b \<in> set (Backends (mk_def pd (BackendPools c) s)). URL b \<noteq> [] \<and> 0 \<le> Weight b)"
  using assms(3) validated_service [OF assms(1,2)] validated_pool [OF assms(1)]
  by (auto simp: hasBackendFor_def resolveBackends_def normalizeBackends_def split: option.splits)

lemma resolveModel_safe:
  fixes pd m defines "e \<equiv> resolveModel pd m"
  shows "(e_Mode e = ModeSync \<or> e_Mode e = ModeAsync) \<and> (e_Mode e = ModeAsync \<longrightarrow> e_Action e = ActionFlag)
       \<and> (e_Action e = ActionRedact \<longrightarrow> mc_Kind (Detector e) = KindNER) \<and> 0 < mc_Timeout (Detector e)
       \<and> mc_Endpoint (Detector e) = gm_Endpoint m \<and> mc_OnError (Detector e) \<noteq> []"
  unfolding e_def by (auto simp: resolveModel_def NewModelDetector_def Let_def)

text \<open>
  no configuration makes a guardrail model do what its position cannot: in the input and in the async
  stage an asynchronous detector only ever flags, only an entity detector (whose findings carry the text to
  replace) redacts and it does so synchronously, every detector has an endpoint to call, a positive timeout
  and a decided error mode, and a stage with detectors is enabled.
\<close>

theorem resolved_guardrails_safe:
  assumes "stage = Input (resolveGuardrails pd cfg) \<or> stage = Async (resolveGuardrails pd cfg)"
    and "e \<in> set (Models stage)"
  shows "Enabled stage \<and> (e_Mode e = ModeAsync \<longrightarrow> e_Action e = ActionFlag)
       \<and> (e_Action e = ActionRedact \<longrightarrow> mc_Kind (Detector e) = KindNER \<and> e_Mode e = ModeSync)
       \<and> 0 < mc_Timeout (Detector e) \<and> mc_Endpoint (Detector e) \<noteq> [] \<and> mc_OnError (Detector e) \<noteq> []"
proof -
  have "\<exists>ms. Models stage = resolveModels pd ms"
    using assms by (auto simp: resolveGuardrails_def Let_def no_stage_def split: option.splits if_splits)
  with assms(2) obtain m where "e = resolveModel pd m" "gm_Endpoint m \<noteq> []"
    by (auto simp: resolveModels_def)
  moreover have "Enabled stage"
    using assms by (auto simp: resolveGuardrails_def Let_def no_stage_def split: option.splits if_splits)
  ultimately show ?thesis using resolveModel_safe [of pd m] by auto
qed


section \<open>A concrete configuration\<close>

text \<open>
  Two services, a chat model on a pool of two backends and an OCR model behind a path pattern; the
  theorems above hold of something: each is applied to it, or to a value next to it.
\<close>

definition plain_guardrails :: GuardrailsConfig where
  "plain_guardrails = \<lparr>g_Action = [], g_Checks = [], g_Models = [], g_Output = None, g_Async = None,
     g_FlaggedSamples = None\<rparr>"

definition chat_service :: ServiceConfig where
  "chat_service = \<lparr>sc_Type = ''llm'', sc_Model = ''a'', sc_Default = True,
     sc_Operations = [(''chat'', [''/v1/chat''])], sc_InferenceURL = [], sc_Backends = [],
     sc_BackendPool = ''main'', sc_AcceptedExts = [], sc_MaxFileSizeMB = 0, sc_MaxConcurrentSync = 0,
     sc_PriorityReservedSync = 0, sc_InferenceHeaders = [], sc_BackendModel = [], sc_FallbackModel = [],
     sc_Provider = ''openai'', sc_ResponseCacheTTL = 0, sc_Retries = 1, sc_Guardrails = plain_guardrails,
     sc_BudgetGroup = [], sc_TokenLimits = [],
     sc_Health = \<lparr>h_Disabled = False, h_Timeout = [], h_Path = [], h_Method = []\<rparr>,
     sc_Deprecated = False, sc_Visibility = \<lparr>UserTypes = [], Groups = []\<rparr>, sc_Realtime = None\<rparr>"

definition ocr_service :: ServiceConfig where
  "ocr_service = chat_service\<lparr>sc_Type := ''ocr'', sc_Model := ''m'', sc_Default := False,
     sc_Operations := [(''infer'', [''/o/{model}''])], sc_InferenceURL := ''http://o'',
     sc_BackendPool := [], sc_Provider := []\<rparr>"

definition main_pool :: BackendPoolConfig where
  "main_pool = \<lparr>Members =
     [\<lparr>b_URL = ''http://x'', b_Weight = 1, b_Headers = [], b_Model = [], mb_RateLimit = no_limits, mb_MaxConcurrent = 0\<rparr>,
      \<lparr>b_URL = ''http://y'', b_Weight = 2, b_Headers = [], b_Model = [], mb_RateLimit = no_limits, mb_MaxConcurrent = 0\<rparr>],
     pool_Headers = [], pool_RateLimit = no_limits, pool_MaxConcurrent = 0, PriorityReservedConcurrent = 0\<rparr>"

definition sample_config :: Config where
  "sample_config = \<lparr>Addr = [], ReadTimeout = 0, IdleTimeout = 0, HealthTimeout = [], HealthInterval = [],
     RedisAddr = ''r:6379'', PendingMaxAge = [], GCInterval = [], OrphanMinAge = [], IgnorePaths = [],
     Services = [chat_service, ocr_service],
     S3 = \<lparr>s3_Endpoint = ''e'', s3_Region = ''r'', s3_Bucket = ''b''\<rparr>,
     Auth = \<lparr>Mode = [], Issuer = [], Audiences = [], Validation = [], Introspection = None\<rparr>,
     Policies = None, RateLimits = [], BackendPools = [(''main'', main_pool)],
     CircuitBreaker = \<lparr>cb_Enabled = False, FailureThreshold = 0, Cooldown = []\<rparr>\<rparr>"

definition no_durations :: parse_duration where
  "no_durations s = None"

lemmas sample_defs = sample_config_def chat_service_def ocr_service_def main_pool_def plain_guardrails_def
  no_limits_def no_durations_def

lemma sample_valid: "validate sample_config = None"
  by code_simp

abbreviation sample_pools :: "(string, BackendPoolConfig) gomap" where
  "sample_pools \<equiv> [(''main'', main_pool)]"

abbreviation sample_services :: "ServiceConfig list" where
  "sample_services \<equiv> [chat_service, ocr_service]"

lemma sample_config_simps [simp]:
  "Services sample_config = sample_services" "BackendPools sample_config = sample_pools"
  by (simp_all add: sample_config_def)

lemma sample_RouteSync:
  "RouteSync (NewRegistry no_durations sample_pools sample_services) ''/o/m'' [] =
     Inr (mk_def no_durations sample_pools ocr_service)"
  by code_simp

lemma sample_RouteAsync:
  "RouteAsync (NewRegistry no_durations sample_pools sample_services) ''llm'' [] =
     Inr (mk_def no_durations sample_pools chat_service)"
  by code_simp

lemma sample_Resolve:
  "ResolveSyncByPath (NewRegistry no_durations sample_pools sample_services) ''/v1/chat'' =
     Some (mk_def no_durations sample_pools chat_service)"
  by code_simp

theorem RouteSync_sound_witness:
  "\<exists>cfg \<in> set sample_services. mk_def no_durations sample_pools ocr_service = mk_def no_durations sample_pools cfg
     \<and> sc_Model cfg \<noteq> [] \<and> hasBackendFor cfg
     \<and> (\<exists>p \<in> set (declared_paths cfg). fits p (sc_Model cfg) ''/o/m'' [])"
  by (rule RouteSync_sound [OF sample_RouteSync])

theorem ResolveSyncByPath_agrees_witness:
  "RouteSync (NewRegistry no_durations sample_pools sample_services) ''/v1/chat'' [] =
     Inr (mk_def no_durations sample_pools chat_service)"
  using ResolveSyncByPath_agrees [OF sample_Resolve] by blast

theorem RouteSync_exact_witness:
  "RouteSync (NewRegistry no_durations sample_pools sample_services) ''/v1/chat'' ''a'' =
     Inr (mk_def no_durations sample_pools chat_service)"
  by (rule RouteSync_exact, code_simp)

theorem match_model_witness:
  "match \<lparr>pattern = ''/o/{model}/x'', segments = split_byte CHR ''/'' ''/o/{model}/x'', defsByModel = []\<rparr> ''/o/m/x''
     = Some ''m''"
  by (rule match_model [THEN iffD2, of _ "''/o/''" "''/x''"]; code_simp)

definition sample_backends :: "Backend list" where
  "sample_backends = map (\<lambda>(u, w). \<lparr>URL = u, Weight = w, Headers = [], be_Model = []\<rparr>)
     [(''x'', 1), (''z'', 0), (''y'', 2)]"

theorem OrderedBackends_correct_witness:
  "\<exists>i rest. i < length (filter (\<lambda>b. 0 < Weight b) sample_backends)
     \<and> OrderedBackends (\<lambda>_. 1) sample_backends =
         Some (filter (\<lambda>b. 0 < Weight b) sample_backends ! i # rest @ filter (\<lambda>b. \<not> 0 < Weight b) sample_backends)"
  using OrderedBackends_correct [of sample_backends "\<lambda>_. 1"]
  by (fastforce simp: sample_backends_def)

theorem ModelBudgetKeys_agree_witness:
  "map_of (ModelBudgetKeys (NewRegistry no_durations sample_pools sample_services)) ''a'' = Some ''a''"
  using ModelBudgetKeys_agree [OF sample_valid, of no_durations sample_pools "''llm''" "[]"] sample_RouteAsync
  by (simp add: chat_service_def budget_key_def)

theorem validated_backends_witness:
  "Backends (mk_def no_durations (BackendPools sample_config) chat_service) \<noteq> []"
  using validated_backends [OF sample_valid, of chat_service no_durations]
  by (simp add: hasBackendFor_def chat_service_def)

definition sample_detector :: GuardrailModelConfig where
  "sample_detector = \<lparr>gm_Name = ''ner'', gm_Endpoint = ''http://n'', gm_Kind = ''ner'', gm_Categories = [],
     gm_Mode = ''sync'', gm_Action = [], gm_Threshold = 0, gm_Timeout = [], gm_OnError = [],
     gm_MaxInputTokens = 0, gm_CacheTTL = []\<rparr>"

theorem resolved_guardrails_safe_witness:
  "0 < mc_Timeout (Detector (resolveModel no_durations sample_detector))"
proof -
  let ?cfg = "plain_guardrails\<lparr>g_Models := [sample_detector]\<rparr>"
  have "resolveModel no_durations sample_detector \<in> set (Models (Input (resolveGuardrails no_durations ?cfg)))"
    by (simp add: resolveGuardrails_def resolveModels_def sample_detector_def Let_def no_stage_def)
  from resolved_guardrails_safe [OF disjI1 [OF refl] this] show ?thesis by blast
qed

end
