(* ===== verification/Redis_Server.thy ===== *)
theory Redis_Server
  imports Prelude "HOL-Library.Finite_Map"
begin

text \<open>
  The interface between the gateway and its Redis server. Redis and the go-redis client are not part
  of the repository, so they are a parameter: a record of commands over an abstract server state. The
  Lua scripts and client calls of the components are written against that record.

  What the code relies on is the locale \<open>redis_server\<close>: every command acts on the keyspace (what the
  server holds, as seen through \<open>view\<close>) the way the Redis command reference documents it. The
  documented behaviour is written as a reference semantics on keyspaces. Nothing is assumed of
  \<open>net\<close>, the step taken before each round trip: the call may fail, and other clients and the clock may
  have changed the keyspace at will.
\<close>

section \<open>Operations that may fail\<close>

text \<open>
  An operation maps a server state to a result, \<open>None\<close> where the client gets an error (an error reply,
  or a network failure), and the new server state. \<open>rbind\<close> stops at the first error and keeps the
  effects so far, as \<^verbatim>\<open>redis.call\<close> does inside a script.
\<close>

type_synonym ('r, 'a) rop = "'r \<Rightarrow> 'a option \<times> 'r"

definition rret :: "'a \<Rightarrow> ('r, 'a) rop" where
  "rret x s = (Some x, s)"

definition rbind :: "('r, 'a) rop \<Rightarrow> ('a \<Rightarrow> ('r, 'b) rop) \<Rightarrow> ('r, 'b) rop" where
  "rbind m f s = (case m s of (None, s') \<Rightarrow> (None, s') | (Some x, s') \<Rightarrow> f x s')"

definition rfail :: "('r, 'a) rop" where
  "rfail s = (None, s)"

lemma rbind_simps [script_simps]:
  "m s = (None, s') \<Longrightarrow> rbind m f s = (None, s')"
  "m s = (Some x, s') \<Longrightarrow> rbind m f s = f x s'"
  by (simp_all add: rbind_def)

lemma rret_apply [script_simps]: "rret x s = (Some x, s)"
  by (simp add: rret_def)

lemma rfail_apply [script_simps]: "rfail s = (None, s)"
  by (simp add: rfail_def)

section \<open>The commands\<close>

text \<open>
  The outcome of the next round trip: it reaches the server and the reply arrives, it does not reach
  the server, or the server runs it and the reply is lost.
\<close>

datatype link = Delivered | NotSent | ReplyLost

text \<open>
  One field per command the gateway issues. Times to live are seconds for \<^verbatim>\<open>EXPIRE\<close> and
  \<^verbatim>\<open>TTL\<close>, milliseconds (the resolution of the server) for the expiry of \<^verbatim>\<open>SET\<close>.
  \<^verbatim>\<open>INCR\<close>, \<^verbatim>\<open>DECR\<close> and \<^verbatim>\<open>INCRBY\<close> are \<open>INCRBY\<close>.
\<close>

record 'r redis =
  net :: "'r \<Rightarrow> link \<times> 'r"
  GET :: "string \<Rightarrow> ('r, string option) rop"
  SET :: "string \<Rightarrow> string \<Rightarrow> int option \<Rightarrow> ('r, unit) rop"
  SETNX :: "string \<Rightarrow> string \<Rightarrow> int option \<Rightarrow> ('r, bool) rop"
  INCRBY :: "string \<Rightarrow> int \<Rightarrow> ('r, int) rop"
  EXPIRE :: "string \<Rightarrow> int \<Rightarrow> ('r, int) rop"
  TTL :: "string \<Rightarrow> ('r, int) rop"
  DEL :: "string list \<Rightarrow> ('r, int) rop"
  EXISTS :: "string \<Rightarrow> ('r, int) rop"
  LPUSH :: "string \<Rightarrow> string \<Rightarrow> ('r, int) rop"
  RPUSH :: "string \<Rightarrow> string \<Rightarrow> ('r, int) rop"
  LREM1 :: "string \<Rightarrow> string \<Rightarrow> ('r, int) rop"
  LRANGE_ALL :: "string \<Rightarrow> ('r, string list) rop"
  LMOVE_LR :: "string \<Rightarrow> string \<Rightarrow> ('r, string option) rop"
  ZADD :: "string \<Rightarrow> int \<Rightarrow> string \<Rightarrow> ('r, int) rop"
  ZREM :: "string \<Rightarrow> string \<Rightarrow> ('r, int) rop"
  ZRANGE_ALL :: "string \<Rightarrow> ('r, string list) rop"
  ZRANK :: "string \<Rightarrow> string \<Rightarrow> ('r, int option) rop"
  ZCARD :: "string \<Rightarrow> ('r, int) rop"
  ZREVRANGE :: "string \<Rightarrow> int \<Rightarrow> int \<Rightarrow> ('r, string list) rop"
  ZRANGEBYSCORE :: "string \<Rightarrow> int option \<Rightarrow> int \<Rightarrow> ('r, string list) rop"
  MGET :: "string list \<Rightarrow> ('r, string option list) rop"
  PUBLISH :: "string \<Rightarrow> string \<Rightarrow> ('r, unit) rop"
  SCAN :: "nat \<Rightarrow> string \<Rightarrow> ('r, string list \<times> nat) rop"

text \<open>A client call: one round trip that runs a command, a transaction or a script.\<close>

definition rcall :: "'r redis \<Rightarrow> ('r, 'a) rop \<Rightarrow> ('r, 'a) rop" where
  "rcall R m s =
     (case net R s of
        (Delivered, s1) \<Rightarrow> m s1
      | (NotSent, s1) \<Rightarrow> (None, s1)
      | (ReplyLost, s1) \<Rightarrow> (None, snd (m s1)))"

definition INCR :: "'r redis \<Rightarrow> string \<Rightarrow> ('r, int) rop" where
  "INCR R k = INCRBY R k 1"

definition DECR :: "'r redis \<Rightarrow> string \<Rightarrow> ('r, int) rop" where
  "DECR R k = INCRBY R k (- 1)"

section \<open>Documented semantics of the commands\<close>

datatype rval = RStr string | RList "string list" | RZSet "(int \<times> string) list"

text \<open>A key holds a value and, where one is set, the clock time (in milliseconds) of its expiry.\<close>

record entry =
  rv :: rval
  deadline :: "int option"

record keyspace =
  db :: "(string, entry) fmap"
  clock :: int

definition alive :: "int \<Rightarrow> entry \<Rightarrow> bool" where
  "alive t e = (case deadline e of None \<Rightarrow> True | Some d \<Rightarrow> t < d)"

definition look :: "keyspace \<Rightarrow> string \<Rightarrow> entry option" where
  "look ks k = (case fmlookup (db ks) k of None \<Rightarrow> None
                | Some e \<Rightarrow> if alive (clock ks) e then Some e else None)"

definition put :: "string \<Rightarrow> entry \<Rightarrow> keyspace \<Rightarrow> keyspace" where
  "put k e ks = ks\<lparr>db := fmupd k e (db ks)\<rparr>"

definition drop_key :: "string \<Rightarrow> keyspace \<Rightarrow> keyspace" where
  "drop_key k ks = ks\<lparr>db := fmdrop k (db ks)\<rparr>"

text \<open>A container that becomes empty is removed.\<close>

definition put_list :: "string \<Rightarrow> string list \<Rightarrow> int option \<Rightarrow> keyspace \<Rightarrow> keyspace" where
  "put_list k xs d ks = (if xs = [] then drop_key k ks else put k \<lparr>rv = RList xs, deadline = d\<rparr> ks)"

definition put_zset :: "string \<Rightarrow> (int \<times> string) list \<Rightarrow> int option \<Rightarrow> keyspace \<Rightarrow> keyspace" where
  "put_zset k zs d ks = (if zs = [] then drop_key k ks else put k \<lparr>rv = RZSet zs, deadline = d\<rparr> ks)"

definition ks_get :: "string \<Rightarrow> (keyspace, string option) rop" where
  "ks_get k ks =
     (case look ks k of
        None \<Rightarrow> (Some None, ks)
      | Some e \<Rightarrow> (case rv e of RStr v \<Rightarrow> (Some (Some v), ks) | _ \<Rightarrow> (None, ks)))"

definition ks_set :: "string \<Rightarrow> string \<Rightarrow> int option \<Rightarrow> (keyspace, unit) rop" where
  "ks_set k v ttl ks =
     (Some (), put k \<lparr>rv = RStr v, deadline = map_option (\<lambda>t. clock ks + t) ttl\<rparr> ks)"

definition ks_setnx :: "string \<Rightarrow> string \<Rightarrow> int option \<Rightarrow> (keyspace, bool) rop" where
  "ks_setnx k v ttl ks =
     (case look ks k of
        Some _ \<Rightarrow> (Some False, ks)
      | None \<Rightarrow> (Some True, put k \<lparr>rv = RStr v, deadline = map_option (\<lambda>t. clock ks + t) ttl\<rparr> ks))"

definition ks_incrby :: "string \<Rightarrow> int \<Rightarrow> (keyspace, int) rop" where
  "ks_incrby k n ks =
     (case look ks k of
        None \<Rightarrow> if int64 n then (Some n, put k \<lparr>rv = RStr (itoa n), deadline = None\<rparr> ks) else (None, ks)
      | Some e \<Rightarrow>
          (case rv e of
             RStr v \<Rightarrow>
               (case atoi v of
                  None \<Rightarrow> (None, ks)
                | Some c \<Rightarrow> if int64 (c + n) then (Some (c + n), put k (e\<lparr>rv := RStr (itoa (c + n))\<rparr>) ks)
                            else (None, ks))
           | _ \<Rightarrow> (None, ks)))"

definition ks_expire :: "string \<Rightarrow> int \<Rightarrow> (keyspace, int) rop" where
  "ks_expire k t ks =
     (case look ks k of
        None \<Rightarrow> (Some 0, ks)
      | Some e \<Rightarrow>
          if t \<le> 0 then (Some 1, drop_key k ks)
          else (Some 1, put k (e\<lparr>deadline := Some (clock ks + 1000 * t)\<rparr>) ks))"

definition ks_ttl :: "string \<Rightarrow> (keyspace, int) rop" where
  "ks_ttl k ks =
     (case look ks k of
        None \<Rightarrow> (Some (- 2), ks)
      | Some e \<Rightarrow> (case deadline e of None \<Rightarrow> (Some (- 1), ks)
                   | Some d \<Rightarrow> (Some ((d - clock ks + 500) div 1000), ks)))"

fun ks_del :: "string list \<Rightarrow> (keyspace, int) rop" where
  "ks_del [] ks = (Some 0, ks)"
| "ks_del (k # keys) ks =
     (let hit = (if look ks k = None then 0 else 1); (n, ks') = ks_del keys (drop_key k ks)
      in (map_option (\<lambda>m. hit + m) n, ks'))"

definition ks_exists :: "string \<Rightarrow> (keyspace, int) rop" where
  "ks_exists k ks = (Some (if look ks k = None then 0 else 1), ks)"

text \<open>A list or sorted set under a key: empty where the key is absent, an error for another type.\<close>

definition list_at :: "keyspace \<Rightarrow> string \<Rightarrow> (string list \<times> int option) option" where
  "list_at ks k = (case look ks k of None \<Rightarrow> Some ([], None)
                   | Some e \<Rightarrow> (case rv e of RList xs \<Rightarrow> Some (xs, deadline e) | _ \<Rightarrow> None))"

definition zset_at :: "keyspace \<Rightarrow> string \<Rightarrow> ((int \<times> string) list \<times> int option) option" where
  "zset_at ks k = (case look ks k of None \<Rightarrow> Some ([], None)
                   | Some e \<Rightarrow> (case rv e of RZSet zs \<Rightarrow> Some (zs, deadline e) | _ \<Rightarrow> None))"

definition ks_lpush :: "string \<Rightarrow> string \<Rightarrow> (keyspace, int) rop" where
  "ks_lpush k v ks = (case list_at ks k of None \<Rightarrow> (None, ks)
     | Some (xs, d) \<Rightarrow> (Some (1 + int (length xs)), put_list k (v # xs) d ks))"

definition ks_rpush :: "string \<Rightarrow> string \<Rightarrow> (keyspace, int) rop" where
  "ks_rpush k v ks = (case list_at ks k of None \<Rightarrow> (None, ks)
     | Some (xs, d) \<Rightarrow> (Some (1 + int (length xs)), put_list k (xs @ [v]) d ks))"

definition ks_lrem1 :: "string \<Rightarrow> string \<Rightarrow> (keyspace, int) rop" where
  "ks_lrem1 k v ks = (case list_at ks k of None \<Rightarrow> (None, ks)
     | Some (xs, d) \<Rightarrow> if v \<in> set xs then (Some 1, put_list k (remove1 v xs) d ks) else (Some 0, ks))"

definition ks_lrange_all :: "string \<Rightarrow> (keyspace, string list) rop" where
  "ks_lrange_all k ks = (map_option fst (list_at ks k), ks)"

text \<open>\<^verbatim>\<open>LMOVE src dst LEFT RIGHT\<close>; nil when the source is empty.\<close>

definition ks_lmove_lr :: "string \<Rightarrow> string \<Rightarrow> (keyspace, string option) rop" where
  "ks_lmove_lr src dst ks =
     (case list_at ks src of
        None \<Rightarrow> (None, ks)
      | Some ([], _) \<Rightarrow> (Some None, ks)
      | Some (x # xs, d) \<Rightarrow>
          (case list_at ks dst of
             None \<Rightarrow> (None, ks)
           | Some _ \<Rightarrow>
               (let ks1 = put_list src xs d ks in
                (case list_at ks1 dst of
                   None \<Rightarrow> (None, ks1)
                 | Some (ys, d') \<Rightarrow> (Some (Some x), put_list dst (ys @ [x]) d' ks1)))))"

text \<open>A sorted set is kept ordered by score, then by member.\<close>

definition zremove :: "string \<Rightarrow> (int \<times> string) list \<Rightarrow> (int \<times> string) list" where
  "zremove m zs = filter (\<lambda>z. snd z \<noteq> m) zs"

definition zinsert :: "int \<Rightarrow> string \<Rightarrow> (int \<times> string) list \<Rightarrow> (int \<times> string) list" where
  "zinsert sc m zs =
     (let zs' = zremove m zs; before = (\<lambda>z. fst z < sc \<or> (fst z = sc \<and> snd z < m))
      in filter before zs' @ [(sc, m)] @ filter (\<lambda>z. \<not> before z) zs')"

definition ks_zadd :: "string \<Rightarrow> int \<Rightarrow> string \<Rightarrow> (keyspace, int) rop" where
  "ks_zadd k sc m ks = (case zset_at ks k of None \<Rightarrow> (None, ks)
     | Some (zs, d) \<Rightarrow> (Some (if m \<in> snd ` set zs then 0 else 1), put_zset k (zinsert sc m zs) d ks))"

definition ks_zrem :: "string \<Rightarrow> string \<Rightarrow> (keyspace, int) rop" where
  "ks_zrem k m ks = (case zset_at ks k of None \<Rightarrow> (None, ks)
     | Some (zs, d) \<Rightarrow> if m \<in> snd ` set zs then (Some 1, put_zset k (zremove m zs) d ks) else (Some 0, ks))"

definition ks_zrange_all :: "string \<Rightarrow> (keyspace, string list) rop" where
  "ks_zrange_all k ks = (map_option (\<lambda>p. map snd (fst p)) (zset_at ks k), ks)"

fun index_of :: "string \<Rightarrow> (int \<times> string) list \<Rightarrow> int option" where
  "index_of m [] = None"
| "index_of m (z # zs) = (if snd z = m then Some 0 else map_option (\<lambda>i. 1 + i) (index_of m zs))"

definition ks_zrank :: "string \<Rightarrow> string \<Rightarrow> (keyspace, int option) rop" where
  "ks_zrank k m ks = (map_option (\<lambda>p. index_of m (fst p)) (zset_at ks k), ks)"

definition ks_zcard :: "string \<Rightarrow> (keyspace, int) rop" where
  "ks_zcard k ks = (map_option (\<lambda>p. int (length (fst p))) (zset_at ks k), ks)"

text \<open>The elements from index \<open>start\<close> to \<open>stop\<close>, a negative index counting from the end.\<close>

definition range_idx :: "int \<Rightarrow> int \<Rightarrow> 'a list \<Rightarrow> 'a list" where
  "range_idx start stop xs =
     (let n = int (length xs);
          a = max 0 (if start < 0 then n + start else start);
          b = min (n - 1) (if stop < 0 then n + stop else stop)
      in if a > b then [] else take (nat (b - a + 1)) (drop (nat a) xs))"

definition ks_zrevrange :: "string \<Rightarrow> int \<Rightarrow> int \<Rightarrow> (keyspace, string list) rop" where
  "ks_zrevrange k start stop ks =
     (map_option (\<lambda>p. range_idx start stop (rev (map snd (fst p)))) (zset_at ks k), ks)"

text \<open>The members with a score of at least \<open>lo\<close> (\<open>None\<close> for \<^verbatim>\<open>-inf\<close>) and at most \<open>hi\<close>.\<close>

definition ks_zrangebyscore :: "string \<Rightarrow> int option \<Rightarrow> int \<Rightarrow> (keyspace, string list) rop" where
  "ks_zrangebyscore k lo hi ks =
     (map_option (\<lambda>p. map snd (filter (\<lambda>z. (case lo of None \<Rightarrow> True | Some l \<Rightarrow> l \<le> fst z) \<and> fst z \<le> hi) (fst p))) (zset_at ks k), ks)"

text \<open>\<^verbatim>\<open>MGET\<close> answers nil for a key that is absent or not a string.\<close>

definition ks_mget :: "string list \<Rightarrow> (keyspace, string option list) rop" where
  "ks_mget keys ks =
     (Some (map (\<lambda>k. case look ks k of Some e \<Rightarrow> (case rv e of RStr v \<Rightarrow> Some v | _ \<Rightarrow> None) | None \<Rightarrow> None) keys), ks)"

text \<open>A published message reaches the subscribers; it leaves no trace in the keyspace.\<close>

definition ks_publish :: "string \<Rightarrow> string \<Rightarrow> (keyspace, unit) rop" where
  "ks_publish channel msg ks = (Some (), ks)"

text \<open>
  \<^verbatim>\<open>SCAN\<close> with a pattern, all in one batch: \<open>*\<close> stands for any text, \<open>?\<close> for one byte, a
  backslash quotes the next byte (character classes are not part of this reference).
\<close>

fun glob :: "string \<Rightarrow> string \<Rightarrow> bool" where
  "glob [] s = (s = [])"
| "glob (p # ps) [] = (p = CHR ''*'' \<and> glob ps [])"
| "glob (p # ps) (c # cs) =
     (if p = CHR ''*'' then glob ps (c # cs) \<or> glob (p # ps) cs
      else if p = CHR ''?'' then glob ps cs
      else if p = CHR 92 \<and> ps \<noteq> [] then hd ps = c \<and> glob (tl ps) cs
      else p = c \<and> glob ps cs)"

definition ks_scan :: "nat \<Rightarrow> string \<Rightarrow> (keyspace, string list \<times> nat) rop" where
  "ks_scan cursor pat ks =
     (Some (filter (\<lambda>k. look ks k \<noteq> None \<and> glob pat k) (sorted_list_of_fset (fmdom (db ks))), 0), ks)"

section \<open>What a Redis server promises\<close>

text \<open>
  \<open>sim view c d\<close>: the server's operation \<open>c\<close> answers as the documented operation \<open>d\<close> does on the
  keyspace it holds, and leaves the keyspace that \<open>d\<close> leaves. It is closed under sequencing, so a
  script over the server's commands simulates the same script over the documented ones.
\<close>

definition sim :: "('r \<Rightarrow> 'k) \<Rightarrow> ('r, 'a) rop \<Rightarrow> ('k, 'a) rop \<Rightarrow> bool" where
  "sim view c d \<longleftrightarrow> (\<forall>s. fst (c s) = fst (d (view s)) \<and> view (snd (c s)) = snd (d (view s)))"

lemma simD: "sim view c d \<Longrightarrow> d (view s) = (r, ks) \<Longrightarrow> fst (c s) = r \<and> view (snd (c s)) = ks"
  by (auto simp: sim_def dest: spec [of _ s])

lemma sim_rret [intro]: "sim view (rret x) (rret x)"
  by (simp add: sim_def rret_def)

lemma sim_rfail [intro]: "sim view rfail rfail"
  by (simp add: sim_def rfail_def)

lemma sim_rbind [intro]:
  assumes "sim view c d" and "\<And>x. sim view (f x) (g x)"
  shows "sim view (rbind c f) (rbind d g)"
  unfolding sim_def
proof (intro allI)
  fix s
  obtain r s1 where c: "c s = (r, s1)" by (cases "c s")
  with assms(1) have d: "d (view s) = (r, view s1)"
    by (metis fst_conv prod.collapse sim_def snd_conv)
  show "fst (rbind c f s) = fst (rbind d g (view s)) \<and>
        view (snd (rbind c f s)) = snd (rbind d g (view s))"
    using assms(2) by (cases r) (auto simp: rbind_def c d sim_def)
qed

lemma sim_if [intro]:
  "(b \<Longrightarrow> sim view c d) \<Longrightarrow> (\<not> b \<Longrightarrow> sim view c' d') \<Longrightarrow>
   sim view (if b then c else c') (if b then d else d')"
  by auto

lemma sim_option [intro]:
  "sim view c d \<Longrightarrow> (\<And>x. sim view (f x) (g x)) \<Longrightarrow>
   sim view (case x of None \<Rightarrow> c | Some y \<Rightarrow> f y) (case x of None \<Rightarrow> d | Some y \<Rightarrow> g y)"
  by (cases x) auto

locale redis_server =
  fixes R :: "'r redis" and view :: "'r \<Rightarrow> keyspace"
  assumes GET [intro]: "sim view (GET R k) (ks_get k)"
    and SET [intro]: "sim view (SET R k v t) (ks_set k v t)"
    and SETNX [intro]: "sim view (SETNX R k v t) (ks_setnx k v t)"
    and INCRBY [intro]: "sim view (INCRBY R k n) (ks_incrby k n)"
    and EXPIRE [intro]: "sim view (EXPIRE R k n) (ks_expire k n)"
    and TTL [intro]: "sim view (TTL R k) (ks_ttl k)"
    and DEL [intro]: "sim view (DEL R keys) (ks_del keys)"
    and EXISTS [intro]: "sim view (EXISTS R k) (ks_exists k)"
    and LPUSH [intro]: "sim view (LPUSH R k v) (ks_lpush k v)"
    and RPUSH [intro]: "sim view (RPUSH R k v) (ks_rpush k v)"
    and LREM1 [intro]: "sim view (LREM1 R k v) (ks_lrem1 k v)"
    and LRANGE_ALL [intro]: "sim view (LRANGE_ALL R k) (ks_lrange_all k)"
    and LMOVE_LR [intro]: "sim view (LMOVE_LR R a b) (ks_lmove_lr a b)"
    and ZADD [intro]: "sim view (ZADD R k sc v) (ks_zadd k sc v)"
    and ZREM [intro]: "sim view (ZREM R k v) (ks_zrem k v)"
    and ZRANGE_ALL [intro]: "sim view (ZRANGE_ALL R k) (ks_zrange_all k)"
    and ZRANK [intro]: "sim view (ZRANK R k v) (ks_zrank k v)"
    and ZCARD [intro]: "sim view (ZCARD R k) (ks_zcard k)"
    and ZREVRANGE [intro]: "sim view (ZREVRANGE R k i j) (ks_zrevrange k i j)"
    and ZRANGEBYSCORE [intro]: "sim view (ZRANGEBYSCORE R k lo j) (ks_zrangebyscore k lo j)"
    and MGET [intro]: "sim view (MGET R keys) (ks_mget keys)"
    and PUBLISH [intro]: "sim view (PUBLISH R ch v) (ks_publish ch v)"
begin

lemma INCR [intro]: "sim view (INCR R k) (ks_incrby k 1)"
  by (simp add: INCR_def INCRBY)

lemma DECR [intro]: "sim view (DECR R k) (ks_incrby k (- 1))"
  by (simp add: DECR_def INCRBY)

end

section \<open>The keyspace itself as a server\<close>

text \<open>
  The documented semantics, run directly, is a server that keeps its promises. \<open>ks_server n\<close> has the
  network behaviour \<open>n\<close>; \<open>ks_link\<close> is the one where every call goes through and nothing interferes.
\<close>

definition ks_link :: "keyspace \<Rightarrow> link \<times> keyspace" where
  "ks_link ks = (Delivered, ks)"

definition ks_server :: "(keyspace \<Rightarrow> link \<times> keyspace) \<Rightarrow> keyspace redis" where
  "ks_server n = \<lparr>net = n, GET = ks_get, SET = ks_set, SETNX = ks_setnx, INCRBY = ks_incrby,
     EXPIRE = ks_expire, TTL = ks_ttl, DEL = ks_del, EXISTS = ks_exists, LPUSH = ks_lpush,
     RPUSH = ks_rpush, LREM1 = ks_lrem1, LRANGE_ALL = ks_lrange_all, LMOVE_LR = ks_lmove_lr,
     ZADD = ks_zadd, ZREM = ks_zrem, ZRANGE_ALL = ks_zrange_all, ZRANK = ks_zrank,
     ZCARD = ks_zcard, ZREVRANGE = ks_zrevrange, ZRANGEBYSCORE = ks_zrangebyscore, MGET = ks_mget,
     PUBLISH = ks_publish, SCAN = ks_scan\<rparr>"

lemma sim_refl [intro]: "sim id c c" "sim (\<lambda>s. s) c c"
  by (simp_all add: sim_def)

interpretation kss: redis_server "ks_server n" id
  by unfold_locales (simp_all add: ks_server_def sim_refl)

lemma ks_server_simps [script_simps]:
  "net (ks_server n) = n" "GET (ks_server n) = ks_get" "SET (ks_server n) = ks_set"
  "SETNX (ks_server n) = ks_setnx" "INCRBY (ks_server n) = ks_incrby"
  "EXPIRE (ks_server n) = ks_expire" "TTL (ks_server n) = ks_ttl" "DEL (ks_server n) = ks_del"
  "EXISTS (ks_server n) = ks_exists" "LPUSH (ks_server n) = ks_lpush" "RPUSH (ks_server n) = ks_rpush"
  "LREM1 (ks_server n) = ks_lrem1" "LRANGE_ALL (ks_server n) = ks_lrange_all"
  "LMOVE_LR (ks_server n) = ks_lmove_lr" "ZADD (ks_server n) = ks_zadd" "ZREM (ks_server n) = ks_zrem"
  "ZRANGE_ALL (ks_server n) = ks_zrange_all" "ZRANK (ks_server n) = ks_zrank"
  "ZCARD (ks_server n) = ks_zcard" "ZREVRANGE (ks_server n) = ks_zrevrange"
  "ZRANGEBYSCORE (ks_server n) = ks_zrangebyscore" "MGET (ks_server n) = ks_mget"
  "PUBLISH (ks_server n) = ks_publish" "SCAN (ks_server n) = ks_scan"
  by (simp_all add: ks_server_def)

section \<open>Iterating over the keys\<close>

text \<open>
  A full iteration with \<^verbatim>\<open>SCAN\<close> from cursor 0 until the server answers with cursor 0 again, in at
  most \<open>fuel\<close> batches. What the documentation promises of it, for a pattern that is one \<open>*\<close> between two
  literal texts: it ends, it leaves the keyspace alone, and it finds exactly the keys that start with the
  first text, end with the second, and have anything in between.
\<close>

fun scan_batches :: "'r redis \<Rightarrow> string \<Rightarrow> nat \<Rightarrow> nat \<Rightarrow> 'r \<Rightarrow> (string list \<times> 'r) option" where
  "scan_batches R pat 0 cursor s = None"
| "scan_batches R pat (Suc fuel) cursor s =
     (case SCAN R cursor pat s of
        (None, _) \<Rightarrow> None
      | (Some (batch, nxt), s') \<Rightarrow>
          if nxt = 0 then Some (batch, s')
          else map_option (\<lambda>(keys, s''). (batch @ keys, s'')) (scan_batches R pat fuel nxt s'))"

definition literal :: "string \<Rightarrow> bool" where
  "literal p \<longleftrightarrow> set p \<inter> {CHR ''*'', CHR ''?'', CHR ''['', CHR '']'', CHR 92} = {}"

locale redis_scan = redis_server +
  assumes SCAN: "literal p \<Longrightarrow> literal q \<Longrightarrow>
    \<exists>fuel keys s'. scan_batches R (p @ ''*'' @ q) fuel 0 s = Some (keys, s')
      \<and> view s' = view s \<and> set keys = {k. look (view s) k \<noteq> None \<and> (\<exists>m. k = p @ m @ q)}"

lemma glob_literal: "literal q \<Longrightarrow> glob q k \<longleftrightarrow> k = q"
proof (induction q arbitrary: k)
  case (Cons a q)
  then show ?case by (cases k) (auto simp: literal_def)
qed simp

lemma glob_star: "literal q \<Longrightarrow> glob (CHR ''*'' # q) k \<longleftrightarrow> (\<exists>m. k = m @ q)"
proof (induction k)
  case Nil
  then show ?case by (auto simp: glob_literal)
next
  case (Cons c k)
  have "(\<exists>m. c # k = m @ q) \<longleftrightarrow> c # k = q \<or> (\<exists>m. k = m @ q)"
    by (auto simp: Cons_eq_append_conv)
  with Cons show ?case by (auto simp: glob_literal)
qed

lemma glob_between: "literal p \<Longrightarrow> literal q \<Longrightarrow> glob (p @ ''*'' @ q) k \<longleftrightarrow> (\<exists>m. k = p @ m @ q)"
proof (induction p arbitrary: k)
  case Nil
  then show ?case by (simp add: glob_star)
next
  case (Cons a p)
  then show ?case by (cases k) (auto simp: literal_def)
qed

interpretation kss: redis_scan "ks_server n" id
proof
  fix p q :: string and s :: keyspace
  assume p: "literal p" "literal q"
  have "k |\<in>| fmdom (db s)" if "look s k \<noteq> None" for k
    using that by (auto simp: look_def fmdomI split: option.splits)
  then have "set (filter (\<lambda>k. look s k \<noteq> None \<and> glob (p @ ''*'' @ q) k) (sorted_list_of_fset (fmdom (db s))))
      = {k. look s k \<noteq> None \<and> (\<exists>m. k = p @ m @ q)}"
    unfolding glob_between [OF p] by auto
  then show "\<exists>fuel keys s'. scan_batches (ks_server n) (p @ ''*'' @ q) fuel 0 s = Some (keys, s')
      \<and> id s' = id s \<and> set keys = {k. look (id s) k \<noteq> None \<and> (\<exists>m. k = p @ m @ q)}"
    by (intro exI [of _ 1]) (simp add: ks_server_def ks_scan_def)
qed

section \<open>Facts on keyspaces\<close>

lemma clock_put [simp]: "clock (put k e ks) = clock ks"
  by (simp add: put_def)

lemma clock_drop_key [simp]: "clock (drop_key k ks) = clock ks"
  by (simp add: drop_key_def)

lemma look_put_other [simp]: "k \<noteq> k' \<Longrightarrow> look (put k e ks) k' = look ks k'"
  by (simp add: look_def put_def split: option.splits)

lemma look_put_same: "look (put k e ks) k = (if alive (clock ks) e then Some e else None)"
  by (simp add: look_def put_def)

lemma look_put_live [simp]: "alive (clock ks) e \<Longrightarrow> look (put k e ks) k = Some e"
  by (simp add: look_put_same)

lemma look_drop [simp]: "look (drop_key k ks) k' = (if k = k' then None else look ks k')"
  by (simp add: look_def drop_key_def split: option.splits)

lemma look_alive: "look ks k = Some e \<Longrightarrow> alive (clock ks) e"
  by (auto simp: look_def split: option.splits if_splits)

lemma alive_rv [simp]: "alive t (e\<lparr>rv := v\<rparr>) = alive t e"
  by (simp add: alive_def)

lemma alive_no_deadline [simp]: "alive t \<lparr>rv = v, deadline = None\<rparr>"
  by (simp add: alive_def)

lemma alive_deadline [simp]: "alive t \<lparr>rv = v, deadline = Some d\<rparr> \<longleftrightarrow> t < d"
  by (simp add: alive_def)

lemma alive_set_deadline [simp]: "alive t (e\<lparr>deadline := Some d\<rparr>) \<longleftrightarrow> t < d"
  by (simp add: alive_def)

lemma put_put [simp]: "put k e (put k e' ks) = put k e ks"
  by (simp add: put_def)

text \<open>
  A counter: an integer under a string key, 0 where the key is absent. \<open>counter ks k = None\<close> where the
  key holds something else.
\<close>

definition counter :: "keyspace \<Rightarrow> string \<Rightarrow> int option" where
  "counter ks k = (case look ks k of None \<Rightarrow> Some 0
                   | Some e \<Rightarrow> (case rv e of RStr v \<Rightarrow> atoi v | _ \<Rightarrow> None))"

definition expiry :: "keyspace \<Rightarrow> string \<Rightarrow> int option" where
  "expiry ks k = (case look ks k of None \<Rightarrow> None | Some e \<Rightarrow> deadline e)"

lemma counter_put_other [simp]: "k \<noteq> k' \<Longrightarrow> counter (put k e ks) k' = counter ks k'"
  by (simp add: counter_def)

lemma counter_absent: "look ks k = None \<Longrightarrow> counter ks k = Some 0"
  by (simp add: counter_def)

lemma atoi_int64: "atoi s = Some i \<Longrightarrow> int64 i"
  by (auto simp: atoi_def Let_def split: if_splits option.splits list.splits)

lemma counter_int64: "counter ks k = Some c \<Longrightarrow> int64 c"
  by (auto simp: counter_def int64_def [of 0] dest: atoi_int64 split: option.splits rval.splits)

text \<open>What an increment does to a counter: the entry it writes keeps the expiry of the key.\<close>

definition with_count :: "string \<Rightarrow> int \<Rightarrow> keyspace \<Rightarrow> keyspace" where
  "with_count k c ks = put k \<lparr>rv = RStr (itoa c), deadline = expiry ks k\<rparr> ks"

lemma expiry_alive: "expiry ks k = Some d \<Longrightarrow> clock ks < d"
  by (auto simp: expiry_def alive_def dest!: look_alive split: option.splits)

lemma alive_with_expiry [simp]: "alive (clock ks) \<lparr>rv = v, deadline = expiry ks k\<rparr>"
  by (cases "expiry ks k") (auto dest: expiry_alive)

lemma clock_with_count [simp]: "clock (with_count k c ks) = clock ks"
  by (simp add: with_count_def)

lemma look_with_count [simp]:
  "look (with_count k c ks) k' =
     (if k = k' then Some \<lparr>rv = RStr (itoa c), deadline = expiry ks k\<rparr> else look ks k')"
  by (simp add: with_count_def)

lemma counter_with_count [simp]:
  "int64 c \<Longrightarrow> counter (with_count k c ks) k' = (if k = k' then Some c else counter ks k')"
  by (simp add: counter_def)

lemma expiry_with_count [simp]: "expiry (with_count k c ks) k' = expiry ks k'"
  by (simp add: expiry_def)

lemma with_count_with_count [simp]: "with_count k c (with_count k c' ks) = with_count k c ks"
  by (simp add: with_count_def [of k c "with_count k c' ks"]) (simp add: with_count_def)

lemma ks_incrby_counter [script_simps]:
  assumes "counter ks k = Some c" and "int64 (c + n)"
  shows "ks_incrby k n ks = (Some (c + n), with_count k (c + n) ks)"
proof (cases "look ks k")
  case None
  with assms show ?thesis
    by (simp add: ks_incrby_def counter_def with_count_def expiry_def)
next
  case (Some e)
  obtain v d where e: "e = \<lparr>rv = v, deadline = d\<rparr>"
    by (cases e) auto
  with Some assms show ?thesis
    by (auto simp: ks_incrby_def counter_def with_count_def expiry_def split: rval.splits)
qed

lemma ks_incrby_cases:
  "ks_incrby k n ks = (case counter ks k of
      None \<Rightarrow> (None, ks)
    | Some c \<Rightarrow> if int64 (c + n) then (Some (c + n), with_count k (c + n) ks) else (None, ks))"
proof (cases "counter ks k")
  case None
  then show ?thesis
    by (auto simp: ks_incrby_def counter_def split: option.splits rval.splits)
next
  case (Some c)
  show ?thesis
  proof (cases "int64 (c + n)")
    case True
    with Some show ?thesis by (simp add: ks_incrby_counter)
  next
    case False
    with Some show ?thesis
      by (auto simp: ks_incrby_def counter_def split: option.splits rval.splits)
  qed
qed

text \<open>What \<^verbatim>\<open>EXPIRE\<close> with a positive time to live does to a present key.\<close>

definition with_expiry :: "string \<Rightarrow> int \<Rightarrow> keyspace \<Rightarrow> keyspace" where
  "with_expiry k d ks = (case look ks k of None \<Rightarrow> ks | Some e \<Rightarrow> put k (e\<lparr>deadline := Some d\<rparr>) ks)"

lemma ks_expire_pos [script_simps]:
  "0 < t \<Longrightarrow> ks_expire k t ks =
     (Some (if look ks k = None then 0 else 1), with_expiry k (clock ks + 1000 * t) ks)"
  by (simp add: ks_expire_def with_expiry_def split: option.splits)

lemma clock_with_expiry [simp]: "clock (with_expiry k d ks) = clock ks"
  by (simp add: with_expiry_def split: option.splits)

lemma look_with_expiry:
  "clock ks < d \<Longrightarrow> look (with_expiry k d ks) k' =
     (if k = k' then map_option (\<lambda>e. e\<lparr>deadline := Some d\<rparr>) (look ks k) else look ks k')"
  by (simp add: with_expiry_def split: option.splits)

lemma counter_with_expiry [simp]: "clock ks < d \<Longrightarrow> counter (with_expiry k d ks) k' = counter ks k'"
  by (auto simp: counter_def look_with_expiry split: option.splits)

lemma expiry_with_expiry:
  "clock ks < d \<Longrightarrow> expiry (with_expiry k d ks) k' =
     (if k = k' \<and> look ks k \<noteq> None then Some d else expiry ks k')"
  by (auto simp: expiry_def look_with_expiry split: option.splits)

lemma look_ks_del: "ks_del keys ks = (r, ks') \<Longrightarrow> look ks' k = (if k \<in> set keys then None else look ks k)"
proof (induction keys arbitrary: ks r)
  case (Cons a keys)
  obtain n ks2 where "ks_del keys (drop_key a ks) = (n, ks2)" by (cases "ks_del keys (drop_key a ks)")
  with Cons show ?case by (fastforce split: if_splits)
qed auto

end
