(* ===== verification/Counters.thy ===== *)
theory Counters
  imports Redis_Server
begin

text \<open>
  Facts on the pattern that the gateway's counters share: an \<^verbatim>\<open>INCR\<close> (or \<^verbatim>\<open>INCRBY\<close>)
  followed by an \<^verbatim>\<open>EXPIRE\<close> on the same key, on a keyspace and, through \<open>redis_server\<close>, on any
  server that keeps the documented behaviour.
\<close>

definition count_until :: "string \<Rightarrow> int \<Rightarrow> int \<Rightarrow> keyspace \<Rightarrow> keyspace" where
  "count_until k c d ks = put k \<lparr>rv = RStr (itoa c), deadline = Some d\<rparr> ks"

lemma with_expiry_with_count [script_simps]:
  "with_expiry k d (with_count k c ks) = count_until k c d ks"
  by (simp add: with_expiry_def count_until_def) (simp add: with_count_def)

lemma clock_count_until [simp]: "clock (count_until k c d ks) = clock ks"
  by (simp add: count_until_def)

lemma look_count_until [simp]:
  "clock ks < d \<Longrightarrow> look (count_until k c d ks) k' =
     (if k = k' then Some \<lparr>rv = RStr (itoa c), deadline = Some d\<rparr> else look ks k')"
  by (simp add: count_until_def)

lemma counter_count_until [simp]:
  "clock ks < d \<Longrightarrow> int64 c \<Longrightarrow>
   counter (count_until k c d ks) k' = (if k = k' then Some c else counter ks k')"
  by (simp add: counter_def)

lemma expiry_count_until [simp]:
  "clock ks < d \<Longrightarrow> expiry (count_until k c d ks) k' = (if k = k' then Some d else expiry ks k')"
  by (simp add: expiry_def)

lemma with_count_count_until [simp]:
  "clock ks < d \<Longrightarrow> with_count k c (count_until k c' d ks) = count_until k c d ks"
  by (simp add: with_count_def) (simp add: count_until_def)

lemma count_until_count_until [simp]: "count_until k c d (count_until k c' d' ks) = count_until k c d ks"
  by (simp add: count_until_def)

lemma counter_look: "look ks k = look ks' k \<Longrightarrow> counter ks k = counter ks' k"
  by (simp add: counter_def)

lemma expiry_look: "look ks k = look ks' k \<Longrightarrow> expiry ks k = expiry ks' k"
  by (simp add: expiry_def)

text \<open>The passing of time: a key survives as long as its expiry is ahead.\<close>

lemma look_later:
  "clock ks \<le> t \<Longrightarrow> look (ks\<lparr>clock := t\<rparr>) k =
     (case look ks k of None \<Rightarrow> None
      | Some e \<Rightarrow> if alive t e then Some e else None)"
  by (auto simp: look_def alive_def split: option.splits)

lemma counter_later:
  "clock ks \<le> t \<Longrightarrow> counter (ks\<lparr>clock := t\<rparr>) k =
     (case expiry ks k of Some d \<Rightarrow> if t < d then counter ks k else Some 0 | None \<Rightarrow> counter ks k)"
  by (auto simp: look_later counter_def expiry_def alive_def split: option.splits)

lemma expiry_later:
  "clock ks \<le> t \<Longrightarrow> expiry (ks\<lparr>clock := t\<rparr>) k =
     (case expiry ks k of Some d \<Rightarrow> if t < d then Some d else None | None \<Rightarrow> None)"
  by (auto simp: look_later expiry_def alive_def split: option.splits)

lemma rcall_delivered: "net R s = (Delivered, s) \<Longrightarrow> rcall R m s = m s"
  by (simp add: rcall_def)

context redis_server
begin

text \<open>A call on any server, where the network neither fails nor changes the keyspace, answers as the
  script does on the keyspace.\<close>

lemma rcall_sim:
  assumes "sim view c d" and "net R s = (Delivered, s)" and "d (view s) = (r, ks)"
  obtains s' where "rcall R c s = (r, s')" "view s' = ks"
  using assms by (metis rcall_delivered simD prod.collapse)

end

text \<open>The cursor loop of \<^verbatim>\<open>SCAN\<close>; \<open>None\<close> where the server never returns the cursor to 0.\<close>

partial_function (option) scan_loop ::
  "'r redis \<Rightarrow> string \<Rightarrow> nat \<Rightarrow> string list \<Rightarrow> 'r \<Rightarrow> (string list option \<times> 'r) option" where
  "scan_loop R pattern cursor keys st =
     (case rcall R (SCAN R cursor pattern) st of
        (None, st') \<Rightarrow> Some (None, st')
      | (Some (batch, nxt), st') \<Rightarrow>
          if nxt = 0 then Some (Some (keys @ batch), st')
          else scan_loop R pattern nxt (keys @ batch) st')"

lemma scan_loop_batches:
  assumes "\<And>s. net R s = (Delivered, s)"
  shows "scan_batches R pat fuel cursor st = Some (keys, st') \<Longrightarrow>
    scan_loop R pat cursor acc st = Some (Some (acc @ keys), st')"
proof (induction fuel arbitrary: cursor st keys acc)
  case (Suc fuel)
  obtain b nxt st1 where s: "SCAN R cursor pat st = (Some (b, nxt), st1)"
    using Suc.prems by (auto split: prod.splits option.splits)
  show ?case
  proof (cases "nxt = 0")
    case True
    with Suc.prems s show ?thesis
      by (subst scan_loop.simps) (simp add: rcall_def assms)
  next
    case False
    with Suc.prems s obtain ks where "scan_batches R pat fuel nxt st1 = Some (ks, st')" "keys = b @ ks"
      by (auto split: prod.splits)
    with Suc.IH [of nxt st1 ks "acc @ b"] False s show ?thesis
      by (subst scan_loop.simps) (simp add: rcall_def assms)
  qed
qed simp

text \<open>An empty server, at time 0.\<close>

definition no_keys :: keyspace where
  "no_keys = \<lparr>db = fmempty, clock = 0\<rparr>"

lemma no_keys_simps [simp]:
  "look no_keys k = None" "clock no_keys = 0" "counter no_keys k = Some 0" "expiry no_keys k = None"
  by (simp_all add: no_keys_def look_def counter_def expiry_def)

end
