(* ===== verification/Semaphore.thy ===== *)
theory Semaphore
  imports Counters Routing
begin

text \<open>
  The concurrency semaphore (\<^verbatim>\<open>internal/concurrency/semaphore.go\<close>): two Lua scripts on two Redis
  counters per model or pool, one for the slots that everybody shares and one for the slots reserved for
  priority requests. Lemmas: the scripts refine a counting semaphore with two pools; whatever the replicas
  do and in whatever order, no pool ever has more holders than slots as long as the server answers and
  every request ends within the lifetime of the keys; a release after an acquire that failed open frees a
  slot nobody gave back.
\<close>

section \<open>The scripts and operations\<close>

definition semaphoreTTL :: int where
  "semaphoreTTL = 30 * 60 * second"

definition acquire_shared :: "'r redis \<Rightarrow> string \<Rightarrow> int \<Rightarrow> int \<Rightarrow> ('r, int \<times> int) rop" where
  "acquire_shared R sharedKey sharedMax ttl =
     rbind (INCR R sharedKey) (\<lambda>s.
     rbind (EXPIRE R sharedKey ttl) (\<lambda>_.
       if s \<le> sharedMax then rret (1, 0)
       else rbind (DECR R sharedKey) (\<lambda>_. rret (0, 0))))"

definition acquireScript ::
  "'r redis \<Rightarrow> string \<Rightarrow> string \<Rightarrow> int \<Rightarrow> int \<Rightarrow> int \<Rightarrow> int \<Rightarrow> ('r, int \<times> int) rop" where
  "acquireScript R reservedKey sharedKey reservedMax sharedMax ttl isPriority =
     (if isPriority = 1 \<and> reservedMax > 0 then
        rbind (INCR R reservedKey) (\<lambda>r.
        rbind (EXPIRE R reservedKey ttl) (\<lambda>_.
          if r \<le> reservedMax then rret (1, 1)
          else rbind (DECR R reservedKey) (\<lambda>_. acquire_shared R sharedKey sharedMax ttl)))
      else acquire_shared R sharedKey sharedMax ttl)"

definition releaseScript :: "'r redis \<Rightarrow> string \<Rightarrow> ('r, int) rop" where
  "releaseScript R key =
     rbind (DECR R key) (\<lambda>val.
       if val < 0 then rbind (SET R key ''0'' None) (\<lambda>_. rret val) else rret val)"

record ModelSemaphore =
  limits :: "(string, int) gomap"
  reserved :: "(string, int) gomap"
  keyPrefix :: string

text \<open>The common loop body of the two constructors: the slots of one name, split into the two pools.\<close>

definition sem_entry ::
  "string \<Rightarrow> int \<Rightarrow> int \<Rightarrow> (string, int) gomap \<times> (string, int) gomap \<Rightarrow> (string, int) gomap \<times> (string, int) gomap" where
  "sem_entry name maxConcurrent priorityReserved lr =
     (let (ls, rs) = lr in
      if maxConcurrent > 0 then
        (let r = (if priorityReserved < 0 \<or> priorityReserved > maxConcurrent then 0 else priorityReserved)
         in (AList.update name (maxConcurrent - r) ls, if r > 0 then AList.update name r rs else rs))
      else (ls, rs))"

definition NewModelSemaphore :: "Registry \<Rightarrow> ModelSemaphore option" where
  "NewModelSemaphore reg =
     (let (ls, rs) = fold (\<lambda>def. sem_entry (Model def) (MaxConcurrentSync def) (PriorityReservedSync def))
                       (All reg) ([], [])
      in if ls = [] then None else Some \<lparr>limits = ls, reserved = rs, keyPrefix = []\<rparr>)"

definition NewPoolSemaphore :: "(string, BackendPoolConfig) gomap \<Rightarrow> ModelSemaphore option" where
  "NewPoolSemaphore pools =
     (let (ls, rs) = fold (\<lambda>(name, pool). sem_entry name (pool_MaxConcurrent pool) (PriorityReservedConcurrent pool))
                       pools ([], [])
      in if ls = [] then None else Some \<lparr>limits = ls, reserved = rs, keyPrefix = ''pool''\<rparr>)"

definition namespace :: "ModelSemaphore \<Rightarrow> string" where
  "namespace s = (if keyPrefix s = [] then ''sync'' else keyPrefix s)"

definition sharedKeyFor :: "ModelSemaphore \<Rightarrow> string \<Rightarrow> string" where
  "sharedKeyFor s key = ''gateway:semaphore:'' @ namespace s @ '':'' @ key"

definition reservedKeyFor :: "ModelSemaphore \<Rightarrow> string \<Rightarrow> string" where
  "reservedKeyFor s key = ''gateway:semaphore:'' @ namespace s @ '':'' @ key @ '':priority''"

text \<open>Reading a Go map of integers: zero where the key is absent.\<close>

definition int_at :: "(string, int) gomap \<Rightarrow> string \<Rightarrow> int" where
  "int_at m k = (case map_of m k of None \<Rightarrow> 0 | Some v \<Rightarrow> v)"

definition TryAcquire ::
  "'r redis \<Rightarrow> ModelSemaphore \<Rightarrow> string \<Rightarrow> bool \<Rightarrow> 'r \<Rightarrow> (bool \<times> bool) \<times> 'r" where
  "TryAcquire R s model isPriority st =
     (case map_of (limits s) model of
        None \<Rightarrow> ((True, False), st)
      | Some maxSlots \<Rightarrow>
          (let reservedMax = int_at (reserved s) model;
               ttlSecs = trunc_secs semaphoreTTL;
               priorityArg = (if isPriority then 1 else 0)
           in case rcall R (acquireScript R (reservedKeyFor s model) (sharedKeyFor s model)
                              reservedMax maxSlots ttlSecs priorityArg) st of
                (None, st') \<Rightarrow> ((True, False), st')
              | (Some (a, b), st') \<Rightarrow> ((a = 1, b = 1), st')))"

definition Release :: "'r redis \<Rightarrow> ModelSemaphore \<Rightarrow> string \<Rightarrow> bool \<Rightarrow> 'r \<Rightarrow> 'r" where
  "Release R s model usedReserved st =
     (case map_of (limits s) model of
        None \<Rightarrow> st
      | Some _ \<Rightarrow>
          (let key = (if usedReserved then reservedKeyFor s model else sharedKeyFor s model)
           in snd (rcall R (releaseScript R key) st)))"

section \<open>The scripts on a keyspace\<close>

text \<open>The counting semaphore with two pools that the scripts implement.\<close>

definition abs_acquire :: "int \<Rightarrow> int \<Rightarrow> bool \<Rightarrow> int \<times> int \<Rightarrow> (bool \<times> bool) \<times> (int \<times> int)" where
  "abs_acquire rmax smax prio rs =
     (let (r, s) = rs in
      if prio \<and> r < rmax then ((True, True), (r + 1, s))
      else if s < smax then ((True, False), (r, s + 1))
      else ((False, False), (r, s)))"

definition abs_release :: "bool \<Rightarrow> int \<times> int \<Rightarrow> int \<times> int" where
  "abs_release used rs = (let (r, s) = rs in if used then (max 0 (r - 1), s) else (r, max 0 (s - 1)))"

context redis_server
begin

lemma acquire_shared_sim: "sim view (acquire_shared R k m t) (acquire_shared (ks_server n) k m t)"
  unfolding acquire_shared_def INCR_def DECR_def ks_server_simps by (intro sim_rbind sim_if INCRBY EXPIRE sim_rret)

lemma acquireScript_sim:
  "sim view (acquireScript R rk sk rmax smax t p) (acquireScript (ks_server n) rk sk rmax smax t p)"
  unfolding acquireScript_def INCR_def DECR_def ks_server_simps
  by (intro sim_rbind sim_if INCRBY EXPIRE sim_rret acquire_shared_sim)

lemma releaseScript_sim: "sim view (releaseScript R k) (releaseScript (ks_server n) k)"
  unfolding releaseScript_def DECR_def ks_server_simps
  by (intro sim_rbind sim_if INCRBY SET sim_rret)

end

lemma acquire_shared_ks:
  assumes "counter ks k = Some c" and "0 \<le> c" and "c < 2 ^ 62" and "0 < t"
  shows "acquire_shared (ks_server n) k m t ks =
     (Some (if c < m then 1 else 0, 0), count_until k (if c < m then c + 1 else c) (clock ks + 1000 * t) ks)"
proof -
  have "int64 (c + 1)" using assms by (simp add: int64_def)
  then show ?thesis
    using assms
    by (simp add: acquire_shared_def INCR_def DECR_def script_simps int64_small)
qed

text \<open>What the acquire script does: the answer and the two counters are those of the abstract semaphore,
  the pool it took from (or looked at last) gets a fresh expiry, no other key changes.\<close>

lemma acquireScript_ks:
  fixes p rmax smax t :: int and ks
  assumes "counter ks rk = Some r" and "counter ks sk = Some s" and "0 \<le> r" "0 \<le> s" "r < 2 ^ 62" "s < 2 ^ 62"
    and "rk \<noteq> sk" and "0 < t"
  defines "A \<equiv> abs_acquire rmax smax (p = 1) (r, s)" and "d \<equiv> clock ks + 1000 * t"
  shows "\<exists>ks'. acquireScript (ks_server n) rk sk rmax smax t p ks =
           (Some (of_bool (fst (fst A)), of_bool (snd (fst A))), ks')
         \<and> counter ks' rk = Some (fst (snd A)) \<and> counter ks' sk = Some (snd (snd A))
         \<and> (\<forall>k. k \<noteq> rk \<and> k \<noteq> sk \<longrightarrow> look ks' k = look ks k) \<and> clock ks' = clock ks
         \<and> (snd (fst A) \<longrightarrow> expiry ks' rk = Some d) \<and> (fst (fst A) \<and> \<not> snd (fst A) \<longrightarrow> expiry ks' sk = Some d)
         \<and> expiry ks' rk \<in> {expiry ks rk, Some d} \<and> expiry ks' sk \<in> {expiry ks sk, Some d}"
proof (cases "p = 1 \<and> rmax > 0")
  case False
  then have "\<not> (p = 1 \<and> r < rmax)" using assms(3) by auto
  with False show ?thesis
    using acquire_shared_ks [OF assms(2,4,6,8)] assms(1,2,4,6,7,8)
    by (auto simp: acquireScript_def A_def abs_acquire_def d_def int64_def)
next
  case True
  let ?ks = "count_until rk r (clock ks + 1000 * t) ks"
  have i: "int64 (r + 1)" "int64 r" "int64 s" "int64 (s + 1)" using assms(3-6) by (simp_all add: int64_def)
  have "acquire_shared (ks_server n) sk smax t ?ks =
     (Some (if s < smax then 1 else 0, 0), count_until sk (if s < smax then s + 1 else s) (clock ks + 1000 * t) ?ks)"
    using assms(2,4,6,7,8) i by (subst acquire_shared_ks [where c = s]) auto
  with True i assms(1-8) show ?thesis
    by (auto simp: acquireScript_def A_def abs_acquire_def d_def INCR_def DECR_def script_simps)
qed

lemma releaseScript_ks:
  assumes "counter ks k = Some c" and "0 \<le> c" and "c < 2 ^ 62"
  shows "\<exists>v ks'. releaseScript (ks_server n) k ks = (Some v, ks') \<and> counter ks' k = Some (max 0 (c - 1))
           \<and> (\<forall>k'. k' \<noteq> k \<longrightarrow> look ks' k' = look ks k') \<and> clock ks' = clock ks
           \<and> (0 < c \<longrightarrow> expiry ks' k = expiry ks k)"
proof (cases "c = 0")
  case True
  have "atoi ''0'' = Some 0" by code_simp
  with assms True show ?thesis
    by (simp add: releaseScript_def DECR_def script_simps int64_def ks_set_def counter_def)
next
  case False
  with assms show ?thesis
    by (simp add: releaseScript_def DECR_def script_simps int64_def)
qed

section \<open>Refinement of the counting semaphore\<close>

definition semkey :: "ModelSemaphore \<Rightarrow> string \<Rightarrow> bool \<Rightarrow> string" where
  "semkey sem m used = (if used then reservedKeyFor sem m else sharedKeyFor sem m)"

definition cap :: "ModelSemaphore \<Rightarrow> string \<Rightarrow> bool \<Rightarrow> int" where
  "cap sem m used = int_at (if used then reserved sem else limits sem) m"

lemma semkey_pools [key_simps, simp]: "semkey sem m True \<noteq> semkey sem m False"
  by (simp add: semkey_def reservedKeyFor_def sharedKeyFor_def)

lemma ttl_seconds [simp]: "trunc_secs semaphoreTTL = 1800"
  by (simp add: semaphoreTTL_def trunc_secs_def)

definition fresh_expiry :: "keyspace \<Rightarrow> int" where
  "fresh_expiry ks = clock ks + 1800000"

context redis_server
begin

lemma TryAcquire_tracked:
  fixes sem m prio r s
  assumes net: "net R st = (Delivered, st)" and m: "m \<in> fst ` set (limits sem)"
    and r: "counter (view st) (semkey sem m True) = Some r" "0 \<le> r" "r < 2 ^ 62"
    and s: "counter (view st) (semkey sem m False) = Some s" "0 \<le> s" "s < 2 ^ 62"
  defines "A \<equiv> abs_acquire (cap sem m True) (cap sem m False) prio (r, s)"
  obtains st' where "TryAcquire R sem m prio st = (fst A, st')"
    "counter (view st') (semkey sem m True) = Some (fst (snd A))"
    "counter (view st') (semkey sem m False) = Some (snd (snd A))"
    "\<And>k. k \<noteq> semkey sem m True \<Longrightarrow> k \<noteq> semkey sem m False \<Longrightarrow> look (view st') k = look (view st) k"
    "clock (view st') = clock (view st)"
    "\<And>u. fst (fst A) \<Longrightarrow> u = snd (fst A) \<Longrightarrow> expiry (view st') (semkey sem m u) = Some (fresh_expiry (view st))"
    "\<And>u. expiry (view st') (semkey sem m u) \<in> {expiry (view st) (semkey sem m u), Some (fresh_expiry (view st))}"
proof -
  obtain mx where mx: "map_of (limits sem) m = Some mx"
    using m by (metis imageE map_of_eq_None_iff not_Some_eq)
  then have smax: "cap sem m False = mx" by (simp add: cap_def int_at_def)
  have p: "((if prio then 1 else 0 :: int) = 1) = prio" by simp
  obtain ks' where ks: "acquireScript (ks_server ks_link) (semkey sem m True) (semkey sem m False)
        (cap sem m True) mx 1800 (if prio then 1 else 0) (view st) =
        (Some (of_bool (fst (fst A)), of_bool (snd (fst A))), ks')"
      "counter ks' (semkey sem m True) = Some (fst (snd A))"
      "counter ks' (semkey sem m False) = Some (snd (snd A))"
      "\<forall>k. k \<noteq> semkey sem m True \<and> k \<noteq> semkey sem m False \<longrightarrow> look ks' k = look (view st) k"
      "clock ks' = clock (view st)"
      "snd (fst A) \<longrightarrow> expiry ks' (semkey sem m True) = Some (fresh_expiry (view st))"
      "fst (fst A) \<and> \<not> snd (fst A) \<longrightarrow> expiry ks' (semkey sem m False) = Some (fresh_expiry (view st))"
      "expiry ks' (semkey sem m True) \<in> {expiry (view st) (semkey sem m True), Some (fresh_expiry (view st))}"
      "expiry ks' (semkey sem m False) \<in> {expiry (view st) (semkey sem m False), Some (fresh_expiry (view st))}"
    using acquireScript_ks [OF r(1) s(1) r(2) s(2) r(3) s(3) semkey_pools, of 1800 ks_link "cap sem m True" mx
        "if prio then 1 else 0"]
    unfolding p smax [symmetric] A_def [symmetric] fresh_expiry_def by auto
  obtain st' where st': "rcall R (acquireScript R (semkey sem m True) (semkey sem m False)
      (cap sem m True) mx 1800 (if prio then 1 else 0)) st =
      (Some (of_bool (fst (fst A)), of_bool (snd (fst A))), st')" "view st' = ks'"
    using rcall_sim [OF acquireScript_sim net ks(1)] .
  have "TryAcquire R sem m prio st = (fst A, st')"
    using st'(1) mx by (simp add: TryAcquire_def semkey_def cap_def split del: if_split)
  then show ?thesis
  proof (rule that)
    show "expiry (view st') (semkey sem m u) = Some (fresh_expiry (view st))" if "fst (fst A)" "u = snd (fst A)" for u
      using ks(6,7) that by (cases u) (auto simp: st'(2))
    show "expiry (view st') (semkey sem m u) \<in> {expiry (view st) (semkey sem m u), Some (fresh_expiry (view st))}" for u
      using ks(8,9) by (cases u) (simp_all add: st'(2))
  qed (use ks in \<open>simp_all add: st'(2)\<close>)
qed

lemma Release_tracked:
  assumes net: "net R st = (Delivered, st)" and m: "m \<in> fst ` set (limits sem)"
    and c: "counter (view st) (semkey sem m u) = Some c" "0 \<le> c" "c < 2 ^ 62"
  shows "counter (view (Release R sem m u st)) (semkey sem m u) = Some (max 0 (c - 1))"
    and "k \<noteq> semkey sem m u \<Longrightarrow> look (view (Release R sem m u st)) k = look (view st) k"
    and "clock (view (Release R sem m u st)) = clock (view st)"
    and "0 < c \<Longrightarrow> expiry (view (Release R sem m u st)) (semkey sem m u) = expiry (view st) (semkey sem m u)"
proof -
  obtain mx where mx: "map_of (limits sem) m = Some mx"
    using m by (metis imageE map_of_eq_None_iff not_Some_eq)
  obtain v ks' where ks: "releaseScript (ks_server ks_link) (semkey sem m u) (view st) = (Some v, ks')"
      "counter ks' (semkey sem m u) = Some (max 0 (c - 1))"
      "\<forall>k'. k' \<noteq> semkey sem m u \<longrightarrow> look ks' k' = look (view st) k'" "clock ks' = clock (view st)"
      "0 < c \<longrightarrow> expiry ks' (semkey sem m u) = expiry (view st) (semkey sem m u)"
    using releaseScript_ks [OF c] by blast
  obtain st' where st': "rcall R (releaseScript R (semkey sem m u)) st = (Some v, st')" "view st' = ks'"
    using rcall_sim [OF releaseScript_sim net ks(1)] .
  have "Release R sem m u st = st'"
    using st'(1) mx by (simp add: Release_def semkey_def)
  with ks st'(2) show "counter (view (Release R sem m u st)) (semkey sem m u) = Some (max 0 (c - 1))"
    and "k \<noteq> semkey sem m u \<Longrightarrow> look (view (Release R sem m u st)) k = look (view st) k"
    and "clock (view (Release R sem m u st)) = clock (view st)"
    and "0 < c \<Longrightarrow> expiry (view (Release R sem m u st)) (semkey sem m u) = expiry (view st) (semkey sem m u)"
    by auto
qed

end


section \<open>All replicas together\<close>

text \<open>
  The slots in use across the replicas, each with its model, the pool it was taken from and the clock time
  of its acquire. A step is an acquire (granted or refused), a release of a slot in use, or the passing of
  time in which no slot in use grows older than the lifetime of the keys.
\<close>

type_synonym slot = "string \<times> bool \<times> int"

inductive sem_step ::
  "'r redis \<Rightarrow> ('r \<Rightarrow> keyspace) \<Rightarrow> ModelSemaphore \<Rightarrow> 'r \<times> slot list \<Rightarrow> 'r \<times> slot list \<Rightarrow> bool"
  for R view sem where
  acquire: "m \<in> fst ` set (limits sem) \<Longrightarrow> TryAcquire R sem m prio st = ((True, used), st') \<Longrightarrow>
    sem_step R view sem (st, held) (st', (m, used, clock (view st)) # held)"
| refuse: "m \<in> fst ` set (limits sem) \<Longrightarrow> TryAcquire R sem m prio st = ((False, used), st') \<Longrightarrow>
    sem_step R view sem (st, held) (st', held)"
| release: "(m, used, a) \<in> set held \<Longrightarrow>
    sem_step R view sem (st, held) (Release R sem m used st, remove1 (m, used, a) held)"
| wait: "clock (view st) \<le> t \<Longrightarrow> view st' = (view st)\<lparr>clock := t\<rparr> \<Longrightarrow>
    \<forall>(m, used, a) \<in> set held. t < a + 1000 * trunc_secs semaphoreTTL \<Longrightarrow>
    sem_step R view sem (st, held) (st', held)"

definition holders :: "slot list \<Rightarrow> string \<Rightarrow> bool \<Rightarrow> int" where
  "holders held m used = int (length (filter (\<lambda>(m', u', a). m' = m \<and> u' = used) held))"

text \<open>Distinct names and pools have distinct keys, and the limits fit the counters.\<close>

definition sem_ok :: "ModelSemaphore \<Rightarrow> bool" where
  "sem_ok sem \<longleftrightarrow>
     (\<forall>m \<in> fst ` set (limits sem). m @ '':priority'' \<notin> fst ` set (limits sem)
        \<and> (\<forall>used. 0 \<le> cap sem m used \<and> cap sem m used < 2 ^ 62))"

definition sem_inv :: "ModelSemaphore \<Rightarrow> keyspace \<Rightarrow> slot list \<Rightarrow> bool" where
  "sem_inv sem ks held \<longleftrightarrow>
     (\<forall>m \<in> fst ` set (limits sem). \<forall>u. counter ks (semkey sem m u) = Some (holders held m u)
        \<and> holders held m u \<le> cap sem m u)
   \<and> (\<forall>(m, u, a) \<in> set held. m \<in> fst ` set (limits sem) \<and> a \<le> clock ks
        \<and> (\<forall>d. expiry ks (semkey sem m u) = Some d \<longrightarrow> a + 1800000 \<le> d))"

lemma holders_nonneg [simp]: "0 \<le> holders held m u"
  by (simp add: holders_def)

lemma holders_Cons: "holders ((m', u', a) # held) m u = holders held m u + of_bool (m' = m \<and> u' = u)"
  by (simp add: holders_def)

lemma holders_remove1:
  "(m', u', a) \<in> set held \<Longrightarrow> holders (remove1 (m', u', a) held) m u = holders held m u - of_bool (m' = m \<and> u' = u)"
  by (induction held) (auto simp: holders_def)

lemma holders_pos: "(m, u, a) \<in> set held \<Longrightarrow> 0 < holders held m u"
  by (induction held) (auto simp: holders_def)

lemma semkey_inj:
  assumes "sem_ok sem" and "m \<in> fst ` set (limits sem)" and "m' \<in> fst ` set (limits sem)"
  shows "semkey sem m u = semkey sem m' u' \<longleftrightarrow> m = m' \<and> u = u'"
proof -
  have "m @ '':priority'' \<noteq> m'" "m' @ '':priority'' \<noteq> m"
    using assms unfolding sem_ok_def by metis+
  then show ?thesis
    by (cases u; cases u') (auto simp: semkey_def sharedKeyFor_def reservedKeyFor_def)
qed

lemma sem_inv_counts:
  assumes "sem_ok sem" and "sem_inv sem ks held" and "m \<in> fst ` set (limits sem)"
  shows "counter ks (semkey sem m u) = Some (holders held m u)" "holders held m u \<le> cap sem m u"
    "holders held m u < 2 ^ 62"
proof -
  have "holders held m u \<le> cap sem m u" "cap sem m u < 2 ^ 62"
    using assms unfolding sem_ok_def sem_inv_def by metis+
  then show "holders held m u \<le> cap sem m u" "holders held m u < 2 ^ 62" by auto
  show "counter ks (semkey sem m u) = Some (holders held m u)"
    using assms unfolding sem_inv_def by metis
qed

lemma sem_inv_slot:
  "sem_inv sem ks held \<Longrightarrow> (m, u, a) \<in> set held \<Longrightarrow> m \<in> fst ` set (limits sem) \<and> a \<le> clock ks
     \<and> (\<forall>d. expiry ks (semkey sem m u) = Some d \<longrightarrow> a + 1800000 \<le> d)"
  by (auto simp: sem_inv_def)

lemma sem_inv_transfer:
  assumes ok: "sem_ok sem" and inv: "sem_inv sem ks held" and m: "m \<in> fst ` set (limits sem)"
    and other: "\<And>k. k \<noteq> semkey sem m True \<Longrightarrow> k \<noteq> semkey sem m False \<Longrightarrow> look ks' k = look ks k"
    and clock: "clock ks' = clock ks"
    and count: "\<And>u. counter ks' (semkey sem m u) = Some (holders held' m u) \<and> holders held' m u \<le> cap sem m u"
    and rest: "\<And>m' u. m' \<noteq> m \<Longrightarrow> holders held' m' u = holders held m' u"
    and slots: "\<And>u a. (m, u, a) \<in> set held' \<Longrightarrow>
       a \<le> clock ks \<and> (\<forall>d. expiry ks' (semkey sem m u) = Some d \<longrightarrow> a + 1800000 \<le> d)"
    and sub: "\<And>m' u a. m' \<noteq> m \<Longrightarrow> (m', u, a) \<in> set held' \<Longrightarrow> (m', u, a) \<in> set held"
  shows "sem_inv sem ks' held'"
proof -
  have same: "look ks' (semkey sem m' u) = look ks (semkey sem m' u)"
    if "m' \<in> fst ` set (limits sem)" "m' \<noteq> m" for m' u
    using semkey_inj [OF ok that(1) m] that(2) by (intro other) auto
  have "counter ks' (semkey sem m' u) = Some (holders held' m' u) \<and> holders held' m' u \<le> cap sem m' u"
    if "m' \<in> fst ` set (limits sem)" for m' u
    using that inv count rest counter_look [OF same [OF that]]
    by (cases "m' = m") (auto simp: sem_inv_def)
  moreover have "m' \<in> fst ` set (limits sem) \<and> a \<le> clock ks' \<and>
      (\<forall>d. expiry ks' (semkey sem m' u) = Some d \<longrightarrow> a + 1800000 \<le> d)" if "(m', u, a) \<in> set held'" for m' u a
  proof (cases "m' = m")
    case True
    with that slots m clock show ?thesis by auto
  next
    case False
    from inv sub [OF False that] have "m' \<in> fst ` set (limits sem)" "a \<le> clock ks"
      "\<forall>d. expiry ks (semkey sem m' u) = Some d \<longrightarrow> a + 1800000 \<le> d"
      by (auto simp: sem_inv_def)
    with same [OF _ False] show ?thesis by (simp add: clock expiry_def)
  qed
  ultimately show ?thesis by (auto simp: sem_inv_def)
qed

context redis_server
begin

lemma TryAcquire_inv:
  assumes ok: "sem_ok sem" and net: "net R st = (Delivered, st)" and inv: "sem_inv sem (view st) held"
    and m: "m \<in> fst ` set (limits sem)" and acq: "TryAcquire R sem m prio st = ((granted, used), st')"
  shows "sem_inv sem (view st') (if granted then (m, used, clock (view st)) # held else held)"
proof -
  let ?r = "holders held m True" and ?s = "holders held m False"
  let ?A = "abs_acquire (cap sem m True) (cap sem m False) prio (?r, ?s)"
  have c: "counter (view st) (semkey sem m u) = Some (holders held m u)" "holders held m u \<le> cap sem m u"
    "holders held m u < 2 ^ 62" for u
    using sem_inv_counts [OF ok inv m] by auto
  obtain st1 where st1: "TryAcquire R sem m prio st = (fst ?A, st1)"
    "counter (view st1) (semkey sem m True) = Some (fst (snd ?A))"
    "counter (view st1) (semkey sem m False) = Some (snd (snd ?A))"
    "\<And>k. k \<noteq> semkey sem m True \<Longrightarrow> k \<noteq> semkey sem m False \<Longrightarrow> look (view st1) k = look (view st) k"
    "clock (view st1) = clock (view st)"
    "\<And>u. fst (fst ?A) \<Longrightarrow> u = snd (fst ?A) \<Longrightarrow> expiry (view st1) (semkey sem m u) = Some (fresh_expiry (view st))"
    "\<And>u. expiry (view st1) (semkey sem m u) \<in> {expiry (view st) (semkey sem m u), Some (fresh_expiry (view st))}"
    using TryAcquire_tracked [OF net m c(1) holders_nonneg c(3) c(1) holders_nonneg c(3), of prio] by blast
  have A: "fst ?A = (granted, used)" and [simp]: "st' = st1" using st1(1) acq by auto
  let ?held = "if granted then (m, used, clock (view st)) # held else held"
  have count: "counter (view st1) (semkey sem m u) = Some (holders ?held m u) \<and> holders ?held m u \<le> cap sem m u" for u
    using st1(2,3) A c(2) [of u] c(2) [of True] c(2) [of False]
    by (cases u) (auto simp: abs_acquire_def holders_Cons split: if_splits)
  have slots: "a \<le> clock (view st) \<and> (\<forall>d. expiry (view st1) (semkey sem m u) = Some d \<longrightarrow> a + 1800000 \<le> d)"
    if "(m, u, a) \<in> set ?held" for u a
  proof -
    have "(m, u, a) \<in> set held \<or> granted \<and> u = used \<and> a = clock (view st)"
      using that by (auto split: if_splits)
    then show ?thesis
      using inv st1(6) [of u] st1(7) [of u] A by (fastforce simp: sem_inv_def fresh_expiry_def)
  qed
  show ?thesis
    unfolding \<open>st' = st1\<close>
    by (rule sem_inv_transfer [OF ok inv m st1(4,5) count])
      (use slots in \<open>auto simp: holders_Cons split: if_splits\<close>)
qed

lemma Release_inv:
  assumes ok: "sem_ok sem" and net: "net R st = (Delivered, st)" and inv: "sem_inv sem (view st) held"
    and slot: "(m, used, a) \<in> set held"
  shows "sem_inv sem (view (Release R sem m used st)) (remove1 (m, used, a) held)"
proof -
  have m: "m \<in> fst ` set (limits sem)" using inv slot by (auto simp: sem_inv_def)
  have c: "counter (view st) (semkey sem m u) = Some (holders held m u)" "holders held m u \<le> cap sem m u"
    "holders held m u < 2 ^ 62" for u
    using sem_inv_counts [OF ok inv m] by auto
  have pos: "0 < holders held m used" using slot by (rule holders_pos)
  note rel = Release_tracked [OF net m c(1) holders_nonneg c(3)]
  have other: "look (view (Release R sem m used st)) (semkey sem m (\<not> used)) = look (view st) (semkey sem m (\<not> used))"
    using semkey_pools [of sem m] by (intro rel(2)) (cases used, auto dest: sym)
  have count: "counter (view (Release R sem m used st)) (semkey sem m u) = Some (holders (remove1 (m, used, a) held) m u)
      \<and> holders (remove1 (m, used, a) held) m u \<le> cap sem m u" for u
    using rel(1) [of used] counter_look [OF other] c [of u] pos slot
    by (cases "u = used") (auto simp: holders_remove1)
  have exp: "expiry (view (Release R sem m used st)) (semkey sem m u) = expiry (view st) (semkey sem m u)" for u
    using rel(4) [OF pos] expiry_look [OF other] by (cases "u = used") auto
  show ?thesis
  proof (rule sem_inv_transfer [OF ok inv m _ rel(3) count])
    show "look (view (Release R sem m used st)) k = look (view st) k"
      if "k \<noteq> semkey sem m True" "k \<noteq> semkey sem m False" for k
      using that by (intro rel(2)) (cases used, auto)
  qed (use sem_inv_slot [OF inv] slot in
      \<open>auto simp: holders_remove1 exp dest!: set_remove1_subset [THEN subsetD]\<close>)
qed

end

lemma wait_inv:
  assumes inv: "sem_inv sem ks held" and t: "clock ks \<le> t"
    and young: "\<forall>(m, used, a) \<in> set held. t < a + 1800000"
  shows "sem_inv sem (ks\<lparr>clock := t\<rparr>) held"
proof -
  have "counter (ks\<lparr>clock := t\<rparr>) (semkey sem m u) = Some (holders held m u)"
    if m: "m \<in> fst ` set (limits sem)" for m u
  proof (cases "holders held m u = 0")
    case True
    with inv m show ?thesis by (auto simp: sem_inv_def counter_later [OF t] split: option.splits)
  next
    case False
    then obtain a where a: "(m, u, a) \<in> set held"
      by (fastforce simp: holders_def filter_empty_conv)
    with inv young have "t < d" if "expiry ks (semkey sem m u) = Some d" for d
      using that by (fastforce simp: sem_inv_def)
    with inv m show ?thesis by (auto simp: sem_inv_def counter_later [OF t] split: option.splits)
  qed
  with inv t show ?thesis
    by (fastforce simp: sem_inv_def expiry_later [OF t] split: option.splits if_splits)
qed

lemma sem_step_inv:
  assumes "redis_server R view" and "\<And>st. net R st = (Delivered, st)" and "sem_ok sem"
    and "sem_step R view sem w w'" and "sem_inv sem (view (fst w)) (snd w)"
  shows "sem_inv sem (view (fst w')) (snd w')"
  using assms(4,5)
proof cases
  case (acquire m prio st used st' held)
  with redis_server.TryAcquire_inv [OF assms(1,3,2)] assms(5) show ?thesis by fastforce
next
  case (refuse m prio st used st' held)
  with redis_server.TryAcquire_inv [OF assms(1,3,2)] assms(5) show ?thesis by fastforce
next
  case (release m used a held st)
  with redis_server.Release_inv [OF assms(1,3,2)] assms(5) show ?thesis by fastforce
next
  case (wait st t st' held)
  with wait_inv [of sem "view st" held t] assms(5) show ?thesis by simp
qed

lemma sem_steps_inv:
  assumes "redis_server R view" and "\<And>st. net R st = (Delivered, st)" and "sem_ok sem"
    and "(sem_step R view sem)\<^sup>*\<^sup>* w w'" and "sem_inv sem (view (fst w)) (snd w)"
  shows "sem_inv sem (view (fst w')) (snd w')"
  using assms(4,5) by (induction rule: rtranclp_induct) (auto intro: sem_step_inv [OF assms(1,2,3)])

section \<open>Properties\<close>

text \<open>
  C6: on any server that behaves as documented, a delivered \<^verbatim>\<open>TryAcquire\<close> on a tracked model acts on
  the two counters exactly as the counting semaphore with a reserved and a shared pool: a priority request
  takes a reserved slot while there is one, everybody else and a priority request that finds none takes a
  shared slot while there is one, and a refusal leaves both counters as they were. No other key changes.
\<close>

theorem TryAcquire_refines:
  assumes "redis_server R view" and "net R st = (Delivered, st)" and "m \<in> fst ` set (limits sem)"
    and "counter (view st) (semkey sem m True) = Some r" and "0 \<le> r" and "r < 2 ^ 62"
    and "counter (view st) (semkey sem m False) = Some s" and "0 \<le> s" and "s < 2 ^ 62"
  shows "\<exists>st'. TryAcquire R sem m prio st = (fst (abs_acquire (cap sem m True) (cap sem m False) prio (r, s)), st')
           \<and> (counter (view st') (semkey sem m True), counter (view st') (semkey sem m False))
               = map_prod Some Some (snd (abs_acquire (cap sem m True) (cap sem m False) prio (r, s)))
           \<and> (\<forall>k. k \<noteq> semkey sem m True \<and> k \<noteq> semkey sem m False \<longrightarrow> look (view st') k = look (view st) k)"
  by (rule redis_server.TryAcquire_tracked [OF assms(1-9), of prio]) (auto simp: map_prod_def split_beta)

text \<open>
  C1: the limits hold across replicas. Starting with no slot in use, after any sequence of acquires,
  refusals, releases and waits, with a server that answers and no request running longer than the lifetime
  of the keys, the number of slots in use in each pool of a model is at most the size of the pool, and the
  Redis counter is that number.
\<close>

theorem semaphore_limits_hold:
  assumes "redis_server R view" and "\<forall>st. net R st = (Delivered, st)" and "sem_ok sem"
    and "\<forall>m \<in> fst ` set (limits sem). \<forall>used. counter (view st0) (semkey sem m used) = Some 0"
    and "(sem_step R view sem)\<^sup>*\<^sup>* (st0, []) (st, held)" and "m \<in> fst ` set (limits sem)"
  shows "holders held m used \<le> cap sem m used \<and> counter (view st) (semkey sem m used) = Some (holders held m used)"
proof -
  have "sem_inv sem (view st0) []"
    using assms(3,4) by (auto simp: sem_inv_def sem_ok_def holders_def)
  with sem_steps_inv [OF assms(1) _ assms(3,5)] assms(2) have "sem_inv sem (view st) held" by simp
  with sem_inv_counts [OF assms(3) this assms(6)] show ?thesis by blast
qed

text \<open>
  C40: An acquire whose call to Redis is not sent is granted (fail open) without a slot being counted; when its
  request ends and Redis answers again, the release is counted all the same, so the counter drops by one although no
  slot has been given back.
\<close>

theorem failed_open_release_frees_a_slot:
  assumes "redis_server R view" and "m \<in> fst ` set (limits sem)"
    and "net R st = (NotSent, st1)" and "net R st1 = (Delivered, st1)"
    and "counter (view st1) (semkey sem m False) = Some c" and "0 < c" and "c < 2 ^ 62"
  shows "TryAcquire R sem m prio st = ((True, False), st1)
       \<and> counter (view (Release R sem m False st1)) (semkey sem m False) = Some (c - 1)"
proof -
  have "TryAcquire R sem m prio st = ((True, False), st1)"
    using assms(2,3) by (auto simp: TryAcquire_def rcall_def dest!: weak_map_of_SomeI)
  moreover have "counter (view (Release R sem m False st1)) (semkey sem m False) = Some (max 0 (c - 1))"
    using redis_server.Release_tracked(1) [OF assms(1,4,2,5)] assms(6,7) by simp
  ultimately show ?thesis using assms(6) by simp
qed

lemma sem_entries_split:
  assumes "distinct (map fst es)" and "fst ` set es \<inter> (fst ` set ls \<union> fst ` set rs) = {}"
  shows "fold (\<lambda>(name, pool). sem_entry name (f pool) (g pool)) es (ls, rs) = (ls', rs') \<Longrightarrow>
     map_of ls' n = (case map_of es n of
        Some p \<Rightarrow> if f p > 0 then Some (f p - (if g p < 0 \<or> g p > f p then 0 else g p)) else map_of ls n
      | None \<Rightarrow> map_of ls n)
     \<and> map_of rs' n = (case map_of es n of
        Some p \<Rightarrow> if f p > 0 \<and> 0 < g p \<and> g p \<le> f p then Some (g p) else map_of rs n
      | None \<Rightarrow> map_of rs n)"
  using assms
proof (induction es arbitrary: ls rs)
  case (Cons e es)
  obtain a p where e: "e = (a, p)" by (cases e)
  obtain ls1 rs1 where 1: "sem_entry a (f p) (g p) (ls, rs) = (ls1, rs1)" by (cases "sem_entry a (f p) (g p) (ls, rs)")
  have "fst ` set es \<inter> (fst ` set ls1 \<union> fst ` set rs1) = {}"
  proof -
    have "fst ` set ls1 \<union> fst ` set rs1 \<subseteq> insert a (fst ` set ls \<union> fst ` set rs)"
      using 1 by (auto simp: sem_entry_def Let_def dest!: in_updateD split: if_splits)
    moreover have "a \<notin> fst ` set es" "fst ` set es \<inter> (fst ` set ls \<union> fst ` set rs) = {}"
      using Cons.prems(2,3) by (auto simp: e)
    ultimately show ?thesis by blast
  qed
  with Cons.IH [of ls1 rs1] Cons.prems(1,2) 1
  have IH: "map_of ls' n = (case map_of es n of
        Some p \<Rightarrow> if f p > 0 then Some (f p - (if g p < 0 \<or> g p > f p then 0 else g p)) else map_of ls1 n
      | None \<Rightarrow> map_of ls1 n)
     \<and> map_of rs' n = (case map_of es n of
        Some p \<Rightarrow> if f p > 0 \<and> 0 < g p \<and> g p \<le> f p then Some (g p) else map_of rs1 n
      | None \<Rightarrow> map_of rs1 n)" by (simp add: e)
  have "map_of es a = None" using Cons.prems(2) by (simp add: e map_of_eq_None_iff)
  moreover have "map_of ls a = None \<and> map_of rs a = None" using Cons.prems(3) by (simp add: e map_of_eq_None_iff)
  moreover have "map_of ls1 n = (if n = a \<and> 0 < f p then Some (f p - (if g p < 0 \<or> g p > f p then 0 else g p)) else map_of ls n)
      \<and> map_of rs1 n = (if n = a \<and> 0 < f p \<and> 0 < g p \<and> g p \<le> f p then Some (g p) else map_of rs n)"
    using 1 by (auto simp: sem_entry_def Let_def update_conv' split: if_splits)
  ultimately show ?case using IH by (cases "n = a") (simp_all add: e cong: option.case_cong if_cong)
qed simp

text \<open>
  The slots of a backend pool are split, not multiplied: for every pool with a limit the reserved and
  the shared pool together have exactly \<^verbatim>\<open>max_concurrent\<close> slots, neither is negative, a reservation
  that makes no sense (negative, or larger than the limit) reserves nothing, and a pool without a limit is
  not tracked.
\<close>

theorem NewPoolSemaphore_splits:
  assumes "distinct (map fst pools)" and "NewPoolSemaphore pools = Some sem" and "map_of pools n = Some pool"
  shows "(n \<in> fst ` set (limits sem) \<longleftrightarrow> 0 < pool_MaxConcurrent pool)
       \<and> (0 < pool_MaxConcurrent pool \<longrightarrow>
            cap sem n True + cap sem n False = pool_MaxConcurrent pool \<and> 0 \<le> cap sem n True \<and> 0 \<le> cap sem n False
            \<and> cap sem n True = (if 0 \<le> PriorityReservedConcurrent pool
                  \<and> PriorityReservedConcurrent pool \<le> pool_MaxConcurrent pool
                then PriorityReservedConcurrent pool else 0))"
proof -
  obtain ls rs where f: "fold (\<lambda>(name, pool). sem_entry name (pool_MaxConcurrent pool) (PriorityReservedConcurrent pool))
      pools ([], []) = (ls, rs)" by force
  with assms(2) have sem: "limits sem = ls" "reserved sem = rs"
    by (auto simp: NewPoolSemaphore_def split: if_splits)
  have "n \<in> fst ` set ls \<longleftrightarrow> map_of ls n \<noteq> None" by (metis map_of_eq_None_iff)
  with sem_entries_split [OF assms(1) _ f, of n] assms(3) show ?thesis
    by (auto simp: cap_def int_at_def sem)
qed

section \<open>A concrete run\<close>

definition sample_sem :: ModelSemaphore where
  "sample_sem = \<lparr>limits = [(''m'', 1)], reserved = [], keyPrefix = []\<rparr>"

text \<open>A link that loses the first call and delivers every later one.\<close>

definition flaky_link :: "keyspace \<Rightarrow> link \<times> keyspace" where
  "flaky_link ks = (if clock ks = 0 then (NotSent, ks\<lparr>clock := 1\<rparr>) else (Delivered, ks))"

lemma sample_cap [simp]: "cap sample_sem ''m'' True = 0" "cap sample_sem ''m'' False = 1"
  "fst ` set (limits sample_sem) = {''m''}"
  by (simp_all add: sample_sem_def cap_def int_at_def)

lemma sample_sem_ok: "sem_ok sample_sem"
  by (simp add: sem_ok_def all_bool_eq)

theorem TryAcquire_refines_witness:
  "\<exists>st'. TryAcquire (ks_server ks_link) sample_sem ''m'' True no_keys = ((True, False), st')"
  using TryAcquire_refines [OF kss.redis_server_axioms [of ks_link], of no_keys "''m''" sample_sem 0 0 True]
  by (auto simp: ks_link_def abs_acquire_def script_simps)

theorem semaphore_limits_hold_witness:
  "\<exists>st held. (sem_step (ks_server ks_link) id sample_sem)\<^sup>*\<^sup>* (no_keys, []) (st, held)
     \<and> length held = 1 \<and> holders held ''m'' False \<le> 1"
proof -
  have "fst (TryAcquire (ks_server ks_link) sample_sem ''m'' False no_keys) = (True, False)"
    by code_simp
  then obtain st where acq: "TryAcquire (ks_server ks_link) sample_sem ''m'' False no_keys = ((True, False), st)"
    by (metis prod.collapse)
  have step: "(sem_step (ks_server ks_link) id sample_sem)\<^sup>*\<^sup>* (no_keys, [])
      (st, [(''m'', False, clock (id no_keys))])"
    by (rule r_into_rtranclp, rule sem_step.acquire [OF _ acq]) simp
  have "holders [(''m'', False, clock (id no_keys))] ''m'' False \<le> cap sample_sem ''m'' False"
    using semaphore_limits_hold [OF kss.redis_server_axioms [of ks_link] _ sample_sem_ok _ step, of "''m''" False]
    by (simp add: ks_link_def script_simps)
  with step show ?thesis by (intro exI [of _ st] exI [of _ "[(''m'', False, clock (id no_keys))]"]) simp
qed

theorem failed_open_release_witness:
  "\<exists>st st1. TryAcquire (ks_server flaky_link) sample_sem ''m'' False st = ((True, False), st1)
     \<and> counter st1 (semkey sample_sem ''m'' False) = Some 1
     \<and> counter (Release (ks_server flaky_link) sample_sem ''m'' False st1) (semkey sample_sem ''m'' False) = Some 0"
proof -
  let ?st = "with_count (semkey sample_sem ''m'' False) 1 no_keys"
  have "int64 1" by (simp add: int64_def)
  then have c: "counter (?st\<lparr>clock := 1\<rparr>) (semkey sample_sem ''m'' False) = Some 1"
    by (simp add: counter_later)
  have "net (ks_server flaky_link) ?st = (NotSent, ?st\<lparr>clock := 1\<rparr>)"
    by (simp add: script_simps flaky_link_def)
  from failed_open_release_frees_a_slot [OF kss.redis_server_axioms _ this, of "''m''" sample_sem 1 False] c
  show ?thesis by (auto simp: script_simps flaky_link_def)
qed

theorem NewPoolSemaphore_splits_witness:
  "cap (the (NewPoolSemaphore [(''p'', main_pool\<lparr>pool_MaxConcurrent := 5, PriorityReservedConcurrent := 2\<rparr>)])) ''p'' False = 3"
  using NewPoolSemaphore_splits [of "[(''p'', main_pool\<lparr>pool_MaxConcurrent := 5, PriorityReservedConcurrent := 2\<rparr>)]"
      _ "''p''" "main_pool\<lparr>pool_MaxConcurrent := 5, PriorityReservedConcurrent := 2\<rparr>"]
  by (auto simp: NewPoolSemaphore_def sem_entry_def)

end
