(* ===== verification/Http.thy ===== *)
theory Http
  imports Config
begin

text \<open>
  The part of \<^verbatim>\<open>net/http\<close> that the components use: header maps with canonical names, and the
  request as far as the gateway reads it.
\<close>

section \<open>Canonical header names\<close>

definition upper :: "char \<Rightarrow> char" where
  "upper c = (let n = of_char c in if 97 \<le> n \<and> n \<le> (122::nat) then char_of (n - 32) else c)"

definition lower :: "char \<Rightarrow> char" where
  "lower c = (let n = of_char c in if 65 \<le> n \<and> n \<le> (90::nat) then char_of (n + 32) else c)"

text \<open>The bytes of a header name (RFC 7230 token); a name with any other byte is left as it is.\<close>

definition token_byte :: "char \<Rightarrow> bool" where
  "token_byte c \<longleftrightarrow>
     (let n = of_char c :: nat in 48 \<le> n \<and> n \<le> 57 \<or> 65 \<le> n \<and> n \<le> 90 \<or> 97 \<le> n \<and> n \<le> 122)
     \<or> c \<in> set ''!#$%&*+-.^_`|~'' \<or> c = CHR 39"

fun canon :: "bool \<Rightarrow> string \<Rightarrow> string" where
  "canon up [] = []"
| "canon up (c # cs) = (if up then upper c else lower c) # canon (c = CHR ''-'') cs"

definition CanonicalHeaderKey :: "string \<Rightarrow> string" where
  "CanonicalHeaderKey k = (if list_all token_byte k then canon True k else k)"

section \<open>Header maps\<close>

type_synonym header = "(string, string list) gomap"

definition hGet :: "header \<Rightarrow> string \<Rightarrow> string" where
  "hGet h k = (case map_of h (CanonicalHeaderKey k) of Some (v # _) \<Rightarrow> v | _ \<Rightarrow> [])"

definition hSet :: "string \<Rightarrow> string \<Rightarrow> header \<Rightarrow> header" where
  "hSet k v h = AList.update (CanonicalHeaderKey k) [v] h"

definition hDel :: "string \<Rightarrow> header \<Rightarrow> header" where
  "hDel k h = AList.delete (CanonicalHeaderKey k) h"

lemma hGet_hSet: "hGet (hSet k v h) k' = (if CanonicalHeaderKey k = CanonicalHeaderKey k' then v else hGet h k')"
  by (simp add: hGet_def hSet_def update_conv')

lemma hGet_hDel: "hGet (hDel k h) k' = (if CanonicalHeaderKey k = CanonicalHeaderKey k' then [] else hGet h k')"
  by (simp add: hGet_def hDel_def delete_conv')

lemma hGet_canonical: "CanonicalHeaderKey k = CanonicalHeaderKey k' \<Longrightarrow> hGet h k = hGet h k'"
  by (simp add: hGet_def)

end
