(* ===== verification/RateLimit.thy ===== *)
theory RateLimit
  imports Counters Http
begin

text \<open>
  The rate limiter (\<^verbatim>\<open>internal/ratelimit/ratelimit.go\<close>): fixed request windows, token and
  processing-time budgets, the in-flight slots of asynchronous jobs, the budgets of backend pools, and the
  reset of a consumer's quota, each a Lua script or a client call on Redis. \<^verbatim>\<open>time.ParseDuration\<close> is
  the parameter \<open>pd\<close>, \<^verbatim>\<open>cjson.decode\<close> (which reads the status and the service type of a stored
  job) the parameter \<open>cj\<close>. Metrics are left out. Lua computes with doubles, exact below \<open>2\<^sup>53\<close>;
  the scripts are written over integers.
\<close>

section \<open>Results and the limiter\<close>

record CheckResult =
  Allowed :: bool
  Limit :: int
  Remaining :: int
  ResetAfter :: int

definition no_result :: CheckResult where
  "no_result = \<lparr>Allowed = False, Limit = 0, Remaining = 0, ResetAfter = 0\<rparr>"

definition allow :: CheckResult where
  "allow = no_result\<lparr>Allowed := True\<rparr>"

datatype rl_error = InvalidPeriod string | ScriptFailed | ScanFailed string | DelFailed

record Limiter =
  rl_limits :: "(string, (string, RateLimitConfig) gomap) gomap"
  modelLimits :: "(string, (string, RateLimitConfig) gomap) gomap"
  consumerHeader :: string
  userTypeHeader :: string
  poolLimits :: "(string, RateLimitConfig) gomap"
  poolMemberLimits :: "(string, (string, RateLimitConfig) gomap) gomap"

definition New ::
  "(string, (string, RateLimitConfig) gomap) gomap \<Rightarrow> (string, (string, RateLimitConfig) gomap) gomap \<Rightarrow>
   string \<Rightarrow> string \<Rightarrow> Limiter" where
  "New ls ms ch uh = \<lparr>rl_limits = ls, modelLimits = ms, consumerHeader = ch, userTypeHeader = uh,
     poolLimits = [], poolMemberLimits = []\<rparr>"

definition SetPoolLimits ::
  "(string, RateLimitConfig) gomap \<Rightarrow> (string, (string, RateLimitConfig) gomap) gomap \<Rightarrow> Limiter \<Rightarrow> Limiter" where
  "SetPoolLimits ps ms l = l\<lparr>poolLimits := ps, poolMemberLimits := ms\<rparr>"

text \<open>\<^verbatim>\<open>WriteOpenAIHeaders\<close>; \<open>show_dur\<close> is \<^verbatim>\<open>time.Duration.String\<close>.\<close>

definition WriteOpenAIHeaders :: "(int \<Rightarrow> string) \<Rightarrow> string \<Rightarrow> CheckResult \<Rightarrow> header \<Rightarrow> header" where
  "WriteOpenAIHeaders show_dur unit res h =
     (if Limit res = 0 then h
      else
        (let h1 = hSet (''x-ratelimit-limit-'' @ unit) (itoa (Limit res)) h;
             h2 = hSet (''x-ratelimit-remaining-'' @ unit) (itoa (Remaining res)) h1
         in if ResetAfter res > 0 then hSet (''x-ratelimit-reset-'' @ unit) (show_dur (ResetAfter res)) h2 else h2))"

section \<open>The scripts\<close>

text \<open>\<^verbatim>\<open>tonumber(redis.call('GET', k) or '0')\<close>. The keys it reads hold what \<^verbatim>\<open>INCRBY\<close>
  wrote, so that the text is always a number; anything else, which \<^verbatim>\<open>tonumber\<close> would turn into nil and the comparison behind it
  into an error, is an error of the script here already.\<close>

definition get_number :: "'r redis \<Rightarrow> string \<Rightarrow> ('r, int) rop" where
  "get_number R k = rbind (GET R k) (\<lambda>v. case v of
      None \<Rightarrow> rret 0
    | Some t \<Rightarrow> (case atoi t of Some i \<Rightarrow> rret i | None \<Rightarrow> rfail))"

definition tokenCheckScript :: "'r redis \<Rightarrow> string \<Rightarrow> ('r, int \<times> int) rop" where
  "tokenCheckScript R key =
     rbind (get_number R key) (\<lambda>count. rbind (TTL R key) (\<lambda>t. rret (count, t)))"

definition tokenAddScript :: "'r redis \<Rightarrow> string \<Rightarrow> int \<Rightarrow> int \<Rightarrow> ('r, int) rop" where
  "tokenAddScript R key ttl delta =
     rbind (INCRBY R key delta) (\<lambda>count.
       if count = delta then rbind (EXPIRE R key ttl) (\<lambda>_. rret count) else rret count)"

type_synonym job_decoder = "string \<Rightarrow> (string option \<times> string option) option"

fun count_active :: "'r redis \<Rightarrow> job_decoder \<Rightarrow> string \<Rightarrow> string list \<Rightarrow> int \<Rightarrow> ('r, int) rop" where
  "count_active R cj svc [] active = rret active"
| "count_active R cj svc (i # is) active =
     rbind (GET R (''job:'' @ i)) (\<lambda>data.
       count_active R cj svc is
         (active + (case data of
             None \<Rightarrow> 0
           | Some t \<Rightarrow> (case cj t of
                None \<Rightarrow> 0
              | Some (status, stype) \<Rightarrow>
                  if (status = Some ''pending'' \<or> status = Some ''processing'') \<and> stype = Some svc then 1 else 0))))"

definition checkAndReserveScript ::
  "'r redis \<Rightarrow> job_decoder \<Rightarrow> string \<Rightarrow> string \<Rightarrow> int \<Rightarrow> string \<Rightarrow> int \<Rightarrow> ('r, int \<times> int) rop" where
  "checkAndReserveScript R cj jobsKey slotKey maxConcurrent svc slotTTL =
     rbind (ZRANGE_ALL R jobsKey) (\<lambda>ids.
     rbind (count_active R cj svc ids 0) (\<lambda>active.
     rbind (get_number R slotKey) (\<lambda>inflight.
       let total = active + inflight in
       if total \<ge> maxConcurrent then rret (total, 0)
       else rbind (INCR R slotKey) (\<lambda>new. rbind (EXPIRE R slotKey slotTTL) (\<lambda>_. rret (new + active, 1))))))"

definition releaseSlotScript :: "'r redis \<Rightarrow> string \<Rightarrow> ('r, int) rop" where
  "releaseSlotScript R key =
     rbind (get_number R key) (\<lambda>count. if count \<le> 0 then rret 0 else DECR R key)"

definition window_script :: "'r redis \<Rightarrow> string \<Rightarrow> int \<Rightarrow> ('r, int \<times> int) rop" where
  "window_script R key ttl =
     rbind (INCR R key) (\<lambda>count.
     rbind (if count = 1 then EXPIRE R key ttl else rret 0) (\<lambda>_.
     rbind (TTL R key) (\<lambda>t. rret (count, t))))"

section \<open>Who is asking\<close>

definition resolveFromMap ::
  "Limiter \<Rightarrow> header \<Rightarrow> string \<Rightarrow> (string, (string, RateLimitConfig) gomap) gomap \<Rightarrow>
   string \<times> string \<times> RateLimitConfig" where
  "resolveFromMap l r key limitsMap =
     (let consumer = (if consumerHeader l \<noteq> [] \<and> hGet r (consumerHeader l) \<noteq> []
                      then hGet r (consumerHeader l) else ''anonymous'');
          userType = (if userTypeHeader l \<noteq> [] \<and> hGet r (userTypeHeader l) \<noteq> []
                      then hGet r (userTypeHeader l) else ''*'')
      in case map_of limitsMap key of
           None \<Rightarrow> (consumer, userType, no_limits)
         | Some keyLimits \<Rightarrow>
             (case map_of keyLimits userType of
                Some c \<Rightarrow> (consumer, userType, c)
              | None \<Rightarrow> (case map_of keyLimits ''*'' of
                    Some c \<Rightarrow> (consumer, ''*'', c)
                  | None \<Rightarrow> (consumer, userType, no_limits))))"

definition resolveIdentity :: "Limiter \<Rightarrow> header \<Rightarrow> string \<Rightarrow> string \<times> string \<times> RateLimitConfig" where
  "resolveIdentity l r serviceType = resolveFromMap l r serviceType (rl_limits l)"

text \<open>The key formats \<^verbatim>\<open>prefix:a:b\<close> and \<^verbatim>\<open>prefix:a:b:c\<close>.\<close>

definition key2 :: "string \<Rightarrow> string \<Rightarrow> string \<Rightarrow> string" where
  "key2 p a b = p @ '':'' @ a @ '':'' @ b"

definition key3 :: "string \<Rightarrow> string \<Rightarrow> string \<Rightarrow> string \<Rightarrow> string" where
  "key3 p a b c = p @ '':'' @ a @ '':'' @ b @ '':'' @ c"

section \<open>Request windows\<close>

type_synonym 'r check = "'r \<Rightarrow> (CheckResult \<times> rl_error option) \<times> 'r"

text \<open>How the count and the time to live that the script returns become a result.\<close>

definition window_result :: "int \<Rightarrow> int \<Rightarrow> int \<times> int \<Rightarrow> CheckResult" where
  "window_result rate windowSec vals =
     (let (count, ttl) = vals;
          ttlSecs = (if ttl < 0 then windowSec else ttl);
          remaining = wrap64 (rate - count)
      in \<lparr>Allowed = (count \<le> rate), Limit = rate,
          Remaining = (if remaining < 0 then 0 else remaining),
          ResetAfter = wrap64 (ttlSecs * second)\<rparr>)"

definition Check ::
  "'r redis \<Rightarrow> parse_duration \<Rightarrow> Limiter \<Rightarrow> RateLimitConfig option \<Rightarrow> header \<Rightarrow> string \<Rightarrow> 'r check" where
  "Check R pd l policyCfg r serviceType st =
     (let (consumer, userType, rlCfg) = resolveIdentity l r serviceType;
          svc =
            (if map_of (rl_limits l) serviceType = None then ((allow, None), st)
             else if Rate rlCfg = 0 then ((allow, None), st)
             else case pd (Period rlCfg) of
               None \<Rightarrow> ((no_result, Some (InvalidPeriod (Period rlCfg))), st)
             | Some period \<Rightarrow>
                 (let windowSec = ceil_secs period; key = key3 ''rl'' consumer serviceType userType
                  in case rcall R (window_script R key windowSec) st of
                       (None, st') \<Rightarrow> ((no_result, Some ScriptFailed), st')
                     | (Some vals, st') \<Rightarrow> ((window_result (Rate rlCfg) windowSec vals, None), st')))
      in case svc of
           ((res, Some e), st') \<Rightarrow> ((res, Some e), st')
         | ((svcResult, None), st') \<Rightarrow>
             if \<not> Allowed svcResult then ((svcResult, None), st')
             else (case policyCfg of
               None \<Rightarrow> ((svcResult, None), st')
             | Some p \<Rightarrow>
                 if Rate p = 0 \<or> consumer = ''anonymous'' then ((svcResult, None), st')
                 else (case pd (Period p) of
                   None \<Rightarrow> ((svcResult, None), st')
                 | Some policyPeriod \<Rightarrow>
                     (let windowSec = ceil_secs policyPeriod; policyKey = key2 ''rlp'' consumer serviceType
                      in case rcall R (window_script R policyKey windowSec) st' of
                           (None, st'') \<Rightarrow> ((svcResult, None), st'')
                         | (Some vals, st'') \<Rightarrow>
                             (let res = window_result (Rate p) windowSec vals
                              in if \<not> Allowed res then ((res\<lparr>Remaining := 0\<rparr>, None), st'')
                                 else ((svcResult, None), st''))))))"

definition checkFixedWindow :: "'r redis \<Rightarrow> parse_duration \<Rightarrow> string \<Rightarrow> RateLimitConfig \<Rightarrow> 'r check" where
  "checkFixedWindow R pd key cfg st =
     (if Rate cfg = 0 then ((allow, None), st)
      else case pd (Period cfg) of
        None \<Rightarrow> ((no_result, Some (InvalidPeriod (Period cfg))), st)
      | Some period \<Rightarrow>
          (let windowSec = ceil_secs period
           in case rcall R (window_script R key windowSec) st of
                (None, st') \<Rightarrow> ((no_result, Some ScriptFailed), st')
              | (Some vals, st') \<Rightarrow> ((window_result (Rate cfg) windowSec vals, None), st')))"

definition CheckBackendPool :: "'r redis \<Rightarrow> parse_duration \<Rightarrow> Limiter \<Rightarrow> string \<Rightarrow> string \<Rightarrow> 'r check" where
  "CheckBackendPool R pd l poolName memberURL st =
     (let member = (\<lambda>st.
            (case map_of (poolMemberLimits l) poolName of
               None \<Rightarrow> ((allow, None), st)
             | Some ms \<Rightarrow> (case map_of ms memberURL of
                 None \<Rightarrow> ((allow, None), st)
               | Some memberCfg \<Rightarrow>
                   if Rate memberCfg > 0 then
                     (case checkFixedWindow R pd (key2 ''poolrl'' poolName memberURL) memberCfg st of
                        ((_, Some _), st') \<Rightarrow> ((allow, None), st')
                      | ((res, None), st') \<Rightarrow> ((res, None), st'))
                   else ((allow, None), st))))
      in case map_of (poolLimits l) poolName of
           None \<Rightarrow> member st
         | Some poolCfg \<Rightarrow>
             if Rate poolCfg > 0 then
               (case checkFixedWindow R pd (''poolrl:'' @ poolName) poolCfg st of
                  ((_, Some _), st') \<Rightarrow> ((allow, None), st')
                | ((res, None), st') \<Rightarrow> if \<not> Allowed res then ((res, None), st') else member st')
             else member st)"

section \<open>Token budgets\<close>

text \<open>
  The result of a budget check from the counter and the time to live: \<open>always\<close> says whether the reset time
  is reported for an allowed request too (it is for tokens, not for processing time).
\<close>

definition budget_result :: "bool \<Rightarrow> int \<Rightarrow> int \<Rightarrow> int \<times> int \<Rightarrow> CheckResult" where
  "budget_result always budget period vals =
     (let (count, ttl) = vals; allowed = (count < budget); remaining = wrap64 (budget - count)
      in \<lparr>Allowed = allowed, Limit = budget, Remaining = (if remaining < 0 then 0 else remaining),
          ResetAfter = (if always \<or> \<not> allowed
                        then (if ttl > 0 then wrap64 (ttl * second) else if \<not> allowed then period else 0)
                        else 0)\<rparr>)"

definition CheckTokens ::
  "'r redis \<Rightarrow> parse_duration \<Rightarrow> Limiter \<Rightarrow> RateLimitConfig option \<Rightarrow> header \<Rightarrow> string \<Rightarrow> 'r check" where
  "CheckTokens R pd l policyCfg r serviceType st =
     (let (consumer, userType, cfg) = resolveIdentity l r serviceType;
          svc =
            (if TokenRate cfg = 0 then ((allow, None), st)
             else case pd (TokenPeriod cfg) of
               None \<Rightarrow> ((allow, Some (InvalidPeriod (TokenPeriod cfg))), st)
             | Some period \<Rightarrow>
                 (case rcall R (tokenCheckScript R (key3 ''trl'' consumer serviceType userType)) st of
                    (None, st') \<Rightarrow> ((allow, None), st')
                  | (Some vals, st') \<Rightarrow> ((budget_result True (TokenRate cfg) period vals, None), st')))
      in case svc of
           ((res, Some e), st') \<Rightarrow> ((res, Some e), st')
         | ((svcResult, None), st') \<Rightarrow>
             if \<not> Allowed svcResult then ((svcResult, None), st')
             else (case policyCfg of
               None \<Rightarrow> ((svcResult, None), st')
             | Some p \<Rightarrow>
                 if TokenRate p = 0 \<or> consumer = ''anonymous'' then ((svcResult, None), st')
                 else (case pd (TokenPeriod p) of
                   None \<Rightarrow> ((svcResult, None), st')
                 | Some policyPeriod \<Rightarrow>
                     (case rcall R (tokenCheckScript R (key2 ''trlp'' consumer serviceType)) st' of
                        (None, st'') \<Rightarrow> ((svcResult, None), st'')
                      | (Some vals, st'') \<Rightarrow>
                          (let res = budget_result True (TokenRate p) policyPeriod vals
                           in if \<not> Allowed res then ((res\<lparr>Remaining := 0\<rparr>, None), st'')
                              else ((svcResult, None), st''))))))"

definition CheckModelTokens ::
  "'r redis \<Rightarrow> parse_duration \<Rightarrow> Limiter \<Rightarrow> header \<Rightarrow> string \<Rightarrow> string \<Rightarrow> 'r check" where
  "CheckModelTokens R pd l r model budgetKey st =
     (let (consumer, userType, cfg) = resolveFromMap l r model (modelLimits l);
          bk = (if budgetKey = [] then model else budgetKey)
      in if TokenRate cfg = 0 then ((allow, None), st)
         else case pd (TokenPeriod cfg) of
           None \<Rightarrow> ((allow, Some (InvalidPeriod (TokenPeriod cfg))), st)
         | Some period \<Rightarrow>
             (case rcall R (tokenCheckScript R (key3 ''trl'' consumer (''model:'' @ bk) userType)) st of
                (None, st') \<Rightarrow> ((allow, None), st')
              | (Some vals, st') \<Rightarrow> ((budget_result True (TokenRate cfg) period vals, None), st')))"

definition AddTokens ::
  "'r redis \<Rightarrow> parse_duration \<Rightarrow> Limiter \<Rightarrow> RateLimitConfig option \<Rightarrow> header \<Rightarrow> string \<Rightarrow> int \<Rightarrow> 'r \<Rightarrow>
   rl_error option \<times> 'r" where
  "AddTokens R pd l policyCfg r serviceType tokens st =
     (let (consumer, userType, cfg) = resolveIdentity l r serviceType;
          policy = (\<lambda>st. case policyCfg of
             None \<Rightarrow> st
           | Some p \<Rightarrow>
               if TokenRate p > 0 \<and> consumer \<noteq> ''anonymous'' then
                 (case pd (TokenPeriod p) of
                    None \<Rightarrow> st
                  | Some period \<Rightarrow>
                      snd (rcall R (tokenAddScript R (key2 ''trlp'' consumer serviceType) (trunc_secs period) tokens) st))
               else st)
      in if tokens = 0 then (None, st)
         else if TokenRate cfg > 0 then
           (case pd (TokenPeriod cfg) of
              None \<Rightarrow> (Some (InvalidPeriod (TokenPeriod cfg)), st)
            | Some period \<Rightarrow>
                (None, policy (snd (rcall R
                   (tokenAddScript R (key3 ''trl'' consumer serviceType userType) (trunc_secs period) tokens) st))))
         else (None, policy st))"

definition AddModelTokens ::
  "'r redis \<Rightarrow> parse_duration \<Rightarrow> Limiter \<Rightarrow> header \<Rightarrow> string \<Rightarrow> string \<Rightarrow> int \<Rightarrow> 'r \<Rightarrow> rl_error option \<times> 'r" where
  "AddModelTokens R pd l r model budgetKey tokens st =
     (let (consumer, userType, cfg) = resolveFromMap l r model (modelLimits l);
          bk = (if budgetKey = [] then model else budgetKey)
      in if tokens = 0 then (None, st)
         else if TokenRate cfg = 0 then (None, st)
         else case pd (TokenPeriod cfg) of
           None \<Rightarrow> (Some (InvalidPeriod (TokenPeriod cfg)), st)
         | Some period \<Rightarrow>
             (None, snd (rcall R (tokenAddScript R (key3 ''trl'' consumer (''model:'' @ bk) userType)
                                    (trunc_secs period) tokens) st)))"

section \<open>Slots of asynchronous jobs\<close>

definition concurrentSlotTTL :: int where
  "concurrentSlotTTL = 300"

definition CheckConcurrent ::
  "'r redis \<Rightarrow> job_decoder \<Rightarrow> Limiter \<Rightarrow> header \<Rightarrow> string \<Rightarrow> 'r check" where
  "CheckConcurrent R cj l r serviceType st =
     (let (consumer, userType, rlCfg) = resolveIdentity l r serviceType
      in if map_of (rl_limits l) serviceType = None then ((allow, None), st)
         else if MaxConcurrent rlCfg = 0 then ((allow, None), st)
         else if consumer = ''anonymous'' then ((allow, None), st)
         else case rcall R (checkAndReserveScript R cj (''consumer:'' @ consumer @ '':jobs'')
                              (key3 ''jc'' consumer serviceType userType) (MaxConcurrent rlCfg)
                              serviceType concurrentSlotTTL) st of
           (None, st') \<Rightarrow> ((allow, Some ScriptFailed), st')
         | (Some (current, flag), st') \<Rightarrow>
             (let remaining = wrap64 (MaxConcurrent rlCfg - current)
              in ((\<lparr>Allowed = (flag = 1), Limit = MaxConcurrent rlCfg,
                    Remaining = (if remaining < 0 then 0 else remaining), ResetAfter = 0\<rparr>, None), st')))"

definition ReleaseSlot :: "'r redis \<Rightarrow> Limiter \<Rightarrow> header \<Rightarrow> string \<Rightarrow> 'r \<Rightarrow> rl_error option \<times> 'r" where
  "ReleaseSlot R l r serviceType st =
     (let (consumer, userType, rlCfg) = resolveIdentity l r serviceType
      in if MaxConcurrent rlCfg = 0 \<or> consumer = ''anonymous'' then (None, st)
         else case rcall R (releaseSlotScript R (key3 ''jc'' consumer serviceType userType)) st of
           (None, st') \<Rightarrow> (Some ScriptFailed, st')
         | (Some _, st') \<Rightarrow> (None, st'))"

section \<open>Processing time\<close>

definition CheckProcessingTime ::
  "'r redis \<Rightarrow> parse_duration \<Rightarrow> Limiter \<Rightarrow> header \<Rightarrow> string \<Rightarrow> 'r check" where
  "CheckProcessingTime R pd l r serviceType st =
     (let (consumer, userType, cfg) = resolveIdentity l r serviceType
      in if ProcessingTime cfg = 0 then ((allow, None), st)
         else case pd (ProcessingPeriod cfg) of
           None \<Rightarrow> ((allow, Some (InvalidPeriod (ProcessingPeriod cfg))), st)
         | Some period \<Rightarrow>
             (case rcall R (tokenCheckScript R (key3 ''ptrl'' consumer serviceType userType)) st of
                (None, st') \<Rightarrow> ((allow, None), st')
              | (Some vals, st') \<Rightarrow> ((budget_result False (ProcessingTime cfg) period vals, None), st')))"

text \<open>The entry of a user type or of the fallback, as the request-less methods look it up.\<close>

definition limits_for :: "Limiter \<Rightarrow> string \<Rightarrow> string \<Rightarrow> RateLimitConfig option" where
  "limits_for l serviceType userType =
     (case map_of (rl_limits l) serviceType of
        None \<Rightarrow> None
      | Some keyLimits \<Rightarrow>
          (case map_of keyLimits userType of Some c \<Rightarrow> Some c | None \<Rightarrow> map_of keyLimits ''*''))"

definition AddProcessingTime ::
  "'r redis \<Rightarrow> parse_duration \<Rightarrow> Limiter \<Rightarrow> string \<Rightarrow> string \<Rightarrow> string \<Rightarrow> rat \<Rightarrow> 'r \<Rightarrow> rl_error option \<times> 'r" where
  "AddProcessingTime R pd l consumer userType serviceType seconds st =
     (if seconds \<le> 0 then (None, st)
      else case limits_for l serviceType userType of
        None \<Rightarrow> (None, st)
      | Some cfg \<Rightarrow>
          if ProcessingTime cfg = 0 then (None, st)
          else (case pd (ProcessingPeriod cfg) of
            None \<Rightarrow> (Some (InvalidPeriod (ProcessingPeriod cfg)), st)
          | Some period \<Rightarrow>
              (None, snd (rcall R (tokenAddScript R (key3 ''ptrl'' consumer serviceType userType)
                                     (trunc_secs period) \<lceil>seconds\<rceil>) st))))"

definition AddTokensFor ::
  "'r redis \<Rightarrow> parse_duration \<Rightarrow> Limiter \<Rightarrow> string \<Rightarrow> string \<Rightarrow> string \<Rightarrow> int \<Rightarrow> 'r \<Rightarrow> rl_error option \<times> 'r" where
  "AddTokensFor R pd l consumer userType serviceType tokens st =
     (if tokens \<le> 0 then (None, st)
      else case limits_for l serviceType userType of
        None \<Rightarrow> (None, st)
      | Some cfg \<Rightarrow>
          if TokenRate cfg = 0 then (None, st)
          else (case pd (TokenPeriod cfg) of
            None \<Rightarrow> (Some (InvalidPeriod (TokenPeriod cfg)), st)
          | Some period \<Rightarrow>
              (None, snd (rcall R (tokenAddScript R (key3 ''trl'' consumer serviceType userType)
                                     (trunc_secs period) tokens) st))))"

section \<open>Resetting a consumer's quota\<close>

definition scanKeys :: "'r redis \<Rightarrow> string \<Rightarrow> 'r \<Rightarrow> (string list option \<times> 'r) option" where
  "scanKeys R pattern st = scan_loop R pattern 0 [] st"

definition quota_patterns :: "string \<Rightarrow> string \<Rightarrow> string \<Rightarrow> string list" where
  "quota_patterns consumer serviceType model =
     [key3 ''rl'' consumer serviceType ''*'', key3 ''trl'' consumer serviceType ''*'',
      key3 ''ptrl'' consumer serviceType ''*''] @
     (if model \<noteq> [] then [key3 ''trl'' consumer (''model:'' @ model) ''*''] else [])"

fun scan_all :: "'r redis \<Rightarrow> string list \<Rightarrow> string list \<Rightarrow> 'r \<Rightarrow> ((rl_error + string list) \<times> 'r) option" where
  "scan_all R [] keys st = Some (Inr keys, st)"
| "scan_all R (p # ps) keys st =
     (case scanKeys R p st of
        None \<Rightarrow> None
      | Some (None, st') \<Rightarrow> Some (Inl (ScanFailed p), st')
      | Some (Some found, st') \<Rightarrow> scan_all R ps (keys @ found) st')"

definition ResetQuota ::
  "'r redis \<Rightarrow> string \<Rightarrow> string \<Rightarrow> string \<Rightarrow> 'r \<Rightarrow> ((int \<times> rl_error option) \<times> 'r) option" where
  "ResetQuota R consumer serviceType model st =
     (case scan_all R (quota_patterns consumer serviceType model) [] st of
        None \<Rightarrow> None
      | Some (Inl e, st') \<Rightarrow> Some ((0, Some e), st')
      | Some (Inr keys, st') \<Rightarrow>
          (case rcall R (DEL R (keys @ [key2 ''rlp'' consumer serviceType, key2 ''trlp'' consumer serviceType])) st' of
             (None, st'') \<Rightarrow> Some ((0, Some DelFailed), st'')
           | (Some n, st'') \<Rightarrow> Some ((n, None), st'')))"

end
