(* ===== verification/RateLimit_Windows.thy ===== *)
theory RateLimit_Windows
  imports RateLimit
begin

text \<open>
  What the request windows of the limiter do: the script refines a window that opens at the first request
  and counts until it closes, a limit lets exactly that many requests through per window, and the two-level
  check of a request is the window check taken twice.
\<close>

section \<open>The window as an abstract counter\<close>

definition window_at :: "keyspace \<Rightarrow> string \<Rightarrow> (int \<times> int) option" where
  "window_at ks k =
     (case look ks k of
        None \<Rightarrow> None
      | Some e \<Rightarrow> (case (rv e, deadline e) of
            (RStr v, Some d) \<Rightarrow> map_option (\<lambda>c. (c, d)) (atoi v)
          | _ \<Rightarrow> None))"

text \<open>Under the key there is nothing, or the count of an open window with its closing time.\<close>

definition window_ok :: "keyspace \<Rightarrow> string \<Rightarrow> bool" where
  "window_ok ks k \<longleftrightarrow> look ks k = None \<or>
     (\<exists>c d. look ks k = Some \<lparr>rv = RStr (itoa c), deadline = Some d\<rparr> \<and> 1 \<le> c \<and> c < 2 ^ 62)"

definition hit :: "int \<Rightarrow> int \<Rightarrow> (int \<times> int) option \<Rightarrow> int \<times> int" where
  "hit len now w = (case w of None \<Rightarrow> (1, now + len) | Some (c, d) \<Rightarrow> (c + 1, d))"

text \<open>A limit with a rate that applies and a period that parses to the positive duration \<open>p\<close>.\<close>

definition window_cfg :: "parse_duration \<Rightarrow> RateLimitConfig \<Rightarrow> int \<Rightarrow> bool" where
  "window_cfg pd cfg p \<longleftrightarrow> Rate cfg \<noteq> 0 \<and> int64 (Rate cfg) \<and> pd (Period cfg) = Some p \<and> 0 < p"

lemma window_at_count_until [simp]:
  "clock ks < d \<Longrightarrow> int64 c \<Longrightarrow> window_at (count_until k c d ks) k = Some (c, d)"
  by (simp add: window_at_def)

lemma window_ok_count_until [simp]:
  "clock ks < d \<Longrightarrow> 1 \<le> c \<Longrightarrow> c < 2 ^ 62 \<Longrightarrow> window_ok (count_until k c d ks) k"
  by (auto simp: window_ok_def)

lemma window_okE:
  assumes "window_ok ks k"
  obtains (closed) "look ks k = None" "window_at ks k = None" "counter ks k = Some 0"
  | (running) c d where "look ks k = Some \<lparr>rv = RStr (itoa c), deadline = Some d\<rparr>" "1 \<le> c" "c < 2 ^ 62"
      "clock ks < d" "window_at ks k = Some (c, d)" "counter ks k = Some c" "expiry ks k = Some d"
proof (cases "look ks k")
  case None
  then show ?thesis by (intro closed) (simp_all add: window_at_def counter_def)
next
  case (Some e)
  with assms obtain c d where e: "look ks k = Some \<lparr>rv = RStr (itoa c), deadline = Some d\<rparr>" "1 \<le> c" "c < 2 ^ 62"
    by (auto simp: window_ok_def)
  moreover have "int64 c" using e by (simp add: int64_def)
  ultimately show ?thesis
    using look_alive [OF e(1)] by (intro running) (simp_all add: window_at_def counter_def expiry_def)
qed

lemma ks_ttl_until: "clock ks < d \<Longrightarrow> ks_ttl k (count_until k c d ks) =
    (Some ((d - clock ks + 500) div 1000), count_until k c d ks)"
  by (simp add: ks_ttl_def)

lemma window_script_ks:
  assumes ok: "window_ok ks k" and ttl: "0 < ttl" and h: "hit (1000 * ttl) (clock ks) (window_at ks k) = (c, d)"
  shows "window_script (ks_server n) k ttl ks = (Some (c, (d - clock ks + 500) div 1000), count_until k c d ks)"
    and "clock ks < d" and "1 \<le> c" and "c \<le> 2 ^ 62"
proof -
  have "window_script (ks_server n) k ttl ks = (Some (c, (d - clock ks + 500) div 1000), count_until k c d ks)
        \<and> clock ks < d \<and> 1 \<le> c \<and> c \<le> 2 ^ 62"
    using ok
  proof (cases rule: window_okE)
    case closed
    have "int64 1" by (simp add: int64_def)
    with closed h ttl show ?thesis
      by (simp add: hit_def window_script_def INCR_def script_simps ks_ttl_until)
  next
    case (running c0 d0)
    then have "int64 (c0 + 1)" by (simp add: int64_def)
    moreover have "with_count k (c0 + 1) ks = count_until k (c0 + 1) d0 ks"
      using running by (simp add: with_count_def count_until_def)
    ultimately show ?thesis
      using running h by (simp add: hit_def window_script_def INCR_def script_simps ks_ttl_until)
  qed
  then show "window_script (ks_server n) k ttl ks = (Some (c, (d - clock ks + 500) div 1000), count_until k c d ks)"
    and "clock ks < d" and "1 \<le> c" and "c \<le> 2 ^ 62" by auto
qed

context redis_server
begin

lemma window_script_sim: "sim view (window_script R k t) (window_script (ks_server n) k t)"
  unfolding window_script_def INCR_def ks_server_simps
  by (intro sim_rbind sim_if INCRBY EXPIRE TTL sim_rret)

lemma window_call:
  assumes net: "net R st = (Delivered, st1)" and ok: "window_ok (view st1) k" and ttl: "0 < ttl"
    and h: "hit (1000 * ttl) (clock (view st1)) (window_at (view st1) k) = (c, d)"
  obtains st' where
    "rcall R (window_script R k ttl) st = (Some (c, (d - clock (view st1) + 500) div 1000), st')"
    "view st' = count_until k c d (view st1)"
proof -
  have "rcall R (window_script R k ttl) st = window_script R k ttl st1"
    by (simp add: rcall_def net)
  moreover have "fst (window_script R k ttl st1) = Some (c, (d - clock (view st1) + 500) div 1000)
      \<and> view (snd (window_script R k ttl st1)) = count_until k c d (view st1)"
    using simD [OF window_script_sim window_script_ks(1) [OF ok ttl h, of ks_link]] .
  ultimately show ?thesis using that by (metis prod.collapse)
qed

lemma checkFixedWindow_hit:
  assumes cfg: "window_cfg pd cfg p"
    and net: "net R st = (Delivered, st1)" and ok: "window_ok (view st1) k"
    and h: "hit (1000 * ceil_secs p) (clock (view st1)) (window_at (view st1) k) = (c, d)"
  obtains res st' where "checkFixedWindow R pd k cfg st = ((res, None), st')"
    "Allowed res \<longleftrightarrow> c \<le> Rate cfg" "Limit res = Rate cfg"
    "0 \<le> Rate cfg \<Longrightarrow> Remaining res = max 0 (Rate cfg - c)"
    "view st' = count_until k c d (view st1)" "clock (view st1) < d" "1 \<le> c" "c \<le> 2 ^ 62"
proof -
  have ttl: "0 < ceil_secs p" using cfg ceil_secs_pos [of p] by (simp add: window_cfg_def)
  note ks = window_script_ks [OF ok ttl h]
  obtain st' where st': "rcall R (window_script R k (ceil_secs p)) st
      = (Some (c, (d - clock (view st1) + 500) div 1000), st')" "view st' = count_until k c d (view st1)"
    using window_call [OF net ok ttl h] .
  have w: "int64 (Rate cfg - c)" if "0 \<le> Rate cfg"
    using that cfg ks(3,4) by (simp add: window_cfg_def int64_def)
  show ?thesis
    by (rule that [where st' = st'])
      (use cfg st' ks w in \<open>auto simp: window_cfg_def checkFixedWindow_def window_result_def Let_def\<close>)
qed

end

section \<open>A sequence of requests\<close>

fun window_calls :: "'r redis \<Rightarrow> parse_duration \<Rightarrow> string \<Rightarrow> RateLimitConfig \<Rightarrow> nat \<Rightarrow> 'r \<Rightarrow> CheckResult list \<times> 'r" where
  "window_calls R pd k cfg 0 st = ([], st)"
| "window_calls R pd k cfg (Suc n) st =
     (let (rs, st1) = window_calls R pd k cfg n st; ((r, e), st2) = checkFixedWindow R pd k cfg st1
      in (rs @ [r], st2))"

text \<open>The server answers every call, and between calls nothing but the clock moves.\<close>

definition only_time_passes :: "'r redis \<Rightarrow> ('r \<Rightarrow> keyspace) \<Rightarrow> bool" where
  "only_time_passes R view \<longleftrightarrow>
     (\<forall>s. \<exists>s1 t. net R s = (Delivered, s1) \<and> clock (view s) \<le> t \<and> view s1 = (view s)\<lparr>clock := t\<rparr>)"

lemma window_ok_later:
  assumes "window_ok ks k" and "clock ks \<le> t"
  shows "window_ok (ks\<lparr>clock := t\<rparr>) k"
  using assms(1)
  by (cases rule: window_okE) (auto simp: window_ok_def look_later [OF assms(2)])

lemma window_at_later:
  assumes "window_ok ks k" and "clock ks \<le> t"
  shows "window_at (ks\<lparr>clock := t\<rparr>) k =
      (case window_at ks k of Some (c, d) \<Rightarrow> if t < d then Some (c, d) else None | None \<Rightarrow> None)"
  using assms(1)
  by (cases rule: window_okE) (auto simp: window_at_def look_later [OF assms(2)])

context redis_server
begin

text \<open>One request after some time: the state in between, and the result.\<close>

lemma checkFixedWindow_later:
  assumes cfg: "window_cfg pd cfg p"
    and calm: "only_time_passes R view" and ok: "window_ok (view st) k"
  obtains res st' ks c d where "checkFixedWindow R pd k cfg st = ((res, None), st')"
    "Allowed res \<longleftrightarrow> c \<le> Rate cfg" "view st' = count_until k c d ks" "clock ks < d"
    "clock (view st) \<le> clock ks" "1 \<le> c" "c \<le> 2 ^ 62"
    "hit (1000 * ceil_secs p) (clock ks)
       (case window_at (view st) k of Some (c, d) \<Rightarrow> if clock ks < d then Some (c, d) else None | None \<Rightarrow> None) = (c, d)"
proof -
  obtain st1 t where net: "net R st = (Delivered, st1)" "clock (view st) \<le> t" "view st1 = (view st)\<lparr>clock := t\<rparr>"
    using calm unfolding only_time_passes_def by blast
  obtain c d where h: "hit (1000 * ceil_secs p) (clock (view st1)) (window_at (view st1) k) = (c, d)" by force
  have "window_ok (view st1) k"
    using window_ok_later [OF ok net(2)] by (simp add: net(3))
  from checkFixedWindow_hit [OF cfg net(1) this h] obtain res st' where r:
    "checkFixedWindow R pd k cfg st = ((res, None), st')" "Allowed res \<longleftrightarrow> c \<le> Rate cfg"
    "view st' = count_until k c d (view st1)" "clock (view st1) < d" "1 \<le> c" "c \<le> 2 ^ 62" by blast
  have clk: "clock (view st1) = t" by (simp add: net(3))
  have "window_at (view st1) k =
      (case window_at (view st) k of Some (c, d) \<Rightarrow> if clock (view st1) < d then Some (c, d) else None | None \<Rightarrow> None)"
    using window_at_later [OF ok net(2)] unfolding clk by (simp add: net(3))
  with h show ?thesis
    by (intro that [where ks = "view st1", OF r(1-4)]) (use r net in simp_all)
qed

lemma window_calls_ok:
  assumes cfg: "window_cfg pd cfg p"
    and calm: "only_time_passes R view" and start: "look (view st) k = None" and n: "int n < 2 ^ 61"
  shows "window_ok (view (snd (window_calls R pd k cfg n st))) k
       \<and> (\<forall>c d. window_at (view (snd (window_calls R pd k cfg n st))) k = Some (c, d) \<longrightarrow> c \<le> int n)"
  using n
proof (induction n)
  case 0
  show ?case using start by (simp add: window_ok_def window_at_def)
next
  case (Suc n)
  obtain rs st1 where st1: "window_calls R pd k cfg n st = (rs, st1)" by force
  from Suc st1 have ok: "window_ok (view st1) k" and le: "\<forall>c d. window_at (view st1) k = Some (c, d) \<longrightarrow> c \<le> int n"
    by auto
  obtain res st' ks c d' where c: "checkFixedWindow R pd k cfg st1 = ((res, None), st')"
    "Allowed res \<longleftrightarrow> c \<le> Rate cfg" "view st' = count_until k c d' ks" "clock ks < d'"
    "clock (view st1) \<le> clock ks" "1 \<le> c" "c \<le> 2 ^ 62"
    "hit (1000 * ceil_secs p) (clock ks)
       (case window_at (view st1) k of Some (c, d) \<Rightarrow> if clock ks < d then Some (c, d) else None | None \<Rightarrow> None) = (c, d')"
    using checkFixedWindow_later [OF cfg calm ok] .
  have "c \<le> int (Suc n)" using c(8) le by (auto simp: hit_def split: option.splits if_splits)
  moreover have "int64 c" using calculation Suc.prems c(6) by (simp add: int64_def)
  ultimately show ?case using st1 c Suc.prems by simp
qed

lemma window_calls_state:
  assumes cfg: "window_cfg pd cfg p"
    and calm: "only_time_passes R view" and start: "look (view st) k = None" and n: "int n < 2 ^ 61"
    and d: "d = clock (view (snd (window_calls R pd k cfg 1 st))) + 1000 * ceil_secs p"
    and early: "clock (view (snd (window_calls R pd k cfg n st))) < d"
  shows "map Allowed (fst (window_calls R pd k cfg n st)) = map (\<lambda>i. int i < Rate cfg) [0..<n]
       \<and> (n \<noteq> 0 \<longrightarrow> window_at (view (snd (window_calls R pd k cfg n st))) k = Some (int n, d))"
  using n early
proof (induction n)
  case (Suc n)
  obtain rs st1 where st1: "window_calls R pd k cfg n st = (rs, st1)" by force
  have ok: "window_ok (view st1) k"
    using window_calls_ok [OF cfg calm start, of n] Suc.prems(1) st1 by simp
  obtain res st' ks c d' where c: "checkFixedWindow R pd k cfg st1 = ((res, None), st')"
    "Allowed res \<longleftrightarrow> c \<le> Rate cfg" "view st' = count_until k c d' ks" "clock ks < d'"
    "clock (view st1) \<le> clock ks" "1 \<le> c" "c \<le> 2 ^ 62"
    "hit (1000 * ceil_secs p) (clock ks)
       (case window_at (view st1) k of Some (c, d) \<Rightarrow> if clock ks < d then Some (c, d) else None | None \<Rightarrow> None) = (c, d')"
    using checkFixedWindow_later [OF cfg calm ok] .
  have early': "clock ks < d" using Suc.prems(2) st1 c by simp
  then have IH: "map Allowed rs = map (\<lambda>i. int i < Rate cfg) [0..<n]"
    "n \<noteq> 0 \<longrightarrow> window_at (view st1) k = Some (int n, d)"
    using Suc.IH Suc.prems(1) st1 c(5) by simp_all
  have "c = int (Suc n) \<and> d' = d"
  proof (cases "n = 0")
    case True
    with st1 start c(8) have "c = 1" "d' = clock ks + 1000 * ceil_secs p"
      by (auto simp: window_at_def hit_def)
    with True d st1 c show ?thesis by simp
  next
    case False
    with IH(2) early' c(8) show ?thesis by (simp add: hit_def)
  qed
  moreover have "int64 (int (Suc n))" using Suc.prems(1) by (simp add: int64_def)
  ultimately show ?case
    using IH(1) st1 c by auto
qed simp

end

section \<open>Properties of the windows\<close>

text \<open>
  C7: one request against a fixed window. Whatever the state in which the call reaches the server, as long as
  the key holds an open window or nothing: a closed window opens with this request and closes one period
  later, an open one counts on and keeps its closing time; the request is allowed exactly while the count is
  within the rate, the remaining quota is what is left of the rate, and the counter always has an expiry.
\<close>

theorem checkFixedWindow_refines:
  assumes "redis_server R view" and "window_cfg pd cfg p" and "0 \<le> Rate cfg"
    and "net R st = (Delivered, st1)" and "window_ok (view st1) k"
    and "hit (1000 * ceil_secs p) (clock (view st1)) (window_at (view st1) k) = (c, d)"
  shows "\<exists>res st'. checkFixedWindow R pd k cfg st = ((res, None), st')
           \<and> view st' = count_until k c d (view st1) \<and> clock (view st1) < d
           \<and> Allowed res = (c \<le> Rate cfg) \<and> Limit res = Rate cfg \<and> Remaining res = max 0 (Rate cfg - c)"
  using redis_server.checkFixedWindow_hit [OF assms(1,2,4-6)] assms(3) by metis

text \<open>
  C2: a fixed window admits exactly its rate. Of \<open>n\<close> requests in a row that all come before the window opened
  by the first one closes, with a server that answers, precisely the first \<^verbatim>\<open>rate\<close> are allowed.
\<close>

theorem fixed_window_admits_rate:
  assumes "redis_server R view" and "only_time_passes R view" and "window_cfg pd cfg p"
    and "look (view st) k = None" and "int n < 2 ^ 61"
    and "clock (view (snd (window_calls R pd k cfg n st)))
           < clock (view (snd (window_calls R pd k cfg 1 st))) + 1000 * ceil_secs p"
  shows "map Allowed (fst (window_calls R pd k cfg n st)) = map (\<lambda>i. int i < Rate cfg) [0..<n]"
  using redis_server.window_calls_state [OF assms(1,3,2,4,5) refl assms(6)] by blast

section \<open>The two levels of a request check\<close>

definition service_window :: "'r redis \<Rightarrow> parse_duration \<Rightarrow> Limiter \<Rightarrow> header \<Rightarrow> string \<Rightarrow> 'r check" where
  "service_window R pd l r svc st =
     (let (consumer, userType, cfg) = resolveIdentity l r svc
      in checkFixedWindow R pd (key3 ''rl'' consumer svc userType) cfg st)"

definition policy_window ::
  "'r redis \<Rightarrow> parse_duration \<Rightarrow> Limiter \<Rightarrow> RateLimitConfig option \<Rightarrow> header \<Rightarrow> string \<Rightarrow> 'r check" where
  "policy_window R pd l policy r svc st =
     (let consumer = fst (resolveIdentity l r svc)
      in case policy of
           None \<Rightarrow> ((allow, None), st)
         | Some p \<Rightarrow> if consumer = ''anonymous'' then ((allow, None), st)
                     else checkFixedWindow R pd (key2 ''rlp'' consumer svc) p st)"

text \<open>
  \<^verbatim>\<open>Check\<close>, which spells out the window logic twice, is the factored \<^verbatim>\<open>checkFixedWindow\<close>
  taken at the service level and, when that allows the request, at the policy level: an error of the first
  is returned, an error of the second is ignored (fail open), and the request is allowed only if both allow
  it.
\<close>

theorem Check_is_two_windows:
  "Check R pd l policy r svc st =
     (case service_window R pd l r svc st of
        ((res, Some e), st') \<Rightarrow> ((res, Some e), st')
      | ((res, None), st') \<Rightarrow>
          if \<not> Allowed res then ((res, None), st')
          else (case policy_window R pd l policy r svc st' of
                  ((_, Some _), st'') \<Rightarrow> ((res, None), st'')
                | ((pres, None), st'') \<Rightarrow>
                    if \<not> Allowed pres then ((pres\<lparr>Remaining := 0\<rparr>, None), st'') else ((res, None), st'')))"
proof -
  obtain consumer userType cfg where id: "resolveIdentity l r svc = (consumer, userType, cfg)"
    by (metis prod.collapse)
  have unlimited: "map_of (rl_limits l) svc = None \<Longrightarrow> Rate cfg = 0"
    using id by (auto simp: resolveIdentity_def resolveFromMap_def no_limits_def Let_def)
  have svc: "(if map_of (rl_limits l) svc = None then ((allow, None), st)
      else if Rate cfg = 0 then ((allow, None), st)
      else case pd (Period cfg) of
        None \<Rightarrow> ((no_result, Some (InvalidPeriod (Period cfg))), st)
      | Some period \<Rightarrow>
          (let windowSec = ceil_secs period; key = key3 ''rl'' consumer svc userType
           in case rcall R (window_script R key windowSec) st of
                (None, st') \<Rightarrow> ((no_result, Some ScriptFailed), st')
              | (Some vals, st') \<Rightarrow> ((window_result (Rate cfg) windowSec vals, None), st')))
    = service_window R pd l r svc st"
    using unlimited by (auto simp: service_window_def id checkFixedWindow_def Let_def split: option.splits)
  show ?thesis
    unfolding Check_def id Let_def prod.case svc [unfolded Let_def]
    by (auto simp: policy_window_def checkFixedWindow_def id allow_def Let_def split: prod.splits option.splits)
qed

section \<open>A concrete limit\<close>

definition sample_limit :: RateLimitConfig where
  "sample_limit = no_limits\<lparr>Rate := 2, Period := ''1m''\<rparr>"

definition one_minute :: parse_duration where
  "one_minute s = Some (60 * second)"

lemma sample_window_cfg: "window_cfg one_minute sample_limit (60 * second)"
  by (simp add: window_cfg_def sample_limit_def one_minute_def int64_def)

lemma ks_link_calm: "only_time_passes (ks_server ks_link) id"
  by (auto simp: only_time_passes_def ks_link_def script_simps intro!: exI)

theorem checkFixedWindow_refines_witness:
  "\<exists>res st'. checkFixedWindow (ks_server ks_link) one_minute ''k'' sample_limit no_keys = ((res, None), st') \<and> Allowed res"
proof -
  have "window_ok no_keys ''k''" and w: "window_at no_keys ''k'' = None"
    by (simp_all add: window_ok_def window_at_def)
  then have "hit (1000 * ceil_secs (60 * second)) (clock no_keys) (window_at no_keys ''k'') = (1, 60000)"
    by (simp add: hit_def ceil_secs_def)
  with checkFixedWindow_refines [OF kss.redis_server_axioms [of ks_link] sample_window_cfg, of no_keys no_keys "''k''" 1 60000]
  show ?thesis using \<open>window_ok no_keys ''k''\<close> by (auto simp: sample_limit_def ks_link_def script_simps)
qed

theorem fixed_window_admits_rate_witness:
  "map Allowed (fst (window_calls (ks_server ks_link) one_minute ''k'' sample_limit 3 no_keys)) = [True, True, False]"
proof -
  have "clock (snd (window_calls (ks_server ks_link) one_minute ''k'' sample_limit 3 no_keys))
      < clock (snd (window_calls (ks_server ks_link) one_minute ''k'' sample_limit 1 no_keys)) + 1000 * ceil_secs (60 * second)"
    by code_simp
  with fixed_window_admits_rate [OF kss.redis_server_axioms [of ks_link] ks_link_calm sample_window_cfg, of no_keys "''k''" 3]
  show ?thesis by (simp add: sample_limit_def upt_rec)
qed

end
