(* ===== verification/RateLimit_Budgets.thy ===== *)
theory RateLimit_Budgets
  imports RateLimit_Windows
begin

text \<open>
  What the limiter's budgets do: tokens that a request adds are seen by the next check of the same caller at
  both levels; the request-less methods of the job completion path add to another key than the one the
  checks read when the caller's user type falls back to the wildcard entry; slots of asynchronous jobs never
  exceed the configured number; and a quota reset removes the consumer's windows and budgets and nothing of
  other consumers.
\<close>

section \<open>The budget scripts on a keyspace\<close>

lemma get_number_ks: "counter ks k = Some c \<Longrightarrow> get_number (ks_server n) k ks = (Some c, ks)"
  by (auto simp: get_number_def ks_get_def counter_def script_simps rbind_def split: option.splits rval.splits)

lemma ks_ttl_total: "\<exists>t. ks_ttl k ks = (Some t, ks)"
  by (simp add: ks_ttl_def split: option.splits)

lemma tokenCheckScript_ks:
  assumes "counter ks k = Some c"
  shows "\<exists>t. tokenCheckScript (ks_server n) k ks = (Some (c, t), ks)"
  using ks_ttl_total [of k ks] get_number_ks [OF assms]
  by (auto simp: tokenCheckScript_def script_simps rbind_def)

lemma tokenAddScript_ks:
  assumes "counter ks k = Some c" and "0 \<le> c" and "0 < delta" and "c + delta < 2 ^ 62" and "0 < ttl"
  shows "\<exists>ks'. tokenAddScript (ks_server n) k ttl delta ks = (Some (c + delta), ks')
           \<and> counter ks' k = Some (c + delta) \<and> (\<forall>k'. k' \<noteq> k \<longrightarrow> look ks' k' = look ks k') \<and> clock ks' = clock ks
           \<and> expiry ks' k = (if c = 0 then Some (clock ks + 1000 * ttl) else expiry ks k)"
proof -
  have "int64 (c + delta)" using assms by (simp add: int64_def)
  with assms show ?thesis
    by (auto simp: tokenAddScript_def script_simps)
qed

context redis_server
begin

lemma get_number_sim: "sim view (get_number R k) (get_number (ks_server n) k)"
proof -
  have "sim view (case v of None \<Rightarrow> rret 0 | Some t \<Rightarrow> (case atoi t of Some i \<Rightarrow> rret i | None \<Rightarrow> rfail))
      (case v of None \<Rightarrow> rret 0 | Some t \<Rightarrow> (case atoi t of Some i \<Rightarrow> rret i | None \<Rightarrow> rfail))" for v
    by (auto split: option.split)
  then show ?thesis
    unfolding get_number_def ks_server_simps by (intro sim_rbind GET)
qed

lemma tokenCheckScript_sim: "sim view (tokenCheckScript R k) (tokenCheckScript (ks_server n) k)"
  unfolding tokenCheckScript_def ks_server_simps
  by (intro sim_rbind get_number_sim TTL sim_rret)

lemma tokenAddScript_sim: "sim view (tokenAddScript R k t d) (tokenAddScript (ks_server n) k t d)"
  unfolding tokenAddScript_def ks_server_simps
  by (intro sim_rbind sim_if INCRBY EXPIRE sim_rret)

lemma check_call:
  assumes "net R st = (Delivered, st)" and "counter (view st) k = Some c"
  obtains t st' where "rcall R (tokenCheckScript R k) st = (Some (c, t), st')" "view st' = view st"
proof -
  obtain t where "tokenCheckScript (ks_server ks_link) k (view st) = (Some (c, t), view st)"
    using tokenCheckScript_ks [OF assms(2)] by blast
  from rcall_sim [OF tokenCheckScript_sim assms(1) this] show ?thesis using that by blast
qed

lemma add_call:
  assumes "net R st = (Delivered, st)" and "counter (view st) k = Some c" and "0 \<le> c" and "0 < delta"
    and "c + delta < 2 ^ 62" and "0 < ttl"
  shows "counter (view (snd (rcall R (tokenAddScript R k ttl delta) st))) k = Some (c + delta)"
    and "k' \<noteq> k \<Longrightarrow> look (view (snd (rcall R (tokenAddScript R k ttl delta) st))) k' = look (view st) k'"
proof -
  obtain ks' where ks: "tokenAddScript (ks_server ks_link) k ttl delta (view st) = (Some (c + delta), ks')"
    "counter ks' k = Some (c + delta)" "\<forall>k'. k' \<noteq> k \<longrightarrow> look ks' k' = look (view st) k'"
    using tokenAddScript_ks [OF assms(2-6)] by blast
  obtain st' where "rcall R (tokenAddScript R k ttl delta) st = (Some (c + delta), st')" "view st' = ks'"
    using rcall_sim [OF tokenAddScript_sim assms(1) ks(1)] .
  with ks show "counter (view (snd (rcall R (tokenAddScript R k ttl delta) st))) k = Some (c + delta)"
    and "k' \<noteq> k \<Longrightarrow> look (view (snd (rcall R (tokenAddScript R k ttl delta) st))) k' = look (view st) k'"
    by auto
qed

end

section \<open>Tokens are charged where they are checked\<close>

text \<open>A token budget that applies: a positive rate and a period of at least one second.\<close>

definition budget_cfg :: "parse_duration \<Rightarrow> RateLimitConfig \<Rightarrow> bool" where
  "budget_cfg pd cfg \<longleftrightarrow> 0 < TokenRate cfg \<and> (\<exists>p. pd (TokenPeriod cfg) = Some p \<and> 0 < trunc_secs p)"

lemma trl_trlp [key_simps, simp]: "key3 ''trl'' a b c \<noteq> key2 ''trlp'' a' b'" "key2 ''trlp'' a' b' \<noteq> key3 ''trl'' a b c"
  by (simp_all add: key3_def key2_def)

definition policy_counts :: "RateLimitConfig option \<Rightarrow> string \<Rightarrow> bool" where
  "policy_counts policy consumer \<longleftrightarrow> policy \<noteq> None \<and> TokenRate (the policy) \<noteq> 0 \<and> consumer \<noteq> ''anonymous''"

lemma budget_result_Allowed [simp]: "Allowed (budget_result a b p (c, t)) \<longleftrightarrow> c < b"
  by (simp add: budget_result_def Let_def)

context redis_server
begin

lemma CheckTokens_Allowed:
  assumes net: "\<And>s. net R s = (Delivered, s)"
    and id: "resolveIdentity l r svc = (consumer, userType, cfg)"
    and cfg: "TokenRate cfg = 0 \<or> budget_cfg pd cfg"
    and pol: "policy_counts policy consumer \<Longrightarrow> budget_cfg pd (the policy)"
    and c: "counter (view st) (key3 ''trl'' consumer svc userType) = Some c"
    and cp: "counter (view st) (key2 ''trlp'' consumer svc) = Some cp"
  shows "\<exists>res st'. CheckTokens R pd l policy r svc st = ((res, None), st')
     \<and> (Allowed res \<longleftrightarrow> (TokenRate cfg \<noteq> 0 \<longrightarrow> c < TokenRate cfg)
          \<and> (policy_counts policy consumer \<longrightarrow> cp < TokenRate (the policy)))"
proof -
  define svc_res where "svc_res =
    (if TokenRate cfg = 0 then ((allow, None), st)
     else case pd (TokenPeriod cfg) of
       None \<Rightarrow> ((allow, Some (InvalidPeriod (TokenPeriod cfg))), st)
     | Some period \<Rightarrow>
         (case rcall R (tokenCheckScript R (key3 ''trl'' consumer svc userType)) st of
            (None, st') \<Rightarrow> ((allow, None), st')
          | (Some vals, st') \<Rightarrow> ((budget_result True (TokenRate cfg) period vals, None), st')))"
  obtain res1 st1 where s1: "svc_res = ((res1, None), st1)" "view st1 = view st"
    "Allowed res1 \<longleftrightarrow> (TokenRate cfg \<noteq> 0 \<longrightarrow> c < TokenRate cfg)"
  proof (cases "TokenRate cfg = 0")
    case True
    then show ?thesis using that [of allow st] by (simp add: svc_res_def allow_def)
  next
    case False
    with cfg obtain p where p: "pd (TokenPeriod cfg) = Some p" by (auto simp: budget_cfg_def)
    obtain t st' where "rcall R (tokenCheckScript R (key3 ''trl'' consumer svc userType)) st = (Some (c, t), st')"
      "view st' = view st" using check_call [OF net c] .
    then show ?thesis using that False p by (simp add: svc_res_def)
  qed
  show ?thesis
  proof (cases "Allowed res1 \<and> policy_counts policy consumer")
    case False
    with s1 show ?thesis
      unfolding CheckTokens_def id Let_def prod.case svc_res_def [symmetric]
      by (auto simp: policy_counts_def split: option.splits)
  next
    case True
    then obtain pc p where pc: "policy = Some pc" "TokenRate pc \<noteq> 0" "consumer \<noteq> ''anonymous''"
      "pd (TokenPeriod pc) = Some p"
      using pol by (auto simp: policy_counts_def budget_cfg_def)
    obtain t st' where "rcall R (tokenCheckScript R (key2 ''trlp'' consumer svc)) st1 = (Some (cp, t), st')"
      using check_call [OF net, of st1 "key2 ''trlp'' consumer svc" cp] cp s1(2) by metis
    with True pc s1 show ?thesis
      unfolding CheckTokens_def id Let_def prod.case svc_res_def [symmetric]
      by (auto simp: policy_counts_def)
  qed
qed

lemma AddTokens_counters:
  assumes net: "\<And>s. net R s = (Delivered, s)"
    and id: "resolveIdentity l r svc = (consumer, userType, cfg)"
    and cfg: "TokenRate cfg = 0 \<or> budget_cfg pd cfg"
    and pol: "policy_counts policy consumer \<Longrightarrow> budget_cfg pd (the policy)"
    and c: "counter (view st) (key3 ''trl'' consumer svc userType) = Some c" "0 \<le> c" "c + n < 2 ^ 62"
    and cp: "counter (view st) (key2 ''trlp'' consumer svc) = Some cp" "0 \<le> cp" "cp + n < 2 ^ 62"
    and n: "0 < n"
  shows "\<exists>st'. AddTokens R pd l policy r svc n st = (None, st')
     \<and> counter (view st') (key3 ''trl'' consumer svc userType) = Some (if TokenRate cfg = 0 then c else c + n)
     \<and> counter (view st') (key2 ''trlp'' consumer svc) = Some (if policy_counts policy consumer then cp + n else cp)"
proof -
  let ?k = "key3 ''trl'' consumer svc userType" and ?kp = "key2 ''trlp'' consumer svc"
  define pol_add where "pol_add = (\<lambda>st. case policy of
     None \<Rightarrow> st
   | Some p \<Rightarrow>
       if TokenRate p > 0 \<and> consumer \<noteq> ''anonymous'' then
         (case pd (TokenPeriod p) of
            None \<Rightarrow> st
          | Some period \<Rightarrow> snd (rcall R (tokenAddScript R ?kp (trunc_secs period) n) st))
       else st)"
  obtain st1 where st1: "AddTokens R pd l policy r svc n st = (None, pol_add st1)"
    "counter (view st1) ?k = Some (if TokenRate cfg = 0 then c else c + n)" "counter (view st1) ?kp = Some cp"
  proof (cases "TokenRate cfg = 0")
    case True
    with c cp n show ?thesis using that [of st]
      by (simp add: AddTokens_def id Let_def pol_add_def)
  next
    case False
    with cfg obtain p where p: "pd (TokenPeriod cfg) = Some p" "0 < trunc_secs p" "0 < TokenRate cfg"
      by (auto simp: budget_cfg_def)
    note add = add_call [OF net c(1,2) n c(3) p(2)]
    have "counter (view (snd (rcall R (tokenAddScript R ?k (trunc_secs p) n) st))) ?kp = Some cp"
      using counter_look [OF add(2)] cp(1) by simp
    with add(1) False p n show ?thesis
      using that [of "snd (rcall R (tokenAddScript R ?k (trunc_secs p) n) st)"]
      by (simp add: AddTokens_def id Let_def pol_add_def)
  qed
  show ?thesis
  proof (cases "policy_counts policy consumer")
    case False
    with pol_add_def have "pol_add st1 = st1 \<or> (\<exists>p. policy = Some p \<and> TokenRate p > 0 \<and> consumer \<noteq> ''anonymous'')"
      by (auto split: option.splits)
    with False st1 show ?thesis by (auto simp: policy_counts_def)
  next
    case True
    then obtain pc p where pc: "policy = Some pc" "0 < TokenRate pc" "consumer \<noteq> ''anonymous''"
      "pd (TokenPeriod pc) = Some p" "0 < trunc_secs p"
      using pol by (auto simp: policy_counts_def budget_cfg_def)
    note add = add_call [OF net st1(3) cp(2) n cp(3) pc(5)]
    have "counter (view (pol_add st1)) ?k = Some (if TokenRate cfg = 0 then c else c + n)"
      using counter_look [OF add(2), of ?k] st1(2) pc by (simp add: pol_add_def)
    moreover have "counter (view (pol_add st1)) ?kp = Some (cp + n)"
      using add(1) pc by (simp add: pol_add_def)
    ultimately show ?thesis using st1(1) True by auto
  qed
qed

end

text \<open>
  C8: tokens are charged where they are checked. After a request has added its tokens, the next check of the
  same caller and service allows a request exactly if the tokens counted so far, those included, are below
  the service's budget (where it has one) and below the budget of the caller's policy rule (where one
  applies and the caller is not anonymous).
\<close>

theorem tokens_added_are_checked:
  assumes "redis_server R view" and "\<And>s. net R s = (Delivered, s)"
    and "resolveIdentity l r svc = (consumer, userType, cfg)" and "TokenRate cfg = 0 \<or> budget_cfg pd cfg"
    and "policy_counts policy consumer \<Longrightarrow> budget_cfg pd (the policy)"
    and "counter (view st) (key3 ''trl'' consumer svc userType) = Some c" and "0 \<le> c" and "c + n < 2 ^ 62"
    and "counter (view st) (key2 ''trlp'' consumer svc) = Some cp" and "0 \<le> cp" and "cp + n < 2 ^ 62"
    and "0 < n"
  shows "\<exists>st' res st''. AddTokens R pd l policy r svc n st = (None, st')
     \<and> CheckTokens R pd l policy r svc st' = ((res, None), st'')
     \<and> (Allowed res \<longleftrightarrow> (TokenRate cfg \<noteq> 0 \<longrightarrow> c + n < TokenRate cfg)
          \<and> (policy_counts policy consumer \<longrightarrow> cp + n < TokenRate (the policy)))"
proof -
  obtain st' where st': "AddTokens R pd l policy r svc n st = (None, st')"
    "counter (view st') (key3 ''trl'' consumer svc userType) = Some (if TokenRate cfg = 0 then c else c + n)"
    "counter (view st') (key2 ''trlp'' consumer svc) = Some (if policy_counts policy consumer then cp + n else cp)"
    using redis_server.AddTokens_counters [OF assms] by blast
  show ?thesis
    using redis_server.CheckTokens_Allowed [OF assms(1-5) st'(2,3)] st'(1) by (auto split: if_splits)
qed

section \<open>The completion path and the fallback user type\<close>

lemma key3_inj_last: "key3 p a b c = key3 p a b c' \<longleftrightarrow> c = c'"
  by (simp add: key3_def)

text \<open>
  for a user type that is limited by the fallback entry \<^verbatim>\<open>*\<close> alone, the tokens of a finished
  asynchronous job (\<^verbatim>\<open>AddTokensFor\<close>) go to a key of their own: the counter that
  \<^verbatim>\<open>CheckTokens\<close> reads for that caller stays as it was, whatever the job used, so the budget is never
  spent by asynchronous jobs.
\<close>

theorem AddTokensFor_fallback_not_charged:
  assumes "redis_server R view" and "net R st = (Delivered, st)"
    and "map_of (rl_limits l) svc = Some entries" and "map_of entries userType = None"
    and "map_of entries ''*'' = Some cfg" and "budget_cfg pd cfg" and "0 < n"
    and "counter (view st) (key3 ''trl'' consumer svc userType) = Some c" and "0 \<le> c" and "c + n < 2 ^ 62"
    and "userTypeHeader l \<noteq> []" and "hGet r (userTypeHeader l) = userType" and "userType \<noteq> []"
    and "consumerHeader l \<noteq> []" and "hGet r (consumerHeader l) = consumer" and "consumer \<noteq> []"
  shows "\<exists>st'. AddTokensFor R pd l consumer userType svc n st = (None, st')
     \<and> counter (view st') (key3 ''trl'' consumer svc userType) = Some (c + n)
     \<and> resolveIdentity l r svc = (consumer, ''*'', cfg)
     \<and> counter (view st') (key3 ''trl'' consumer svc ''*'') = counter (view st) (key3 ''trl'' consumer svc ''*'')"
proof -
  obtain p where p: "pd (TokenPeriod cfg) = Some p" "0 < trunc_secs p" "0 < TokenRate cfg"
    using assms(6) by (auto simp: budget_cfg_def)
  let ?st' = "snd (rcall R (tokenAddScript R (key3 ''trl'' consumer svc userType) (trunc_secs p) n) st)"
  note add = redis_server.add_call [OF assms(1,2,8,9,7,10) p(2)]
  have "userType \<noteq> ''*''" using assms(4,5) by auto
  then have "look (view ?st') (key3 ''trl'' consumer svc ''*'') = look (view st) (key3 ''trl'' consumer svc ''*'')"
    by (intro add(2)) (simp add: key3_inj_last)
  moreover have "AddTokensFor R pd l consumer userType svc n st = (None, ?st')"
    using assms(3-5,7) p by (simp add: AddTokensFor_def limits_for_def)
  moreover have "resolveIdentity l r svc = (consumer, ''*'', cfg)"
    using assms by (simp add: resolveIdentity_def resolveFromMap_def Let_def)
  ultimately show ?thesis using add(1) counter_look by blast
qed

section \<open>Slots of asynchronous jobs\<close>

text \<open>The jobs of a list that the script counts: stored, readable, not finished, of the service.\<close>

definition is_active :: "job_decoder \<Rightarrow> string \<Rightarrow> keyspace \<Rightarrow> string \<Rightarrow> bool" where
  "is_active cj svc ks i \<longleftrightarrow>
     (\<exists>e t s. look ks (''job:'' @ i) = Some e \<and> rv e = RStr t \<and> cj t = Some (Some s, Some svc)
        \<and> (s = ''pending'' \<or> s = ''processing''))"

definition active_jobs :: "job_decoder \<Rightarrow> string \<Rightarrow> keyspace \<Rightarrow> string list \<Rightarrow> int" where
  "active_jobs cj svc ks ids = int (length (filter (is_active cj svc ks) ids))"

text \<open>Job records are strings.\<close>

definition readable :: "keyspace \<Rightarrow> string list \<Rightarrow> bool" where
  "readable ks ids \<longleftrightarrow> (\<forall>i \<in> set ids. \<forall>e. look ks (''job:'' @ i) = Some e \<longrightarrow> (\<exists>t. rv e = RStr t))"

lemma count_active_ks:
  "readable ks ids \<Longrightarrow> count_active (ks_server n) cj svc ids a ks = (Some (a + active_jobs cj svc ks ids), ks)"
proof (induction ids arbitrary: a)
  case (Cons i ids)
  have 1: "ks_get (''job:'' @ i) ks = (Some (case look ks (''job:'' @ i) of None \<Rightarrow> None
      | Some e \<Rightarrow> (case rv e of RStr t \<Rightarrow> Some t | _ \<Rightarrow> None)), ks)"
    using Cons.prems by (fastforce simp: ks_get_def readable_def split: option.splits rval.splits)
  have "readable ks ids" using Cons.prems by (simp add: readable_def)
  with Cons.IH 1 show ?case
    by (auto simp: script_simps rbind_def active_jobs_def is_active_def split: option.splits rval.splits)
qed (simp add: script_simps active_jobs_def)

lemma checkAndReserve_ks:
  assumes "zset_at ks jk = Some (zs, d)" and r: "readable ks (map snd zs)"
    and c: "counter ks sk = Some c" "0 \<le> c" "c < 2 ^ 62" and "0 < ttl"
    and tot: "tot = active_jobs cj svc ks (map snd zs) + c" and flag: "flag = (if tot < mx then 1 else 0)"
  shows "checkAndReserveScript (ks_server n) cj jk sk mx svc ttl ks =
     (Some (tot + flag, flag), if flag = 1 then count_until sk (c + 1) (clock ks + 1000 * ttl) ks else ks)"
proof -
  have "int64 (c + 1)" using c by (simp add: int64_def)
  then show ?thesis
    using assms get_number_ks [OF c(1), of n] count_active_ks [OF r, of n cj svc 0]
    by (simp add: checkAndReserveScript_def script_simps ks_zrange_all_def INCR_def Let_def)
qed

lemma releaseSlot_ks:
  assumes "counter ks k = Some c" and "0 \<le> c" and "c \<le> 2 ^ 62"
  shows "\<exists>v ks'. releaseSlotScript (ks_server n) k ks = (Some v, ks') \<and> counter ks' k = Some (max 0 (c - 1))
     \<and> (\<forall>k'. k' \<noteq> k \<longrightarrow> look ks' k' = look ks k')"
proof -
  have "int64 (c - 1)" using assms by (simp add: int64_def)
  then show ?thesis
    using assms get_number_ks [OF assms(1), of n]
    by (auto simp: releaseSlotScript_def script_simps DECR_def)
qed

context redis_server
begin

lemma count_active_sim: "sim view (count_active R cj svc ids a) (count_active (ks_server n) cj svc ids a)"
proof (induction ids arbitrary: a)
  case (Cons i ids)
  show ?case
    unfolding count_active.simps ks_server_simps by (intro sim_rbind GET Cons.IH)
qed (simp add: sim_rret)

lemma checkAndReserve_sim:
  "sim view (checkAndReserveScript R cj jk sk mx svc t) (checkAndReserveScript (ks_server n) cj jk sk mx svc t)"
  unfolding checkAndReserveScript_def INCR_def ks_server_simps Let_def
  by (intro sim_rbind sim_if ZRANGE_ALL INCRBY EXPIRE sim_rret get_number_sim count_active_sim)

lemma releaseSlot_sim: "sim view (releaseSlotScript R k) (releaseSlotScript (ks_server n) k)"
  unfolding releaseSlotScript_def DECR_def ks_server_simps
  by (intro sim_rbind sim_if INCRBY sim_rret get_number_sim)

end

text \<open>
  C9: the limit on a consumer's asynchronous jobs. Where it applies, \<^verbatim>\<open>CheckConcurrent\<close> allows a
  submission exactly if the consumer's unfinished jobs of the service and the slots in flight together are
  below the limit; then it takes one slot more, so that the sum stays within the limit, with an expiry
  against crashes; a refused submission changes nothing. \<^verbatim>\<open>ReleaseSlot\<close> gives the slot back and never
  makes the count negative.
\<close>

theorem CheckConcurrent_reserves:
  assumes "redis_server R view" and "\<And>s. net R s = (Delivered, s)"
    and "resolveIdentity l r svc = (consumer, userType, cfg)" and "consumer \<noteq> ''anonymous''"
    and "map_of (rl_limits l) svc \<noteq> None" and "0 < MaxConcurrent cfg"
    and "zset_at (view st) (''consumer:'' @ consumer @ '':jobs'') = Some (zs, d)"
    and "readable (view st) (map snd zs)"
    and "counter (view st) (key3 ''jc'' consumer svc userType) = Some c" and "0 \<le> c" and "c < 2 ^ 62"
  shows "\<exists>res st'. CheckConcurrent R cj l r svc st = ((res, None), st')
     \<and> (Allowed res \<longleftrightarrow> active_jobs cj svc (view st) (map snd zs) + c < MaxConcurrent cfg)
     \<and> (Allowed res \<longrightarrow> view st' = count_until (key3 ''jc'' consumer svc userType) (c + 1) (clock (view st) + 300000) (view st))
     \<and> (\<not> Allowed res \<longrightarrow> view st' = view st)
     \<and> (\<exists>st''. ReleaseSlot R l r svc st' = (None, st'')
          \<and> counter (view st'') (key3 ''jc'' consumer svc userType)
              = Some (if Allowed res then c else max 0 (c - 1)))"
proof -
  let ?jk = "''consumer:'' @ consumer @ '':jobs''" and ?sk = "key3 ''jc'' consumer svc userType"
  let ?a = "active_jobs cj svc (view st) (map snd zs)"
  define flag :: int where "flag = (if ?a + c < MaxConcurrent cfg then 1 else 0)"
  have ttl: "0 < concurrentSlotTTL" by (simp add: concurrentSlotTTL_def)
  note ks = checkAndReserve_ks [OF assms(7-11) ttl refl flag_def, of ks_link]
  obtain st' where st': "rcall R (checkAndReserveScript R cj ?jk ?sk (MaxConcurrent cfg) svc concurrentSlotTTL) st
        = (Some (?a + c + flag, flag), st')"
    "view st' = (if flag = 1 then count_until ?sk (c + 1) (clock (view st) + 1000 * concurrentSlotTTL) (view st) else view st)"
    using redis_server.rcall_sim [OF assms(1) redis_server.checkAndReserve_sim [OF assms(1)] assms(2) ks] .
  obtain res where res: "CheckConcurrent R cj l r svc st = ((res, None), st')" "Allowed res \<longleftrightarrow> flag = 1"
    using st'(1) assms(3-6) by (simp add: CheckConcurrent_def Let_def)
  have c': "counter (view st') ?sk = Some (c + flag)"
    using st'(2) assms(9-11) by (auto simp: flag_def concurrentSlotTTL_def int64_def)
  moreover have "0 \<le> c + flag" "c + flag \<le> 2 ^ 62" using assms(10,11) by (auto simp: flag_def)
  ultimately obtain v ks' where rel: "releaseSlotScript (ks_server ks_link) ?sk (view st') = (Some v, ks')"
    "counter ks' ?sk = Some (max 0 (c + flag - 1))"
    using releaseSlot_ks [of "view st'" ?sk "c + flag" ks_link] assms(11) by auto
  obtain st'' where "rcall R (releaseSlotScript R ?sk) st' = (Some v, st'')" "view st'' = ks'"
    using redis_server.rcall_sim [OF assms(1) redis_server.releaseSlot_sim [OF assms(1)] assms(2) rel(1)] .
  then have "ReleaseSlot R l r svc st' = (None, st'')" "counter (view st'') ?sk = Some (max 0 (c + flag - 1))"
    using assms(3,4,6) rel(2) by (simp_all add: ReleaseSlot_def Let_def)
  with res st'(2) assms(10) show ?thesis
    by (auto simp: flag_def concurrentSlotTTL_def)
qed

section \<open>Resetting a quota\<close>

lemma ks_del_total: "\<exists>n ks'. ks_del keys ks = (Some n, ks')"
proof (induction keys arbitrary: ks)
  case (Cons a keys)
  obtain n ks' where "ks_del keys (drop_key a ks) = (Some n, ks')" using Cons by blast
  then show ?case by simp
qed simp

text \<open>The keys of a consumer's quota for a service: its request windows, token and processing-time budgets of
  any user type, those of a model where one is named, and the two policy counters.\<close>

definition quota_key :: "string \<Rightarrow> string \<Rightarrow> string \<Rightarrow> string \<Rightarrow> bool" where
  "quota_key consumer svc model k \<longleftrightarrow>
     (\<exists>u. k = key3 ''rl'' consumer svc u \<or> k = key3 ''trl'' consumer svc u \<or> k = key3 ''ptrl'' consumer svc u
        \<or> model \<noteq> [] \<and> k = key3 ''trl'' consumer (''model:'' @ model) u)
     \<or> k = key2 ''rlp'' consumer svc \<or> k = key2 ''trlp'' consumer svc"

context redis_scan
begin

lemma scanKeys_prefix:
  assumes "\<And>s. net R s = (Delivered, s)" and "literal p"
  obtains keys st' where "scanKeys R (p @ ''*'') st = Some (Some keys, st')" "view st' = view st"
    "set keys = {k. look (view st) k \<noteq> None \<and> (\<exists>u. k = p @ u)}"
proof -
  have "literal []" by (simp add: literal_def)
  from SCAN [OF assms(2) this, of st] obtain fuel keys st' where
    "scan_batches R (p @ ''*'') fuel 0 st = Some (keys, st')" "view st' = view st"
    "set keys = {k. look (view st) k \<noteq> None \<and> (\<exists>u. k = p @ u)}" by auto
  moreover from scan_loop_batches [OF assms(1) this(1), of "[]"]
  have "scanKeys R (p @ ''*'') st = Some (Some keys, st')" by (simp add: scanKeys_def)
  ultimately show ?thesis using that by blast
qed

lemma scan_all_prefixes:
  assumes "\<And>s. net R s = (Delivered, s)"
  shows "\<forall>p \<in> set ps. literal p \<Longrightarrow> \<exists>keys st'. scan_all R (map (\<lambda>p. p @ ''*'') ps) acc st = Some (Inr keys, st')
     \<and> view st' = view st \<and> set keys = set acc \<union> {k. look (view st) k \<noteq> None \<and> (\<exists>p \<in> set ps. \<exists>u. k = p @ u)}"
proof (induction ps arbitrary: acc st)
  case (Cons p ps)
  then have p: "literal p" by simp
  obtain keys st1 where st1: "scanKeys R (p @ ''*'') st = Some (Some keys, st1)" "view st1 = view st"
    "set keys = {k. look (view st) k \<noteq> None \<and> (\<exists>u. k = p @ u)}"
    using scanKeys_prefix [OF assms p] .
  have "\<forall>p \<in> set ps. literal p" using Cons.prems by simp
  from Cons.IH [OF this, of "acc @ keys" st1] st1 show ?case by (fastforce simp: st1)
qed simp

end

text \<open>
  an administrator's quota reset. For names without glob characters, on a server that answers,
  \<^verbatim>\<open>ResetQuota\<close> returns without an error, and afterwards exactly the keys of that consumer's quota for
  that service (and model, where one is named) are gone: every window and budget starts afresh, and no other
  consumer's, service's or model's counter is touched.
\<close>

theorem ResetQuota_exact:
  assumes "redis_scan R view" and "\<And>s. net R s = (Delivered, s)"
    and "literal consumer" and "literal svc" and "literal model"
  shows "\<exists>n st'. ResetQuota R consumer svc model st = Some ((n, None), st')
     \<and> (\<forall>k. look (view st') k = (if quota_key consumer svc model k then None else look (view st) k))"
proof -
  let ?ps = "[key3 ''rl'' consumer svc [], key3 ''trl'' consumer svc [], key3 ''ptrl'' consumer svc []] @
    (if model \<noteq> [] then [key3 ''trl'' consumer (''model:'' @ model) []] else [])"
  have lit: "\<forall>p \<in> set ?ps. literal p"
    using assms(3-5) by (auto simp: key3_def literal_def)
  have pats: "quota_patterns consumer svc model = map (\<lambda>p. p @ ''*'') ?ps"
    by (simp add: quota_patterns_def key3_def)
  obtain keys st1 where st1: "scan_all R (quota_patterns consumer svc model) [] st = Some (Inr keys, st1)"
    "view st1 = view st" "set keys = {k. look (view st) k \<noteq> None \<and> (\<exists>p \<in> set ?ps. \<exists>u. k = p @ u)}"
    using redis_scan.scan_all_prefixes [OF assms(1,2) lit, of "[]" st] unfolding pats by auto
  let ?all = "keys @ [key2 ''rlp'' consumer svc, key2 ''trlp'' consumer svc]"
  have srv: "redis_server R view" using assms(1) by (rule redis_scan.axioms(1))
  obtain n ks where del: "ks_del ?all (view st1) = (Some n, ks)"
    using ks_del_total by metis
  obtain st' where st': "rcall R (DEL R ?all) st1 = (Some n, st')" "view st' = ks"
    using redis_server.rcall_sim [OF srv redis_server.DEL [OF srv] assms(2) del] .
  have q: "quota_key consumer svc model k \<longleftrightarrow> (\<exists>p \<in> set ?ps. \<exists>u. k = p @ u)
      \<or> k = key2 ''rlp'' consumer svc \<or> k = key2 ''trlp'' consumer svc" for k
    unfolding quota_key_def by (auto simp: key3_def)
  have "look (view st') k = (if quota_key consumer svc model k then None else look (view st) k)" for k
    using look_ks_del [OF del, of k] st1(2,3) unfolding st'(2) q by auto
  with st1(1) st'(1) show ?thesis by (auto simp: ResetQuota_def)
qed

section \<open>A concrete limiter\<close>

definition sample_budget :: RateLimitConfig where
  "sample_budget = no_limits\<lparr>TokenRate := 10, TokenPeriod := ''1m'', MaxConcurrent := 1\<rparr>"

definition sample_limiter :: Limiter where
  "sample_limiter = New [(''llm'', [(''*'', sample_budget)])] [] ''X-Consumer'' ''X-User-Type''"

definition sample_request :: header where
  "sample_request = [(''X-Consumer'', [''bob'']), (''X-User-Type'', [''basic''])]"

lemma sample_identity: "resolveIdentity sample_limiter sample_request ''llm'' = (''bob'', ''*'', sample_budget)"
  by code_simp

lemma sample_budget_cfg: "budget_cfg one_minute sample_budget"
  by (simp add: budget_cfg_def sample_budget_def one_minute_def trunc_secs_def)

lemma ks_link_delivers: "net (ks_server ks_link) s = (Delivered, s)"
  by (simp add: script_simps ks_link_def)

theorem tokens_added_are_checked_witness:
  "\<exists>st' res st''. AddTokens (ks_server ks_link) one_minute sample_limiter None sample_request ''llm'' 12 no_keys = (None, st')
     \<and> CheckTokens (ks_server ks_link) one_minute sample_limiter None sample_request ''llm'' st' = ((res, None), st'')
     \<and> \<not> Allowed res"
  using tokens_added_are_checked [OF kss.redis_server_axioms [of ks_link] ks_link_delivers sample_identity
      disjI2 [OF sample_budget_cfg], of None no_keys 0 12 0]
  by (auto simp: policy_counts_def sample_budget_def)

theorem AddTokensFor_fallback_witness:
  "\<exists>st'. AddTokensFor (ks_server ks_link) one_minute sample_limiter ''bob'' ''basic'' ''llm'' 12 no_keys = (None, st')
     \<and> counter st' (key3 ''trl'' ''bob'' ''llm'' ''basic'') = Some 12
     \<and> counter st' (key3 ''trl'' ''bob'' ''llm'' ''*'') = Some 0"
proof -
  have "hGet sample_request (userTypeHeader sample_limiter) = ''basic''"
    "hGet sample_request (consumerHeader sample_limiter) = ''bob''"
    by code_simp+
  with AddTokensFor_fallback_not_charged [OF kss.redis_server_axioms [of ks_link] ks_link_delivers, of sample_limiter
      "''llm''" "[(''*'', sample_budget)]" "''basic''" sample_budget one_minute 12 no_keys "''bob''" 0 sample_request]
  show ?thesis
    using sample_budget_cfg by (auto simp: sample_limiter_def New_def)
qed

theorem CheckConcurrent_reserves_witness:
  "\<exists>res st'. CheckConcurrent (ks_server ks_link) (\<lambda>t. None) sample_limiter sample_request ''llm'' no_keys = ((res, None), st')
     \<and> Allowed res"
proof -
  have "zset_at no_keys k = Some ([], None)" for k by (simp add: zset_at_def)
  from CheckConcurrent_reserves [OF kss.redis_server_axioms [of ks_link] ks_link_delivers sample_identity,
      of no_keys "[]" None 0 "\<lambda>t. None"] this
  show ?thesis
    by (auto simp: sample_limiter_def New_def sample_budget_def readable_def active_jobs_def)
qed

theorem ResetQuota_exact_witness:
  "\<exists>n st'. ResetQuota (ks_server ks_link) ''bob'' ''llm'' [] (with_count (key3 ''rl'' ''bob'' ''llm'' ''*'') 7 no_keys)
     = Some ((n, None), st') \<and> look st' (key3 ''rl'' ''bob'' ''llm'' ''*'') = None"
  using ResetQuota_exact [OF kss.redis_scan_axioms [of ks_link] ks_link_delivers, of "''bob''" "''llm''" "[]"
      "with_count (key3 ''rl'' ''bob'' ''llm'' ''*'') 7 no_keys"]
  by (auto simp: literal_def quota_key_def)

end
