(* ===== verification/Breaker.thy ===== *)
theory Breaker
  imports Prelude "HOL-Library.AList"
begin

text \<open>
  The circuit breaker of the LLM proxy and the prober that feeds it (\<^verbatim>\<open>internal/llmproxy/breaker.go\<close>,
  \<^verbatim>\<open>prober.go\<close>). \<^verbatim>\<open>time.Now()\<close> is an argument, in nanoseconds; the mutex makes every method one
  atomic step. Lemmas: what the breaker answers after any history of results is determined by the failures
  since the last success and the time of the last one.
\<close>

section \<open>State and operations\<close>

record backendState =
  failures :: int
  is_open :: bool
  openUntil :: int

record CircuitBreaker =
  states :: "(string \<times> backendState) list"
  threshold :: int
  cooldown :: int

definition NewCircuitBreaker :: "int \<Rightarrow> int \<Rightarrow> CircuitBreaker" where
  "NewCircuitBreaker th cd =
     \<lparr>states = [], threshold = (if th \<le> 0 then 5 else th), cooldown = (if cd \<le> 0 then 30 * second else cd)\<rparr>"

definition Allow :: "int \<Rightarrow> CircuitBreaker \<Rightarrow> string \<Rightarrow> bool" where
  "Allow now cb url =
     (case map_of (states cb) url of
        None \<Rightarrow> True
      | Some st \<Rightarrow> if \<not> is_open st then True else \<not> now < openUntil st)"

definition RecordSuccess :: "string \<Rightarrow> CircuitBreaker \<Rightarrow> CircuitBreaker" where
  "RecordSuccess url cb =
     (case map_of (states cb) url of
        None \<Rightarrow> cb
      | Some st \<Rightarrow> cb\<lparr>states := AList.update url (st\<lparr>failures := 0, is_open := False\<rparr>) (states cb)\<rparr>)"

definition RecordFailure :: "int \<Rightarrow> string \<Rightarrow> CircuitBreaker \<Rightarrow> CircuitBreaker" where
  "RecordFailure now url cb =
     (let st0 = (case map_of (states cb) url of
                   None \<Rightarrow> \<lparr>failures = 0, is_open = False, openUntil = 0\<rparr> | Some st \<Rightarrow> st);
          st1 = st0\<lparr>failures := failures st0 + 1\<rparr>;
          st2 = (if is_open st1 then st1\<lparr>openUntil := now + cooldown cb\<rparr>
                 else if failures st1 \<ge> threshold cb
                 then st1\<lparr>is_open := True, openUntil := now + cooldown cb\<rparr>
                 else st1)
      in cb\<lparr>states := AList.update url st2 (states cb)\<rparr>)"

definition IsOpen :: "int \<Rightarrow> CircuitBreaker \<Rightarrow> string \<Rightarrow> bool" where
  "IsOpen now cb url =
     (case map_of (states cb) url of None \<Rightarrow> False | Some st \<Rightarrow> is_open st \<and> now < openUntil st)"

section \<open>The prober\<close>

record ProbeTarget =
  pt_Model :: string
  pt_URL :: string
  HealthPath :: string

text \<open>What comes of one GET: the request cannot be built, the call fails, or a status code.\<close>

datatype probe_outcome = CannotBuild | CallFailed | Answered int

definition probe_url :: "ProbeTarget \<Rightarrow> string" where
  "probe_url t = (let path = (if HealthPath t = [] then ''/health'' else HealthPath t)
     in TrimSuffix (pt_URL t) ''/'' @ ''/'' @ TrimPrefix path ''/'')"

definition probeOne :: "(string \<Rightarrow> probe_outcome) \<Rightarrow> int \<Rightarrow> ProbeTarget \<Rightarrow> CircuitBreaker \<Rightarrow> CircuitBreaker" where
  "probeOne client now t cb =
     (case client (probe_url t) of
        CannotBuild \<Rightarrow> cb
      | CallFailed \<Rightarrow> RecordFailure now (pt_URL t) cb
      | Answered code \<Rightarrow> if code \<ge> 500 then RecordFailure now (pt_URL t) cb else RecordSuccess (pt_URL t) cb)"

text \<open>One tick of the loop that \<^verbatim>\<open>StartProber\<close> runs.\<close>

definition probe_tick :: "(string \<Rightarrow> probe_outcome) \<Rightarrow> int \<Rightarrow> ProbeTarget list \<Rightarrow> CircuitBreaker \<Rightarrow> CircuitBreaker" where
  "probe_tick client now targets cb = fold (probeOne client now) targets cb"

section \<open>Histories\<close>

text \<open>What happens to a breaker: a success or a failure of a backend, at a time.\<close>

datatype event = Success string | Failure string int

fun record_event :: "event \<Rightarrow> CircuitBreaker \<Rightarrow> CircuitBreaker" where
  "record_event (Success url) cb = RecordSuccess url cb"
| "record_event (Failure url now) cb = RecordFailure now url cb"

text \<open>The ticks of the failures of a backend since its last success, oldest first.\<close>

fun recent_failures :: "string \<Rightarrow> event list \<Rightarrow> int list \<Rightarrow> int list" where
  "recent_failures url [] acc = acc"
| "recent_failures url (Success u # es) acc = recent_failures url es (if u = url then [] else acc)"
| "recent_failures url (Failure u t # es) acc = recent_failures url es (if u = url then acc @ [t] else acc)"

definition reflects :: "CircuitBreaker \<Rightarrow> string \<Rightarrow> int list \<Rightarrow> bool" where
  "reflects cb url ts \<longleftrightarrow>
     (case map_of (states cb) url of
        None \<Rightarrow> ts = []
      | Some st \<Rightarrow> failures st = int (length ts) \<and> (is_open st \<longleftrightarrow> threshold cb \<le> int (length ts))
          \<and> (is_open st \<longrightarrow> ts \<noteq> [] \<and> openUntil st = last ts + cooldown cb))"

lemma record_event_params [simp]:
  "threshold (record_event e cb) = threshold cb" "cooldown (record_event e cb) = cooldown cb"
  by (cases e; simp add: RecordSuccess_def RecordFailure_def Let_def split: option.splits)+

lemma reflects_other:
  "u \<noteq> url \<Longrightarrow> reflects (cb\<lparr>states := AList.update u st (states cb)\<rparr>) url ts = reflects cb url ts"
  by (simp add: reflects_def update_conv' cong: option.case_cong)

lemma reflects_step:
  assumes "0 < threshold cb" and "reflects cb url ts"
  shows "reflects (record_event e cb) url (recent_failures url [e] ts)"
proof (cases e)
  case (Success u)
  with assms show ?thesis
    by (auto simp: reflects_def RecordSuccess_def update_conv' split: option.splits)
next
  case (Failure u t)
  show ?thesis
  proof (cases "u = url")
    case True
    with Failure assms show ?thesis
      by (auto simp: reflects_def RecordFailure_def update_conv' Let_def split: option.splits)
  next
    case False
    with Failure assms(2) show ?thesis
      by (simp add: RecordFailure_def Let_def reflects_other)
  qed
qed

lemma recent_failures_Cons: "recent_failures url (e # es) ts = recent_failures url es (recent_failures url [e] ts)"
  by (cases e) simp_all

lemma reflects_history:
  "0 < threshold cb \<Longrightarrow> reflects cb url ts \<Longrightarrow> reflects (fold record_event es cb) url (recent_failures url es ts)"
proof (induction es arbitrary: cb ts)
  case (Cons e es)
  then show ?case
    using Cons.IH [of "record_event e cb" "recent_failures url [e] ts"] reflects_step [of cb url ts e]
      recent_failures_Cons [of url e es ts] by simp
qed simp

lemma fold_params [simp]:
  "threshold (fold record_event es cb) = threshold cb" "cooldown (fold record_event es cb) = cooldown cb"
  by (induction es arbitrary: cb) simp_all

lemma NewCircuitBreaker_pos [simp]: "0 < threshold (NewCircuitBreaker th cd)" "0 < cooldown (NewCircuitBreaker th cd)"
  by (simp_all add: NewCircuitBreaker_def)

text \<open>
  C13: after any history of successes and failures of any backends, a backend is allowed exactly if it has had
  fewer failures in a row since its last success than the threshold, or the cooldown since its last failure
  has passed; and it is reported open exactly when it is not allowed. Histories of other backends play no
  part.
\<close>

theorem breaker_history:
  fixes es th cd url
  defines "cb \<equiv> fold record_event es (NewCircuitBreaker th cd)" and "ts \<equiv> recent_failures url es []"
  shows "(Allow now cb url \<longleftrightarrow> int (length ts) < threshold cb \<or> last ts + cooldown cb \<le> now)
       \<and> IsOpen now cb url = (\<not> Allow now cb url)"
proof -
  have "reflects (NewCircuitBreaker th cd) url []"
    by (simp add: reflects_def NewCircuitBreaker_def)
  then have r: "reflects cb url ts"
    unfolding cb_def ts_def by (intro reflects_history) simp_all
  have "0 < threshold cb" by (simp add: cb_def)
  with r show ?thesis
    by (auto simp: reflects_def Allow_def IsOpen_def split: option.splits)
qed

section \<open>The prober's effect\<close>

definition probe_event :: "(string \<Rightarrow> probe_outcome) \<Rightarrow> int \<Rightarrow> ProbeTarget \<Rightarrow> event list" where
  "probe_event client now t =
     (case client (probe_url t) of CannotBuild \<Rightarrow> [] | CallFailed \<Rightarrow> [Failure (pt_URL t) now]
      | Answered code \<Rightarrow> [if code \<ge> 500 then Failure (pt_URL t) now else Success (pt_URL t)])"

lemma probeOne_events: "probeOne client now t cb = fold record_event (probe_event client now t) cb"
  by (simp add: probeOne_def probe_event_def split: probe_outcome.splits)

lemma probe_tick_events:
  "probe_tick client now targets cb = fold record_event (concat (map (probe_event client now) targets)) cb"
  unfolding probe_tick_def by (induction targets arbitrary: cb) (simp_all add: probeOne_events)

lemma recent_failures_append:
  "recent_failures url (es @ es') ts = recent_failures url es' (recent_failures url es ts)"
proof (induction es arbitrary: ts)
  case (Cons e es)
  then show ?case by (cases e) simp_all
qed simp

lemma probe_event_other: "pt_URL t \<noteq> url \<Longrightarrow> recent_failures url (probe_event client now t) ts = ts"
  by (auto simp: probe_event_def split: probe_outcome.splits)

lemma recent_failures_others:
  "url \<notin> pt_URL ` set targets \<Longrightarrow> recent_failures url (concat (map (probe_event client now) targets)) ts = ts"
proof (induction targets)
  case (Cons t targets)
  then show ?case
    by (auto simp: recent_failures_append probe_event_other)
qed simp

lemma recent_failures_tick:
  assumes "distinct (map pt_URL targets)" and "t \<in> set targets"
  shows "recent_failures (pt_URL t) (concat (map (probe_event client now) targets)) ts =
     recent_failures (pt_URL t) (probe_event client now t) ts"
  using assms
proof (induction targets arbitrary: ts)
  case (Cons a targets)
  show ?case
  proof (cases "a = t")
    case True
    with Cons.prems show ?thesis by (simp add: recent_failures_append recent_failures_others)
  next
    case False
    with Cons.prems have "t \<in> set targets" "pt_URL a \<noteq> pt_URL t" by auto
    with Cons show ?thesis by (simp add: recent_failures_append probe_event_other)
  qed
qed simp

text \<open>The ticks of the prober at given times, against a backend whose answers may change over time.\<close>

definition probe_ticks ::
  "(int \<Rightarrow> string \<Rightarrow> probe_outcome) \<Rightarrow> int list \<Rightarrow> ProbeTarget list \<Rightarrow> CircuitBreaker \<Rightarrow> CircuitBreaker" where
  "probe_ticks client ticks targets cb = fold (\<lambda>now. probe_tick (client now) now targets) ticks cb"

definition probe_fails :: "probe_outcome \<Rightarrow> bool" where
  "probe_fails o1 = (case o1 of CannotBuild \<Rightarrow> False | CallFailed \<Rightarrow> True | Answered c \<Rightarrow> 500 \<le> c)"

lemma probe_ticks_reflects:
  assumes "distinct (map pt_URL targets)" and "t \<in> set targets" and "0 < threshold cb"
    and "reflects cb (pt_URL t) ts" and "\<forall>now \<in> set ticks. probe_fails (client now (probe_url t))"
  shows "reflects (probe_ticks client ticks targets cb) (pt_URL t) (ts @ ticks)
       \<and> threshold (probe_ticks client ticks targets cb) = threshold cb
       \<and> cooldown (probe_ticks client ticks targets cb) = cooldown cb"
  using assms(3-5)
proof (induction ticks arbitrary: cb ts)
  case Nil
  then show ?case by (simp add: probe_ticks_def)
next
  case (Cons now ticks)
  let ?cb = "probe_tick (client now) now targets cb"
  have "recent_failures (pt_URL t) (probe_event (client now) now t) ts = ts @ [now]"
    using Cons.prems(3) by (auto simp: probe_event_def probe_fails_def split: probe_outcome.splits)
  then have "reflects ?cb (pt_URL t) (ts @ [now])" "threshold ?cb = threshold cb" "cooldown ?cb = cooldown cb"
    using reflects_history [OF Cons.prems(1,2), of "concat (map (probe_event (client now) now) targets)"]
    by (simp_all add: probe_tick_events recent_failures_tick [OF assms(1,2)])
  with Cons.IH [of ?cb "ts @ [now]"] Cons.prems show ?case
    by (simp add: probe_ticks_def)
qed

text \<open>
  the prober trips and repairs a breaker without live traffic. Whatever happened before, once a target
  (no other target having its URL) has failed in as many consecutive ticks as the threshold says, it is not
  allowed until the cooldown has passed since the last of them; and one tick in which it answers below 500
  makes it allowed at once.
\<close>

theorem prober_trips_and_repairs:
  assumes "distinct (map pt_URL targets)" and "t \<in> set targets"
    and "cb = fold record_event es (NewCircuitBreaker th cd)"
    and "\<forall>now \<in> set ticks. probe_fails (client now (probe_url t))"
    and "threshold cb \<le> int (length ticks)" and "now < last ticks + cooldown cb"
    and "client later (probe_url t) = Answered code" and "code < 500"
  shows "\<not> Allow now (probe_ticks client ticks targets cb) (pt_URL t)
       \<and> Allow now' (probe_ticks client (ticks @ [later]) targets cb) (pt_URL t)"
proof -
  have pos: "0 < threshold cb" by (simp add: assms(3))
  then have ne: "ticks \<noteq> []" using assms(5) by auto
  have "reflects cb (pt_URL t) (recent_failures (pt_URL t) es [])"
    unfolding assms(3) by (intro reflects_history) (simp_all add: reflects_def NewCircuitBreaker_def)
  from probe_ticks_reflects [where client = client, OF assms(1,2) pos this assms(4)]
  have r: "reflects (probe_ticks client ticks targets cb) (pt_URL t) (recent_failures (pt_URL t) es [] @ ticks)"
    "threshold (probe_ticks client ticks targets cb) = threshold cb"
    "cooldown (probe_ticks client ticks targets cb) = cooldown cb" by auto
  from reflects_history [OF _ r(1), of "concat (map (probe_event (client later) later) targets)"] pos r(2)
  have "reflects (probe_ticks client (ticks @ [later]) targets cb) (pt_URL t) []"
    using recent_failures_tick [OF assms(1,2), of "client later" later] assms(7,8)
    by (simp add: probe_ticks_def probe_tick_events probe_event_def)
  moreover have "threshold (probe_ticks client (ticks @ [later]) targets cb) = threshold cb"
    using r(2) by (simp add: probe_ticks_def probe_tick_events)
  ultimately have "Allow now' (probe_ticks client (ticks @ [later]) targets cb) (pt_URL t)"
    using pos by (auto simp: reflects_def Allow_def split: option.splits)
  moreover have "\<not> Allow now (probe_ticks client ticks targets cb) (pt_URL t)"
    using r ne assms(5,6) by (auto simp: reflects_def Allow_def split: option.splits)
  ultimately show ?thesis by blast
qed

theorem prober_witness:
  "\<not> Allow 5 (probe_ticks (\<lambda>now _. if now = 9 then Answered 200 else CallFailed) [1, 2]
       [\<lparr>pt_Model = ''m'', pt_URL = ''u'', HealthPath = []\<rparr>] (NewCircuitBreaker 2 10)) ''u''"
  using prober_trips_and_repairs [of "[\<lparr>pt_Model = ''m'', pt_URL = ''u'', HealthPath = []\<rparr>]"
      "\<lparr>pt_Model = ''m'', pt_URL = ''u'', HealthPath = []\<rparr>" "NewCircuitBreaker 2 10" "[]" 2 10 "[1, 2]"
      "\<lambda>now _. if now = 9 then Answered 200 else CallFailed" 5 9 200]
  by (simp add: probe_fails_def NewCircuitBreaker_def)

end
