(* ===== verification/Json.thy ===== *)
theory Json
  imports Prelude Complex_Main
begin

text \<open>
  JSON values as \<^verbatim>\<open>encoding/json\<close> decodes them into an \<^verbatim>\<open>any\<close>, and white space as Go's \<^verbatim>\<open>unicode.IsSpace\<close> sees it. An
  object is the list of its members in the order of the document. Of members with the same key the last one
  counts; a struct field takes the last member whose key is its name up to the case of letters.
\<close>

datatype json = JNull | JBool bool | JNum rat | JStr string | JArr "json list" | JObj "(string \<times> json) list"

definition jget :: "(string \<times> json) list \<Rightarrow> string \<Rightarrow> json option" where
  "jget kvs k = map_of (rev kvs) k"

text \<open>Assignment to a key of a decoded map: other members keep their place.\<close>

fun jput :: "string \<Rightarrow> json \<Rightarrow> (string \<times> json) list \<Rightarrow> (string \<times> json) list" where
  "jput k v [] = [(k, v)]"
| "jput k v (kv # kvs) = (if fst kv = k then (k, v) # filter (\<lambda>p. fst p \<noteq> k) kvs else kv # jput k v kvs)"

definition jdel :: "string \<Rightarrow> (string \<times> json) list \<Rightarrow> (string \<times> json) list" where
  "jdel k kvs = filter (\<lambda>p. fst p \<noteq> k) kvs"

text \<open>The folding of a key: letters to lower case, and the two non-ASCII runes that fold to a letter (the long s
  U+017F and the Kelvin sign U+212A).\<close>

fun fold_key :: "string \<Rightarrow> string" where
  "fold_key (a # b # c # cs) =
     (if a = CHR 0xE2 \<and> b = CHR 0x84 \<and> c = CHR 0xAA then CHR ''k'' # fold_key cs
      else if a = CHR 0xC5 \<and> b = CHR 0xBF then CHR ''s'' # fold_key (c # cs)
      else (if CHR ''A'' \<le> a \<and> a \<le> CHR ''Z'' then char_of (of_char a + 32 :: nat) else a) # fold_key (b # c # cs))"
| "fold_key [a, b] =
     (if a = CHR 0xC5 \<and> b = CHR 0xBF then ''s''
      else map (\<lambda>x. if CHR ''A'' \<le> x \<and> x \<le> CHR ''Z'' then char_of (of_char x + 32 :: nat) else x) [a, b])"
| "fold_key cs = map (\<lambda>x. if CHR ''A'' \<le> x \<and> x \<le> CHR ''Z'' then char_of (of_char x + 32 :: nat) else x) cs"

definition jfield :: "(string \<times> json) list \<Rightarrow> string \<Rightarrow> json" where
  "jfield kvs name = (case find (\<lambda>p. fold_key (fst p) = name) (rev kvs) of None \<Rightarrow> JNull | Some p \<Rightarrow> snd p)"

lemma jget_jput: "jget (jput k v kvs) k' = (if k = k' then Some v else jget kvs k')"
proof -
  have other: "map_of (rev (filter (\<lambda>p. fst p \<noteq> k) kvs)) l = (if l = k then None else map_of (rev kvs) l)"
    for kvs :: "(string \<times> json) list" and l
    using map_of_filter_fst [of "\<lambda>x. x \<noteq> k" "rev kvs" l] by (simp add: rev_filter)
  show ?thesis
    by (induction kvs) (auto simp: jget_def map_add_def other split: option.splits if_splits)
qed

section \<open>White space\<close>

text \<open>The encodings of the white space runes: tab to carriage return, space, and U+0085, U+00A0, U+1680, U+2000 to
  U+200A, U+2028, U+2029, U+202F, U+205F, U+3000.\<close>

definition space_runes :: "string list" where
  "space_runes = map (\<lambda>n. [char_of n]) [9, 10, 11, 12, 13, 32 :: nat] @ map (map char_of)
     ([[0xC2, 0x85], [0xC2, 0xA0], [0xE1, 0x9A, 0x80]] @ map (\<lambda>n. [0xE2, 0x80, 0x80 + n]) [0..<11] @
      [[0xE2, 0x80, 0xA8], [0xE2, 0x80, 0xA9], [0xE2, 0x80, 0xAF], [0xE2, 0x81, 0x9F], [0xE3, 0x80, 0x80 :: nat]])"

function trim_left :: "string list \<Rightarrow> string \<Rightarrow> string" where
  "trim_left ws s =
     (case find (\<lambda>w. w \<noteq> [] \<and> HasPrefix s w) ws of
        None \<Rightarrow> s
      | Some w \<Rightarrow> trim_left ws (drop (length w) s))"
  by pat_completeness auto
termination
  by (relation "measure (\<lambda>(ws, s). length s)") (auto simp: find_Some_iff HasPrefix_iff)

declare trim_left.simps [simp del]

definition TrimSpace :: "string \<Rightarrow> string" where
  "TrimSpace s = rev (trim_left (map rev space_runes) (rev (trim_left space_runes s)))"

end
