(* ===== verification/Auth.thy ===== *)
theory Auth
  imports Http Json
begin

text \<open>
  Authentication (\<^verbatim>\<open>internal/auth/auth.go\<close>, \<^verbatim>\<open>middleware.go\<close>): the bearer-token and header
  authenticators, the introspection cache, and the middleware that replaces a request's identity headers.
  Parameters: \<open>jwt\<close> is \<^verbatim>\<open>jwt.Parse\<close> with the configured keys, methods and issuer (the claims of a
  token it accepts), \<open>hdr_json\<close> decodes the header part of a token, \<open>sha\<close> is \<^verbatim>\<open>sha256.Sum256\<close>,
  \<open>endpoint\<close> the introspection endpoint. Times are nanoseconds.
\<close>

section \<open>Identity\<close>

record Principal =
  Subject :: string
  Consumer :: string
  p_Groups :: "string list"
  p_Roles :: "string list"
  p_Scopes :: "string list"
  UserType :: string
  Authenticated :: bool

definition no_principal :: Principal where
  "no_principal = \<lparr>Subject = [], Consumer = [], p_Groups = [], p_Roles = [], p_Scopes = [], UserType = [],
     Authenticated = False\<rparr>"

datatype auth_error = ErrNoCredentials | ErrInvalidToken | Unavailable

record ClaimMap =
  cm_Subject :: string
  cm_Consumer :: string
  cm_Scopes :: string
  cm_Groups :: string
  cm_Roles :: string

record OAuth2Config =
  o_Audiences :: "string list"
  Claims :: ClaimMap
  o_Validation :: string

definition claimDefaults :: "ClaimMap \<Rightarrow> ClaimMap" where
  "claimDefaults cm =
     cm\<lparr>cm_Subject := (if cm_Subject cm = [] then ''sub'' else cm_Subject cm),
        cm_Scopes := (if cm_Scopes cm = [] then ''scope'' else cm_Scopes cm)\<rparr>"

section \<open>Claims\<close>

type_synonym claims = "(string \<times> json) list"

text \<open>ASCII white space, as \<^verbatim>\<open>strings.Fields\<close> sees it.\<close>

definition is_space :: "char \<Rightarrow> bool" where
  "is_space c \<longleftrightarrow> c = CHR '' '' \<or> (let n = of_char c :: nat in 9 \<le> n \<and> n \<le> 13)"

fun fields :: "string \<Rightarrow> string \<Rightarrow> string list" where
  "fields cur [] = (if cur = [] then [] else [cur])"
| "fields cur (c # cs) =
     (if is_space c then (if cur = [] then fields [] cs else cur # fields [] cs) else fields (cur @ [c]) cs)"

definition splitTokens :: "string \<Rightarrow> string list" where
  "splitTokens s = (if s = [] then [] else fields [] (map (\<lambda>c. if c = CHR '','' then CHR '' '' else c) s))"

text \<open>The walk along a dotted path, segment by segment.\<close>

fun claim_walk :: "claims \<Rightarrow> string list \<Rightarrow> json option" where
  "claim_walk cs [] = None"
| "claim_walk cs [p] = map_of cs p"
| "claim_walk cs (p # q # ps) = (case map_of cs p of Some (JObj nested) \<Rightarrow> claim_walk nested (q # ps) | _ \<Rightarrow> None)"

definition claimGet :: "claims \<Rightarrow> string \<Rightarrow> json option" where
  "claimGet cs path = claim_walk cs (split_byte CHR ''.'' path)"

definition claimString :: "claims \<Rightarrow> string \<Rightarrow> string" where
  "claimString cs path = (case claimGet cs path of Some (JStr s) \<Rightarrow> s | _ \<Rightarrow> [])"

definition strings_of :: "json list \<Rightarrow> string list" where
  "strings_of js = concat (map (\<lambda>j. case j of JStr s \<Rightarrow> [s] | _ \<Rightarrow> []) js)"

definition claimStrings :: "claims \<Rightarrow> string \<Rightarrow> string list" where
  "claimStrings cs path =
     (case claimGet cs path of Some (JStr s) \<Rightarrow> splitTokens s | Some (JArr js) \<Rightarrow> strings_of js | _ \<Rightarrow> [])"

definition buildPrincipal :: "claims \<Rightarrow> ClaimMap \<Rightarrow> Principal" where
  "buildPrincipal cs cm =
     no_principal\<lparr>Subject := claimString cs (cm_Subject cm),
        Consumer := (if cm_Consumer cm \<noteq> [] then claimString cs (cm_Consumer cm) else []),
        p_Scopes := claimStrings cs (cm_Scopes cm),
        p_Groups := (if cm_Groups cm \<noteq> [] then claimStrings cs (cm_Groups cm) else []),
        p_Roles := (if cm_Roles cm \<noteq> [] then claimStrings cs (cm_Roles cm) else [])\<rparr>"

definition checkAudience :: "claims \<Rightarrow> string list \<Rightarrow> auth_error option" where
  "checkAudience cs required =
     (case map_of cs ''aud'' of
        Some (JStr v) \<Rightarrow> if list_ex (\<lambda>r. r = v) required then None else Some ErrInvalidToken
      | Some (JArr v) \<Rightarrow>
          if list_ex (\<lambda>r. list_ex (\<lambda>t. r = t) (strings_of v)) required then None else Some ErrInvalidToken
      | _ \<Rightarrow> Some ErrInvalidToken)"

section \<open>Bearer tokens\<close>

record Request =
  r_Path :: string
  Header :: header

definition extractBearer :: "Request \<Rightarrow> auth_error + string" where
  "extractBearer r =
     (let hdr = hGet (Header r) ''Authorization'' in
      if hdr = [] then Inl ErrNoCredentials
      else if \<not> HasPrefix hdr ''Bearer '' then Inl ErrNoCredentials
      else (let raw = TrimSpace (drop 7 hdr) in if raw = [] then Inl ErrNoCredentials else Inr raw))"

definition looksLikeJWT :: "(string \<Rightarrow> claims option) \<Rightarrow> string \<Rightarrow> bool" where
  "looksLikeJWT hdr_json s =
     (let parts = split_byte CHR ''.'' s in
      if length parts \<noteq> 3 then False
      else case hdr_json (hd parts) of None \<Rightarrow> False | Some h \<Rightarrow> map_of h ''alg'' \<noteq> None)"

definition authenticateJWT :: "(string \<Rightarrow> claims option) \<Rightarrow> OAuth2Config \<Rightarrow> string \<Rightarrow> auth_error + Principal" where
  "authenticateJWT jwt cfg raw =
     (case jwt raw of
        None \<Rightarrow> Inl ErrInvalidToken
      | Some cs \<Rightarrow>
          (case (if o_Audiences cfg \<noteq> [] then checkAudience cs (o_Audiences cfg) else None) of
             Some e \<Rightarrow> Inl e
           | None \<Rightarrow> Inr ((buildPrincipal cs (claimDefaults (Claims cfg)))\<lparr>Authenticated := True\<rparr>)))"

section \<open>Introspection\<close>

datatype intro_reply = CallError | Reply int "claims option"

record introspectionCacheEntry =
  principal :: Principal
  expiresAt :: int

record tokenIntrospector =
  CacheTTL :: int
  ti_cm :: ClaimMap
  ti_cache :: "(string \<times> introspectionCacheEntry) list"

text \<open>\<open>now\<close> is the time of the cache lookup, \<open>now'\<close> the time after the call. The truncation of the
  \<^verbatim>\<open>exp\<close> claim to whole seconds is \<^verbatim>\<open>int64(expV)\<close>.\<close>

definition trunc_rat :: "rat \<Rightarrow> int" where
  "trunc_rat q = (if q < 0 then \<lceil>q\<rceil> else \<lfloor>q\<rfloor>)"

definition cache_expiry :: "int \<Rightarrow> int \<Rightarrow> claims \<Rightarrow> int" where
  "cache_expiry now ttl0 body =
     (let ttl = (if ttl0 = 0 then 60 * second else ttl0)
      in case map_of body ''exp'' of
           Some (JNum e) \<Rightarrow>
             (let remaining = max 0 (trunc_rat e * second - now)
              in if remaining < ttl then now + remaining else now + ttl)
         | _ \<Rightarrow> now + ttl)"

definition introspect ::
  "(string \<Rightarrow> string) \<Rightarrow> (string \<Rightarrow> intro_reply) \<Rightarrow> int \<Rightarrow> int \<Rightarrow> string \<Rightarrow> tokenIntrospector \<Rightarrow>
   (auth_error + Principal) \<times> tokenIntrospector" where
  "introspect sha endpoint now now' token ti =
     (let key = sha token;
          call = (case endpoint token of
             CallError \<Rightarrow> (Inl Unavailable, ti)
           | Reply status body \<Rightarrow>
               if status < 200 \<or> status \<ge> 300 then (Inl Unavailable, ti)
               else (case body of
                 None \<Rightarrow> (Inl Unavailable, ti)
               | Some b \<Rightarrow>
                   if map_of b ''active'' \<noteq> Some (JBool True) then (Inl ErrInvalidToken, ti)
                   else (let p = (buildPrincipal b (ti_cm ti))\<lparr>Authenticated := True\<rparr>
                         in (Inr p, ti\<lparr>ti_cache := AList.update key
                               \<lparr>principal = p, expiresAt = cache_expiry now' (CacheTTL ti) b\<rparr> (ti_cache ti)\<rparr>))))
      in case map_of (ti_cache ti) key of
           Some e \<Rightarrow> if now < expiresAt e then (Inr (principal e), ti) else call
         | None \<Rightarrow> call)"

record OAuth2Authenticator =
  oa_cfg :: OAuth2Config
  strategy :: string
  introspector :: "tokenIntrospector option"

definition timedIntrospect ::
  "(string \<Rightarrow> string) \<Rightarrow> (string \<Rightarrow> intro_reply) \<Rightarrow> int \<Rightarrow> int \<Rightarrow> string \<Rightarrow> OAuth2Authenticator \<Rightarrow> tokenIntrospector \<Rightarrow>
   (auth_error + Principal) \<times> OAuth2Authenticator" where
  "timedIntrospect sha endpoint now now' raw a ti =
     (let (res, ti') = introspect sha endpoint now now' raw ti in (res, a\<lparr>introspector := Some ti'\<rparr>))"

definition Authenticate ::
  "(string \<Rightarrow> claims option) \<Rightarrow> (string \<Rightarrow> claims option) \<Rightarrow> (string \<Rightarrow> string) \<Rightarrow> (string \<Rightarrow> intro_reply) \<Rightarrow>
   int \<Rightarrow> int \<Rightarrow> Request \<Rightarrow> OAuth2Authenticator \<Rightarrow> (auth_error + Principal) \<times> OAuth2Authenticator" where
  "Authenticate jwt hdr_json sha endpoint now now' r a =
     (case extractBearer r of
        Inl e \<Rightarrow> (Inl e, a)
      | Inr raw \<Rightarrow>
          if strategy a = ''jwt'' then (authenticateJWT jwt (oa_cfg a) raw, a)
          else if strategy a = ''introspection'' then
            (case introspector a of
               None \<Rightarrow> (Inl Unavailable, a)
             | Some ti \<Rightarrow> timedIntrospect sha endpoint now now' raw a ti)
          else if looksLikeJWT hdr_json raw then (authenticateJWT jwt (oa_cfg a) raw, a)
          else (case introspector a of
                  Some ti \<Rightarrow> timedIntrospect sha endpoint now now' raw a ti
                | None \<Rightarrow> (authenticateJWT jwt (oa_cfg a) raw, a)))"

section \<open>Trusted headers\<close>

record HeaderConfig =
  ConsumerHeader :: string
  UserTypeHeader :: string
  GroupsHeader :: string
  RolesHeader :: string
  ScopesHeader :: string

definition HeaderAuthenticate :: "HeaderConfig \<Rightarrow> Request \<Rightarrow> Principal" where
  "HeaderAuthenticate cfg r =
     (let h = Header r;
          consumer = (if ConsumerHeader cfg \<noteq> [] then hGet h (ConsumerHeader cfg) else [])
      in \<lparr>Subject = consumer, Consumer = consumer,
          p_Groups = (if GroupsHeader cfg \<noteq> [] then splitTokens (hGet h (GroupsHeader cfg)) else []),
          p_Roles = (if RolesHeader cfg \<noteq> [] then splitTokens (hGet h (RolesHeader cfg)) else []),
          p_Scopes = (if ScopesHeader cfg \<noteq> [] then splitTokens (hGet h (ScopesHeader cfg)) else []),
          UserType = (if UserTypeHeader cfg \<noteq> [] then hGet h (UserTypeHeader cfg) else []),
          Authenticated = (consumer \<noteq> [])\<rparr>)"

section \<open>The middleware\<close>

text \<open>What a request comes to: the next handler with a request and, where one is known, the caller; or an
  error response; or, in a mode the switch does not know, no response at all.\<close>

datatype outcome = Next Request "Principal option" | Respond int | NoResponse

definition exempt_path :: "string list \<Rightarrow> string \<Rightarrow> bool" where
  "exempt_path exempt path = list_ex (\<lambda>prefix. path = prefix \<or> HasPrefix path (prefix @ ''/'')) exempt"

definition bridge :: "string \<Rightarrow> string \<Rightarrow> header \<Rightarrow> header" where
  "bridge name v h =
     (if name \<noteq> [] then (let h1 = hDel name h in if v \<noteq> [] then hSet name v h1 else h1) else h)"

definition Middleware ::
  "(Request \<Rightarrow> 's \<Rightarrow> (auth_error + Principal) \<times> 's) option \<Rightarrow> string \<Rightarrow> string list \<Rightarrow> string \<Rightarrow> string \<Rightarrow>
   Request \<Rightarrow> 's \<Rightarrow> outcome \<times> 's" where
  "Middleware a mode exempt bridgeConsumer bridgeUserType r s =
     (case a of
        None \<Rightarrow> (Next r None, s)
      | Some authenticate \<Rightarrow>
          if mode = [] then (Next r None, s)
          else if exempt_path exempt (r_Path r) then (Next r None, s)
          else (let (res, s') = authenticate r s in
            if mode = ''oauth2'' then
              (case res of
                 Inl ErrNoCredentials \<Rightarrow> (Respond 401, s')
               | Inl ErrInvalidToken \<Rightarrow> (Respond 401, s')
               | Inl Unavailable \<Rightarrow> (Respond 503, s')
               | Inr p \<Rightarrow>
                   (Next (r\<lparr>Header := bridge bridgeUserType (UserType p)
                              (bridge bridgeConsumer (Consumer p) (hDel ''Authorization'' (Header r)))\<rparr>) (Some p), s'))
            else if mode = ''proxy'' then
              (case res of Inr p \<Rightarrow> (Next r (Some p), s') | Inl _ \<Rightarrow> (Next r None, s'))
            else (NoResponse, s')))"

section \<open>Identity headers cannot be forged\<close>

lemma hGet_bridge:
  "name \<noteq> [] \<Longrightarrow> hGet (bridge name v h) k =
     (if CanonicalHeaderKey name = CanonicalHeaderKey k then v else hGet h k)"
  by (auto simp: bridge_def hGet_hSet hGet_hDel Let_def)

text \<open>
  C11: in OAuth2 mode, on a path that is not exempt, the next handler runs only for a request that
  authenticated, and what it sees of the caller is what the token says and nothing the client sent: the
  consumer and user-type headers hold the principal's values (or nothing), the token itself is gone, the
  principal is attached, and the path is the one of the request.
\<close>

theorem oauth2_identity_not_forgeable:
  assumes "Middleware (Some authenticate) ''oauth2'' exempt bc bu r s = (Next r' who, s')"
    and "\<not> exempt_path exempt (r_Path r)" and "bc \<noteq> []" and "bu \<noteq> []"
    and "CanonicalHeaderKey bc \<noteq> CanonicalHeaderKey bu"
    and "CanonicalHeaderKey bc \<noteq> ''Authorization''" and "CanonicalHeaderKey bu \<noteq> ''Authorization''"
  shows "\<exists>p. authenticate r s = (Inr p, s') \<and> who = Some p
     \<and> hGet (Header r') bc = Consumer p \<and> hGet (Header r') bu = UserType p
     \<and> hGet (Header r') ''Authorization'' = [] \<and> r_Path r' = r_Path r"
proof -
  have canon: "CanonicalHeaderKey ''Authorization'' = ''Authorization''" by code_simp
  obtain res s1 where auth: "authenticate r s = (res, s1)" by force
  with assms(1,2) obtain p where p: "res = Inr p" "s1 = s'" "who = Some p"
    "r' = r\<lparr>Header := bridge bu (UserType p) (bridge bc (Consumer p) (hDel ''Authorization'' (Header r)))\<rparr>"
    by (auto simp: Middleware_def split: sum.splits auth_error.splits)
  then show ?thesis
    using auth assms(3-7) by (simp add: hGet_bridge hGet_hDel canon)
qed

section \<open>Accepted tokens\<close>

lemma checkAudience_None:
  "checkAudience cs required = None \<longleftrightarrow>
     (\<exists>v. map_of cs ''aud'' = Some (JStr v) \<and> v \<in> set required)
   \<or> (\<exists>js. map_of cs ''aud'' = Some (JArr js) \<and> set required \<inter> set (strings_of js) \<noteq> {})"
  by (auto simp: checkAudience_def list_ex_iff split: option.splits json.splits)

text \<open>
  a signed token is accepted only if the JWT library accepted it (signature, method, issuer, expiry) and,
  where audiences are configured, its audience claim names one of them; the principal then is exactly what
  the claims say, under the configured claim names, marked as authenticated and without a user type.
\<close>

theorem authenticateJWT_accepts:
  "authenticateJWT jwt cfg raw = Inr p \<longleftrightarrow>
     (\<exists>cs. jwt raw = Some cs
        \<and> (o_Audiences cfg = []
           \<or> (\<exists>v \<in> set (o_Audiences cfg). map_of cs ''aud'' = Some (JStr v)
                \<or> (\<exists>js. map_of cs ''aud'' = Some (JArr js) \<and> v \<in> set (strings_of js))))
        \<and> p = (buildPrincipal cs (claimDefaults (Claims cfg)))\<lparr>Authenticated := True\<rparr> \<and> UserType p = [])"
proof -
  have [simp]: "UserType (buildPrincipal cs cm) = []" for cs cm by (simp add: buildPrincipal_def no_principal_def)
  show ?thesis
  proof (cases "jwt raw")
    case (Some cs)
    have "checkAudience cs (o_Audiences cfg) = None \<longleftrightarrow>
        (\<exists>v \<in> set (o_Audiences cfg). map_of cs ''aud'' = Some (JStr v)
           \<or> (\<exists>js. map_of cs ''aud'' = Some (JArr js) \<and> v \<in> set (strings_of js)))"
      unfolding checkAudience_None by auto
    with Some show ?thesis by (auto simp: authenticateJWT_def split: option.splits)
  qed (simp add: authenticateJWT_def)
qed

section \<open>The introspection cache\<close>

type_synonym intro_call = "int \<times> int \<times> string \<times> intro_reply"

fun intro_run :: "(string \<Rightarrow> string) \<Rightarrow> intro_call list \<Rightarrow> tokenIntrospector \<Rightarrow> tokenIntrospector" where
  "intro_run sha [] ti = ti"
| "intro_run sha ((now, now', token, reply) # cs) ti =
     intro_run sha cs (snd (introspect sha (\<lambda>_. reply) now now' token ti))"

definition effective_ttl :: "tokenIntrospector \<Rightarrow> int" where
  "effective_ttl ti = (if CacheTTL ti = 0 then 60 * second else CacheTTL ti)"

text \<open>A call in which the endpoint vouched for a token with this hash, and what its answer says.\<close>

definition vouches :: "(string \<Rightarrow> string) \<Rightarrow> ClaimMap \<Rightarrow> int \<Rightarrow> string \<Rightarrow> introspectionCacheEntry \<Rightarrow> intro_call \<Rightarrow> bool" where
  "vouches sha cm ttl key e c \<longleftrightarrow>
     (\<exists>now now' token status b. c = (now, now', token, Reply status (Some b)) \<and> 200 \<le> status \<and> status < 300
        \<and> sha token = key \<and> map_of b ''active'' = Some (JBool True)
        \<and> principal e = (buildPrincipal b cm)\<lparr>Authenticated := True\<rparr>
        \<and> expiresAt e \<le> now' + ttl
        \<and> (\<forall>q. map_of b ''exp'' = Some (JNum q) \<longrightarrow> expiresAt e \<le> max now' (trunc_rat q * second)))"

definition cache_ok :: "(string \<Rightarrow> string) \<Rightarrow> ClaimMap \<Rightarrow> int \<Rightarrow> intro_call list \<Rightarrow> tokenIntrospector \<Rightarrow> bool" where
  "cache_ok sha cm ttl calls ti \<longleftrightarrow> ti_cm ti = cm \<and> effective_ttl ti = ttl \<and>
     (\<forall>key e. map_of (ti_cache ti) key = Some e \<longrightarrow> (\<exists>c \<in> set calls. vouches sha cm ttl key e c))"

lemma cache_expiry_bounds:
  "cache_expiry now (CacheTTL ti) b \<le> now + effective_ttl ti"
  "map_of b ''exp'' = Some (JNum q) \<Longrightarrow> cache_expiry now (CacheTTL ti) b \<le> max now (trunc_rat q * second)"
  by (auto simp: cache_expiry_def effective_ttl_def Let_def split: option.splits json.splits)

lemma introspect_fresh:
  assumes "introspect sha endpoint now now' token ti = (Inr p, ti')" and "ti' \<noteq> ti \<or> map_of (ti_cache ti) (sha token) = None"
  shows "\<exists>status b e. endpoint token = Reply status (Some b) \<and> ti' = ti\<lparr>ti_cache := AList.update (sha token) e (ti_cache ti)\<rparr>
     \<and> principal e = p \<and> vouches sha (ti_cm ti) (effective_ttl ti) (sha token) e (now, now', token, endpoint token)"
  using assms cache_expiry_bounds [where now = now' and ti = ti]
  by (auto simp: introspect_def vouches_def Let_def split: option.splits if_splits intro_reply.splits)

lemma introspect_step:
  assumes "cache_ok sha cm ttl calls ti" and "introspect sha endpoint now now' token ti = (res, ti')"
  shows "cache_ok sha cm ttl (calls @ [(now, now', token, endpoint token)]) ti'"
proof (cases "ti' = ti")
  case True
  with assms(1) show ?thesis by (fastforce simp: cache_ok_def)
next
  case False
  then obtain p where "res = Inr p"
    using assms(2) by (auto simp: introspect_def Let_def split: option.splits if_splits intro_reply.splits)
  from introspect_fresh [OF assms(2) [unfolded this]] False obtain e where
    ti': "ti' = ti\<lparr>ti_cache := AList.update (sha token) e (ti_cache ti)\<rparr>"
    and e: "vouches sha (ti_cm ti) (effective_ttl ti) (sha token) e (now, now', token, endpoint token)" by blast
  with assms(1) show ?thesis
    by (auto simp: cache_ok_def effective_ttl_def update_conv' split: if_splits)
qed

lemma intro_run_ok:
  "cache_ok sha cm ttl calls ti \<Longrightarrow> cache_ok sha cm ttl (calls @ cs) (intro_run sha cs ti)"
proof (induction cs arbitrary: calls ti)
  case (Cons c cs)
  obtain now now' token reply where c: "c = (now, now', token, reply)" by (cases c)
  obtain res ti' where i: "introspect sha (\<lambda>_. reply) now now' token ti = (res, ti')" by force
  from Cons.IH [OF introspect_step [OF Cons.prems i]] i c show ?case by simp
qed simp

text \<open>
  introspection with its cache only repeats what the endpoint said. After any sequence of lookups from an
  empty cache, an accepted token was reported active by the endpoint, in this call or in an earlier one for
  a token with the same hash; the principal is the one of that answer; and a cached answer is no older than
  the cache's lifetime and not past the expiry the endpoint reported.
\<close>

theorem introspection_cache_fresh:
  fixes ttl0 :: int and cm :: ClaimMap
  defines "ti0 \<equiv> \<lparr>CacheTTL = ttl0, ti_cm = cm, ti_cache = []\<rparr>"
  assumes "introspect sha endpoint now now' token (intro_run sha calls ti0) = (Inr p, ti')"
  shows "\<exists>c \<in> set (calls @ [(now, now', token, endpoint token)]). \<exists>e.
     vouches sha cm (effective_ttl ti0) (sha token) e c \<and> principal e = p
     \<and> (now < expiresAt e \<or> c = (now, now', token, endpoint token))"
proof -
  let ?ti = "intro_run sha calls ti0"
  have ok: "cache_ok sha cm (effective_ttl ti0) calls ?ti"
    using intro_run_ok [of sha cm "effective_ttl ti0" "[]" ti0 calls] by (simp add: cache_ok_def ti0_def)
  show ?thesis
  proof (cases "ti' \<noteq> ?ti \<or> map_of (ti_cache ?ti) (sha token) = None")
    case True
    from introspect_fresh [OF assms(2) this] ok show ?thesis by (auto simp: cache_ok_def)
  next
    case False
    then obtain e where e: "map_of (ti_cache ?ti) (sha token) = Some e" by auto
    show ?thesis
    proof (cases "now < expiresAt e")
      case True
      with e assms(2) have "principal e = p" by (simp add: introspect_def)
      with e ok True show ?thesis by (fastforce simp: cache_ok_def)
    next
      case expired: False
      have "vouches sha (ti_cm ?ti) (effective_ttl ?ti) (sha token)
          (the (map_of (ti_cache ti') (sha token))) (now, now', token, endpoint token)
          \<and> principal (the (map_of (ti_cache ti') (sha token))) = p"
        using assms(2) e expired cache_expiry_bounds [where now = now' and ti = ?ti]
        by (auto simp: introspect_def vouches_def Let_def update_conv' split: option.splits if_splits intro_reply.splits)
      with ok show ?thesis by (auto simp: cache_ok_def)
    qed
  qed
qed

text \<open>
  the configured audiences only bind signed tokens. A token that goes to introspection (the strategy says
  so, or it does not look like a JWT) is accepted as soon as the endpoint reports it active, also when its
  audience claim names none of the audiences, so that the same claims in a signed token would be refused.
\<close>

theorem introspection_ignores_audience:
  assumes "extractBearer r = Inr raw" and "introspector a = Some ti"
    and "strategy a = ''introspection'' \<or> strategy a = ''auto'' \<and> \<not> looksLikeJWT hdr_json raw"
    and "endpoint raw = Reply 200 (Some b)" and "map_of b ''active'' = Some (JBool True)"
    and "map_of (ti_cache ti) (sha raw) = None"
    and "o_Audiences (oa_cfg a) \<noteq> []" and "checkAudience b (o_Audiences (oa_cfg a)) = Some e"
  shows "(\<exists>p a'. Authenticate jwt hdr_json sha endpoint now now' r a = (Inr p, a'))
       \<and> authenticateJWT (\<lambda>_. Some b) (oa_cfg a) raw = Inl e"
  using assms
  by (auto simp: Authenticate_def timedIntrospect_def introspect_def authenticateJWT_def Let_def)

section \<open>Concrete requests\<close>

definition sample_call :: Request where
  "sample_call = \<lparr>r_Path = ''/v1/x'', Header = [(''Authorization'', [''Bearer t'']), (''X-Consumer'', [''mallory''])]\<rparr>"

definition sample_claims :: claims where
  "sample_claims = [(''active'', JBool True), (''sub'', JStr ''bob''), (''aud'', JStr ''elsewhere'')]"

definition sample_claim_map :: ClaimMap where
  "sample_claim_map = \<lparr>cm_Subject = ''sub'', cm_Consumer = ''sub'', cm_Scopes = ''scope'', cm_Groups = [], cm_Roles = []\<rparr>"

definition sample_authenticator :: OAuth2Authenticator where
  "sample_authenticator = \<lparr>oa_cfg = \<lparr>o_Audiences = [''gateway''], Claims = sample_claim_map, o_Validation = ''introspection''\<rparr>,
     strategy = ''introspection'',
     introspector = Some \<lparr>CacheTTL = 0, ti_cm = sample_claim_map, ti_cache = []\<rparr>\<rparr>"

theorem oauth2_identity_witness:
  "\<exists>r' who s'. Middleware (Some (Authenticate (\<lambda>_. None) (\<lambda>_. None) id (\<lambda>_. Reply 200 (Some sample_claims)) 0 0))
       ''oauth2'' [''/health''] ''X-Consumer'' ''X-User-Type'' sample_call sample_authenticator = (Next r' who, s')
     \<and> hGet (Header r') ''X-Consumer'' = ''bob''"
proof -
  let ?a = "Authenticate (\<lambda>_. None) (\<lambda>_. None) id (\<lambda>_. Reply 200 (Some sample_claims)) 0 0"
  let ?m = "Middleware (Some ?a) ''oauth2'' [''/health''] ''X-Consumer'' ''X-User-Type'' sample_call sample_authenticator"
  have run: "case fst ?m of Next _ _ \<Rightarrow> True | _ \<Rightarrow> False" by code_simp
  have a: "map_sum id Consumer (fst (?a sample_call sample_authenticator)) = Inr ''bob''" by code_simp
  have ex: "\<not> exempt_path [''/health''] (r_Path sample_call)" by code_simp
  have c: "CanonicalHeaderKey ''X-Consumer'' = ''X-Consumer''" by code_simp
  have u: "CanonicalHeaderKey ''X-User-Type'' = ''X-User-Type''" by code_simp
  from run obtain r' who s' where r': "?m = (Next r' who, s')"
    by (cases "fst ?m"; cases ?m) auto
  from oauth2_identity_not_forgeable [OF r' ex] obtain p where
    p: "?a sample_call sample_authenticator = (Inr p, s')" "hGet (Header r') ''X-Consumer'' = Consumer p"
    by (auto simp: c u)
  with a have "Consumer p = ''bob''" by simp
  with p r' show ?thesis by simp
qed

theorem introspection_cache_fresh_witness:
  "\<exists>c \<in> set [(0, 0, ''t'', Reply 200 (Some sample_claims))]. \<exists>e. vouches id sample_claim_map (60 * second) ''t'' e c"
proof -
  have "introspect id (\<lambda>_. Reply 200 (Some sample_claims)) 0 0 ''t'' (intro_run id []
      \<lparr>CacheTTL = 0, ti_cm = sample_claim_map, ti_cache = []\<rparr>)
    = (Inr ((buildPrincipal sample_claims sample_claim_map)\<lparr>Authenticated := True\<rparr>),
       snd (introspect id (\<lambda>_. Reply 200 (Some sample_claims)) 0 0 ''t'' (intro_run id []
         \<lparr>CacheTTL = 0, ti_cm = sample_claim_map, ti_cache = []\<rparr>)))"
    by (simp add: introspect_def sample_claims_def Let_def)
  from introspection_cache_fresh [OF this] show ?thesis
    by (auto simp: effective_ttl_def)
qed

theorem introspection_ignores_audience_witness:
  "\<exists>p a'. Authenticate (\<lambda>_. None) (\<lambda>_. None) id (\<lambda>_. Reply 200 (Some sample_claims)) 0 0 sample_call sample_authenticator
     = (Inr p, a')"
proof -
  have "extractBearer sample_call = Inr ''t''" by code_simp
  from introspection_ignores_audience [OF this, of sample_authenticator
      "\<lparr>CacheTTL = 0, ti_cm = sample_claim_map, ti_cache = []\<rparr>" "\<lambda>_. None" "\<lambda>_. Reply 200 (Some sample_claims)"
      sample_claims id ErrInvalidToken "\<lambda>_. None" 0 0]
  show ?thesis by (simp add: sample_authenticator_def sample_claims_def checkAudience_def)
qed

end
