(* ===== verification/Utf8.thy ===== *)
theory Utf8
  imports Prelude
begin

text \<open>
  Runes of a byte string: the decoding of Go's package \<^verbatim>\<open>unicode/utf8\<close>, shared by the shell patterns of the access
  policies and by the guardrails.
\<close>

section \<open>Decoding a rune\<close>

definition RuneError :: nat where "RuneError = 65533"

definition byte :: "char \<Rightarrow> nat" where "byte c = of_char c"

definition cont :: "nat \<Rightarrow> nat \<Rightarrow> nat \<Rightarrow> bool" where "cont lo hi b \<longleftrightarrow> lo \<le> b \<and> b \<le> hi"

text \<open>\<^verbatim>\<open>utf8.DecodeRuneInString\<close>: the rune and how many bytes it takes; an encoding that is not
  well-formed is \<^term>\<open>RuneError\<close> of one byte.\<close>

definition second_range :: "nat \<Rightarrow> nat \<times> nat" where
  "second_range b =
     (if b = 224 then (160, 191) else if b = 237 then (128, 159) else if b = 240 then (144, 191)
      else if b = 244 then (128, 143) else (128, 191))"

definition rune_size :: "nat \<Rightarrow> nat" where
  "rune_size b = (if b < 128 then 1 else if cont 194 223 b then 2 else if cont 224 239 b then 3
      else if cont 240 244 b then 4 else 0)"

fun DecodeRune :: "string \<Rightarrow> nat \<times> nat" where
  "DecodeRune [] = (RuneError, 0)"
| "DecodeRune (c # cs) =
     (let b = byte c; n = rune_size b; bs = map byte cs; (lo, hi) = second_range b in
      if n = 1 then (b, 1)
      else if n = 0 \<or> length cs < n - 1 \<or> \<not> cont lo hi (hd bs) \<or> \<not> list_all (cont 128 191) (take (n - 2) (tl bs))
      then (RuneError, 1)
      else (foldl (\<lambda>r b. r * 64 + b mod 64) (if n = 2 then b mod 32 else if n = 3 then b mod 16 else b mod 8)
              (take (n - 1) bs), n))"

lemma DecodeRune_pos: "s \<noteq> [] \<Longrightarrow> 0 < snd (DecodeRune s)"
  by (cases s) (auto simp: Let_def split: prod.split)

end
