(* ===== verification/Authz.thy ===== *)
theory Authz
  imports Auth Config Utf8
begin

text \<open>
  Access policies (\<^verbatim>\<open>internal/authz/authz.go\<close>): the rules, the engine that evaluates them, and the shell
  patterns of \<^verbatim>\<open>path/filepath.Match\<close> they are written with, on byte strings, as Go runs them (chunks
  between stars, leftmost match of each chunk, character classes and \<open>?\<close> on UTF-8 runes, errors for
  malformed patterns).
\<close>

section \<open>Shell patterns\<close>

text \<open>\<^verbatim>\<open>getEsc\<close>: a possibly escaped rune of a character class and what follows it; \<open>None\<close> is
  \<^verbatim>\<open>ErrBadPattern\<close>.\<close>

definition getEsc :: "string \<Rightarrow> (nat \<times> string) option" where
  "getEsc chunk =
     (if chunk = [] \<or> hd chunk = CHR ''-'' \<or> hd chunk = CHR '']'' then None
      else (let chunk' = (if hd chunk = CHR 0x5C then tl chunk else chunk) in
        if chunk' = [] then None
        else (let (r, n) = DecodeRune chunk' in
          if r = RuneError \<and> n = 1 then None
          else if drop n chunk' = [] then None
          else Some (r, drop n chunk'))))"

lemma getEsc_shorter: "getEsc chunk = Some (r, rest) \<Longrightarrow> length rest < length chunk"
  using DecodeRune_pos [of chunk] DecodeRune_pos [of "tl chunk"]
  by (cases chunk) (auto simp: getEsc_def Let_def split: if_splits prod.splits)

text \<open>The ranges of a character class, up to and with the closing bracket: whether one of them has the
  rune, and the rest of the chunk.\<close>

function class_ranges :: "nat \<Rightarrow> string \<Rightarrow> bool \<Rightarrow> bool \<Rightarrow> (bool \<times> string) option" where
  "class_ranges r chunk some_range matched =
     (if chunk \<noteq> [] \<and> hd chunk = CHR '']'' \<and> some_range then Some (matched, tl chunk)
      else (case getEsc chunk of
          None \<Rightarrow> None
        | Some (lo, rest) \<Rightarrow>
            (if hd rest = CHR ''-'' then
               (case getEsc (tl rest) of
                  None \<Rightarrow> None
                | Some (hi, rest') \<Rightarrow> class_ranges r rest' True (matched \<or> lo \<le> r \<and> r \<le> hi))
             else class_ranges r rest True (matched \<or> r = lo))))"
  by pat_completeness auto
termination
proof (relation "measure (\<lambda>(r, chunk, b, m). length chunk)", goal_cases)
  case (2 r chunk some_range matched a lo rest b hi rest')
  then have "length rest < length chunk" "length rest' < length (tl rest)" by (auto dest: getEsc_shorter)
  then show ?case by simp
qed (auto dest: getEsc_shorter)

declare class_ranges.simps [simp del]

lemma class_ranges_shorter:
  "class_ranges r chunk b m = Some (m', rest) \<Longrightarrow> length rest < length chunk"
proof (induction r chunk b m rule: class_ranges.induct)
  case (1 r chunk b m)
  show ?case
  proof (cases "chunk \<noteq> [] \<and> hd chunk = CHR '']'' \<and> b")
    case True
    with "1.prems" show ?thesis by (subst (asm) class_ranges.simps) auto
  next
    case False
    with "1.prems" obtain lo rest1 where g: "getEsc chunk = Some (lo, rest1)"
      by (subst (asm) class_ranges.simps) (auto split: option.splits)
    note short = getEsc_shorter [OF g]
    show ?thesis
    proof (cases "hd rest1 = CHR ''-''")
      case True
      with "1.prems" False g obtain hi rest2 where h: "getEsc (tl rest1) = Some (hi, rest2)"
        by (subst (asm) class_ranges.simps) (auto split: option.splits)
      with "1.prems" False g True have "class_ranges r rest2 True (m \<or> lo \<le> r \<and> r \<le> hi) = Some (m', rest)"
        by (subst (asm) class_ranges.simps) auto
      from "1.IH"(1) [OF False g refl True h refl this] getEsc_shorter [OF h] short show ?thesis by simp
    next
      case noRange: False
      with "1.prems" False g have "class_ranges r rest1 True (m \<or> r = lo) = Some (m', rest)"
        by (subst (asm) class_ranges.simps) auto
      from "1.IH"(2) [OF False g refl noRange this] short show ?thesis by simp
    qed
  qed
qed

text \<open>\<^verbatim>\<open>matchChunk\<close>: after a mismatch it goes on reading the chunk, to find a syntax error. \<open>None\<close> is the
  error, \<open>Some None\<close> no match, \<open>Some (Some rest)\<close> the rest of the name after a match.\<close>

function matchChunk :: "bool \<Rightarrow> string \<Rightarrow> string \<Rightarrow> string option option" where
  "matchChunk failed [] s = (if failed then Some None else Some (Some s))"
| "matchChunk failed0 (c # chunk) s =
     (let failed = (failed0 \<or> s = []) in
      if c = CHR ''['' then
        (let (r, s') = (if failed then (0, s) else (let (r, n) = DecodeRune s in (r, drop n s)));
             negated = (chunk \<noteq> [] \<and> hd chunk = CHR ''^'')
         in (case class_ranges r (if negated then tl chunk else chunk) False False of
               None \<Rightarrow> None
             | Some (matched, rest) \<Rightarrow> matchChunk (failed \<or> matched = negated) rest s'))
      else if c = CHR ''?'' then
        (if failed then matchChunk True chunk s
         else matchChunk (hd s = CHR ''/'') chunk (drop (snd (DecodeRune s)) s))
      else if c = CHR 0x5C then
        (if chunk = [] then None
         else if failed then matchChunk True (tl chunk) s
         else matchChunk (hd chunk \<noteq> hd s) (tl chunk) (tl s))
      else if failed then matchChunk True chunk s
      else matchChunk (c \<noteq> hd s) chunk (tl s))"
  by pat_completeness auto
termination
proof (relation "measure (\<lambda>(failed, chunk, s). length chunk)", goal_cases)
  case (2 failed0 c chunk s failed x r s' negated a matched rest)
  then show ?case using class_ranges_shorter [of r "if negated then tl chunk else chunk" False False matched rest]
    by (auto split: if_splits)
qed auto

declare matchChunk.simps(2) [simp del]

text \<open>\<^verbatim>\<open>scanChunk\<close>: the length of the chunk in front of the next star outside brackets.\<close>

fun scan_len :: "bool \<Rightarrow> string \<Rightarrow> nat" where
  "scan_len inrange [] = 0"
| "scan_len inrange (c # cs) =
     (if c = CHR 0x5C then (case cs of [] \<Rightarrow> 1 | _ # cs' \<Rightarrow> 2 + scan_len inrange cs')
      else if c = CHR ''['' then 1 + scan_len True cs
      else if c = CHR '']'' then 1 + scan_len False cs
      else if c = CHR ''*'' \<and> \<not> inrange then 0
      else 1 + scan_len inrange cs)"

definition scanChunk :: "string \<Rightarrow> bool \<times> string \<times> string" where
  "scanChunk pattern =
     (let p = dropWhile (\<lambda>c. c = CHR ''*'') pattern; i = scan_len False p
      in (pattern \<noteq> [] \<and> hd pattern = CHR ''*'', take i p, drop i p))"

text \<open>The search for a match of the chunk after skipping at least one byte, none of them a slash; \<open>final\<close>
  says that the chunk is the last one and must use up the name.\<close>

fun star_search :: "string \<Rightarrow> bool \<Rightarrow> string \<Rightarrow> string option option" where
  "star_search chunk final [] = Some None"
| "star_search chunk final (x # name) =
     (if x = CHR ''/'' then Some None
      else (case matchChunk False chunk name of
          None \<Rightarrow> None
        | Some None \<Rightarrow> star_search chunk final name
        | Some (Some t) \<Rightarrow> if final \<and> t \<noteq> [] then star_search chunk final name else Some (Some t)))"

lemma scan_len_le: "scan_len b p \<le> length p"
  by (induction b p rule: scan_len.induct) (auto split: list.splits)

lemma scan_len_pos: "p \<noteq> [] \<Longrightarrow> hd p \<noteq> CHR ''*'' \<Longrightarrow> 0 < scan_len False p"
  by (cases p) (auto split: list.splits)

lemma scanChunk_shorter: "pattern \<noteq> [] \<Longrightarrow> scanChunk pattern = (star, chunk, rest) \<Longrightarrow> length rest < length pattern"
proof -
  assume p: "pattern \<noteq> []" and s: "scanChunk pattern = (star, chunk, rest)"
  let ?q = "dropWhile (\<lambda>c. c = CHR ''*'') pattern"
  have rest: "rest = drop (scan_len False ?q) ?q" using s by (auto simp: scanChunk_def Let_def)
  show ?thesis
  proof (cases "hd pattern = CHR ''*''")
    case True
    with p have "length ?q < length pattern" by (cases pattern) (auto simp: le_imp_less_Suc length_dropWhile_le)
    with rest show ?thesis by simp
  next
    case False
    with p have "?q = pattern" by (cases pattern) auto
    with rest p scan_len_pos [OF p False] show ?thesis by simp
  qed
qed

text \<open>The rest of a pattern is only checked for errors once the match has failed.\<close>

function check_rest :: "string \<Rightarrow> bool option" where
  "check_rest pattern =
     (if pattern = [] then Some False
      else (let (star, chunk, rest) = scanChunk pattern in
        case matchChunk False chunk [] of None \<Rightarrow> None | Some _ \<Rightarrow> check_rest rest))"
  by pat_completeness auto
termination
  by (relation "measure length") (auto dest: scanChunk_shorter [OF _ sym])

text \<open>One turn of the loop: the chunk at the front of the name or, after a star, further on.\<close>

definition chunk_step :: "bool \<Rightarrow> string \<Rightarrow> bool \<Rightarrow> string \<Rightarrow> string option option" where
  "chunk_step star chunk final name =
     (case matchChunk False chunk name of
        None \<Rightarrow> None
      | Some (Some t) \<Rightarrow>
          if t = [] \<or> \<not> final then Some (Some t)
          else if star then star_search chunk final name else Some None
      | Some None \<Rightarrow> if star then star_search chunk final name else Some None)"

function filepath_Match :: "string \<Rightarrow> string \<Rightarrow> bool option" where
  "filepath_Match pattern name =
     (if pattern = [] then Some (name = [])
      else (let (star, chunk, rest) = scanChunk pattern in
        if star \<and> chunk = [] then Some (CHR ''/'' \<notin> set name)
        else (case chunk_step star chunk (rest = []) name of
            None \<Rightarrow> None
          | Some (Some t) \<Rightarrow> filepath_Match rest t
          | Some None \<Rightarrow> check_rest rest)))"
  by pat_completeness auto
termination
  by (relation "measure (\<lambda>(pattern, name). length pattern)") (auto dest: scanChunk_shorter [OF _ sym])

declare check_rest.simps [simp del] filepath_Match.simps [simp del]

section \<open>The engine\<close>

record compiledRule =
  cr_match :: PolicyMatch
  cr_allowModels :: "string list"
  cr_allowServiceTypes :: "string list"
  cr_limits :: "RateLimitConfig option"

record Engine =
  defaultAllow :: bool
  e_rules :: "compiledRule list"

record Decision =
  d_Allowed :: bool
  d_Limits :: "RateLimitConfig option"

definition NewEngine :: "PoliciesConfig \<Rightarrow> Engine" where
  "NewEngine cfg =
     \<lparr>defaultAllow = (Default cfg = ''allow''),
      e_rules = map (\<lambda>r. \<lparr>cr_match = Match r, cr_allowModels = AllowModels r,
                          cr_allowServiceTypes = AllowServiceTypes r, cr_limits = Limits r\<rparr>) (Rules cfg)\<rparr>"

fun contains :: "string list \<Rightarrow> string \<Rightarrow> bool" where
  "contains [] needle = False"
| "contains (v # vs) needle = (if v = needle then True else contains vs needle)"

fun intersects :: "string list \<Rightarrow> string list \<Rightarrow> bool" where
  "intersects [] b = False"
| "intersects (x # xs) b = (if contains b x then True else intersects xs b)"

fun globMatchAny :: "string list \<Rightarrow> string \<Rightarrow> bool" where
  "globMatchAny [] v = False"
| "globMatchAny (pat # pats) v =
     (case filepath_Match pat v of
        None \<Rightarrow> globMatchAny pats v
      | Some matched \<Rightarrow> if matched then True else globMatchAny pats v)"

definition matchIdentity :: "Principal option \<Rightarrow> PolicyMatch \<Rightarrow> bool" where
  "matchIdentity po m =
     (let p = (case po of None \<Rightarrow> no_principal | Some p \<Rightarrow> p) in
      if m_Groups m \<noteq> [] \<and> \<not> intersects (p_Groups p) (m_Groups m) then False
      else if m_Roles m \<noteq> [] \<and> \<not> intersects (p_Roles p) (m_Roles m) then False
      else if m_Scopes m \<noteq> [] \<and> \<not> intersects (p_Scopes p) (m_Scopes m) then False
      else if m_Consumers m \<noteq> [] \<and> \<not> contains (m_Consumers m) (Consumer p) then False
      else if m_UserTypes m \<noteq> [] \<and> \<not> contains (m_UserTypes m) (UserType p) then False
      else True)"

definition ruleGrantsRequest :: "Principal option \<Rightarrow> compiledRule \<Rightarrow> string \<Rightarrow> string \<Rightarrow> bool" where
  "ruleGrantsRequest p rule serviceType model =
     (if \<not> matchIdentity p (cr_match rule) then False
      else if cr_allowModels rule = [] then False
      else if \<not> globMatchAny (cr_allowModels rule) model then False
      else if cr_allowServiceTypes rule \<noteq> [] \<and> \<not> globMatchAny (cr_allowServiceTypes rule) serviceType then False
      else True)"

fun evaluate_rules :: "compiledRule list \<Rightarrow> Principal option \<Rightarrow> string \<Rightarrow> string \<Rightarrow> Decision" where
  "evaluate_rules [] p serviceType model = \<lparr>d_Allowed = False, d_Limits = None\<rparr>"
| "evaluate_rules (rule # rules) p serviceType model =
     (if ruleGrantsRequest p rule serviceType model then \<lparr>d_Allowed = True, d_Limits = cr_limits rule\<rparr>
      else evaluate_rules rules p serviceType model)"

definition Evaluate :: "Engine \<Rightarrow> Principal option \<Rightarrow> string \<Rightarrow> string \<Rightarrow> Decision" where
  "Evaluate e p serviceType model =
     (if defaultAllow e then \<lparr>d_Allowed = True, d_Limits = None\<rparr>
      else evaluate_rules (e_rules e) p serviceType model)"

definition Allowed :: "Engine \<Rightarrow> Principal option \<Rightarrow> string \<Rightarrow> string \<Rightarrow> bool" where
  "Allowed e p serviceType model = d_Allowed (Evaluate e p serviceType model)"

section \<open>What a pattern means\<close>

text \<open>The meaning of a pattern without classes and escapes, by backtracking: a star is any run of bytes
  without a slash, a question mark one byte other than a slash, any other byte itself.\<close>

definition fits_byte :: "char \<Rightarrow> char \<Rightarrow> bool" where
  "fits_byte p x \<longleftrightarrow> (if p = CHR ''?'' then x \<noteq> CHR ''/'' else p = x)"

fun shell_glob :: "string \<Rightarrow> string \<Rightarrow> bool" where
  "shell_glob [] s = (s = [])"
| "shell_glob (c # p) [] = (c = CHR ''*'' \<and> shell_glob p [])"
| "shell_glob (c # p) (x # s) =
     (if c = CHR ''*'' then shell_glob p (x # s) \<or> x \<noteq> CHR ''/'' \<and> shell_glob (c # p) s else fits_byte c x \<and> shell_glob p s)"

definition plain :: "string \<Rightarrow> bool" where
  "plain p \<longleftrightarrow> CHR ''['' \<notin> set p \<and> CHR 0x5C \<notin> set p"

definition ascii :: "string \<Rightarrow> bool" where
  "ascii s \<longleftrightarrow> list_all (\<lambda>c. byte c < 128) s"

fun starts :: "string \<Rightarrow> string \<Rightarrow> bool" where
  "starts [] s = True"
| "starts (c # cs) [] = False"
| "starts (c # cs) (x # s) = (fits_byte c x \<and> starts cs s)"

lemma plain_simps [simp]:
  "plain []" "plain (c # p) \<longleftrightarrow> c \<noteq> CHR ''['' \<and> c \<noteq> CHR 0x5C \<and> plain p" "plain (p @ q) \<longleftrightarrow> plain p \<and> plain q"
  by (auto simp: plain_def)

lemma ascii_simps [simp]: "ascii []" "ascii (c # s) \<longleftrightarrow> byte c < 128 \<and> ascii s"
  by (simp_all add: ascii_def)

lemma ascii_drop [intro]: "ascii s \<Longrightarrow> ascii (drop n s)"
  by (auto simp: ascii_def list_all_iff dest: in_set_dropD)

lemma DecodeRune_ascii [simp]: "byte c < 128 \<Longrightarrow> DecodeRune (c # s) = (byte c, 1)"
  by (simp add: rune_size_def Let_def split: prod.split)

declare DecodeRune.simps(2) [simp del]

lemma matchChunk_failed: "plain chunk \<Longrightarrow> matchChunk True chunk s = Some None"
  by (induction chunk) (simp_all add: matchChunk.simps(2) Let_def)

lemma matchChunk_plain:
  "plain chunk \<Longrightarrow> ascii s \<Longrightarrow>
     matchChunk False chunk s = Some (if starts chunk s then Some (drop (length chunk) s) else None)"
proof (induction chunk s rule: starts.induct)
  case (3 c cs x s)
  then show ?case
    by (cases "c = CHR ''?''"; cases "fits_byte c x") (auto simp: matchChunk.simps(2) matchChunk_failed fits_byte_def Let_def)
qed (auto simp: matchChunk.simps(2) matchChunk_failed Let_def)

lemma scan_len_plain: "plain p \<Longrightarrow> scan_len False p = length (takeWhile (\<lambda>c. c \<noteq> CHR ''*'') p)"
  by (induction p) auto

lemma scanChunk_plain:
  assumes "plain pattern" and "scanChunk pattern = (star, chunk, rest)"
  shows "CHR ''*'' \<notin> set chunk" and "rest = [] \<or> hd rest = CHR ''*''" and "plain chunk" and "plain rest"
    and "star \<longleftrightarrow> pattern \<noteq> [] \<and> hd pattern = CHR ''*''" and "chunk @ rest = dropWhile (\<lambda>c. c = CHR ''*'') pattern"
proof -
  let ?p = "dropWhile (\<lambda>c. c = CHR ''*'') pattern"
  have p: "plain ?p" using assms(1) by (metis plain_simps(3) takeWhile_dropWhile_id)
  with assms(2) have s: "chunk = takeWhile (\<lambda>c. c \<noteq> CHR ''*'') ?p" "rest = dropWhile (\<lambda>c. c \<noteq> CHR ''*'') ?p"
    "star \<longleftrightarrow> pattern \<noteq> [] \<and> hd pattern = CHR ''*''"
    by (auto simp: scanChunk_def Let_def scan_len_plain takeWhile_eq_take [symmetric] dropWhile_eq_drop [symmetric])
  then show "rest = [] \<or> hd rest = CHR ''*''" using hd_dropWhile [of "\<lambda>c. c \<noteq> CHR ''*''" ?p] by auto
  from s show "CHR ''*'' \<notin> set chunk"
    "star \<longleftrightarrow> pattern \<noteq> [] \<and> hd pattern = CHR ''*''" "chunk @ rest = ?p"
    by (auto dest: set_takeWhileD)
  with p show "plain chunk" "plain rest" by (metis plain_simps(3))+
qed

lemma check_rest_plain: "plain pattern \<Longrightarrow> check_rest pattern = Some False"
proof (induction pattern rule: check_rest.induct)
  case (1 pattern)
  obtain star chunk rest where s: "scanChunk pattern = (star, chunk, rest)" by (metis prod_cases3)
  from scanChunk_plain [OF "1.prems" s] "1.IH" [OF _ refl s [symmetric]] s show ?case
    by (subst check_rest.simps) (auto simp: matchChunk_plain)
qed

lemma shell_glob_chunk:
  "CHR ''*'' \<notin> set chunk \<Longrightarrow> shell_glob (chunk @ rest) s \<longleftrightarrow> starts chunk s \<and> shell_glob rest (drop (length chunk) s)"
  by (induction chunk s rule: starts.induct) auto

lemma shell_glob_star:
  "shell_glob (CHR ''*'' # p) s \<longleftrightarrow> (\<exists>j \<le> length s. CHR ''/'' \<notin> set (take j s) \<and> shell_glob p (drop j s))"
proof (induction s)
  case (Cons x s)
  have "(\<exists>j \<le> length (x # s). CHR ''/'' \<notin> set (take j (x # s)) \<and> shell_glob p (drop j (x # s))) \<longleftrightarrow>
      shell_glob p (x # s) \<or> x \<noteq> CHR ''/'' \<and> (\<exists>j \<le> length s. CHR ''/'' \<notin> set (take j s) \<and> shell_glob p (drop j s))"
    (is "?l \<longleftrightarrow> ?r")
  proof
    assume ?l
    then obtain j where "j \<le> length (x # s)" "CHR ''/'' \<notin> set (take j (x # s))" "shell_glob p (drop j (x # s))" by blast
    then show ?r by (cases j) auto
  next
    assume ?r
    then show ?l
    proof
      assume "shell_glob p (x # s)"
      then show ?l by (intro exI [of _ 0]) simp
    next
      assume "x \<noteq> CHR ''/'' \<and> (\<exists>j \<le> length s. CHR ''/'' \<notin> set (take j s) \<and> shell_glob p (drop j s))"
      then obtain j where "x \<noteq> CHR ''/''" "j \<le> length s" "CHR ''/'' \<notin> set (take j s)" "shell_glob p (drop j s)" by blast
      then show ?l by (intro exI [of _ "Suc j"]) simp
    qed
  qed
  with Cons show ?case by simp
qed simp

lemma shell_glob_stars: "shell_glob (CHR ''*'' # CHR ''*'' # p) s = shell_glob (CHR ''*'' # p) s"
  by (induction s) auto

lemma shell_glob_drop_stars:
  "pattern \<noteq> [] \<Longrightarrow> hd pattern = CHR ''*'' \<Longrightarrow>
     shell_glob pattern s = shell_glob (CHR ''*'' # dropWhile (\<lambda>c. c = CHR ''*'') pattern) s"
proof (induction pattern)
  case (Cons c p)
  then show ?case by (cases p) (auto simp: shell_glob_stars)
qed simp

text \<open>The leftmost place where a chunk fits, skipping no slash.\<close>

definition chunk_fits :: "string \<Rightarrow> bool \<Rightarrow> string \<Rightarrow> bool" where
  "chunk_fits chunk final s \<longleftrightarrow> starts chunk s \<and> (final \<longrightarrow> drop (length chunk) s = [])"

fun leftmost :: "string \<Rightarrow> bool \<Rightarrow> string \<Rightarrow> string option" where
  "leftmost chunk final [] = (if chunk_fits chunk final [] then Some [] else None)"
| "leftmost chunk final (x # s) =
     (if chunk_fits chunk final (x # s) then Some (drop (length chunk) (x # s))
      else if x = CHR ''/'' then None else leftmost chunk final s)"

lemma leftmost_unfold:
  "leftmost chunk final s =
     (if chunk_fits chunk final s then Some (drop (length chunk) s)
      else case s of [] \<Rightarrow> None | x # s' \<Rightarrow> if x = CHR ''/'' then None else leftmost chunk final s')"
  by (cases s) auto

lemma star_search_leftmost:
  "plain chunk \<Longrightarrow> ascii s \<Longrightarrow>
     star_search chunk final s =
       Some (case s of [] \<Rightarrow> None | x # s' \<Rightarrow> if x = CHR ''/'' then None else leftmost chunk final s')"
proof (induction s)
  case (Cons x s)
  then show ?case by (subst leftmost_unfold) (auto simp: matchChunk_plain chunk_fits_def)
qed simp

lemma chunk_step_plain:
  assumes "plain chunk" and "ascii s"
  shows "chunk_step True chunk final s = Some (leftmost chunk final s)"
    and "chunk_step False chunk final s = Some (if chunk_fits chunk final s then Some (drop (length chunk) s) else None)"
proof -
  show "chunk_step True chunk final s = Some (leftmost chunk final s)"
    using assms
    by (subst leftmost_unfold) (auto simp: chunk_step_def matchChunk_plain chunk_fits_def star_search_leftmost
        split: list.splits)
  show "chunk_step False chunk final s = Some (if chunk_fits chunk final s then Some (drop (length chunk) s) else None)"
    using assms by (auto simp: chunk_step_def matchChunk_plain chunk_fits_def)
qed

definition skips :: "string \<Rightarrow> nat \<Rightarrow> bool" where
  "skips s j \<longleftrightarrow> j \<le> length s \<and> CHR ''/'' \<notin> set (take j s)"

lemma skips_simps [simp]:
  "skips s 0" "\<not> skips [] (Suc j)" "skips (x # s) (Suc j) \<longleftrightarrow> x \<noteq> CHR ''/'' \<and> skips s j"
  by (auto simp: skips_def)

lemma leftmost_None: "leftmost chunk final s = None \<Longrightarrow> skips s j \<Longrightarrow> \<not> chunk_fits chunk final (drop j s)"
proof (induction s arbitrary: j)
  case (Cons x s)
  then show ?case by (cases j) (auto split: if_splits)
qed (auto simp: skips_def split: if_splits)

lemma leftmost_Some:
  "leftmost chunk final s = Some t \<Longrightarrow>
     \<exists>j. skips s j \<and> chunk_fits chunk final (drop j s) \<and> t = drop (length chunk) (drop j s)
       \<and> (\<forall>i. skips s i \<and> chunk_fits chunk final (drop i s) \<longrightarrow> j \<le> i)"
proof (induction s)
  case Nil
  then show ?case by (intro exI [of _ 0]) (auto split: if_splits)
next
  case (Cons x s)
  show ?case
  proof (cases "chunk_fits chunk final (x # s)")
    case True
    with Cons.prems show ?thesis by (intro exI [of _ 0]) auto
  next
    case False
    with Cons obtain j where "x \<noteq> CHR ''/''" and j: "skips s j" "chunk_fits chunk final (drop j s)"
      "t = drop (length chunk) (drop j s)" "\<And>i. skips s i \<and> chunk_fits chunk final (drop i s) \<longrightarrow> j \<le> i"
      by (auto split: if_splits)
    moreover have "Suc j \<le> i" if "skips (x # s) i \<and> chunk_fits chunk final (drop i (x # s))" for i
      using that False j(4) by (cases i) auto
    ultimately show ?thesis by (intro exI [of _ "Suc j"]) auto
  qed
qed

lemma starts_nth:
  "starts chunk s \<longleftrightarrow> length chunk \<le> length s \<and> (\<forall>k < length chunk. fits_byte (chunk ! k) (s ! k))"
  by (induction chunk s rule: starts.induct) (auto simp: less_Suc_eq_0_disj)

text \<open>Two places where a chunk fits, the later one reached without a slash: there is no slash between the
  two ends either, because the chunk would then have one that many bytes earlier, and so on down to the start.\<close>

lemma no_slash_between:
  assumes "starts chunk s" and "starts chunk (drop d s)" and "skips s d"
  shows "skips (drop (length chunk) s) d"
proof (cases "d = 0")
  case False
  let ?n = "length chunk"
  have len: "d + ?n \<le> length s" using assms(2,3) by (auto simp: starts_nth skips_def)
  have no: "s ! q \<noteq> CHR ''/''" if "q < d + ?n" for q
    using that
  proof (induction q rule: less_induct)
    case (less q)
    show ?case
    proof (cases "q < d")
      case True
      with assms(3) show ?thesis by (metis in_set_conv_nth length_take min.absorb2 nth_take skips_def)
    next
      case ge: False
      define k where "k = q - d"
      then have k: "q = d + k" "k < ?n" using ge less.prems by auto
      have "fits_byte (chunk ! k) (s ! q)" "fits_byte (chunk ! k) (s ! k)" using assms(1,2) k len by (auto simp: starts_nth)
      moreover have "s ! k \<noteq> CHR ''/''" using less.IH [of k] k False by simp
      ultimately show ?thesis by (auto simp: fits_byte_def split: if_splits)
    qed
  qed
  show ?thesis using len no by (auto simp: skips_def in_set_conv_nth)
qed simp

lemma shell_glob_after_star:
  assumes "skips s d" and "shell_glob (CHR ''*'' # p) (drop d s)"
  shows "shell_glob (CHR ''*'' # p) s"
proof -
  from assms(2) obtain j where j: "j \<le> length (drop d s)" "CHR ''/'' \<notin> set (take j (drop d s))" "shell_glob p (drop j (drop d s))"
    unfolding shell_glob_star by blast
  have "take (d + j) s = take d s @ take j (drop d s)" by (rule take_add)
  with assms(1) j show ?thesis unfolding shell_glob_star
    by (intro exI [of _ "d + j"]) (auto simp: skips_def add.commute)
qed

lemma shell_glob_leftmost:
  assumes "CHR ''*'' \<notin> set chunk" and "rest = [] \<or> hd rest = CHR ''*''"
  shows "shell_glob (CHR ''*'' # chunk @ rest) s \<longleftrightarrow>
     (\<exists>t. leftmost chunk (rest = []) s = Some t \<and> shell_glob rest t)"
proof -
  have g: "shell_glob (CHR ''*'' # chunk @ rest) s \<longleftrightarrow>
      (\<exists>j. skips s j \<and> chunk_fits chunk (rest = []) (drop j s) \<and> shell_glob rest (drop (length chunk) (drop j s)))"
    unfolding shell_glob_star by (auto simp: shell_glob_chunk [OF assms(1)] skips_def chunk_fits_def)
  show ?thesis
  proof (cases "leftmost chunk (rest = []) s")
    case None
    with leftmost_None g show ?thesis by fastforce
  next
    case (Some t)
    from leftmost_Some [OF Some] obtain j where j: "skips s j" "chunk_fits chunk (rest = []) (drop j s)"
      "t = drop (length chunk) (drop j s)"
      and least: "\<And>i. skips s i \<Longrightarrow> chunk_fits chunk (rest = []) (drop i s) \<Longrightarrow> j \<le> i" by blast
    have "shell_glob rest t" if i: "skips s i" "chunk_fits chunk (rest = []) (drop i s)" "shell_glob rest (drop (length chunk) (drop i s))" for i
    proof (cases rest)
      case Nil
      with j show ?thesis by (simp add: chunk_fits_def)
    next
      case (Cons c q)
      have "j \<le> i" using least i by blast
      then have d: "drop (i - j) (drop j s) = drop i s" by simp
      have "take i s = take j s @ take (i - j) (drop j s)" using take_add [of j "i - j" s] \<open>j \<le> i\<close> by simp
      with i(1) have "skips (drop j s) (i - j)" by (auto simp: skips_def)
      with j(2) i(2) d have "skips t (i - j)"
        unfolding j(3) by (intro no_slash_between) (auto simp: chunk_fits_def)
      moreover have "drop (i - j) t = drop (length chunk) (drop i s)"
        using \<open>j \<le> i\<close> by (simp add: j(3) add.commute)
      ultimately show ?thesis using shell_glob_after_star [of t "i - j" q] i(3) Cons assms(2) by simp
    qed
    with g j Some show ?thesis by auto
  qed
qed

lemma filepath_Match_plain:
  "plain pattern \<Longrightarrow> ascii name \<Longrightarrow> filepath_Match pattern name = Some (shell_glob pattern name)"
proof (induction pattern name rule: filepath_Match.induct)
  case (1 pattern name)
  show ?case
  proof (cases "pattern = []")
    case True
    then show ?thesis by (simp add: filepath_Match.simps)
  next
    case ne: False
    obtain star chunk rest where s: "scanChunk pattern = (star, chunk, rest)" by (metis prod_cases3)
    note sc = scanChunk_plain [OF "1.prems"(1) s]
    show ?thesis
    proof (cases "star \<and> chunk = []")
      case True
      with sc hd_dropWhile [of "\<lambda>c. c = CHR ''*''" pattern] have "dropWhile (\<lambda>c. c = CHR ''*'') pattern = []"
        by (metis append_Nil)
      with True sc(5) shell_glob_drop_stars [of pattern name] have "shell_glob pattern name = shell_glob [CHR ''*''] name" by simp
      also have "\<dots> \<longleftrightarrow> CHR ''/'' \<notin> set name" by (induction name) auto
      finally show ?thesis using ne s True by (subst filepath_Match.simps) simp
    next
      case False
      let ?step = "chunk_step star chunk (rest = []) name"
      have m: "filepath_Match pattern name =
          (case ?step of None \<Rightarrow> None | Some (Some t) \<Rightarrow> filepath_Match rest t | Some None \<Rightarrow> Some False)"
        using ne s False by (subst filepath_Match.simps) (auto simp: check_rest_plain [OF sc(4)] split: option.splits)
      have ih: "filepath_Match rest t = Some (shell_glob rest t)" if "?step = Some (Some t)" "ascii t" for t
        using "1.IH" [OF ne refl s [symmetric] refl False that(1) refl] sc(4) that(2) by blast
      show ?thesis
      proof (cases star)
        case True
        have "shell_glob pattern name \<longleftrightarrow> (\<exists>t. leftmost chunk (rest = []) name = Some t \<and> shell_glob rest t)"
          using shell_glob_drop_stars [of pattern name] sc(5) True shell_glob_leftmost [OF sc(1,2)] by (simp add: sc(6) [symmetric])
        moreover have "ascii t" if "leftmost chunk (rest = []) name = Some t" for t
          using leftmost_Some [OF that] "1.prems"(2) by auto
        ultimately show ?thesis
          using m ih chunk_step_plain(1) [OF sc(3) "1.prems"(2), of "rest = []"] True by (auto split: option.splits)
      next
        case False
        have "pattern = chunk @ rest" using sc(5,6) False ne by (cases pattern) auto
        then have "shell_glob pattern name \<longleftrightarrow> chunk_fits chunk (rest = []) name \<and> shell_glob rest (drop (length chunk) name)"
          using shell_glob_chunk [OF sc(1)] by (auto simp: chunk_fits_def)
        with m ih chunk_step_plain(2) [OF sc(3) "1.prems"(2), of "rest = []"] False "1.prems"(2) show ?thesis
          by (auto split: if_splits)
      qed
    qed
  qed
qed

section \<open>What the engine allows\<close>

lemma contains_iff [simp]: "contains vs v \<longleftrightarrow> v \<in> set vs"
  by (induction vs) auto

lemma intersects_iff [simp]: "intersects xs ys \<longleftrightarrow> set xs \<inter> set ys \<noteq> {}"
  by (induction xs) auto

lemma globMatchAny_plain:
  "\<forall>pat \<in> set pats. plain pat \<Longrightarrow> ascii v \<Longrightarrow> globMatchAny pats v \<longleftrightarrow> (\<exists>pat \<in> set pats. shell_glob pat v)"
  by (induction pats) (auto simp: filepath_Match_plain)

definition identity :: "Principal option \<Rightarrow> Principal" where
  "identity p = (case p of None \<Rightarrow> no_principal | Some q \<Rightarrow> q)"

definition covers :: "PolicyMatch \<Rightarrow> Principal \<Rightarrow> bool" where
  "covers m p \<longleftrightarrow>
     (m_Groups m = [] \<or> set (m_Groups m) \<inter> set (p_Groups p) \<noteq> {})
   \<and> (m_Roles m = [] \<or> set (m_Roles m) \<inter> set (p_Roles p) \<noteq> {})
   \<and> (m_Scopes m = [] \<or> set (m_Scopes m) \<inter> set (p_Scopes p) \<noteq> {})
   \<and> (m_Consumers m = [] \<or> Consumer p \<in> set (m_Consumers m))
   \<and> (m_UserTypes m = [] \<or> UserType p \<in> set (m_UserTypes m))"

lemma matchIdentity_covers: "matchIdentity p m \<longleftrightarrow> covers m (identity p)"
  by (auto simp: matchIdentity_def covers_def identity_def Let_def split: option.splits)

lemma evaluate_rules_Allowed:
  "d_Allowed (evaluate_rules rules p st model) \<longleftrightarrow> (\<exists>rule \<in> set rules. ruleGrantsRequest p rule st model)"
  by (induction rules) auto

lemma evaluate_rules_first:
  "d_Allowed (evaluate_rules rules p st model) \<Longrightarrow>
     \<exists>i < length rules. ruleGrantsRequest p (rules ! i) st model
       \<and> (\<forall>j < i. \<not> ruleGrantsRequest p (rules ! j) st model)
       \<and> d_Limits (evaluate_rules rules p st model) = cr_limits (rules ! i)"
proof (induction rules)
  case (Cons r rules)
  show ?case
  proof (cases "ruleGrantsRequest p r st model")
    case True
    then show ?thesis by (intro exI [of _ 0]) simp
  next
    case False
    with Cons obtain i where "i < length rules" "ruleGrantsRequest p (rules ! i) st model"
      "\<forall>j < i. \<not> ruleGrantsRequest p (rules ! j) st model"
      "d_Limits (evaluate_rules rules p st model) = cr_limits (rules ! i)" by auto
    with False show ?thesis by (intro exI [of _ "Suc i"]) (auto simp: less_Suc_eq_0_disj)
  qed
qed simp

lemma evaluate_rules_none:
  "\<not> d_Allowed (evaluate_rules rules p st model) \<Longrightarrow>
     (\<forall>i < length rules. \<not> ruleGrantsRequest p (rules ! i) st model) \<and> d_Limits (evaluate_rules rules p st model) = None"
  by (induction rules) (auto simp: less_Suc_eq_0_disj split: if_splits)

lemma evaluate_rules_append:
  "d_Allowed (evaluate_rules rules p st model) \<Longrightarrow>
     evaluate_rules (rules @ rules2) p st model = evaluate_rules rules p st model"
  by (induction rules) auto

definition plain_rule :: "PolicyRule \<Rightarrow> bool" where
  "plain_rule r \<longleftrightarrow> list_all plain (AllowModels r) \<and> list_all plain (AllowServiceTypes r)"

text \<open>
  C12: what access policies allow. With patterns of stars, question marks and literal bytes, and ASCII names, a
  caller may use a model of a service type exactly when the default is \<^verbatim>\<open>allow\<close> or some rule covers the
  caller (every non-empty list of the match shares a value with the caller's), lists a pattern the model
  fits, and lists no service types or one that fits. Fitting is the usual meaning of the pattern, with
  backtracking, although the matcher never takes back where it placed a chunk.
\<close>

theorem Allowed_meaning:
  assumes "\<forall>r \<in> set (Rules cfg). plain_rule r" and "ascii model" and "ascii serviceType"
  shows "Allowed (NewEngine cfg) p serviceType model \<longleftrightarrow>
     Default cfg = ''allow''
   \<or> (\<exists>r \<in> set (Rules cfg). covers (Match r) (identity p) \<and> (\<exists>pat \<in> set (AllowModels r). shell_glob pat model)
        \<and> (AllowServiceTypes r = [] \<or> (\<exists>pat \<in> set (AllowServiceTypes r). shell_glob pat serviceType)))"
proof -
  have "ruleGrantsRequest p \<lparr>cr_match = Match r, cr_allowModels = AllowModels r,
          cr_allowServiceTypes = AllowServiceTypes r, cr_limits = Limits r\<rparr> serviceType model \<longleftrightarrow>
      covers (Match r) (identity p) \<and> (\<exists>pat \<in> set (AllowModels r). shell_glob pat model)
        \<and> (AllowServiceTypes r = [] \<or> (\<exists>pat \<in> set (AllowServiceTypes r). shell_glob pat serviceType))"
    if "r \<in> set (Rules cfg)" for r
  proof -
    have plain: "\<forall>pat \<in> set (AllowModels r). plain pat" "\<forall>pat \<in> set (AllowServiceTypes r). plain pat"
      using assms(1) that by (auto simp: plain_rule_def list_all_iff)
    show ?thesis
      using globMatchAny_plain [OF plain(1) assms(2)] globMatchAny_plain [OF plain(2) assms(3)]
      by (auto simp: ruleGrantsRequest_def matchIdentity_covers)
  qed
  then show ?thesis
    by (auto simp: Allowed_def Evaluate_def NewEngine_def evaluate_rules_Allowed)
qed

text \<open>
  a decision comes from the first rule that grants the request. Without the default \<^verbatim>\<open>allow\<close>, an allowed
  request has a granting rule, its limits are those of the first such rule, and no rule added behind the
  others changes the decision; a refused request has none, and carries no limits.
\<close>

theorem Evaluate_first_rule:
  fixes p :: "Principal option" and st model :: string and cfg :: PoliciesConfig
  assumes "Default cfg \<noteq> ''allow''"
  defines "grants \<equiv> \<lambda>i. ruleGrantsRequest p (e_rules (NewEngine cfg) ! i) st model"
  shows "if d_Allowed (Evaluate (NewEngine cfg) p st model)
         then (\<exists>i < length (Rules cfg). grants i \<and> (\<forall>j < i. \<not> grants j)
                 \<and> d_Limits (Evaluate (NewEngine cfg) p st model) = Limits (Rules cfg ! i))
              \<and> (\<forall>extra. Evaluate (NewEngine (cfg\<lparr>Rules := Rules cfg @ extra\<rparr>)) p st model = Evaluate (NewEngine cfg) p st model)
         else (\<forall>i < length (Rules cfg). \<not> grants i) \<and> d_Limits (Evaluate (NewEngine cfg) p st model) = None"
proof -
  have e: "Evaluate (NewEngine c) p st model = evaluate_rules (e_rules (NewEngine c)) p st model"
    if "Default c \<noteq> ''allow''" for c using that by (simp add: Evaluate_def NewEngine_def)
  have len: "length (e_rules (NewEngine cfg)) = length (Rules cfg)"
    and lim: "i < length (Rules cfg) \<Longrightarrow> cr_limits (e_rules (NewEngine cfg) ! i) = Limits (Rules cfg ! i)"
    and app: "e_rules (NewEngine (cfg\<lparr>Rules := Rules cfg @ extra\<rparr>)) = e_rules (NewEngine cfg) @ e_rules (NewEngine (cfg\<lparr>Rules := extra\<rparr>))"
    for i extra by (simp_all add: NewEngine_def)
  show ?thesis
  proof (cases "d_Allowed (Evaluate (NewEngine cfg) p st model)")
    case True
    with evaluate_rules_first [of "e_rules (NewEngine cfg)" p st model] assms(1) show ?thesis
      by (auto simp: e len lim app grants_def evaluate_rules_append)
  next
    case False
    with evaluate_rules_none [of "e_rules (NewEngine cfg)" p st model] assms(1) show ?thesis
      by (auto simp: e len grants_def)
  qed
qed

section \<open>A concrete policy\<close>

definition sample_rule :: PolicyRule where
  "sample_rule = \<lparr>Match = \<lparr>m_Groups = [''ml''], m_Roles = [], m_Scopes = [], m_Consumers = [], m_UserTypes = []\<rparr>,
     AllowModels = [''gpt-*-?''], AllowServiceTypes = [], Limits = None\<rparr>"

definition sample_policies :: PoliciesConfig where
  "sample_policies = \<lparr>Default = ''deny'', Rules = [sample_rule]\<rparr>"

definition sample_user :: Principal where
  "sample_user = no_principal\<lparr>p_Groups := [''ml'']\<rparr>"

theorem Allowed_meaning_witness:
  "Allowed (NewEngine sample_policies) (Some sample_user) ''chat'' ''gpt-4-turbo-x''
   \<and> \<not> Allowed (NewEngine sample_policies) None ''chat'' ''gpt-4-turbo-x''"
proof -
  have plain: "\<forall>r \<in> set (Rules sample_policies). plain_rule r" "ascii ''gpt-4-turbo-x''" "ascii ''chat''" by code_simp+
  have "Allowed (NewEngine sample_policies) (Some sample_user) ''chat'' ''gpt-4-turbo-x''"
    using Allowed_meaning [OF plain, of "Some sample_user"]
    by (simp add: sample_policies_def sample_rule_def covers_def identity_def sample_user_def) code_simp
  moreover have "\<not> Allowed (NewEngine sample_policies) None ''chat'' ''gpt-4-turbo-x''"
    using Allowed_meaning [OF plain, of None]
    by (simp add: sample_policies_def sample_rule_def covers_def identity_def no_principal_def)
  ultimately show ?thesis by blast
qed

theorem Evaluate_first_rule_witness:
  "d_Limits (Evaluate (NewEngine sample_policies) (Some sample_user) ''chat'' ''gpt-4-turbo-x'') = None"
proof -
  have d: "Default sample_policies \<noteq> ''allow''" by code_simp
  have "d_Allowed (Evaluate (NewEngine sample_policies) (Some sample_user) ''chat'' ''gpt-4-turbo-x'')" by code_simp
  with Evaluate_first_rule [OF d, of "Some sample_user" "''chat''" "''gpt-4-turbo-x''"] show ?thesis
    by (auto simp: sample_policies_def sample_rule_def)
qed

end
