(* ===== verification/JobStore.thy ===== *)
theory JobStore
  imports Config Counters
begin

text \<open>
  The job records in Redis (\<^verbatim>\<open>internal/storage/redis.go\<close>, \<^verbatim>\<open>internal/model/job.go\<close>): saving, reading,
  listing and updating jobs, the completion claim, the scan gate, idempotency keys, and the queues
  \<^verbatim>\<open>relay:{model}:pending\<close> and \<^verbatim>\<open>relay:{model}:processing\<close> with their sweeps and the reaper. Every Lua script is
  an operation on the server, every method one or more round trips (\<open>rcall\<close>), each of which may fail.

  Parameters, besides the server: the codec of the records (\<^verbatim>\<open>encoding/json\<close> on the Go side, \<^verbatim>\<open>cjson\<close> in
  the scripts), \<open>pd\<close> for \<^verbatim>\<open>time.ParseDuration\<close>, and the times that \<^verbatim>\<open>time.Now()\<close> returns, in nanoseconds.
\<close>

section \<open>Jobs\<close>

text \<open>\<^verbatim>\<open>JobStatus\<close> is a string type; these are its values.\<close>

type_synonym JobStatus = string

definition JobStatusPending :: JobStatus where "JobStatusPending = ''pending''"
definition JobStatusProcessing :: JobStatus where "JobStatusProcessing = ''processing''"
definition JobStatusCompleted :: JobStatus where "JobStatusCompleted = ''completed''"
definition JobStatusFailed :: JobStatus where "JobStatusFailed = ''failed''"
definition JobStatusCancelled :: JobStatus where "JobStatusCancelled = ''cancelled''"
definition JobStatusExpired :: JobStatus where "JobStatusExpired = ''expired''"

lemmas JobStatus_defs = JobStatusPending_def JobStatusProcessing_def JobStatusCompleted_def
  JobStatusFailed_def JobStatusCancelled_def JobStatusExpired_def

record Job =
  ID :: string
  ServiceType :: string
  Model :: string
  Status :: JobStatus
  InputRef :: string
  ResultRef :: string
  CallbackURL :: string
  InferenceURL :: string
  Params :: "(string \<times> string) list"
  ConsumerName :: string
  UserTypeJ :: string
  Priority :: bool
  ErrorMsg :: string
  ProcessingTime :: rat
  PromptTokens :: int
  CompletionTokens :: int
  CreatedAt :: int
  UpdatedAt :: int
  QueuePosition :: "int option"
  TraceContext :: string

text \<open>
  The codec. \<open>marshal\<close> fails where \<^verbatim>\<open>json.Marshal\<close> does (a time outside the years 0 to 9999). A Lua table
  is a value of \<^typ>\<open>'t\<close>; \<open>lua_get\<close> reads a field that holds a string, \<open>lua_set\<close> assigns a string to a field,
  \<open>lua_set_num\<close> the number a string stands for. \<open>fmt_time\<close> formats a time as \<^verbatim>\<open>time.RFC3339Nano\<close> in UTC, \<open>fmt_float\<close>
  a float as \<^verbatim>\<open>strconv.FormatFloat(x, 'f', -1, 64)\<close>.
\<close>

record 't codec =
  marshal :: "Job \<Rightarrow> string option"
  unmarshal :: "string \<Rightarrow> Job option"
  cjson_decode :: "string \<Rightarrow> 't option"
  cjson_encode :: "'t \<Rightarrow> string"
  lua_get :: "'t \<Rightarrow> string \<Rightarrow> string option"
  lua_set :: "string \<Rightarrow> string \<Rightarrow> 't \<Rightarrow> 't"
  lua_set_num :: "string \<Rightarrow> string \<Rightarrow> 't \<Rightarrow> 't"
  fmt_time :: "int \<Rightarrow> string"
  fmt_float :: "rat \<Rightarrow> string"

section \<open>The client\<close>

record RedisClient =
  JobTTL :: JobTTLConfig
  expiredMarkerTTL :: int

definition SetExpiredMarkerTTL :: "int \<Rightarrow> RedisClient \<Rightarrow> RedisClient" where
  "SetExpiredMarkerTTL d r = (if d > 0 then r\<lparr>expiredMarkerTTL := d\<rparr> else r)"

definition NewRedis :: "JobTTLConfig \<Rightarrow> RedisClient" where
  "NewRedis lc = \<lparr>JobTTL = lc, expiredMarkerTTL = 168 * 3600 * second\<rparr>"

definition UpdateLifecycle :: "JobTTLConfig \<Rightarrow> RedisClient \<Rightarrow> RedisClient" where
  "UpdateLifecycle lc r = r\<lparr>JobTTL := lc\<rparr>"

definition ttlForStatus :: "parse_duration \<Rightarrow> RedisClient \<Rightarrow> JobStatus \<Rightarrow> int" where
  "ttlForStatus pd r status =
     (let j = JobTTL r;
          d = (if status = JobStatusPending \<or> status = JobStatusProcessing then parseDuration pd (ttl_Pending j)
               else if status = JobStatusCompleted then parseDuration pd (ttl_Completed j)
               else if status = JobStatusFailed then parseDuration pd (ttl_Failed j)
               else if status = JobStatusCancelled then
                 (let c = parseDuration pd (ttl_Cancelled j) in if c = 0 then parseDuration pd (ttl_Failed j) else c)
               else 0);
          d' = (if d = 0 then parseDuration pd (ttl_Global j) else d)
      in if d' = 0 then 2 * 3600 * second else d')"

text \<open>How go-redis sends a time to live: whole seconds or milliseconds for \<^verbatim>\<open>SET\<close> (at least one of the
  unit, none for a duration that is not positive), seconds for \<^verbatim>\<open>EXPIRE\<close>. A negative expiry of \<^verbatim>\<open>SETNX\<close>
  is an error of the server.\<close>

definition set_ttl :: "int \<Rightarrow> int option" where
  "set_ttl d = (if d \<le> 0 then None else Some (if d < 1000000 then 1 else d div 1000000))"

definition expire_secs :: "int \<Rightarrow> int" where
  "expire_secs d = (if 0 < d \<and> d < second then 1 else trunc_secs d)"

definition SETNX_dur :: "'r redis \<Rightarrow> string \<Rightarrow> string \<Rightarrow> int \<Rightarrow> ('r, bool) rop" where
  "SETNX_dur R k v d = (if d < 0 then rfail else SETNX R k v (set_ttl d))"

text \<open>\<^verbatim>\<open>SET key value EX seconds\<close> in a script: seconds that are not positive are an error of the server.\<close>

definition SET_EX :: "'r redis \<Rightarrow> string \<Rightarrow> string \<Rightarrow> int \<Rightarrow> ('r, unit) rop" where
  "SET_EX R k v secs = (if secs \<le> 0 then rfail else SET R k v (Some (1000 * secs)))"

text \<open>Commands of one transaction or pipeline: each one runs, whatever becomes of the others, and the whole
  fails if one does.\<close>

definition rboth :: "('r, 'a) rop \<Rightarrow> ('r, 'b) rop \<Rightarrow> ('r, 'a \<times> 'b) rop" where
  "rboth m n s = (let (a, s1) = m s; (b, s2) = n s1
                  in (case (a, b) of (Some x, Some y) \<Rightarrow> Some (x, y) | _ \<Rightarrow> None, s2))"

definition jobMetaKey :: "string \<Rightarrow> string" where "jobMetaKey i = ''jobmeta:'' @ i"
definition jobKey :: "string \<Rightarrow> string" where "jobKey i = ''job:'' @ i"
definition consumerKey :: "string \<Rightarrow> string" where "consumerKey name = ''consumer:'' @ name @ '':jobs''"
definition queueKey :: "string \<Rightarrow> string" where "queueKey model = ''queue:'' @ model"
definition completionClaimKey :: "string \<Rightarrow> string" where "completionClaimKey i = ''complete:'' @ i"
definition scanGateKey :: "string \<Rightarrow> string" where "scanGateKey i = ''jobscan:'' @ i"
definition idempotencyKey :: "string \<Rightarrow> string \<Rightarrow> string" where
  "idempotencyKey consumer key = ''idem:'' @ consumer @ '':'' @ key"

definition pendingKey :: "string \<Rightarrow> string" where "pendingKey m = ''relay:'' @ m @ '':pending''"
definition processingKey :: "string \<Rightarrow> string" where "processingKey m = ''relay:'' @ m @ '':processing''"
definition deadletterKey :: "string \<Rightarrow> string" where "deadletterKey m = ''relay:'' @ m @ '':deadletter''"
definition leaseKey :: "string \<Rightarrow> string \<Rightarrow> string" where "leaseKey m i = ''relay:'' @ m @ '':lease:'' @ i"
definition attemptsKey :: "string \<Rightarrow> string \<Rightarrow> string" where "attemptsKey m i = ''relay:'' @ m @ '':attempts:'' @ i"

lemmas job_key_defs = jobMetaKey_def jobKey_def consumerKey_def queueKey_def completionClaimKey_def scanGateKey_def
  idempotencyKey_def pendingKey_def processingKey_def deadletterKey_def leaseKey_def attemptsKey_def

datatype store_error = NotFound string | RedisError | BadRecord string

definition JobEverExisted :: "'r redis \<Rightarrow> string \<Rightarrow> ('r, bool) rop" where
  "JobEverExisted R i = rbind (rcall R (EXISTS R (jobMetaKey i))) (\<lambda>n. rret (n = 1))"

definition JobsExistBatch :: "'r redis \<Rightarrow> string list \<Rightarrow> ('r, (string \<times> bool) list) rop" where
  "JobsExistBatch R ids =
     (if ids = [] then rret []
      else rbind (rcall R (MGET R (map jobKey ids))) (\<lambda>vals. rret (zip ids (map (\<lambda>v. v \<noteq> None) vals))))"

section \<open>Saving, reading and deleting\<close>

text \<open>The transaction of \<^verbatim>\<open>SaveJob\<close>.\<close>

definition save_script ::
  "'r redis \<Rightarrow> RedisClient \<Rightarrow> int \<Rightarrow> string \<Rightarrow> Job \<Rightarrow> ('r, unit \<times> int \<times> int \<times> (int \<times> int) \<times> int \<times> unit) rop" where
  "save_script R r ttl tx job =
     (let score = CreatedAt job div second in
      rboth (SET R (jobKey (ID job)) tx (set_ttl ttl))
      (rboth (ZADD R (queueKey (Model job)) score (ID job))
      (rboth (EXPIRE R (queueKey (Model job)) (expire_secs ttl))
      (rboth (if ConsumerName job \<noteq> [] then
                rboth (ZADD R (consumerKey (ConsumerName job)) score (ID job))
                      (EXPIRE R (consumerKey (ConsumerName job)) (expire_secs ttl))
              else rret (0, 0))
      (rboth (if Priority job then LPUSH R (pendingKey (Model job)) (ID job)
              else RPUSH R (pendingKey (Model job)) (ID job))
             (if expiredMarkerTTL r > 0 then
                SET R (jobMetaKey (ID job)) (ServiceType job) (set_ttl (expiredMarkerTTL r))
              else rret ()))))))"

definition SaveJob :: "'r redis \<Rightarrow> 't codec \<Rightarrow> parse_duration \<Rightarrow> RedisClient \<Rightarrow> Job \<Rightarrow> ('r, unit) rop" where
  "SaveJob R cd pd r job =
     (case marshal cd job of
        None \<Rightarrow> rfail
      | Some tx \<Rightarrow> rbind (rcall R (save_script R r (ttlForStatus pd r (Status job)) tx job)) (\<lambda>_. rret ()))"

definition GetJob :: "'r redis \<Rightarrow> 't codec \<Rightarrow> string \<Rightarrow> 'r \<Rightarrow> (store_error + Job) \<times> 'r" where
  "GetJob R cd i st =
     (case rcall R (GET R (jobKey i)) st of
        (None, st') \<Rightarrow> (Inl RedisError, st')
      | (Some None, st') \<Rightarrow> (Inl (NotFound i), st')
      | (Some (Some text), st') \<Rightarrow>
          (case unmarshal cd text of None \<Rightarrow> (Inl (BadRecord i), st') | Some job \<Rightarrow> (Inr job, st')))"

definition nonempty_field :: "'t codec \<Rightarrow> 't \<Rightarrow> string \<Rightarrow> string option" where
  "nonempty_field cd t f = (case lua_get cd t f of Some v \<Rightarrow> if v \<noteq> [] then Some v else None | None \<Rightarrow> None)"

definition deleteJobScript :: "'r redis \<Rightarrow> 't codec \<Rightarrow> string \<Rightarrow> string \<Rightarrow> ('r, int) rop" where
  "deleteJobScript R cd key i =
     rbind (GET R key) (\<lambda>text.
     rbind (case Option.bind text (cjson_decode cd) of
              None \<Rightarrow> rret 0
            | Some job \<Rightarrow>
                rbind (case nonempty_field cd job ''consumer_name'' of
                         Some c \<Rightarrow> ZREM R (''consumer:'' @ c @ '':jobs'') i | None \<Rightarrow> rret 0) (\<lambda>_.
                  case nonempty_field cd job ''model'' of
                    Some m \<Rightarrow> ZREM R (''queue:'' @ m) i | None \<Rightarrow> rret 0)) (\<lambda>_.
       DEL R [key]))"

definition DeleteJob :: "'r redis \<Rightarrow> 't codec \<Rightarrow> string \<Rightarrow> ('r, unit) rop" where
  "DeleteJob R cd i = rbind (rcall R (deleteJobScript R cd (jobKey i) i)) (\<lambda>_. rret ())"

section \<open>Listing\<close>

definition decode_all :: "'t codec \<Rightarrow> string option list \<Rightarrow> Job list" where
  "decode_all cd vals = concat (map (\<lambda>v. case v of None \<Rightarrow> []
      | Some text \<Rightarrow> (case unmarshal cd text of None \<Rightarrow> [] | Some job \<Rightarrow> [job])) vals)"

text \<open>One reply per command of a pipeline: \<open>None\<close> an error, \<open>Some None\<close> nil.\<close>

fun pipe_ranks :: "'r redis \<Rightarrow> Job list \<Rightarrow> 'r \<Rightarrow> int option option list \<times> 'r" where
  "pipe_ranks R [] st = ([], st)"
| "pipe_ranks R (job # jobs) st =
     (if Status job = JobStatusPending then
        (let (res, st1) = ZRANK R (queueKey (Model job)) (ID job) st; (rest, st2) = pipe_ranks R jobs st1
         in (res # rest, st2))
      else (let (rest, st1) = pipe_ranks R jobs st in (None # rest, st1)))"

text \<open>\<^verbatim>\<open>Exec\<close> reports the first error among the commands, which may be nil.\<close>

fun exec_ok :: "Job list \<Rightarrow> int option option list \<Rightarrow> bool" where
  "exec_ok (job # jobs) (res # rest) =
     (if Status job = JobStatusPending then
        (case res of None \<Rightarrow> False | Some None \<Rightarrow> True | Some (Some _) \<Rightarrow> exec_ok jobs rest)
      else exec_ok jobs rest)"
| "exec_ok _ _ = True"

definition set_positions :: "Job list \<Rightarrow> int option option list \<Rightarrow> Job list" where
  "set_positions jobs ranks =
     map (\<lambda>(job, res). case res of Some (Some rank) \<Rightarrow> job\<lparr>QueuePosition := Some (rank + 1)\<rparr> | _ \<Rightarrow> job) (zip jobs ranks)"

definition queue_positions :: "'r redis \<Rightarrow> Job list \<Rightarrow> 'r \<Rightarrow> Job list \<times> 'r" where
  "queue_positions R jobs st =
     (if \<exists>job \<in> set jobs. Status job = JobStatusPending then
        (case rcall R (\<lambda>s. map_prod Some id (pipe_ranks R jobs s)) st of
           (None, st') \<Rightarrow> (jobs, st')
         | (Some ranks, st') \<Rightarrow> (if exec_ok jobs ranks then set_positions jobs ranks else jobs, st'))
      else (jobs, st))"

definition ListJobsByConsumer ::
  "'r redis \<Rightarrow> 't codec \<Rightarrow> string \<Rightarrow> int \<Rightarrow> int \<Rightarrow> 'r \<Rightarrow> (Job list \<times> int) option \<times> 'r" where
  "ListJobsByConsumer R cd consumer limit offset st =
     (let key = consumerKey consumer;
          q = rboth (ZCARD R key) (ZREVRANGE R key offset (wrap64 (wrap64 (offset + limit) - 1)))
      in (case rcall R q st of
            (None, st1) \<Rightarrow> (None, st1)
          | (Some _, st1) \<Rightarrow>
              (case rcall R q st1 of
                 (None, st2) \<Rightarrow> (None, st2)
               | (Some (nAll, ids), st2) \<Rightarrow>
                   if ids = [] then (Some ([], nAll), st2)
                   else (case rcall R (MGET R (map jobKey ids)) st2 of
                           (None, st3) \<Rightarrow> (None, st3)
                         | (Some vals, st3) \<Rightarrow>
                             (let (jobs, st4) = queue_positions R (decode_all cd vals) st3 in (Some (jobs, nAll), st4))))))"

section \<open>Updating\<close>

definition lua_terminal :: "'t codec \<Rightarrow> 't \<Rightarrow> bool" where
  "lua_terminal cd job \<longleftrightarrow> lua_get cd job ''status'' \<in> {Some ''completed'', Some ''failed'', Some ''cancelled''}"

definition lua_patch :: "'t codec \<Rightarrow> JobStatus \<Rightarrow> string \<Rightarrow> string \<Rightarrow> string \<Rightarrow> 't \<Rightarrow> 't" where
  "lua_patch cd status resultRef errMsg updatedAt job =
     lua_set cd ''updated_at'' updatedAt (lua_set cd ''error'' errMsg
       (lua_set cd ''result_ref'' resultRef (lua_set cd ''status'' status job)))"

definition updateJobScript ::
  "'r redis \<Rightarrow> 't codec \<Rightarrow> string \<Rightarrow> JobStatus \<Rightarrow> string \<Rightarrow> string \<Rightarrow> string \<Rightarrow> int \<Rightarrow> ('r, unit) rop" where
  "updateJobScript R cd key status resultRef errMsg updatedAt ttlSecs =
     rbind (GET R key) (\<lambda>text.
       case text of
         None \<Rightarrow> rfail
       | Some text \<Rightarrow>
           (case cjson_decode cd text of
              None \<Rightarrow> rfail
            | Some job \<Rightarrow>
                if lua_terminal cd job then rret ()
                else
                  (let job' = lua_patch cd status resultRef errMsg updatedAt job in
                   rbind (SET_EX R key (cjson_encode cd job') ttlSecs) (\<lambda>_.
                     case nonempty_field cd job' ''model'' of
                       None \<Rightarrow> rret ()
                     | Some m \<Rightarrow> rbind (ZREM R (''queue:'' @ m) (drop 4 key)) (\<lambda>_. rret ())))))"

definition UpdateJobResult ::
  "'r redis \<Rightarrow> 't codec \<Rightarrow> parse_duration \<Rightarrow> RedisClient \<Rightarrow> int \<Rightarrow> string \<Rightarrow> JobStatus \<Rightarrow> string \<Rightarrow> string \<Rightarrow> ('r, unit) rop" where
  "UpdateJobResult R cd pd r now jobID status resultRef errMsg =
     rcall R (updateJobScript R cd (jobKey jobID) status resultRef errMsg (fmt_time cd now)
                (trunc_secs (ttlForStatus pd r status)))"

definition overrideJobScript ::
  "'r redis \<Rightarrow> 't codec \<Rightarrow> string \<Rightarrow> JobStatus \<Rightarrow> string \<Rightarrow> string \<Rightarrow> string \<Rightarrow> int \<Rightarrow> ('r, unit) rop" where
  "overrideJobScript R cd key status resultRef errMsg updatedAt ttlSecs =
     rbind (GET R key) (\<lambda>text.
       case Option.bind text (cjson_decode cd) of
         None \<Rightarrow> rfail
       | Some job \<Rightarrow> SET_EX R key (cjson_encode cd (lua_patch cd status resultRef errMsg updatedAt job)) ttlSecs)"

definition OverrideJobResult ::
  "'r redis \<Rightarrow> 't codec \<Rightarrow> parse_duration \<Rightarrow> RedisClient \<Rightarrow> int \<Rightarrow> string \<Rightarrow> JobStatus \<Rightarrow> string \<Rightarrow> string \<Rightarrow> ('r, unit) rop" where
  "OverrideJobResult R cd pd r now jobID status resultRef errMsg =
     rcall R (overrideJobScript R cd (jobKey jobID) status resultRef errMsg (fmt_time cd now)
                (trunc_secs (ttlForStatus pd r status)))"

definition GetQueuePosition :: "'r redis \<Rightarrow> string \<Rightarrow> string \<Rightarrow> ('r, int \<times> bool) rop" where
  "GetQueuePosition R jobID model =
     rbind (rcall R (ZRANK R (queueKey model) jobID)) (\<lambda>rank.
       case rank of None \<Rightarrow> rret (0, False) | Some n \<Rightarrow> rret (n + 1, True))"

definition isTerminalStatus :: "JobStatus \<Rightarrow> bool" where
  "isTerminalStatus s \<longleftrightarrow> s = JobStatusCompleted \<or> s = JobStatusFailed \<or> s = JobStatusCancelled"

section \<open>Claims, gates and idempotency keys\<close>

definition ClaimCompletion :: "'r redis \<Rightarrow> parse_duration \<Rightarrow> RedisClient \<Rightarrow> string \<Rightarrow> ('r, bool) rop" where
  "ClaimCompletion R pd r i =
     rcall R (SETNX_dur R (completionClaimKey i) ''1'' (ttlForStatus pd r JobStatusCompleted))"

record ScanGate =
  Timeout :: int
  FailClosed :: bool

definition gate_text :: "int \<Rightarrow> bool \<Rightarrow> string" where
  "gate_text timeout failClosed = itoa (trunc_secs timeout) @ ''|'' @ (if failClosed then ''fail_closed'' else ''fail_open'')"

definition SetScanGate :: "'r redis \<Rightarrow> parse_duration \<Rightarrow> RedisClient \<Rightarrow> string \<Rightarrow> int \<Rightarrow> bool \<Rightarrow> ('r, unit) rop" where
  "SetScanGate R pd r i timeout failClosed =
     rcall R (SET R (scanGateKey i) (gate_text timeout failClosed) (set_ttl (ttlForStatus pd r JobStatusCompleted)))"

text \<open>The value is split at the first bar; a number that does not parse counts as 0.\<close>

definition parse_gate :: "string \<Rightarrow> ScanGate" where
  "parse_gate v =
     (let sec = takeWhile (\<lambda>c. c \<noteq> CHR ''|'') v; rest = dropWhile (\<lambda>c. c \<noteq> CHR ''|'') v
      in \<lparr>Timeout = wrap64 ((case atoi sec of Some n \<Rightarrow> n | None \<Rightarrow> 0) * second),
          FailClosed = (rest \<noteq> [] \<and> tl rest = ''fail_closed'')\<rparr>)"

definition GetScanGate :: "'r redis \<Rightarrow> string \<Rightarrow> ('r, ScanGate option) rop" where
  "GetScanGate R i = rbind (rcall R (GET R (scanGateKey i))) (\<lambda>v. rret (map_option parse_gate v))"

definition ClearScanGate :: "'r redis \<Rightarrow> string \<Rightarrow> ('r, unit) rop" where
  "ClearScanGate R i = rbind (rcall R (DEL R [scanGateKey i])) (\<lambda>_. rret ())"

definition ReserveIdempotencyKey :: "'r redis \<Rightarrow> string \<Rightarrow> string \<Rightarrow> string \<Rightarrow> int \<Rightarrow> ('r, bool) rop" where
  "ReserveIdempotencyKey R consumer key jobID ttl = rcall R (SETNX_dur R (idempotencyKey consumer key) jobID ttl)"

definition GetIdempotencyKey :: "'r redis \<Rightarrow> string \<Rightarrow> string \<Rightarrow> ('r, string) rop" where
  "GetIdempotencyKey R consumer key =
     rbind (rcall R (GET R (idempotencyKey consumer key))) (\<lambda>v. rret (case v of None \<Rightarrow> [] | Some i \<Rightarrow> i))"

definition ReleaseIdempotencyKey :: "'r redis \<Rightarrow> string \<Rightarrow> string \<Rightarrow> ('r, unit) rop" where
  "ReleaseIdempotencyKey R consumer key = rbind (rcall R (DEL R [idempotencyKey consumer key])) (\<lambda>_. rret ())"

section \<open>The relay queues\<close>

text \<open>\<^verbatim>\<open>BLMOVE\<close> blocks while the list is empty; \<open>Some None\<close> stands for waiting on.\<close>

definition PopJob :: "'r redis \<Rightarrow> string \<Rightarrow> ('r, string option) rop" where
  "PopJob R modelName = rcall R (LMOVE_LR R (pendingKey modelName) (processingKey modelName))"

definition DoneJob :: "'r redis \<Rightarrow> string \<Rightarrow> string \<Rightarrow> ('r, unit) rop" where
  "DoneJob R jobID modelName = rbind (rcall R (LREM1 R (processingKey modelName) jobID)) (\<lambda>_. rret ())"

definition MarkJobCancelled ::
  "'r redis \<Rightarrow> 't codec \<Rightarrow> parse_duration \<Rightarrow> RedisClient \<Rightarrow> int \<Rightarrow> string \<Rightarrow> string \<Rightarrow> ('r, unit) rop" where
  "MarkJobCancelled R cd pd r now jobID modelName =
     rbind (UpdateJobResult R cd pd r now jobID JobStatusCancelled [] ''cancelled by client'') (\<lambda>_ st.
       (Some (), snd (rcall R (PUBLISH R (''relay:'' @ modelName @ '':cancel'') jobID)
                   (snd (rcall R (LREM1 R (pendingKey modelName) jobID) st)))))"

record RelayQueueSweepResult =
  sw_Model :: string
  sw_State :: string
  sw_Count :: int

text \<open>The entries of one list whose job is gone, and how many of them were removed.\<close>

fun sweep_ids :: "'r redis \<Rightarrow> string \<Rightarrow> (string \<times> bool) list \<Rightarrow> string list \<Rightarrow> int \<Rightarrow> 'r \<Rightarrow> int \<times> 'r" where
  "sweep_ids R key exist [] count st = (count, st)"
| "sweep_ids R key exist (i # ids) count st =
     (if map_of (rev exist) i = Some True then sweep_ids R key exist ids count st
      else (case rcall R (LREM1 R key i) st of
              (None, st') \<Rightarrow> sweep_ids R key exist ids count st'
            | (Some _, st') \<Rightarrow> sweep_ids R key exist ids (count + 1) st'))"

fun sweep_lists :: "'r redis \<Rightarrow> (string \<times> string) list \<Rightarrow> RelayQueueSweepResult list \<Rightarrow> 'r \<Rightarrow>
    (RelayQueueSweepResult list \<times> bool) \<times> 'r" where
  "sweep_lists R [] removed st = ((removed, True), st)"
| "sweep_lists R ((m, state) # ls) removed st =
     (let key = ''relay:'' @ m @ '':'' @ state in
      case rcall R (LRANGE_ALL R key) st of
        (None, st1) \<Rightarrow> ((removed, False), st1)
      | (Some ids, st1) \<Rightarrow>
          if ids = [] then sweep_lists R ls removed st1
          else (case JobsExistBatch R ids st1 of
                  (None, st2) \<Rightarrow> ((removed, False), st2)
                | (Some exist, st2) \<Rightarrow>
                    (let (count, st3) = sweep_ids R key exist ids 0 st2 in
                     sweep_lists R ls
                       (if count > 0 then removed @ [\<lparr>sw_Model = m, sw_State = state, sw_Count = count\<rparr>] else removed) st3)))"

definition relayQueueStates :: "string list" where
  "relayQueueStates = [''pending'', ''processing'']"

definition SweepOrphanedRelayQueueEntries ::
  "'r redis \<Rightarrow> string list \<Rightarrow> 'r \<Rightarrow> (RelayQueueSweepResult list \<times> bool) \<times> 'r" where
  "SweepOrphanedRelayQueueEntries R models st = sweep_lists R (List.product models relayQueueStates) [] st"

section \<open>Stale jobs\<close>

fun stale_ids :: "'r redis \<Rightarrow> int \<Rightarrow> string list \<Rightarrow> string list \<Rightarrow> 'r \<Rightarrow> string list \<times> 'r" where
  "stale_ids R cutoff [] allIDs st = (allIDs, st)"
| "stale_ids R cutoff (key # keys) allIDs st =
     (case rcall R (ZRANGEBYSCORE R key (Some 0) cutoff) st of
        (None, st') \<Rightarrow> stale_ids R cutoff keys allIDs st'
      | (Some ids, st') \<Rightarrow> stale_ids R cutoff keys (allIDs @ ids) st')"

text \<open>The outer \<open>None\<close> is a \<^verbatim>\<open>SCAN\<close> that never ends, the inner one an error.\<close>

definition scanStaleJobs :: "'r redis \<Rightarrow> 't codec \<Rightarrow> int \<Rightarrow> 'r \<Rightarrow> (Job list option \<times> 'r) option" where
  "scanStaleJobs R cd cutoff st =
     (case scan_loop R ''queue:*'' 0 [] st of
        None \<Rightarrow> None
      | Some (None, st1) \<Rightarrow> Some (None, st1)
      | Some (Some queueKeys, st1) \<Rightarrow> Some
          (let (allIDs, st2) = stale_ids R cutoff queueKeys [] st1 in
           if allIDs = [] then (Some [], st2)
           else (case rcall R (MGET R (map jobKey allIDs)) st2 of
                   (None, st3) \<Rightarrow> (None, st3)
                 | (Some vals, st3) \<Rightarrow> (Some (filter (\<lambda>job. Status job = JobStatusPending) (decode_all cd vals)), st3))))"

fun mark_stale :: "'r redis \<Rightarrow> 't codec \<Rightarrow> parse_duration \<Rightarrow> RedisClient \<Rightarrow> (string \<Rightarrow> int) \<Rightarrow> Job list \<Rightarrow> 'r \<Rightarrow> Job list \<times> 'r" where
  "mark_stale R cd pd r stamp [] st = ([], st)"
| "mark_stale R cd pd r stamp (job # jobs) st =
     (case UpdateJobResult R cd pd r (stamp (ID job)) (ID job) JobStatusFailed [] ''stale: pending too long'' st of
        (None, st') \<Rightarrow> mark_stale R cd pd r stamp jobs st'
      | (Some _, st') \<Rightarrow> (let (swept, st'') = mark_stale R cd pd r stamp jobs st' in (job # swept, st'')))"

text \<open>\<open>now\<close> is the time of the call, \<open>stamp i\<close> the time at which the record of job \<open>i\<close> is written.\<close>

definition SweepStalePendingJobs ::
  "'r redis \<Rightarrow> 't codec \<Rightarrow> parse_duration \<Rightarrow> RedisClient \<Rightarrow> int \<Rightarrow> (string \<Rightarrow> int) \<Rightarrow> int \<Rightarrow> 'r \<Rightarrow> (Job list option \<times> 'r) option" where
  "SweepStalePendingJobs R cd pd r now stamp maxAge st =
     (case scanStaleJobs R cd ((now - maxAge) div second) st of
        None \<Rightarrow> None
      | Some (None, st1) \<Rightarrow> Some (None, st1)
      | Some (Some jobs, st1) \<Rightarrow> Some (map_prod Some id (mark_stale R cd pd r stamp jobs st1)))"

definition ListStalePendingJobs :: "'r redis \<Rightarrow> 't codec \<Rightarrow> int \<Rightarrow> int \<Rightarrow> 'r \<Rightarrow> (Job list option \<times> 'r) option" where
  "ListStalePendingJobs R cd now olderThan st = scanStaleJobs R cd ((now - olderThan) div second) st"

section \<open>The reaper\<close>

datatype reap_outcome = Alive | Gone | Dropped | Requeued | Deadletter

definition reapProcessingScript ::
  "'r redis \<Rightarrow> string \<Rightarrow> string \<Rightarrow> string \<Rightarrow> string \<Rightarrow> string \<Rightarrow> string \<Rightarrow> int \<Rightarrow> int \<Rightarrow> bool \<Rightarrow> ('r, reap_outcome) rop" where
  "reapProcessingScript R lease proc pending dead attempts jobID maxAttempts attemptsTTL drop_mode =
     rbind (EXISTS R lease) (\<lambda>e.
       if e = 1 then rret Alive
       else rbind (LREM1 R proc jobID) (\<lambda>n.
         if n = 0 then rret Gone
         else if drop_mode then rret Dropped
         else rbind (INCR R attempts) (\<lambda>n.
           rbind (EXPIRE R attempts attemptsTTL) (\<lambda>_.
             if n > maxAttempts then rbind (RPUSH R dead jobID) (\<lambda>_. rret Deadletter)
             else rbind (RPUSH R pending jobID) (\<lambda>_. rret Requeued)))))"

record ReapResult =
  rr_Requeued :: int
  rr_DeadLettered :: int
  rr_Dropped :: int

definition attemptsTTL :: int where "attemptsTTL = 24 * 3600"

text \<open>Whether an entry is dropped or requeued; \<open>None\<close> where the record cannot be verified and the entry is
  left alone.\<close>

definition reap_mode :: "'r redis \<Rightarrow> 't codec \<Rightarrow> string \<Rightarrow> 'r \<Rightarrow> bool option \<times> 'r" where
  "reap_mode R cd i st =
     (case rcall R (EXISTS R (jobKey i)) st of
        (None, st1) \<Rightarrow> (None, st1)
      | (Some n, st1) \<Rightarrow>
          if n = 0 then (Some True, st1)
          else (case GetJob R cd i st1 of
                  (Inl _, st2) \<Rightarrow> (None, st2)
                | (Inr job, st2) \<Rightarrow> (Some (isTerminalStatus (Status job)), st2)))"

definition reap_one ::
  "'r redis \<Rightarrow> 't codec \<Rightarrow> parse_duration \<Rightarrow> RedisClient \<Rightarrow> (string \<Rightarrow> int) \<Rightarrow> int \<Rightarrow> string \<Rightarrow> string \<Rightarrow> string \<Rightarrow> ReapResult \<Rightarrow> 'r \<Rightarrow>
   ReapResult \<times> 'r" where
  "reap_one R cd pd r stamp maxAttempts procKey modelName i res st =
     (let (lease, st1) = rcall R (EXISTS R (leaseKey modelName i)) st in
      if lease = Some 1 then (res, st1)
      else (case reap_mode R cd i st1 of
          (None, st2) \<Rightarrow> (res, st2)
        | (Some drop_mode, st2) \<Rightarrow>
            (case rcall R (reapProcessingScript R (leaseKey modelName i) procKey (pendingKey modelName)
                    (deadletterKey modelName) (attemptsKey modelName i) i maxAttempts attemptsTTL drop_mode) st2 of
               (None, st3) \<Rightarrow> (res, st3)
             | (Some Requeued, st3) \<Rightarrow>
                 (res\<lparr>rr_Requeued := rr_Requeued res + 1\<rparr>,
                  snd (UpdateJobResult R cd pd r (stamp i) i JobStatusPending [] [] st3))
             | (Some Deadletter, st3) \<Rightarrow>
                 (res\<lparr>rr_DeadLettered := rr_DeadLettered res + 1\<rparr>,
                  snd (UpdateJobResult R cd pd r (stamp i) i JobStatusFailed []
                    (''relay worker died before completion; exceeded '' @ itoa maxAttempts @ '' requeue attempts'') st3))
             | (Some Dropped, st3) \<Rightarrow> (res\<lparr>rr_Dropped := rr_Dropped res + 1\<rparr>, st3)
             | (Some _, st3) \<Rightarrow> (res, st3))))"

fun reap_ids ::
  "'r redis \<Rightarrow> 't codec \<Rightarrow> parse_duration \<Rightarrow> RedisClient \<Rightarrow> (string \<Rightarrow> int) \<Rightarrow> int \<Rightarrow> string \<Rightarrow> string \<Rightarrow> string list \<Rightarrow> ReapResult \<Rightarrow> 'r \<Rightarrow>
   ReapResult \<times> 'r" where
  "reap_ids R cd pd r stamp maxAttempts procKey modelName [] res st = (res, st)"
| "reap_ids R cd pd r stamp maxAttempts procKey modelName (i # ids) res st =
     (let (res', st') = reap_one R cd pd r stamp maxAttempts procKey modelName i res st
      in reap_ids R cd pd r stamp maxAttempts procKey modelName ids res' st')"

fun reap_lists ::
  "'r redis \<Rightarrow> 't codec \<Rightarrow> parse_duration \<Rightarrow> RedisClient \<Rightarrow> (string \<Rightarrow> int) \<Rightarrow> int \<Rightarrow> string list \<Rightarrow> ReapResult \<Rightarrow> 'r \<Rightarrow> ReapResult \<times> 'r" where
  "reap_lists R cd pd r stamp maxAttempts [] res st = (res, st)"
| "reap_lists R cd pd r stamp maxAttempts (procKey # keys) res st =
     (let modelName = TrimSuffix (TrimPrefix procKey ''relay:'') '':processing'' in
      case rcall R (LRANGE_ALL R procKey) st of
        (None, st1) \<Rightarrow> reap_lists R cd pd r stamp maxAttempts keys res st1
      | (Some ids, st1) \<Rightarrow>
          (let (res', st2) = reap_ids R cd pd r stamp maxAttempts procKey modelName ids res st1
           in reap_lists R cd pd r stamp maxAttempts keys res' st2))"

definition ReapOrphanedProcessingJobs ::
  "'r redis \<Rightarrow> 't codec \<Rightarrow> parse_duration \<Rightarrow> RedisClient \<Rightarrow> (string \<Rightarrow> int) \<Rightarrow> int \<Rightarrow> 'r \<Rightarrow> (ReapResult option \<times> 'r) option" where
  "ReapOrphanedProcessingJobs R cd pd r stamp maxAttempts0 st =
     (let maxAttempts = (if maxAttempts0 \<le> 0 then 3 else maxAttempts0);
          none = \<lparr>rr_Requeued = 0, rr_DeadLettered = 0, rr_Dropped = 0\<rparr>
      in case scan_loop R ''relay:*:processing'' 0 [] st of
           None \<Rightarrow> None
         | Some (None, st1) \<Rightarrow> Some (None, st1)
         | Some (Some procKeys, st1) \<Rightarrow> Some (map_prod Some id (reap_lists R cd pd r stamp maxAttempts procKeys none st1)))"

end
