(* ===== verification/Relay.thy ===== *)
theory Relay
  imports JobStore
begin

text \<open>
  The relay (\<^verbatim>\<open>relay/internal/queue/queue.go\<close>, \<^verbatim>\<open>relay/internal/store/redis.go\<close>, \<^verbatim>\<open>relay/internal/relay/relay.go\<close>
  and the publisher and job handling of \<^verbatim>\<open>relay/cmd/relay/main.go\<close>): one pod takes one job from the queue of its
  model, holds a lease on it, runs the inference, and publishes the result. The object store, the inference
  adapter, the gateway's callback and the decoding of the result's JSON are parameters.
\<close>

section \<open>The queue of a model\<close>

record Queue =
  q_model :: string
  owner :: string
  leaseTTL :: int

definition q_pending :: "Queue \<Rightarrow> string" where "q_pending q = pendingKey (q_model q)"
definition q_proc :: "Queue \<Rightarrow> string" where "q_proc q = processingKey (q_model q)"

definition RefreshInterval :: "Queue \<Rightarrow> int" where
  "RefreshInterval q = (let iv = sgn (leaseTTL q) * (\<bar>leaseTTL q\<bar> div 3) in if iv < second then second else iv)"

definition RefreshLease :: "'r redis \<Rightarrow> Queue \<Rightarrow> string \<Rightarrow> ('r, unit) rop" where
  "RefreshLease R q jobID = rcall R (SET R (leaseKey (q_model q) jobID) (owner q) (set_ttl (leaseTTL q)))"

datatype pop_error = ErrNoJob | PopCanceled | PopFailed

text \<open>Nil is the answer of \<^verbatim>\<open>BLMOVE\<close> when nothing arrives before its timeout; \<open>sigterm\<close> says that the context
  has been cancelled by the time the call fails.\<close>

definition Pop :: "'r redis \<Rightarrow> Queue \<Rightarrow> bool \<Rightarrow> 'r \<Rightarrow> (pop_error + string) \<times> 'r" where
  "Pop R q sigterm st =
     (case rcall R (LMOVE_LR R (q_pending q) (q_proc q)) st of
        (None, st1) \<Rightarrow> (Inl (if sigterm then PopCanceled else PopFailed), st1)
      | (Some None, st1) \<Rightarrow> (Inl ErrNoJob, st1)
      | (Some (Some i), st1) \<Rightarrow> (Inr i, snd (RefreshLease R q i st1)))"

definition doneScript :: "'r redis \<Rightarrow> Queue \<Rightarrow> string \<Rightarrow> ('r, int \<times> int) rop" where
  "doneScript R q jobID = rboth (LREM1 R (q_proc q) jobID) (DEL R [leaseKey (q_model q) jobID])"

definition Done :: "'r redis \<Rightarrow> Queue \<Rightarrow> string \<Rightarrow> ('r, unit) rop" where
  "Done R q jobID = rbind (rcall R (doneScript R q jobID)) (\<lambda>_. rret ())"

definition Publish :: "'r redis \<Rightarrow> Queue \<Rightarrow> string \<Rightarrow> ('r, unit) rop" where
  "Publish R q jobID = rcall R (PUBLISH R (''jobs:'' @ q_model q @ '':completed'') jobID)"

section \<open>The record of a job\<close>

definition relay_GetJob :: "'r redis \<Rightarrow> 't codec \<Rightarrow> string \<Rightarrow> 'r \<Rightarrow> (store_error + Job) \<times> 'r" where
  "relay_GetJob R cd i st =
     (case rcall R (GET R (jobKey i)) st of
        (None, st') \<Rightarrow> (Inl RedisError, st')
      | (Some None, st') \<Rightarrow> (Inl (NotFound i), st')
      | (Some (Some text), st') \<Rightarrow>
          (case unmarshal cd text of None \<Rightarrow> (Inl (BadRecord i), st') | Some job \<Rightarrow> (Inr job, st')))"

definition defaultTTLSecs :: int where "defaultTTLSecs = 259200"

definition set_num_arg :: "'t codec \<Rightarrow> string \<Rightarrow> string \<Rightarrow> 't \<Rightarrow> 't" where
  "set_num_arg cd f arg job = (if arg \<noteq> [] then lua_set_num cd f arg job else job)"

definition relay_updateJobScript ::
  "'r redis \<Rightarrow> 't codec \<Rightarrow> string \<Rightarrow> JobStatus \<Rightarrow> string \<Rightarrow> string \<Rightarrow> string \<Rightarrow> string \<Rightarrow> string \<Rightarrow> string \<Rightarrow> ('r, unit) rop" where
  "relay_updateJobScript R cd key status resultRef errMsg updatedAt ptArg promptArg completionArg =
     rbind (GET R key) (\<lambda>text.
       case Option.bind text (cjson_decode cd) of
         None \<Rightarrow> rfail
       | Some job \<Rightarrow>
           if lua_terminal cd job then rret ()
           else
             (let job' = set_num_arg cd ''completion_tokens'' completionArg (set_num_arg cd ''prompt_tokens'' promptArg
                    (set_num_arg cd ''processing_time'' ptArg (lua_patch cd status resultRef errMsg updatedAt job)))
              in rbind (TTL R key) (\<lambda>ttl.
                   SET_EX R key (cjson_encode cd job') (if ttl \<le> 0 then defaultTTLSecs else ttl))))"

definition relay_UpdateJobResult ::
  "'r redis \<Rightarrow> 't codec \<Rightarrow> int \<Rightarrow> string \<Rightarrow> JobStatus \<Rightarrow> string \<Rightarrow> string \<Rightarrow> rat \<Rightarrow> int \<Rightarrow> int \<Rightarrow> ('r, unit) rop" where
  "relay_UpdateJobResult R cd now i status resultRef errMsg processingTime promptTokens completionTokens =
     rcall R (relay_updateJobScript R cd (jobKey i) status resultRef errMsg (fmt_time cd now)
       (if processingTime > 0 then fmt_float cd processingTime else [])
       (if promptTokens > 0 then itoa promptTokens else [])
       (if completionTokens > 0 then itoa completionTokens else []))"

text \<open>\<^verbatim>\<open>PublishResult\<close>: only the update of the record can fail it; the callback does not touch Redis
  from here, and its failure is only logged.\<close>

definition PublishResult ::
  "'r redis \<Rightarrow> 't codec \<Rightarrow> Queue \<Rightarrow> int \<Rightarrow> string \<Rightarrow> JobStatus \<Rightarrow> string \<Rightarrow> string \<Rightarrow> rat \<Rightarrow> int \<Rightarrow> int \<Rightarrow> ('r, unit) rop" where
  "PublishResult R cd q now i status resultRef errMsg pt prompt completion =
     rbind (relay_UpdateJobResult R cd now i status resultRef errMsg pt prompt completion) (\<lambda>_ st.
       (Some (), snd (Done R q i (snd (Publish R q i st)))))"

section \<open>Processing a job\<close>

datatype s3_error = S3NotFound | S3Canceled | S3Failed
datatype infer_error = Canceled string | InferFailed string

text \<open>What the processor works with: the object store, the adapter and the publisher, over a state of their
  own. An object is its bytes and its content type. \<open>S3Canceled\<close> is an error that wraps \<^verbatim>\<open>context.Canceled\<close>:
  the gateway has cancelled the job.\<close>

record 'w pipeline_env =
  GetObject :: "string \<Rightarrow> 'w \<Rightarrow> (s3_error + (string \<times> string)) \<times> 'w"
  PutObject :: "string \<Rightarrow> string \<Rightarrow> 'w \<Rightarrow> s3_error option \<times> 'w"
  DeleteObject :: "string \<Rightarrow> 'w \<Rightarrow> bool \<times> 'w"
  Call :: "Job \<Rightarrow> string \<times> string \<Rightarrow> 'w \<Rightarrow> (infer_error + string) \<times> 'w"
  PublishOp :: "string \<Rightarrow> JobStatus \<Rightarrow> string \<Rightarrow> string \<Rightarrow> rat \<Rightarrow> int \<Rightarrow> int \<Rightarrow> 'w \<Rightarrow> bool \<times> 'w"

datatype process_error = PublishFailed | S3Get | JobCanceled | S3GetRetry | S3Put

text \<open>The usage numbers in a result, as \<^verbatim>\<open>json.Unmarshal\<close> reads them: \<open>None\<close> where it fails.\<close>

record result_json =
  processing_time :: "string \<Rightarrow> rat option"
  usage_tokens :: "string \<Rightarrow> (int \<times> int \<times> int) option"

definition extractProcessingTime :: "result_json \<Rightarrow> string \<Rightarrow> rat" where
  "extractProcessingTime rj body = (case processing_time rj body of None \<Rightarrow> 0 | Some t \<Rightarrow> t)"

definition extractTokens :: "result_json \<Rightarrow> string \<Rightarrow> int \<times> int" where
  "extractTokens rj body =
     (case usage_tokens rj body of
        None \<Rightarrow> (0, 0)
      | Some (prompt, completion, all_tokens) \<Rightarrow>
          if prompt = 0 \<and> completion = 0 \<and> all_tokens > 0 then (all_tokens, completion) else (prompt, completion))"

definition publish_failure :: "'w pipeline_env \<Rightarrow> Job \<Rightarrow> string \<Rightarrow> 'w \<Rightarrow> process_error option \<times> 'w" where
  "publish_failure E job msg w =
     (case PublishOp E (ID job) JobStatusFailed [] msg 0 0 0 w of
        (False, w') \<Rightarrow> (Some PublishFailed, w') | (True, w') \<Rightarrow> (None, w'))"

text \<open>The part after a result is there: store it, publish it, delete the input; storing and publishing are
  tried twice.\<close>

definition publish_twice :: "'w pipeline_env \<Rightarrow> result_json \<Rightarrow> Job \<Rightarrow> string \<Rightarrow> 'w \<Rightarrow> 'w" where
  "publish_twice E rj job body w =
     (let publish = PublishOp E (ID job) JobStatusCompleted (ID job @ ''/result.json'') [] (extractProcessingTime rj body)
                      (fst (extractTokens rj body)) (snd (extractTokens rj body));
          (ok, w1) = publish w
      in if ok then w1 else snd (publish w1))"

definition finish_job :: "'w pipeline_env \<Rightarrow> result_json \<Rightarrow> Job \<Rightarrow> string \<Rightarrow> 'w \<Rightarrow> process_error option \<times> 'w" where
  "finish_job E rj job body w =
     (let put = PutObject E (ID job @ ''/result.json'') body;
          published = (\<lambda>w. (None, snd (DeleteObject E (InputRef job) (publish_twice E rj job body w))))
      in case put w of
           (None, w1) \<Rightarrow> published w1
         | (Some _, w1) \<Rightarrow>
             (case put w1 of
                (None, w2) \<Rightarrow> published w2
              | (Some S3Canceled, w2) \<Rightarrow> (Some JobCanceled, w2)
              | (Some _, w2) \<Rightarrow> (Some S3Put, w2)))"

definition error_text :: "infer_error \<Rightarrow> string" where
  "error_text e = (case e of Canceled m \<Rightarrow> m | InferFailed m \<Rightarrow> m)"

definition inference_failed :: "'w pipeline_env \<Rightarrow> Job \<Rightarrow> infer_error \<Rightarrow> 'w \<Rightarrow> process_error option \<times> 'w" where
  "inference_failed E job e w =
     (case PublishOp E (ID job) JobStatusFailed [] (''inference: '' @ error_text e) 0 0 0 w of
        (False, w1) \<Rightarrow> (Some PublishFailed, w1)
      | (True, w1) \<Rightarrow> (None, snd (DeleteObject E (InputRef job) w1)))"

text \<open>The second attempt, on a fresh download of the input.\<close>

definition retry_inference :: "'w pipeline_env \<Rightarrow> result_json \<Rightarrow> Job \<Rightarrow> 'w \<Rightarrow> process_error option \<times> 'w" where
  "retry_inference E rj job w =
     (case GetObject E (InputRef job) w of
        (Inl S3NotFound, w1) \<Rightarrow> publish_failure E job (''input file not found on retry: '' @ InputRef job) w1
      | (Inl S3Canceled, w1) \<Rightarrow> (Some JobCanceled, w1)
      | (Inl S3Failed, w1) \<Rightarrow> (Some S3GetRetry, w1)
      | (Inr input, w1) \<Rightarrow>
          (case Call E job input w1 of
             (Inr body, w2) \<Rightarrow> finish_job E rj job body w2
           | (Inl e, w2) \<Rightarrow> inference_failed E job e w2))"

definition process :: "'w pipeline_env \<Rightarrow> result_json \<Rightarrow> Job \<Rightarrow> 'w \<Rightarrow> process_error option \<times> 'w" where
  "process E rj job w =
     (case GetObject E (InputRef job) w of
        (Inl S3NotFound, w1) \<Rightarrow> publish_failure E job (''input file not found: '' @ InputRef job) w1
      | (Inl S3Canceled, w1) \<Rightarrow> (Some JobCanceled, w1)
      | (Inl S3Failed, w1) \<Rightarrow> (Some S3Get, w1)
      | (Inr input, w1) \<Rightarrow>
          (case Call E job input w1 of
             (Inr body, w2) \<Rightarrow> finish_job E rj job body w2
           | (Inl (Canceled _), w2) \<Rightarrow> (Some JobCanceled, w2)
           | (Inl (InferFailed _), w2) \<Rightarrow> retry_inference E rj job w2))"

section \<open>One pod, one job\<close>

text \<open>The object store and the adapter over a state \<^typ>\<open>'o\<close> of their own; with the publisher on Redis they are
  the environment of the processor. A publication under a context that has been cancelled meanwhile fails like any call that
  is not sent, which is left to \<open>net\<close>.\<close>

record 'o objects =
  o_Get :: "string \<Rightarrow> 'o \<Rightarrow> (s3_error + (string \<times> string)) \<times> 'o"
  o_Put :: "string \<Rightarrow> string \<Rightarrow> 'o \<Rightarrow> s3_error option \<times> 'o"
  o_Delete :: "string \<Rightarrow> 'o \<Rightarrow> bool \<times> 'o"
  o_Call :: "Job \<Rightarrow> string \<times> string \<Rightarrow> 'o \<Rightarrow> (infer_error + string) \<times> 'o"

definition relay_env :: "'r redis \<Rightarrow> 't codec \<Rightarrow> Queue \<Rightarrow> int \<Rightarrow> 'o objects \<Rightarrow> ('r \<times> 'o) pipeline_env" where
  "relay_env R cd q now ob =
     \<lparr>GetObject = (\<lambda>k (st, o1). map_prod id (Pair st) (o_Get ob k o1)),
      PutObject = (\<lambda>k b (st, o1). map_prod id (Pair st) (o_Put ob k b o1)),
      DeleteObject = (\<lambda>k (st, o1). map_prod id (Pair st) (o_Delete ob k o1)),
      Call = (\<lambda>job b (st, o1). map_prod id (Pair st) (o_Call ob job b o1)),
      PublishOp = (\<lambda>i status ref msg pt p c (st, o1).
        let (res, st') = PublishResult R cd q now i status ref msg pt p c st in (res \<noteq> None, (st', o1)))\<rparr>"

datatype exit_code = Exit0 | Exit1

text \<open>The part of \<^verbatim>\<open>main\<close> from \<^verbatim>\<open>Pop\<close> on. The heartbeat and the cancel subscription run beside it: the first
  only rewrites the lease, the second makes \<open>o_Call\<close> answer \<open>Canceled\<close>.\<close>

definition relay_job :: "'r redis \<Rightarrow> 't codec \<Rightarrow> Queue \<Rightarrow> int \<Rightarrow> 'o objects \<Rightarrow> result_json \<Rightarrow> string \<Rightarrow> 'r \<times> 'o \<Rightarrow> exit_code \<times> 'r \<times> 'o" where
  "relay_job R cd q now ob rj jobID w =
     (let (st, o1) = w in
      case relay_GetJob R cd jobID st of
        (Inl _, st1) \<Rightarrow> (Exit1, (st1, o1))
      | (Inr job, st1) \<Rightarrow>
          if Status job = JobStatusCancelled then (Exit0, (snd (Done R q jobID st1), o1))
          else (case process (relay_env R cd q now ob) rj job (st1, o1) of
                  (None, w2) \<Rightarrow> (Exit0, w2)
                | (Some JobCanceled, (st2, o2)) \<Rightarrow> (Exit0, (snd (Done R q jobID st2), o2))
                | (Some _, w2) \<Rightarrow> (Exit1, w2)))"

definition relay_main :: "'r redis \<Rightarrow> 't codec \<Rightarrow> Queue \<Rightarrow> bool \<Rightarrow> int \<Rightarrow> 'o objects \<Rightarrow> result_json \<Rightarrow> 'r \<times> 'o \<Rightarrow> exit_code \<times> 'r \<times> 'o" where
  "relay_main R cd q sigterm now ob rj w =
     (case Pop R q sigterm (fst w) of
        (Inl PopCanceled, st1) \<Rightarrow> (Exit0, (st1, snd w))
      | (Inl ErrNoJob, st1) \<Rightarrow> (Exit0, (st1, snd w))
      | (Inl PopFailed, st1) \<Rightarrow> (Exit1, (st1, snd w))
      | (Inr jobID, st1) \<Rightarrow> relay_job R cd q now ob rj jobID (st1, snd w))"

end
