(* ===== verification/Frame.thy ===== *)
theory Frame
  imports JobStore
begin

text \<open>
  What the proofs on scripts share: transactions and the time-to-live variants of \<^verbatim>\<open>SET\<close> simulate their documented
  counterparts, and \<open>touches K c\<close> says that the operation \<open>c\<close> changes no key outside \<open>K\<close> and does not move the clock. It is
  derived for a script from its commands by \<open>touches_intros\<close>.
\<close>

section \<open>Simulation of transactions\<close>

lemma sim_rboth [intro]:
  assumes "sim view c d" and "sim view c' d'"
  shows "sim view (rboth c c') (rboth d d')"
  unfolding sim_def
proof
  fix s
  obtain a s1 where c: "c s = (a, s1)" by (cases "c s")
  obtain b s2 where c': "c' s1 = (b, s2)" by (cases "c' s1")
  have "d (view s) = (a, view s1)" "d' (view s1) = (b, view s2)"
    using assms c c' by (metis fst_conv prod.collapse sim_def snd_conv)+
  with c c' show "fst (rboth c c' s) = fst (rboth d d' (view s)) \<and> view (snd (rboth c c' s)) = snd (rboth d d' (view s))"
    by (simp add: rboth_def)
qed

context redis_server
begin

lemma SET_EX_sim: "sim view (SET_EX R k v t) (SET_EX (ks_server n) k v t)"
  unfolding SET_EX_def ks_server_simps by (intro sim_if sim_rfail SET)

lemma SETNX_dur_sim: "sim view (SETNX_dur R k v t) (SETNX_dur (ks_server n) k v t)"
  unfolding SETNX_dur_def ks_server_simps by (intro sim_if sim_rfail SETNX)

end

lemma look_put_list_other [simp]: "k \<noteq> k' \<Longrightarrow> look (put_list k xs d ks) k' = look ks k'"
  by (simp add: put_list_def)

lemma look_put_zset_other [simp]: "k \<noteq> k' \<Longrightarrow> look (put_zset k zs d ks) k' = look ks k'"
  by (simp add: put_zset_def)

lemma clock_put_list [simp]: "clock (put_list k xs d ks) = clock ks"
  by (simp add: put_list_def)

lemma clock_put_zset [simp]: "clock (put_zset k xs d ks) = clock ks"
  by (simp add: put_zset_def)

section \<open>What an operation touches\<close>

definition touches :: "string set \<Rightarrow> (keyspace, 'a) rop \<Rightarrow> bool" where
  "touches K c \<longleftrightarrow> (\<forall>ks. clock (snd (c ks)) = clock ks \<and> (\<forall>k. k \<notin> K \<longrightarrow> look (snd (c ks)) k = look ks k))"

named_theorems frame \<open>what the operations touch\<close>

lemma touchesD: "touches K c \<Longrightarrow> k \<notin> K \<Longrightarrow> look (snd (c ks)) k = look ks k" "touches K c \<Longrightarrow> clock (snd (c ks)) = clock ks"
  by (simp_all add: touches_def)

lemma touches_mono: "touches K c \<Longrightarrow> K \<subseteq> K' \<Longrightarrow> touches K' c"
  by (auto simp: touches_def)

lemma touches_ret [frame]: "touches K (rret x)" "touches K rfail"
  by (simp_all add: touches_def rret_def rfail_def)

lemma touches_rbind: "touches K c \<Longrightarrow> (\<And>x. touches K (f x)) \<Longrightarrow> touches K (rbind c f)"
  by (auto simp: touches_def rbind_def split: prod.splits option.splits) (metis snd_conv)+

lemma snd_rboth: "snd (rboth m n ks) = snd (n (snd (m ks)))"
  by (simp add: rboth_def split: prod.split option.split)

lemma touches_rboth: "touches K c \<Longrightarrow> touches K d \<Longrightarrow> touches K (rboth c d)"
  by (simp add: touches_def snd_rboth)

lemma touches_if: "touches K c \<Longrightarrow> touches K d \<Longrightarrow> touches K (if b then c else d)"
  by simp

lemma touches_option: "touches K c \<Longrightarrow> (\<And>x. touches K (f x)) \<Longrightarrow> touches K (case y of None \<Rightarrow> c | Some x \<Rightarrow> f x)"
  by (cases y) simp_all

lemma look_outside:
  "k \<in> K \<Longrightarrow> k' \<notin> K \<Longrightarrow> look (put k e ks) k' = look ks k'"
  "k \<in> K \<Longrightarrow> k' \<notin> K \<Longrightarrow> look (put_list k xs d ks) k' = look ks k'"
  "k \<in> K \<Longrightarrow> k' \<notin> K \<Longrightarrow> look (put_zset k zs d ks) k' = look ks k'"
  by (metis look_put_other, metis look_put_list_other, metis look_put_zset_other)

lemma touches_commands [frame]:
  "k \<in> K \<Longrightarrow> touches K (ks_set k v t)" "k \<in> K \<Longrightarrow> touches K (ks_expire k n)" "k \<in> K \<Longrightarrow> touches K (ks_zadd k sc v)"
  "k \<in> K \<Longrightarrow> touches K (ks_zrem k v)" "k \<in> K \<Longrightarrow> touches K (ks_lpush k v)" "k \<in> K \<Longrightarrow> touches K (ks_rpush k v)"
  "k \<in> K \<Longrightarrow> touches K (ks_lrem1 k v)" "k \<in> K \<Longrightarrow> touches K (ks_incrby k n)" "k \<in> K \<Longrightarrow> touches K (ks_setnx k v t)"
  by (auto simp: look_outside touches_def ks_set_def ks_expire_def ks_zadd_def ks_zrem_def ks_lpush_def ks_rpush_def ks_lrem1_def
      ks_incrby_def ks_setnx_def split: option.splits rval.splits if_splits)

lemma touches_reads [frame]:
  "touches K (ks_get k)" "touches K (ks_exists k)" "touches K (ks_ttl k)" "touches K (ks_lrange_all k)"
  by (auto simp: touches_def ks_get_def ks_exists_def ks_ttl_def ks_lrange_all_def split: option.splits rval.splits)

lemma touches_del [frame]: "set keys \<subseteq> K \<Longrightarrow> touches K (ks_del keys)"
proof -
  assume sub: "set keys \<subseteq> K"
  have clk: "clock (snd (ks_del keys ks)) = clock ks" for ks
    by (induction keys arbitrary: ks) (simp_all add: split: prod.split, metis clock_drop_key snd_conv)
  show ?thesis using sub clk look_ks_del unfolding touches_def by (metis prod.collapse subsetD)
qed

lemmas touches_intros = touches_rbind touches_rboth touches_if touches_option frame

lemma list_at_look: "look ks k = look ks' k \<Longrightarrow> list_at ks k = list_at ks' k"
  by (simp add: list_at_def)

lemma list_at_put_list [simp]: "list_at (put_list k xs None ks) k = Some (xs, None)"
  by (simp add: list_at_def put_list_def)

lemma list_at_put_list_other [simp]: "k \<noteq> k' \<Longrightarrow> list_at (put_list k xs d ks) k' = list_at ks k'"
  by (simp add: list_at_def)

end
