(* ===== verification/JobRecords.thy ===== *)
theory JobRecords
  imports Relay Frame
begin

text \<open>
  What the records of jobs promise: which update of a job counts, that a saved job is found again, that the
  completion of a job is claimed once, and the round trip of the scan gate. The codec is held to what
  \<^verbatim>\<open>encoding/json\<close> and \<^verbatim>\<open>cjson\<close> document: a marshalled job is read back, by Go and by the scripts, and a patch
  by a script changes the patched fields only (numbers may lose digits).
\<close>

section \<open>Reading a record\<close>

text \<open>\<open>reads cd text j\<close>: the text is the record of job \<open>j\<close>, for Go and for a script.\<close>

definition reads :: "'t codec \<Rightarrow> string \<Rightarrow> Job \<Rightarrow> bool" where
  "reads cd text j \<longleftrightarrow> unmarshal cd text = Some j \<and>
     (case cjson_decode cd text of
        None \<Rightarrow> False
      | Some t \<Rightarrow> lua_get cd t ''status'' = Some (Status j) \<and> lua_get cd t ''model'' = Some (Model j))"

text \<open>Equal up to the three numbers.\<close>

definition same_but_numbers :: "Job \<Rightarrow> Job \<Rightarrow> bool" where
  "same_but_numbers j j' \<longleftrightarrow>
     j'\<lparr>ProcessingTime := ProcessingTime j, PromptTokens := PromptTokens j, CompletionTokens := CompletionTokens j\<rparr> = j"

text \<open>What the two encodings promise of each other. They keep it for jobs whose texts are valid UTF-8 and whose counts print exactly (below
  100000000000000 on the side of cjson): invalid bytes are replaced on encoding, and such jobs are outside of what follows.\<close>

definition codec_ok :: "'t codec \<Rightarrow> bool" where
  "codec_ok cd \<longleftrightarrow>
     (\<forall>j text. marshal cd j = Some text \<longrightarrow> reads cd text j) \<and>
     (\<forall>f g v t. lua_get cd (lua_set cd f v t) g = (if f = g then Some v else lua_get cd t g)) \<and>
     (\<forall>text j t status ref msg now ptArg promptArg completionArg. reads cd text j \<longrightarrow> cjson_decode cd text = Some t \<longrightarrow>
        (\<exists>j'. reads cd (cjson_encode cd (set_num_arg cd ''completion_tokens'' completionArg
                 (set_num_arg cd ''prompt_tokens'' promptArg (set_num_arg cd ''processing_time'' ptArg
                   (lua_patch cd status ref msg (fmt_time cd now) t))))) j'
            \<and> same_but_numbers (j\<lparr>Status := status, ResultRef := ref, ErrorMsg := msg, UpdatedAt := now\<rparr>) j'))"

definition holds :: "'t codec \<Rightarrow> keyspace \<Rightarrow> string \<Rightarrow> Job \<Rightarrow> bool" where
  "holds cd ks i j \<longleftrightarrow> (\<exists>e text. look ks (jobKey i) = Some e \<and> rv e = RStr text \<and> reads cd text j)"

lemma lua_terminal_reads:
  "reads cd text j \<Longrightarrow> cjson_decode cd text = Some t \<Longrightarrow> lua_terminal cd t = isTerminalStatus (Status j)"
  by (auto simp: reads_def lua_terminal_def isTerminalStatus_def JobStatus_defs)

lemma set_num_arg_Nil [simp]: "set_num_arg cd f [] t = t"
  by (simp add: set_num_arg_def)

lemma codec_patch:
  assumes "codec_ok cd" and "reads cd text j" and "cjson_decode cd text = Some t"
  obtains j' where "reads cd (cjson_encode cd (set_num_arg cd ''completion_tokens'' completionArg
       (set_num_arg cd ''prompt_tokens'' promptArg (set_num_arg cd ''processing_time'' ptArg
         (lua_patch cd status ref msg (fmt_time cd now) t))))) j'"
    "same_but_numbers (j\<lparr>Status := status, ResultRef := ref, ErrorMsg := msg, UpdatedAt := now\<rparr>) j'"
  using assms unfolding codec_ok_def by blast

section \<open>The scripts on any server\<close>

context redis_server
begin

lemma updateJobScript_sim:
  "sim view (updateJobScript R cd key status ref msg ts ttl) (updateJobScript (ks_server n) cd key status ref msg ts ttl)"
  unfolding updateJobScript_def Let_def
  by (intro sim_rbind sim_option sim_if sim_rret sim_rfail SET_EX_sim) (simp_all add: ks_server_simps GET ZREM)

lemma relay_updateJobScript_sim:
  "sim view (relay_updateJobScript R cd key status ref msg ts pt p c) (relay_updateJobScript (ks_server n) cd key status ref msg ts pt p c)"
  unfolding relay_updateJobScript_def Let_def
  by (intro sim_rbind sim_option sim_if sim_rret sim_rfail SET_EX_sim) (simp_all add: ks_server_simps GET TTL)

lemma doneScript_sim: "sim view (doneScript R q i) (doneScript (ks_server n) q i)"
  unfolding doneScript_def ks_server_simps by (intro sim_rboth LREM1 DEL)

lemma reapProcessingScript_sim:
  "sim view (reapProcessingScript R l p q d a i m t b) (reapProcessingScript (ks_server n) l p q d a i m t b)"
  unfolding reapProcessingScript_def INCR_def ks_server_simps
  by (intro sim_rbind sim_if sim_rret EXISTS LREM1 INCRBY EXPIRE RPUSH)

end

section \<open>Which update counts\<close>

lemma ks_zrem_frame: "k \<noteq> k' \<Longrightarrow> look (snd (ks_zrem k m ks)) k' = look ks k'" "clock (snd (ks_zrem k m ks)) = clock ks"
  by (simp_all add: ks_zrem_def split: option.splits)

definition patched :: "Job \<Rightarrow> JobStatus \<Rightarrow> string \<Rightarrow> string \<Rightarrow> int \<Rightarrow> Job" where
  "patched j status ref msg now = j\<lparr>Status := status, ResultRef := ref, ErrorMsg := msg, UpdatedAt := now\<rparr>"

lemma SET_EX_ks: "0 < t \<Longrightarrow> SET_EX (ks_server n) k v t ks = (Some (), put k \<lparr>rv = RStr v, deadline = Some (clock ks + 1000 * t)\<rparr> ks)"
  by (simp add: SET_EX_def ks_server_simps ks_set_def)

lemma updateJobScript_terminal:
  assumes "holds cd ks i j" and "isTerminalStatus (Status j)"
  shows "updateJobScript (ks_server n) cd (jobKey i) status ref msg ts ttl ks = (Some (), ks)"
    and "relay_updateJobScript (ks_server n) cd (jobKey i) status ref msg ts pt p c ks = (Some (), ks)"
proof -
  from assms(1) obtain e tx where h: "look ks (jobKey i) = Some e" "rv e = RStr tx" "reads cd tx j"
    by (auto simp: holds_def)
  from h(3) obtain t where t: "cjson_decode cd tx = Some t" by (auto simp: reads_def split: option.splits)
  with lua_terminal_reads [OF h(3) t] assms(2) h
  show "updateJobScript (ks_server n) cd (jobKey i) status ref msg ts ttl ks = (Some (), ks)"
    "relay_updateJobScript (ks_server n) cd (jobKey i) status ref msg ts pt p c ks = (Some (), ks)"
    by (simp_all add: updateJobScript_def relay_updateJobScript_def rbind_def ks_server_simps ks_get_def rret_def)
qed

lemma updateJobScript_patches:
  assumes "codec_ok cd" and "holds cd ks i j" and "\<not> isTerminalStatus (Status j)" and "0 < ttl"
  obtains r ks' j' where "updateJobScript (ks_server n) cd (jobKey i) status ref msg (fmt_time cd now) ttl ks = (r, ks')"
    "holds cd ks' i j'" "same_but_numbers (patched j status ref msg now) j'"
    "\<And>k. k \<noteq> jobKey i \<Longrightarrow> k \<noteq> queueKey (Model j) \<Longrightarrow> look ks' k = look ks k" "clock ks' = clock ks"
proof -
  from assms(2) obtain e tx where h: "look ks (jobKey i) = Some e" "rv e = RStr tx" "reads cd tx j"
    by (auto simp: holds_def)
  from h(3) obtain t where t: "cjson_decode cd tx = Some t" by (auto simp: reads_def split: option.splits)
  let ?t = "lua_patch cd status ref msg (fmt_time cd now) t"
  obtain j' where j': "reads cd (cjson_encode cd ?t) j'" "same_but_numbers (patched j status ref msg now) j'"
    using codec_patch [OF assms(1) h(3) t, of "[]" "[]" "[]" status ref msg now] by (auto simp: patched_def)
  let ?ks = "put (jobKey i) \<lparr>rv = RStr (cjson_encode cd ?t), deadline = Some (clock ks + 1000 * ttl)\<rparr> ks"
  have holds: "holds cd ?ks i j'" using j'(1) assms(4) by (auto simp: holds_def)
  have "lua_get cd t ''model'' = Some (Model j)" using h(3) t by (simp add: reads_def)
  then have m: "nonempty_field cd ?t ''model'' = (if Model j = [] then None else Some (Model j))"
    using assms(1) by (simp add: codec_ok_def lua_patch_def nonempty_field_def)
  have run: "updateJobScript (ks_server n) cd (jobKey i) status ref msg (fmt_time cd now) ttl ks =
      (if Model j = [] then (Some (), ?ks)
       else rbind (ks_zrem (queueKey (Model j)) (drop 4 (jobKey i))) (\<lambda>_. rret ()) ?ks)"
    using h t lua_terminal_reads [OF h(3) t] assms(3,4)
    by (simp add: updateJobScript_def script_simps ks_get_def SET_EX_ks Let_def m queueKey_def)
  let ?ks' = "if Model j = [] then ?ks else snd (ks_zrem (queueKey (Model j)) (drop 4 (jobKey i)) ?ks)"
  have snd: "snd (rbind (ks_zrem k m) (\<lambda>_. rret ()) ks) = snd (ks_zrem k m ks)" for k m ks
    by (simp add: rbind_def rret_def split: prod.split option.split)
  have ne: "queueKey (Model j) \<noteq> jobKey i" by (simp add: queueKey_def jobKey_def)
  show ?thesis
  proof (rule that)
    show "updateJobScript (ks_server n) cd (jobKey i) status ref msg (fmt_time cd now) ttl ks =
        (fst (updateJobScript (ks_server n) cd (jobKey i) status ref msg (fmt_time cd now) ttl ks), ?ks')"
      unfolding run by (simp add: snd prod_eq_iff)
    show "holds cd ?ks' i j'" using holds ne by (simp add: holds_def ks_zrem_frame)
    show "same_but_numbers (patched j status ref msg now) j'" by (rule j'(2))
    show "look ?ks' k = look ks k" if "k \<noteq> jobKey i" "k \<noteq> queueKey (Model j)" for k
      using that by (simp add: ks_zrem_frame)
    show "clock ?ks' = clock ks" by (simp add: ks_zrem_frame)
  qed
qed

lemma relay_updateJobScript_patches:
  assumes "codec_ok cd" and "holds cd ks i j" and "\<not> isTerminalStatus (Status j)"
  obtains ks' j' where
    "relay_updateJobScript (ks_server n) cd (jobKey i) status ref msg (fmt_time cd now) pt p c ks = (Some (), ks')"
    "holds cd ks' i j'" "same_but_numbers (patched j status ref msg now) j'"
    "\<And>k. k \<noteq> jobKey i \<Longrightarrow> look ks' k = look ks k" "clock ks' = clock ks"
proof -
  from assms(2) obtain e tx where h: "look ks (jobKey i) = Some e" "rv e = RStr tx" "reads cd tx j"
    by (auto simp: holds_def)
  from h(3) obtain t where t: "cjson_decode cd tx = Some t" by (auto simp: reads_def split: option.splits)
  let ?t = "set_num_arg cd ''completion_tokens'' c (set_num_arg cd ''prompt_tokens'' p
      (set_num_arg cd ''processing_time'' pt (lua_patch cd status ref msg (fmt_time cd now) t)))"
  obtain j' where j': "reads cd (cjson_encode cd ?t) j'" "same_but_numbers (patched j status ref msg now) j'"
    using codec_patch [OF assms(1) h(3) t, of c p pt status ref msg now] by (auto simp: patched_def)
  obtain ttl where ttl: "ks_ttl (jobKey i) ks = (Some ttl, ks)"
    using h(1) by (cases "deadline e") (auto simp: ks_ttl_def)
  let ?ttl = "if ttl \<le> 0 then defaultTTLSecs else ttl"
  let ?ks = "put (jobKey i) \<lparr>rv = RStr (cjson_encode cd ?t), deadline = Some (clock ks + 1000 * ?ttl)\<rparr> ks"
  have pos: "0 < ?ttl" by (simp add: defaultTTLSecs_def)
  show ?thesis
  proof (rule that)
    show "relay_updateJobScript (ks_server n) cd (jobKey i) status ref msg (fmt_time cd now) pt p c ks = (Some (), ?ks)"
      using h t lua_terminal_reads [OF h(3) t] assms(3) ttl SET_EX_ks [OF pos]
      by (simp add: relay_updateJobScript_def script_simps ks_get_def Let_def del: if_split)
    show "holds cd ?ks i j'" using j'(1) pos by (auto simp: holds_def)
    show "same_but_numbers (patched j status ref msg now) j'" by (rule j'(2))
  qed simp_all
qed

text \<open>The updates a job receives, from a gateway (the completion of a stale job, a cancellation, the reaper)
  or from the relay that ran it.\<close>

datatype update = GatewayUpdate JobStatus string string int | RelayUpdate JobStatus string string int rat int int

fun u_outcome :: "update \<Rightarrow> JobStatus \<times> string \<times> string" where
  "u_outcome (GatewayUpdate status ref msg now) = (status, ref, msg)"
| "u_outcome (RelayUpdate status ref msg now pt p c) = (status, ref, msg)"

definition u_terminal :: "update \<Rightarrow> bool" where
  "u_terminal u = isTerminalStatus (fst (u_outcome u))"

fun send_update :: "'r redis \<Rightarrow> 't codec \<Rightarrow> parse_duration \<Rightarrow> RedisClient \<Rightarrow> string \<Rightarrow> update \<Rightarrow> 'r \<Rightarrow> 'r" where
  "send_update R cd pd r i (GatewayUpdate status ref msg now) st = snd (UpdateJobResult R cd pd r now i status ref msg st)"
| "send_update R cd pd r i (RelayUpdate status ref msg now pt p c) st =
     snd (relay_UpdateJobResult R cd now i status ref msg pt p c st)"

text \<open>Every time to live is at least a second, as the scripts need it.\<close>

definition ttls_ok :: "parse_duration \<Rightarrow> RedisClient \<Rightarrow> bool" where
  "ttls_ok pd r \<longleftrightarrow> (\<forall>status. second \<le> ttlForStatus pd r status)"

lemma ttls_ok_secs: "ttls_ok pd r \<Longrightarrow> 0 < trunc_secs (ttlForStatus pd r status)"
  unfolding ttls_ok_def trunc_secs_def
  by (smt (verit, del_insts) abs_of_pos mult_cancel_right1 pos_imp_zdiv_pos_iff sgn_pos)

definition outcome_of :: "Job \<Rightarrow> JobStatus \<times> string \<times> string" where
  "outcome_of j = (Status j, ResultRef j, ErrorMsg j)"

definition same_job :: "Job \<Rightarrow> Job \<Rightarrow> bool" where
  "same_job j j' \<longleftrightarrow> ID j' = ID j \<and> Model j' = Model j \<and> ServiceType j' = ServiceType j \<and> InputRef j' = InputRef j
     \<and> ConsumerName j' = ConsumerName j \<and> UserTypeJ j' = UserTypeJ j \<and> CallbackURL j' = CallbackURL j"

lemma same_but_numbers_patched:
  assumes "same_but_numbers (patched j status ref msg now) j'"
  shows "outcome_of j' = (status, ref, msg)" and "same_job j j'"
proof -
  let ?j = "patched j status ref msg now"
  have j': "j'\<lparr>Job.ProcessingTime := Job.ProcessingTime ?j, PromptTokens := PromptTokens ?j,
      CompletionTokens := CompletionTokens ?j\<rparr> = ?j"
    using assms by (simp add: same_but_numbers_def)
  have "outcome_of ?j = outcome_of j'" unfolding j' [symmetric, THEN arg_cong [of _ _ outcome_of]]
    by (simp add: outcome_of_def)
  then show "outcome_of j' = (status, ref, msg)" by (simp add: outcome_of_def patched_def)
  have "same_job j ?j = same_job j j'" unfolding j' [symmetric, THEN arg_cong [of _ _ "same_job j"]]
    by (simp add: same_job_def)
  then show "same_job j j'" by (simp add: same_job_def patched_def)
qed

lemma same_job_trans: "same_job j j' \<Longrightarrow> same_job j' j'' \<Longrightarrow> same_job j j''"
  by (simp add: same_job_def)

context redis_server
begin

lemma UpdateJobResult_view:
  assumes "net R st = (Delivered, st)"
  shows "view (snd (UpdateJobResult R cd pd r now i status ref msg st)) =
     snd (updateJobScript (ks_server ks_link) cd (jobKey i) status ref msg (fmt_time cd now)
            (trunc_secs (ttlForStatus pd r status)) (view st))"
  using simD [OF updateJobScript_sim] assms
  by (metis UpdateJobResult_def prod.collapse rcall_delivered)

lemma relay_UpdateJobResult_view:
  assumes "net R st = (Delivered, st)"
  shows "view (snd (relay_UpdateJobResult R cd now i status ref msg pt p c st)) =
     snd (relay_updateJobScript (ks_server ks_link) cd (jobKey i) status ref msg (fmt_time cd now)
            (if pt > 0 then fmt_float cd pt else []) (if p > 0 then itoa p else []) (if c > 0 then itoa c else []) (view st))"
  using simD [OF relay_updateJobScript_sim] assms
  by (metis relay_UpdateJobResult_def prod.collapse rcall_delivered)

lemma send_update_terminal:
  assumes "net R st = (Delivered, st)" and "holds cd (view st) i j" and "isTerminalStatus (Status j)"
  shows "view (send_update R cd pd r i u st) = view st"
  using assms by (cases u) (simp_all add: UpdateJobResult_view relay_UpdateJobResult_view updateJobScript_terminal [OF assms(2,3)])

lemma send_update_patches:
  assumes "codec_ok cd" and "ttls_ok pd r" and "net R st = (Delivered, st)" and "holds cd (view st) i j"
    and "\<not> isTerminalStatus (Status j)"
  obtains j' where "holds cd (view (send_update R cd pd r i u st)) i j'" "outcome_of j' = u_outcome u" "same_job j j'"
proof (cases u)
  case (GatewayUpdate status ref msg now)
  obtain rs ks' j' where "updateJobScript (ks_server ks_link) cd (jobKey i) status ref msg (fmt_time cd now)
      (trunc_secs (ttlForStatus pd r status)) (view st) = (rs, ks')"
    "holds cd ks' i j'" "same_but_numbers (patched j status ref msg now) j'"
    using updateJobScript_patches [OF assms(1,4,5) ttls_ok_secs [OF assms(2)]] by metis
  with GatewayUpdate assms(3) same_but_numbers_patched that show ?thesis by (simp add: UpdateJobResult_view)
next
  case (RelayUpdate status ref msg now pt p c)
  obtain ks' j' where "relay_updateJobScript (ks_server ks_link) cd (jobKey i) status ref msg (fmt_time cd now)
      (if pt > 0 then fmt_float cd pt else []) (if p > 0 then itoa p else []) (if c > 0 then itoa c else []) (view st)
      = (Some (), ks')" "holds cd ks' i j'" "same_but_numbers (patched j status ref msg now) j'"
    using relay_updateJobScript_patches [OF assms(1,4,5)] by metis
  with RelayUpdate assms(3) same_but_numbers_patched that show ?thesis by (simp add: relay_UpdateJobResult_view)
qed

lemma updates_pending:
  assumes "codec_ok cd" and "ttls_ok pd r" and "\<And>st. net R st = (Delivered, st)"
  shows "holds cd (view st) i j \<Longrightarrow> \<not> isTerminalStatus (Status j) \<Longrightarrow> \<forall>u \<in> set us. \<not> u_terminal u \<Longrightarrow>
     \<exists>j'. holds cd (view (fold (send_update R cd pd r i) us st)) i j' \<and> \<not> isTerminalStatus (Status j') \<and> same_job j j'"
proof (induction us arbitrary: st j)
  case (Cons u us)
  obtain j1 where j1: "holds cd (view (send_update R cd pd r i u st)) i j1" "outcome_of j1 = u_outcome u" "same_job j j1"
    using send_update_patches [OF assms(1,2,3) Cons.prems(1,2)] .
  then have "\<not> isTerminalStatus (Status j1)"
    using Cons.prems(3) by (auto simp: u_terminal_def outcome_of_def dest: arg_cong [of _ _ fst])
  from Cons.IH [OF j1(1) this] Cons.prems(3) j1(3) show ?case by (auto intro: same_job_trans)
qed (auto simp: same_job_def)

lemma updates_terminal:
  assumes "\<And>st. net R st = (Delivered, st)"
  shows "holds cd (view st) i j \<Longrightarrow> isTerminalStatus (Status j) \<Longrightarrow> view (fold (send_update R cd pd r i) us st) = view st"
proof (induction us arbitrary: st)
  case (Cons u us)
  have v: "view (send_update R cd pd r i u st) = view st" using send_update_terminal [OF assms Cons.prems] .
  with Cons.IH [of "send_update R cd pd r i u st"] Cons.prems show ?case by simp
qed simp

end

text \<open>
  C5: of all updates of a job, by gateways and relays in any order, the first terminal one counts. Once it has
  been applied, no later update changes anything on the server, whatever status it carries, and reading the job
  returns the status, result and error of that first one, in the job that was submitted.
\<close>

theorem first_terminal_update_wins:
  assumes "redis_server R view" and "\<forall>st. net R st = (Delivered, st)" and "codec_ok cd" and "ttls_ok pd r"
    and "holds cd (view st) i j" and "\<not> isTerminalStatus (Status j)"
    and "\<forall>v \<in> set before. \<not> u_terminal v" and "u_terminal u"
  defines "send \<equiv> fold (send_update R cd pd r i)"
  shows "view (send (before @ u # later) st) = view (send (before @ [u]) st)
       \<and> (\<exists>j'. fst (GetJob R cd i (send (before @ u # later) st)) = Inr j' \<and> outcome_of j' = u_outcome u \<and> same_job j j')"
proof -
  note server = assms(1)
  have net: "net R st = (Delivered, st)" for st using assms(2) by blast
  obtain j1 where j1: "holds cd (view (send before st)) i j1" "\<not> isTerminalStatus (Status j1)" "same_job j j1"
    using redis_server.updates_pending [OF server assms(3,4) net assms(5,6,7)] unfolding send_def by blast
  obtain j2 where j2: "holds cd (view (send (before @ [u]) st)) i j2" "outcome_of j2 = u_outcome u" "same_job j1 j2"
    using redis_server.send_update_patches [OF server assms(3,4) net j1(1,2), of u] by (auto simp: send_def)
  have "isTerminalStatus (Status j2)"
    using assms(8) j2(2) by (metis fst_conv outcome_of_def u_terminal_def)
  from redis_server.updates_terminal [OF server net j2(1) this, of pd r later]
  have v: "view (send (before @ u # later) st) = view (send (before @ [u]) st)" by (simp add: send_def)
  let ?st = "send (before @ u # later) st"
  obtain e tx where h: "look (view ?st) (jobKey i) = Some e" "rv e = RStr tx" "reads cd tx j2"
    using j2(1) v by (auto simp: holds_def)
  have "ks_get (jobKey i) (view ?st) = (Some (Some tx), view ?st)" using h by (simp add: ks_get_def)
  from simD [OF redis_server.GET [OF server] this]
  have "fst (GET R (jobKey i) ?st) = Some (Some tx)" by simp
  then have "fst (GetJob R cd i ?st) = Inr j2"
    using h(3) by (auto simp: GetJob_def rcall_delivered [OF net] reads_def split: prod.split)
  with v j2 j1(3) show ?thesis by (auto intro: same_job_trans)
qed

section \<open>A saved job is found again\<close>

lemma rboth_simps [script_simps]:
  "m s = (Some a, s1) \<Longrightarrow> n s1 = (Some b, s2) \<Longrightarrow> rboth m n s = (Some (a, b), s2)"
  by (simp add: rboth_def)

lemma zinsert_not_Nil [simp]: "zinsert sc m zs \<noteq> []"
  by (simp add: zinsert_def Let_def)

text \<open>Adding a member to a sorted set and renewing its expiry touches that key only.\<close>

lemma zadd_expire:
  assumes "zset_at ks k = Some (zs, d)" and "0 < t"
  obtains a b ks1 ks2 where "ks_zadd k sc m ks = (Some a, ks1)" "ks_expire k t ks1 = (Some b, ks2)"
    "\<And>k'. k' \<noteq> k \<Longrightarrow> look ks2 k' = look ks k'" "clock ks2 = clock ks"
    "look ks2 k = Some \<lparr>rv = RZSet (zinsert sc m zs), deadline = Some (clock ks + 1000 * t)\<rparr>"
proof -
  let ?e = "\<lparr>rv = RZSet (zinsert sc m zs), deadline = d\<rparr>"
  have alive: "alive (clock ks) ?e"
    using assms(1) by (auto simp: zset_at_def alive_def dest!: look_alive split: option.splits rval.splits)
  have "ks_zadd k sc m ks = (Some (if m \<in> snd ` set zs then 0 else 1), put k ?e ks)"
    using assms(1) by (simp add: ks_zadd_def put_zset_def)
  moreover have "ks_expire k t (put k ?e ks) = (Some 1, put k (?e\<lparr>deadline := Some (clock ks + 1000 * t)\<rparr>) (put k ?e ks))"
    using assms(2) alive by (simp add: ks_expire_def)
  ultimately show ?thesis by (rule that) (use assms(2) in auto)
qed

lemma push_ks:
  assumes "list_at ks k = Some (xs, d)"
  obtains n ks' where "(if b then ks_lpush k v ks else ks_rpush k v ks) = (Some n, ks')"
    "list_at ks' k = Some (if b then v # xs else xs @ [v], d)" "\<And>k'. k' \<noteq> k \<Longrightarrow> look ks' k' = look ks k'"
    "clock ks' = clock ks"
proof -
  let ?ys = "if b then v # xs else xs @ [v]"
  have alive: "alive (clock ks) \<lparr>rv = RList ?ys, deadline = d\<rparr>"
    using assms by (auto simp: list_at_def alive_def dest!: look_alive split: option.splits rval.splits)
  have "(if b then ks_lpush k v ks else ks_rpush k v ks) = (Some (1 + int (length xs)), put_list k ?ys d ks)"
    using assms by (simp add: ks_lpush_def ks_rpush_def)
  moreover have "list_at (put_list k ?ys d ks) k = Some (?ys, d)"
    using alive by (auto simp: put_list_def list_at_def)
  ultimately show ?thesis by (rule that) auto
qed

lemma set_ttl_pos: "second \<le> d \<Longrightarrow> \<exists>t > 0. set_ttl d = Some t"
  by (simp add: set_ttl_def pos_imp_zdiv_pos_iff)

context redis_server
begin

lemma save_script_sim: "sim view (save_script R r ttl tx job) (save_script (ks_server n) r ttl tx job)"
  unfolding save_script_def Let_def ks_server_simps
  by (intro sim_rboth sim_if sim_rret SET ZADD EXPIRE LPUSH RPUSH)

end

lemma job_keys_distinct [key_simps]:
  "jobKey i \<noteq> queueKey m" "jobKey i \<noteq> consumerKey c" "jobKey i \<noteq> pendingKey m" "jobKey i \<noteq> jobMetaKey i'"
  "queueKey m \<noteq> consumerKey c" "queueKey m \<noteq> pendingKey m'" "queueKey m \<noteq> jobMetaKey i"
  "consumerKey c \<noteq> pendingKey m" "consumerKey c \<noteq> jobMetaKey i" "pendingKey m \<noteq> jobMetaKey i"
  "queueKey m \<noteq> jobKey i" "consumerKey c \<noteq> jobKey i" "pendingKey m \<noteq> jobKey i" "jobMetaKey i' \<noteq> jobKey i"
  "consumerKey c \<noteq> queueKey m" "pendingKey m' \<noteq> queueKey m" "jobMetaKey i \<noteq> queueKey m"
  "pendingKey m \<noteq> consumerKey c" "jobMetaKey i \<noteq> consumerKey c" "jobMetaKey i \<noteq> pendingKey m"
  by (simp_all add: job_key_defs)

lemma save_script_ks:
  assumes "second \<le> ttl" and "second \<le> expiredMarkerTTL r"
    and "list_at ks (pendingKey (Model job)) = Some (xs, d)" and "zset_at ks (queueKey (Model job)) = Some (zs, dz)"
    and "zset_at ks (consumerKey (ConsumerName job)) = Some (cs, dc)"
  obtains a ks' e f where "save_script (ks_server n) r ttl tx job ks = (Some a, ks')"
    "look ks' (jobKey (ID job)) = Some e" "rv e = RStr tx"
    "list_at ks' (pendingKey (Model job)) = Some (if Priority job then ID job # xs else xs @ [ID job], d)"
    "look ks' (jobMetaKey (ID job)) = Some f"
    "zset_at ks' (queueKey (Model job)) = Some (zinsert (CreatedAt job div second) (ID job) zs, Some (clock ks + 1000 * expire_secs ttl))"
    "clock ks' = clock ks"
proof -
  let ?s = "CreatedAt job div second" and ?t = "expire_secs ttl"
  obtain t1 where t1: "0 < t1" "set_ttl ttl = Some t1" using set_ttl_pos [OF assms(1)] by blast
  obtain t2 where t2: "0 < t2" "set_ttl (expiredMarkerTTL r) = Some t2" using set_ttl_pos [OF assms(2)] by blast
  have t: "0 < ?t" using assms(1) by (simp add: expire_secs_def trunc_secs_def pos_imp_zdiv_pos_iff)
  define ks1 where "ks1 = put (jobKey (ID job)) \<lparr>rv = RStr tx, deadline = Some (clock ks + t1)\<rparr> ks"
  have look1: "look ks1 (jobKey (ID job)) = Some \<lparr>rv = RStr tx, deadline = Some (clock ks + t1)\<rparr>"
    "k \<noteq> jobKey (ID job) \<Longrightarrow> look ks1 k = look ks k" for k using t1 by (simp_all add: ks1_def)
  have c1: "ks_set (jobKey (ID job)) tx (set_ttl ttl) ks = (Some (), ks1)" "clock ks1 = clock ks"
    by (simp_all add: ks_set_def ks1_def t1)
  have z: "zset_at ks1 (queueKey (Model job)) = Some (zs, dz)" using assms(4) by (simp add: zset_at_def look1 key_simps)
  obtain a2 b2 ks2 ks3 where c2: "ks_zadd (queueKey (Model job)) ?s (ID job) ks1 = (Some a2, ks2)"
    "ks_expire (queueKey (Model job)) ?t ks2 = (Some b2, ks3)"
    "\<And>k. k \<noteq> queueKey (Model job) \<Longrightarrow> look ks3 k = look ks1 k" "clock ks3 = clock ks1"
    "look ks3 (queueKey (Model job)) = Some \<lparr>rv = RZSet (zinsert ?s (ID job) zs), deadline = Some (clock ks1 + 1000 * ?t)\<rparr>"
    by (rule zadd_expire [OF z t, of ?s "ID job"]) blast
  obtain a4 ks4 where c4: "(if ConsumerName job \<noteq> [] then
        rboth (ks_zadd (consumerKey (ConsumerName job)) ?s (ID job)) (ks_expire (consumerKey (ConsumerName job)) ?t)
      else rret (0, 0)) ks3 = (Some a4, ks4)"
    "\<And>k. k \<noteq> consumerKey (ConsumerName job) \<Longrightarrow> look ks4 k = look ks3 k" "clock ks4 = clock ks3"
  proof (cases "ConsumerName job = []")
    case True
    then show ?thesis using that [of "(0, 0)" ks3] by (simp add: rret_def)
  next
    case False
    have z3: "zset_at ks3 (consumerKey (ConsumerName job)) = Some (cs, dc)"
      using assms(5) by (simp add: zset_at_def c2(3) look1 key_simps)
    obtain a b k1 k2 where
      "ks_zadd (consumerKey (ConsumerName job)) ?s (ID job) ks3 = (Some a, k1)"
      "ks_expire (consumerKey (ConsumerName job)) ?t k1 = (Some b, k2)"
      "\<And>k'. k' \<noteq> consumerKey (ConsumerName job) \<Longrightarrow> look k2 k' = look ks3 k'" "clock k2 = clock ks3"
      by (rule zadd_expire [OF z3 t, of ?s "ID job"]) blast
    then show ?thesis using False that [of "(a, b)" k2] by (simp add: script_simps)
  qed
  have l4: "list_at ks4 (pendingKey (Model job)) = Some (xs, d)"
    using assms(3) by (simp add: list_at_def c4(2) c2(3) look1 key_simps)
  obtain n5 ks5 where c5: "(if Priority job then ks_lpush (pendingKey (Model job)) (ID job) ks4
        else ks_rpush (pendingKey (Model job)) (ID job) ks4) = (Some n5, ks5)"
    "list_at ks5 (pendingKey (Model job)) = Some (if Priority job then ID job # xs else xs @ [ID job], d)"
    "\<And>k. k \<noteq> pendingKey (Model job) \<Longrightarrow> look ks5 k = look ks4 k" "clock ks5 = clock ks4"
    by (rule push_ks [OF l4, of "Priority job" "ID job"]) blast
  have c5': "(if Priority job then ks_lpush (pendingKey (Model job)) (ID job)
        else ks_rpush (pendingKey (Model job)) (ID job)) ks4 = (Some n5, ks5)" using c5(1) by (cases "Priority job") simp_all
  define ks6 where "ks6 = put (jobMetaKey (ID job)) \<lparr>rv = RStr (ServiceType job), deadline = Some (clock ks5 + t2)\<rparr> ks5"
  have c6: "ks_set (jobMetaKey (ID job)) (ServiceType job) (set_ttl (expiredMarkerTTL r)) ks5 = (Some (), ks6)"
    by (simp add: ks_set_def ks6_def t2)
  have look6: "look ks6 (jobMetaKey (ID job)) = Some \<lparr>rv = RStr (ServiceType job), deadline = Some (clock ks5 + t2)\<rparr>"
    "k \<noteq> jobMetaKey (ID job) \<Longrightarrow> look ks6 k = look ks5 k" for k using t2 by (simp_all add: ks6_def)
  have ex: "0 < expiredMarkerTTL r" using assms(2) by simp
  show ?thesis
  proof (rule that)
    show "save_script (ks_server n) r ttl tx job ks = (Some ((), a2, b2, a4, n5, ()), ks6)"
      unfolding save_script_def Let_def ks_server_simps
      by (rule rboth_simps, rule c1(1), rule rboth_simps, rule c2(1), rule rboth_simps, rule c2(2),
          rule rboth_simps, rule c4(1), rule rboth_simps, rule c5', simp add: c6 ex)
    show "look ks6 (jobKey (ID job)) = Some \<lparr>rv = RStr tx, deadline = Some (clock ks + t1)\<rparr>"
      by (simp add: look6 c5(3) c4(2) c2(3) look1 key_simps)
    show "list_at ks6 (pendingKey (Model job)) = Some (if Priority job then ID job # xs else xs @ [ID job], d)"
      using c5(2) by (simp add: list_at_def look6 key_simps)
    show "zset_at ks6 (queueKey (Model job)) = Some (zinsert ?s (ID job) zs, Some (clock ks + 1000 * ?t))"
      by (simp add: zset_at_def look6 c5(3) c4(2) c2(5) c1(2) key_simps)
    show "clock ks6 = clock ks" by (simp add: ks6_def c5(4) c4(3) c2(4) c1(2))
  qed (simp_all add: look6)
qed

lemma index_of_zinsert:
  "index_of m (zinsert sc m zs) = Some (int (length (filter (\<lambda>z. fst z < sc \<or> fst z = sc \<and> snd z < m) (zremove m zs))))"
proof -
  have "index_of m (ys @ (sc, m) # zs') = Some (int (length ys))" if "\<forall>y \<in> set ys. snd y \<noteq> m" for ys zs'
    using that by (induction ys) auto
  then show ?thesis by (simp add: zinsert_def zremove_def Let_def)
qed

text \<open>
  a submitted job is found again. On a server that answers, and whose queues hold lists and sorted sets,
  \<^verbatim>\<open>SaveJob\<close> succeeds; the job can then be read back as it was saved, its existence is marked, it stands at
  the head of its model's queue if it has priority and at the end otherwise, and its position is one more than
  the number of jobs that are older (or as old, with a smaller identifier).
\<close>

theorem SaveJob_found:
  assumes "redis_server R view" and "\<forall>st. net R st = (Delivered, st)" and "codec_ok cd" and "ttls_ok pd r"
    and "second \<le> expiredMarkerTTL r" and "marshal cd job = Some tx"
    and "list_at (view st) (pendingKey (Model job)) = Some (xs, d)"
    and "zset_at (view st) (queueKey (Model job)) = Some (zs, dz)"
    and "zset_at (view st) (consumerKey (ConsumerName job)) = Some (cs, dc)"
  defines "st' \<equiv> snd (SaveJob R cd pd r job st)"
  shows "fst (SaveJob R cd pd r job st) = Some ()
     \<and> fst (GetJob R cd (ID job) st') = Inr job
     \<and> fst (JobEverExisted R (ID job) st') = Some True
     \<and> list_at (view st') (pendingKey (Model job)) = Some (if Priority job then ID job # xs else xs @ [ID job], d)
     \<and> fst (GetQueuePosition R (ID job) (Model job) st') = Some (int (length (filter (\<lambda>z.
          fst z < CreatedAt job div second \<or> fst z = CreatedAt job div second \<and> snd z < ID job) (zremove (ID job) zs))) + 1, True)"
proof -
  have delivered: "net R st = (Delivered, st)" for st using assms(2) by blast
  note net = rcall_delivered [OF delivered]
  have ttl: "second \<le> ttlForStatus pd r (Status job)" using assms(4) by (simp add: ttls_ok_def)
  obtain a ks' e f where k: "save_script (ks_server ks_link) r (ttlForStatus pd r (Status job)) tx job (view st) = (Some a, ks')"
    "look ks' (jobKey (ID job)) = Some e" "rv e = RStr tx"
    "list_at ks' (pendingKey (Model job)) = Some (if Priority job then ID job # xs else xs @ [ID job], d)"
    "look ks' (jobMetaKey (ID job)) = Some f"
    "zset_at ks' (queueKey (Model job)) = Some (zinsert (CreatedAt job div second) (ID job) zs,
       Some (clock (view st) + 1000 * expire_secs (ttlForStatus pd r (Status job))))"
    by (rule save_script_ks [OF ttl assms(5,7,8,9), of ks_link tx]) blast
  from simD [OF redis_server.save_script_sim [OF assms(1)] k(1)]
  have run: "fst (save_script R r (ttlForStatus pd r (Status job)) tx job st) = Some a"
    and v: "view (snd (save_script R r (ttlForStatus pd r (Status job)) tx job st)) = ks'" by auto
  have save: "SaveJob R cd pd r job st = (Some (), snd (save_script R r (ttlForStatus pd r (Status job)) tx job st))"
    using run by (auto simp: SaveJob_def assms(6) rbind_def net rret_def split: prod.splits)
  then have st': "view st' = ks'" by (simp add: st'_def v)
  have "ks_get (jobKey (ID job)) ks' = (Some (Some tx), ks')" using k(2,3) by (simp add: ks_get_def)
  from simD [OF redis_server.GET [OF assms(1)] this [folded st']]
  have get: "fst (GET R (jobKey (ID job)) st') = Some (Some tx)" by simp
  have "reads cd tx job" using assms(3,6) by (auto simp: codec_ok_def)
  with get have g: "fst (GetJob R cd (ID job) st') = Inr job"
    by (auto simp: GetJob_def net reads_def split: prod.split)
  have "ks_exists (jobMetaKey (ID job)) ks' = (Some 1, ks')" using k(5) by (simp add: ks_exists_def)
  from simD [OF redis_server.EXISTS [OF assms(1)] this [folded st']]
  have x: "fst (JobEverExisted R (ID job) st') = Some True"
    by (auto simp: JobEverExisted_def net rbind_def rret_def split: prod.split option.split)
  have "ks_zrank (queueKey (Model job)) (ID job) ks' = (Some (index_of (ID job) (zinsert (CreatedAt job div second) (ID job) zs)), ks')"
    using k(6) by (simp add: ks_zrank_def)
  from simD [OF redis_server.ZRANK [OF assms(1)] this [folded st']] index_of_zinsert
  have "fst (GetQueuePosition R (ID job) (Model job) st') = Some (int (length (filter (\<lambda>z.
      fst z < CreatedAt job div second \<or> fst z = CreatedAt job div second \<and> snd z < ID job) (zremove (ID job) zs))) + 1, True)"
    by (auto simp: GetQueuePosition_def net rbind_def rret_def split: prod.split option.split)
  with save g x k(4) st' show ?thesis by simp
qed

section \<open>Completion is claimed once\<close>

text \<open>Between and during calls nothing but the clock moves; calls and replies may be lost.\<close>

definition calm :: "'r redis \<Rightarrow> ('r \<Rightarrow> keyspace) \<Rightarrow> bool" where
  "calm R view \<longleftrightarrow> (\<forall>s. \<exists>l s1 t. net R s = (l, s1) \<and> clock (view s) \<le> t \<and> view s1 = (view s)\<lparr>clock := t\<rparr>)"

fun claims_made :: "'r redis \<Rightarrow> parse_duration \<Rightarrow> RedisClient \<Rightarrow> string \<Rightarrow> nat \<Rightarrow> 'r \<Rightarrow> bool option list \<times> 'r" where
  "claims_made R pd r i 0 st = ([], st)"
| "claims_made R pd r i (Suc n) st =
     (let (bs, st1) = claims_made R pd r i n st; (b, st2) = ClaimCompletion R pd r i st1 in (bs @ [b], st2))"

text \<open>The claim is held until \<open>d\<close>, or longer.\<close>

definition claimed :: "string \<Rightarrow> int \<Rightarrow> keyspace \<Rightarrow> bool" where
  "claimed i d ks \<longleftrightarrow> (\<exists>e d'. look ks (completionClaimKey i) = Some e \<and> deadline e = Some d' \<and> d \<le> d')"

context redis_server
begin

lemma ClaimCompletion_step:
  assumes "calm R view" and "ttls_ok pd r" and "ClaimCompletion R pd r i st = (b, st')"
    and "set_ttl (ttlForStatus pd r JobStatusCompleted) = Some ms"
  shows "clock (view st) \<le> clock (view st')"
    and "b = Some True \<Longrightarrow> claimed i (clock (view st) + ms) (view st')"
    and "claimed i d (view st) \<Longrightarrow> clock (view st') < d \<Longrightarrow> b \<noteq> Some True \<and> claimed i d (view st')"
proof -
  let ?k = "completionClaimKey i"
  obtain l s1 t where net: "net R st = (l, s1)" "clock (view st) \<le> t" "view s1 = (view st)\<lparr>clock := t\<rparr>"
    using assms(1) unfolding calm_def by blast
  have ms': "0 < ms" using set_ttl_pos [of "ttlForStatus pd r JobStatusCompleted"] assms(2,4) by (auto simp: ttls_ok_def)
  obtain x s2 where run: "SETNX_dur R ?k ''1'' (ttlForStatus pd r JobStatusCompleted) s1 = (x, s2)" by force
  have nonneg: "0 \<le> ttlForStatus pd r JobStatusCompleted"
    using assms(2) by (auto simp: ttls_ok_def dest: spec [of _ JobStatusCompleted])
  obtain y ks2 where ks: "ks_setnx ?k ''1'' (Some ms) (view s1) = (y, ks2)" by force
  have "SETNX_dur (ks_server ks_link) ?k ''1'' (ttlForStatus pd r JobStatusCompleted) (view s1) = (y, ks2)"
    using ks nonneg by (simp add: SETNX_dur_def ks_server_simps assms(4))
  from simD [OF SETNX_dur_sim this] run have x: "x = y" "view s2 = ks2" by auto
  have res: "(b, st') = (case l of Delivered \<Rightarrow> (x, s2) | NotSent \<Rightarrow> (None, s1) | ReplyLost \<Rightarrow> (None, s2))"
    using assms(3) net(1) run by (auto simp: ClaimCompletion_def rcall_def split: link.splits)
  have clk: "clock (view s1) = t" by (simp add: net(3))
  have later: "look (view s1) ?k = (case look (view st) ?k of None \<Rightarrow> None | Some e \<Rightarrow> if alive t e then Some e else None)"
    using look_later [OF net(2)] by (simp add: net(3))
  have two: "y = Some (look (view s1) ?k = None)" "clock ks2 = t"
    "look ks2 ?k = (case look (view s1) ?k of Some e \<Rightarrow> Some e | None \<Rightarrow> Some \<lparr>rv = RStr ''1'', deadline = Some (t + ms)\<rparr>)"
    using ks ms' clk by (auto simp: ks_setnx_def split: option.splits)
  show "clock (view st) \<le> clock (view st')"
    using res net(2) clk x two by (auto split: link.splits)
  show "claimed i (clock (view st) + ms) (view st')" if "b = Some True"
    using that res x two net(2) by (auto simp: claimed_def split: link.splits option.splits)
  show "b \<noteq> Some True \<and> claimed i d (view st')" if held: "claimed i d (view st)" and before: "clock (view st') < d"
  proof -
    have "clock (view st') = t" using res clk x two by (auto split: link.splits)
    with before held obtain e d' where e: "look (view st) ?k = Some e" "deadline e = Some d'" "d \<le> d'" "t < d'"
      by (auto simp: claimed_def)
    then have "look (view s1) ?k = Some e" by (simp add: later alive_def)
    with res x two e show ?thesis by (auto simp: claimed_def split: link.splits)
  qed
qed

end

text \<open>
  C17: the completion of a job is claimed at most once. Whatever calls and replies are lost, among all claims
  made until the claim's time to live has passed since the start, at most one caller is told that it won.
\<close>

theorem completion_claimed_once:
  assumes "redis_server R view" and "calm R view" and "ttls_ok pd r"
    and "set_ttl (ttlForStatus pd r JobStatusCompleted) = Some ms"
    and "claims_made R pd r i n st = (bs, st')" and "clock (view st') < clock (view st) + ms"
  shows "length (filter (\<lambda>b. b = Some True) bs) \<le> 1"
proof -
  note step = redis_server.ClaimCompletion_step [OF assms(1,2,3) _ assms(4)]
  have "clock (view st) \<le> clock (view st') \<and> (filter (\<lambda>b. b = Some True) bs = [] \<or>
      length (filter (\<lambda>b. b = Some True) bs) = 1 \<and> claimed i (clock (view st) + ms) (view st'))"
    using assms(5,6)
  proof (induction n arbitrary: bs st')
    case (Suc n)
    obtain bs1 st1 where one: "claims_made R pd r i n st = (bs1, st1)" by force
    obtain b where two: "ClaimCompletion R pd r i st1 = (b, st')" and bs: "bs = bs1 @ [b]"
      using Suc.prems(1) one by (auto split: prod.splits)
    have clk: "clock (view st1) \<le> clock (view st')" by (rule step(1) [OF two])
    with Suc.IH [OF one] Suc.prems(2) have ih: "clock (view st) \<le> clock (view st1)"
      "filter (\<lambda>b. b = Some True) bs1 = [] \<or>
       length (filter (\<lambda>b. b = Some True) bs1) = 1 \<and> claimed i (clock (view st) + ms) (view st1)" by auto
    from ih(2) show ?case
    proof
      assume "filter (\<lambda>b. b = Some True) bs1 = []"
      moreover have "claimed i (clock (view st) + ms) (view st')" if "b = Some True"
        using step(2) [OF two that] ih(1) by (force simp: claimed_def)
      ultimately show ?thesis using bs clk ih(1) by auto
    next
      assume "length (filter (\<lambda>b. b = Some True) bs1) = 1 \<and> claimed i (clock (view st) + ms) (view st1)"
      with step(3) [OF two, of "clock (view st) + ms"] Suc.prems(2) bs clk ih(1) show ?thesis by auto
    qed
  qed simp
  then show ?thesis by auto
qed

section \<open>The scan gate\<close>

lemma bar_not_digit [simp]: "CHR ''|'' \<notin> set (itoa n)"
proof -
  have "CHR ''|'' \<notin> set (utoa m)" for m
    using utoa_digits [of "CHR ''|''" m] digit_not_sign(3) by metis
  then show ?thesis by (simp add: itoa_def)
qed

lemma takeWhile_bar: "CHR ''|'' \<notin> set s \<Longrightarrow> takeWhile (\<lambda>c. c \<noteq> CHR ''|'') (s @ CHR ''|'' # r) = s"
  "CHR ''|'' \<notin> set s \<Longrightarrow> dropWhile (\<lambda>c. c \<noteq> CHR ''|'') (s @ CHR ''|'' # r) = CHR ''|'' # r"
  by (induction s) auto

lemma parse_gate_text:
  assumes "0 \<le> timeout" and "int64 timeout"
  shows "parse_gate (gate_text timeout failClosed) = \<lparr>Timeout = timeout div second * second, FailClosed = failClosed\<rparr>"
proof -
  have t: "trunc_secs timeout = timeout div second" using assms(1) by (cases "timeout = 0") (simp_all add: trunc_secs_def)
  have "timeout = timeout div second * second + timeout mod second" "0 \<le> timeout mod second"
    "0 \<le> timeout div second" using assms(1) by (simp_all add: pos_imp_zdiv_nonneg_iff)
  then have "0 \<le> timeout div second" "timeout div second \<le> timeout" "timeout div second * second \<le> timeout"
    by linarith+
  then have "int64 (timeout div second)" "int64 (timeout div second * second)" using assms(2) by (simp_all add: int64_def)
  then show ?thesis
    by (simp add: parse_gate_def gate_text_def t takeWhile_bar Let_def)
qed

text \<open>
  the scan gate keeps its promise to the reader. For a timeout that is not negative, \<^verbatim>\<open>GetScanGate\<close> after
  \<^verbatim>\<open>SetScanGate\<close> finds the gate, with the timeout in whole seconds and the same policy; after \<^verbatim>\<open>ClearScanGate\<close>
  it finds none.
\<close>

theorem scan_gate_round_trip:
  fixes i :: string and failClosed :: bool and st :: 'r and R :: "'r redis"
  assumes "redis_server R view" and "\<forall>st. net R st = (Delivered, st)" and "ttls_ok pd r"
    and "0 \<le> timeout" and "int64 timeout"
  defines "st1 \<equiv> snd (SetScanGate R pd r i timeout failClosed st)"
  shows "fst (GetScanGate R i st1) = Some (Some \<lparr>Timeout = timeout div second * second, FailClosed = failClosed\<rparr>)
       \<and> fst (GetScanGate R i (snd (ClearScanGate R i st1))) = Some None"
proof -
  have delivered: "net R st = (Delivered, st)" for st using assms(2) by blast
  note net = rcall_delivered [OF delivered] and parse = parse_gate_text [OF assms(4,5)]
  let ?k = "scanGateKey i" and ?v = "gate_text timeout failClosed"
  obtain ms where ms: "0 < ms" "set_ttl (ttlForStatus pd r JobStatusCompleted) = Some ms"
    using set_ttl_pos assms(3) by (auto simp: ttls_ok_def)
  let ?ks = "put ?k \<lparr>rv = RStr ?v, deadline = Some (clock (view st) + ms)\<rparr> (view st)"
  have "ks_set ?k ?v (Some ms) (view st) = (Some (), ?ks)" by (simp add: ks_set_def)
  from simD [OF redis_server.SET [OF assms(1)] this]
  have st1: "view st1 = ?ks" by (simp add: st1_def SetScanGate_def net ms)
  have get: "ks_get ?k ?ks = (Some (Some ?v), ?ks)" using ms by (simp add: ks_get_def)
  have one: "fst (GetScanGate R i st1) = Some (Some \<lparr>Timeout = timeout div second * second, FailClosed = failClosed\<rparr>)"
    using simD [OF redis_server.GET [OF assms(1)] get [folded st1]]
    by (auto simp: GetScanGate_def net rbind_def rret_def parse split: prod.split option.split)
  have "ks_del [?k] ?ks = (Some 1, drop_key ?k ?ks)" using ms by simp
  from simD [OF redis_server.DEL [OF assms(1)] this [folded st1]]
  have two: "view (snd (DEL R [?k] st1)) = drop_key ?k (view st1)" "fst (DEL R [?k] st1) = Some 1" by auto
  then have clear: "snd (ClearScanGate R i st1) = snd (DEL R [?k] st1)"
    by (auto simp: ClearScanGate_def net rbind_def rret_def split: prod.split)
  have "ks_get ?k (drop_key ?k (view st1)) = (Some None, drop_key ?k (view st1))" by (simp add: ks_get_def)
  from simD [OF redis_server.GET [OF assms(1)] this [folded two(1)]] one show ?thesis
    by (auto simp: clear GetScanGate_def net rbind_def rret_def split: prod.split option.split)
qed

end
