(* ===== verification/JobSamples.thy ===== *)
theory JobSamples
  imports JobRecords
begin

text \<open>
  A concrete codec, to show that what is asked of the codec of job records can be met: a record is the list of
  its text fields, each with its length in front. Numbers are not written, and only jobs without parameters
  and numbers can be marshalled.
\<close>

definition put_text :: "string \<Rightarrow> string" where
  "put_text s = replicate (length s) CHR ''a'' @ CHR ''b'' # s"

definition get_text :: "string \<Rightarrow> string \<times> string" where
  "get_text t = (let n = length (takeWhile (\<lambda>c. c = CHR ''a'') t); r = drop (Suc n) t in (take n r, drop n r))"

lemma get_put [simp]: "get_text (put_text s @ t) = (s, t)"
proof -
  have "takeWhile (\<lambda>c. c = CHR ''a'') (replicate n CHR ''a'' @ CHR ''b'' # r) = replicate n CHR ''a''" for n and r :: string
    by (induction n) auto
  then show ?thesis by (simp add: get_text_def put_text_def)
qed

type_synonym text_table = "(string \<times> string) list"

fun put_table :: "text_table \<Rightarrow> string" where
  "put_table [] = []"
| "put_table ((k, v) # t) = put_text k @ put_text v @ put_table t"

fun get_table :: "nat \<Rightarrow> string \<Rightarrow> text_table" where
  "get_table 0 s = []"
| "get_table (Suc n) s =
     (if s = [] then [] else (let (k, s1) = get_text s; (v, s2) = get_text s1 in (k, v) # get_table n s2))"

lemma put_text_not_Nil [simp]: "put_text s \<noteq> []"
  by (simp add: put_text_def)

lemma get_put_table: "length t < n \<Longrightarrow> get_table n (put_table t) = t"
proof (induction t arbitrary: n)
  case Nil
  then show ?case by (cases n) simp_all
next
  case (Cons kv t)
  obtain k v where kv: "kv = (k, v)" by (cases kv)
  from Cons.prems obtain m where "n = Suc m" "length t < m" by (cases n) auto
  with Cons.IH [of m] kv show ?case by simp
qed

lemma length_put_table: "length t \<le> length (put_table t)"
  by (induction t rule: put_table.induct) (auto simp: put_text_def)

definition decode_table :: "string \<Rightarrow> text_table" where
  "decode_table s = get_table (Suc (length s)) s"

lemma decode_put_table [simp]: "decode_table (put_table t) = t"
  by (simp add: decode_table_def get_put_table le_imp_less_Suc length_put_table del: get_table.simps)

definition unary :: "int \<Rightarrow> string" where
  "unary n = (if n < 0 then ''-'' else []) @ replicate (nat \<bar>n\<bar>) CHR ''1''"

definition of_unary :: "string \<Rightarrow> int" where
  "of_unary s = (case s of CHR ''-'' # r \<Rightarrow> - int (length r) | _ \<Rightarrow> int (length s))"

lemma of_unary_unary [simp]: "of_unary (unary n) = n"
proof (cases "n < 0")
  case False
  then show ?thesis by (cases "nat n") (auto simp: unary_def of_unary_def)
qed (simp add: unary_def of_unary_def)

definition field :: "text_table \<Rightarrow> string \<Rightarrow> string" where
  "field t f = (case map_of t f of Some v \<Rightarrow> v | None \<Rightarrow> [])"

definition job_of :: "text_table \<Rightarrow> Job" where
  "job_of t = \<lparr>ID = field t ''id'', ServiceType = field t ''service_type'', Model = field t ''model'',
     Status = field t ''status'', InputRef = field t ''input_ref'', ResultRef = field t ''result_ref'',
     CallbackURL = field t ''callback_url'', InferenceURL = field t ''inference_url'', Params = [],
     ConsumerName = field t ''consumer_name'', UserTypeJ = field t ''user_type'', Priority = False,
     ErrorMsg = field t ''error'', ProcessingTime = 0, PromptTokens = 0, CompletionTokens = 0,
     CreatedAt = of_unary (field t ''created_at''), UpdatedAt = of_unary (field t ''updated_at''),
     QueuePosition = None, TraceContext = field t ''trace_context''\<rparr>"

definition table_of :: "Job \<Rightarrow> text_table" where
  "table_of j = [(''id'', ID j), (''service_type'', ServiceType j), (''model'', Model j), (''status'', Status j),
     (''input_ref'', InputRef j), (''result_ref'', ResultRef j), (''callback_url'', CallbackURL j),
     (''inference_url'', InferenceURL j), (''consumer_name'', ConsumerName j), (''user_type'', UserTypeJ j),
     (''error'', ErrorMsg j), (''created_at'', unary (CreatedAt j)), (''updated_at'', unary (UpdatedAt j)),
     (''trace_context'', TraceContext j)]"

definition sample_codec :: "text_table codec" where
  "sample_codec = \<lparr>
     marshal = (\<lambda>j. if job_of (table_of j) = j then Some (put_table (table_of j)) else None),
     unmarshal = (\<lambda>s. Some (job_of (decode_table s))),
     cjson_decode = (\<lambda>s. Some (decode_table s)), cjson_encode = put_table,
     lua_get = map_of, lua_set = AList.update, lua_set_num = (\<lambda>f v t. t),
     fmt_time = unary, fmt_float = (\<lambda>_. [])\<rparr>"

lemma field_update [simp]: "field (AList.update k v t) f = (if k = f then v else field t f)"
  by (simp add: field_def update_conv')

lemma sample_codec_ok: "codec_ok sample_codec"
proof -
  have "reads sample_codec (put_table (table_of j)) j" if "job_of (table_of j) = j" for j
    using that by (simp add: reads_def sample_codec_def) (simp add: table_of_def)
  moreover have "\<exists>j'. reads sample_codec (put_table (lua_patch sample_codec status ref msg (unary now) t)) j'
      \<and> same_but_numbers (j\<lparr>Status := status, ResultRef := ref, ErrorMsg := msg, UpdatedAt := now\<rparr>) j'"
    if "reads sample_codec s j" "cjson_decode sample_codec s = Some t" for s j t status ref msg now
  proof -
    let ?t = "lua_patch sample_codec status ref msg (unary now) t"
    have j: "j = job_of t" and m: "map_of t ''model'' = Some (Model j)"
      using that by (simp_all add: reads_def sample_codec_def)
    have "job_of ?t = j\<lparr>Status := status, ResultRef := ref, ErrorMsg := msg, UpdatedAt := now\<rparr>"
      by (simp add: j job_of_def lua_patch_def sample_codec_def)
    moreover have "reads sample_codec (put_table ?t) (job_of ?t)"
      using m by (simp add: reads_def sample_codec_def lua_patch_def update_conv' j job_of_def field_def)
    ultimately show ?thesis by (auto simp: same_but_numbers_def)
  qed
  moreover have "set_num_arg sample_codec f v t = t" for f v t
    by (simp add: set_num_arg_def sample_codec_def)
  moreover have "lua_get sample_codec (lua_set sample_codec f v t) g = (if f = g then Some v else lua_get sample_codec t g)"
    for f g v t by (simp add: sample_codec_def update_conv')
  moreover have "cjson_encode sample_codec = put_table" "fmt_time sample_codec = unary"
    "marshal sample_codec j = (if job_of (table_of j) = j then Some (put_table (table_of j)) else None)" for j
    by (simp_all add: sample_codec_def)
  ultimately show ?thesis
    unfolding codec_ok_def by (auto split: if_splits)
qed

section \<open>Concrete jobs\<close>

definition sample_job :: Job where
  "sample_job = \<lparr>ID = ''1'', ServiceType = ''ocr'', Model = ''m'', Status = ''pending'', InputRef = ''1/input'', ResultRef = [],
     CallbackURL = [], InferenceURL = [], Params = [], ConsumerName = ''bob'', UserTypeJ = [], Priority = False,
     ErrorMsg = [], ProcessingTime = 0, PromptTokens = 0, CompletionTokens = 0, CreatedAt = 5, UpdatedAt = 5,
     QueuePosition = None, TraceContext = []\<rparr>"

definition sample_client :: RedisClient where
  "sample_client = NewRedis \<lparr>ttl_Global = [], ttl_Completed = [], ttl_Pending = [], ttl_Failed = [], ttl_Cancelled = []\<rparr>"

definition sample_store :: keyspace where
  "sample_store = put (jobKey ''1'') \<lparr>rv = RStr (put_table (table_of sample_job)), deadline = None\<rparr> no_keys"

lemma sample_ttl [simp]: "ttlForStatus (\<lambda>_. None) sample_client status = 7200 * second"
  by (simp add: ttlForStatus_def sample_client_def NewRedis_def parseDuration_def Let_def)

lemma sample_ttls_ok: "ttls_ok (\<lambda>_. None) sample_client"
  by (simp add: ttls_ok_def)

lemma sample_link: "\<forall>st. net (ks_server ks_link) st = (Delivered, st)"
  by (simp add: ks_server_simps ks_link_def)

lemma sample_marshal: "marshal sample_codec sample_job = Some (put_table (table_of sample_job))"
proof -
  have "job_of (table_of sample_job) = sample_job" by (simp add: job_of_def table_of_def field_def sample_job_def)
  then show ?thesis by (simp add: sample_codec_def)
qed

lemma sample_holds: "holds sample_codec sample_store ''1'' sample_job"
proof -
  have "reads sample_codec (put_table (table_of sample_job)) sample_job"
    using sample_codec_ok sample_marshal by (auto simp: codec_ok_def)
  then show ?thesis by (auto simp: holds_def sample_store_def)
qed

theorem first_terminal_update_witness:
  "\<exists>j'. fst (GetJob (ks_server ks_link) sample_codec ''1'' (fold (send_update (ks_server ks_link) sample_codec (\<lambda>_. None) sample_client ''1'')
      [RelayUpdate ''completed'' ''1/result.json'' [] 7 0 0 0, GatewayUpdate ''cancelled'' [] ''cancelled by client'' 9] sample_store)) = Inr j'
    \<and> Status j' = ''completed''"
proof -
  have pending: "\<not> isTerminalStatus (Status sample_job)"
    by (simp add: sample_job_def isTerminalStatus_def JobStatus_defs)
  have terminal: "u_terminal (RelayUpdate ''completed'' ''1/result.json'' [] 7 0 0 0)"
    by (simp add: u_terminal_def isTerminalStatus_def JobStatus_defs)
  have store: "holds sample_codec (id sample_store) ''1'' sample_job" using sample_holds by simp
  from first_terminal_update_wins [OF kss.redis_server_axioms sample_link sample_codec_ok sample_ttls_ok store pending,
      where before = "[]" and u = "RelayUpdate ''completed'' ''1/result.json'' [] 7 0 0 0"
        and later = "[GatewayUpdate ''cancelled'' [] ''cancelled by client'' 9]"] terminal
  show ?thesis by (auto simp: outcome_of_def)
qed

theorem SaveJob_found_witness:
  "fst (GetJob (ks_server ks_link) sample_codec ''1''
     (snd (SaveJob (ks_server ks_link) sample_codec (\<lambda>_. None) sample_client sample_job no_keys))) = Inr sample_job"
proof -
  have marker: "second \<le> expiredMarkerTTL sample_client" by (simp add: sample_client_def NewRedis_def)
  have empty: "list_at (id no_keys) k = Some ([], None)" "zset_at (id no_keys) k = Some ([], None)" for k
    by (simp_all add: list_at_def zset_at_def)
  from SaveJob_found [OF kss.redis_server_axioms sample_link sample_codec_ok sample_ttls_ok marker sample_marshal empty(1) empty(2) empty(2)]
  show ?thesis by (simp add: sample_job_def)
qed

theorem completion_claimed_once_witness:
  "length (filter (\<lambda>b. b = Some True) (fst (claims_made (ks_server ks_link) (\<lambda>_. None) sample_client ''1'' 3 no_keys))) \<le> 1"
proof -
  have calm: "calm (ks_server ks_link) id"
    by (auto simp: calm_def ks_server_simps ks_link_def intro: exI [of _ "clock _"])
  have ms: "set_ttl (ttlForStatus (\<lambda>_. None) sample_client JobStatusCompleted) = Some 7200000"
    by (simp add: set_ttl_def)
  obtain bs st' where run: "claims_made (ks_server ks_link) (\<lambda>_. None) sample_client ''1'' 3 no_keys = (bs, st')" by force
  have "clock st' = 0"
    using run by (auto simp: numeral_3_eq_3 ClaimCompletion_def SETNX_dur_def rcall_def ks_server_simps ks_link_def ks_setnx_def
        split: prod.splits option.splits)
  then have "clock (id st') < clock (id no_keys) + 7200000" by simp
  from completion_claimed_once [OF kss.redis_server_axioms calm sample_ttls_ok ms run this] run show ?thesis by simp
qed

theorem scan_gate_round_trip_witness:
  "fst (GetScanGate (ks_server ks_link) ''1'' (snd (SetScanGate (ks_server ks_link) (\<lambda>_. None) sample_client ''1'' (30 * second) True no_keys)))
     = Some (Some \<lparr>Timeout = 30 * second, FailClosed = True\<rparr>)"
  using scan_gate_round_trip [OF kss.redis_server_axioms sample_link sample_ttls_ok,
      where timeout = "30 * second" and i = "''1''" and failClosed = True and st = no_keys]
  by (simp add: int64_def)

end
