(* ===== verification/JobQueues.thy ===== *)
theory JobQueues
  imports JobSamples
begin

text \<open>
  The relay queues of a model as a system: submissions, workers, cancellations, the sweeps and the reaper work
  on \<^verbatim>\<open>relay:{model}:pending\<close>, \<^verbatim>\<open>relay:{model}:processing\<close> and \<^verbatim>\<open>relay:{model}:deadletter\<close>, one atomic script at a time,
  in any order and from any number of processes. A script that was not sent is no step; one whose reply was lost
  is a step like any other, so that no assumption on the network is needed.
\<close>

section \<open>The three lists\<close>

text \<open>The lists have no expiry: nothing sets one on them.\<close>

definition lists :: "string \<Rightarrow> keyspace \<Rightarrow> string list \<Rightarrow> string list \<Rightarrow> string list \<Rightarrow> bool" where
  "lists m ks p q d \<longleftrightarrow> list_at ks (pendingKey m) = Some (p, None) \<and> list_at ks (processingKey m) = Some (q, None)
     \<and> list_at ks (deadletterKey m) = Some (d, None)"

lemma relay_keys_distinct [simp]:
  "pendingKey m \<noteq> processingKey m" "pendingKey m \<noteq> deadletterKey m" "processingKey m \<noteq> deadletterKey m"
  "processingKey m \<noteq> pendingKey m" "deadletterKey m \<noteq> pendingKey m" "deadletterKey m \<noteq> processingKey m"
  "leaseKey m i \<noteq> pendingKey m" "leaseKey m i \<noteq> processingKey m" "leaseKey m i \<noteq> deadletterKey m"
  "attemptsKey m i \<noteq> pendingKey m" "attemptsKey m i \<noteq> processingKey m" "attemptsKey m i \<noteq> deadletterKey m"
  "pendingKey m \<noteq> attemptsKey m i" "processingKey m \<noteq> attemptsKey m i" "deadletterKey m \<noteq> attemptsKey m i"
  "leaseKey m i \<noteq> attemptsKey m i'"
  "jobKey i \<noteq> processingKey m" "queueKey m' \<noteq> processingKey m" "consumerKey c \<noteq> processingKey m" "jobMetaKey i \<noteq> processingKey m"
  "jobKey i \<noteq> deadletterKey m" "queueKey m' \<noteq> deadletterKey m" "consumerKey c \<noteq> deadletterKey m" "jobMetaKey i \<noteq> deadletterKey m"
  by (simp_all add: job_key_defs)

lemma lists_cong:
  "lists m ks p q d \<Longrightarrow> \<forall>k \<in> {pendingKey m, processingKey m, deadletterKey m}. look ks' k = look ks k \<Longrightarrow> lists m ks' p q d"
  by (simp add: lists_def list_at_def)

lemma lmove_lists:
  assumes "lists m ks p q d"
  shows "lists m (snd (ks_lmove_lr (pendingKey m) (processingKey m) ks)) (tl p) (q @ (if p = [] then [] else [hd p])) d"
  using assms by (cases p) (simp_all add: lists_def ks_lmove_lr_def Let_def)

lemma lrem_pending_lists:
  assumes "lists m ks p q d"
  shows "lists m (snd (ks_lrem1 (pendingKey m) i ks)) (remove1 i p) q d"
  using assms by (auto simp: lists_def ks_lrem1_def remove1_idem)

lemma lrem_processing_lists:
  assumes "lists m ks p q d"
  shows "lists m (snd (ks_lrem1 (processingKey m) i ks)) p (remove1 i q) d"
  using assms by (auto simp: lists_def ks_lrem1_def remove1_idem)

lemma push_lists:
  assumes "lists m ks p q d"
  shows "lists m (snd (ks_lpush (pendingKey m) i ks)) (i # p) q d"
    and "lists m (snd (ks_rpush (pendingKey m) i ks)) (p @ [i]) q d"
    and "lists m (snd (ks_rpush (deadletterKey m) i ks)) p q (d @ [i])"
  using assms by (auto simp: lists_def ks_lpush_def ks_rpush_def)

section \<open>The scripts on the lists\<close>

lemma lists_touches:
  "touches K c \<Longrightarrow> pendingKey m \<notin> K \<Longrightarrow> processingKey m \<notin> K \<Longrightarrow> deadletterKey m \<notin> K \<Longrightarrow> lists m ks p q d \<Longrightarrow>
     lists m (snd (c ks)) p q d"
  by (erule lists_cong) (auto dest: touchesD(1))

lemma relay_keys_distinct' [simp]:
  "processingKey m \<noteq> jobKey i" "processingKey m \<noteq> queueKey m'" "processingKey m \<noteq> consumerKey c" "processingKey m \<noteq> jobMetaKey i"
  "deadletterKey m \<noteq> jobKey i" "deadletterKey m \<noteq> queueKey m'" "deadletterKey m \<noteq> consumerKey c" "deadletterKey m \<noteq> jobMetaKey i"
  "pendingKey m \<noteq> leaseKey m i" "processingKey m \<noteq> leaseKey m i" "deadletterKey m \<noteq> leaseKey m i"
  by (simp_all add: job_key_defs)

lemma save_script_lists:
  assumes "lists (Model job) ks p q d"
  shows "lists (Model job) (snd (save_script (ks_server n) r ttl tx job ks))
     (if Priority job then ID job # p else p @ [ID job]) q d"
proof -
  let ?m = "Model job" and ?s = "CreatedAt job div second"
  let ?pre = "rboth (ks_set (jobKey (ID job)) tx (set_ttl ttl)) (rboth (ks_zadd (queueKey ?m) ?s (ID job))
      (rboth (ks_expire (queueKey ?m) (expire_secs ttl))
        (if ConsumerName job \<noteq> [] then rboth (ks_zadd (consumerKey (ConsumerName job)) ?s (ID job))
           (ks_expire (consumerKey (ConsumerName job)) (expire_secs ttl)) else rret (0, 0))))"
  let ?push = "if Priority job then ks_lpush (pendingKey ?m) (ID job) else ks_rpush (pendingKey ?m) (ID job)"
  let ?post = "if expiredMarkerTTL r > 0 then ks_set (jobMetaKey (ID job)) (ServiceType job) (set_ttl (expiredMarkerTTL r))
      else rret ()"
  have run: "snd (save_script (ks_server n) r ttl tx job ks) = snd (?post (snd (?push (snd (?pre ks)))))"
    unfolding save_script_def Let_def ks_server_simps snd_rboth by (simp add: snd_rboth)
  have "touches {jobKey (ID job), queueKey ?m, consumerKey (ConsumerName job)} ?pre"
    by (intro touches_intros) simp_all
  then have "lists ?m (snd (?pre ks)) p q d"
    by (rule lists_touches) (simp_all add: key_simps assms del: if_split)
  from push_lists [OF this, of "ID job"]
  have push: "lists ?m (snd (?push (snd (?pre ks)))) (if Priority job then ID job # p else p @ [ID job]) q d"
    by (cases "Priority job") simp_all
  have "touches {jobMetaKey (ID job)} ?post" by (intro touches_intros) simp_all
  then show ?thesis
    unfolding run by (rule lists_touches) (use push in \<open>simp_all add: key_simps del: if_split\<close>)
qed

lemma doneScript_lists:
  assumes "lists (q_model w) ks p q d"
  shows "lists (q_model w) (snd (doneScript (ks_server n) w i ks)) p (remove1 i q) d"
proof -
  have "lists (q_model w) (snd (ks_lrem1 (processingKey (q_model w)) i ks)) p (remove1 i q) d"
    by (rule lrem_processing_lists [OF assms])
  moreover have "touches {leaseKey (q_model w) i} (ks_del [leaseKey (q_model w) i])"
    by (rule touches_del) simp
  ultimately show ?thesis
    unfolding doneScript_def snd_rboth ks_server_simps q_proc_def
    by (metis lists_touches relay_keys_distinct'(9,10,11) singletonD)
qed

text \<open>What becomes of an entry of the processing list without a lease: the outcome of the reaper's script
  from the number of attempts so far.\<close>

definition abs_reap :: "bool \<Rightarrow> bool \<Rightarrow> int \<Rightarrow> int \<Rightarrow> string \<Rightarrow> string list \<times> string list \<times> string list \<Rightarrow>
    reap_outcome \<times> string list \<times> string list \<times> string list" where
  "abs_reap leased drop_mode c maxAttempts i s =
     (let (p, q, d) = s in
      if leased then (Alive, p, q, d)
      else if i \<notin> set q then (Gone, p, q, d)
      else if drop_mode then (Dropped, p, remove1 i q, d)
      else if c + 1 > maxAttempts then (Deadletter, p, remove1 i q, d @ [i])
      else (Requeued, p @ [i], remove1 i q, d))"

abbreviation reap_script :: "'r redis \<Rightarrow> string \<Rightarrow> string \<Rightarrow> int \<Rightarrow> bool \<Rightarrow> ('r, reap_outcome) rop" where
  "reap_script R m i maxAttempts drop_mode \<equiv> reapProcessingScript R (leaseKey m i) (processingKey m) (pendingKey m)
     (deadletterKey m) (attemptsKey m i) i maxAttempts attemptsTTL drop_mode"

lemma reap_script_ks:
  assumes "lists m ks p q d" and "counter ks (attemptsKey m i) = Some c" and "int64 (c + 1)"
  obtains ks' o' p' q' d' where "reap_script (ks_server n) m i maxAttempts drop_mode ks = (Some o', ks')"
    "abs_reap (look ks (leaseKey m i) \<noteq> None) drop_mode c maxAttempts i (p, q, d) = (o', p', q', d')"
    "lists m ks' p' q' d'" "clock ks' = clock ks"
    "\<And>k. k \<notin> {processingKey m, pendingKey m, deadletterKey m, attemptsKey m i} \<Longrightarrow> look ks' k = look ks k"
    "counter ks' (attemptsKey m i) = Some (if o' \<in> {Requeued, Deadletter} then c + 1 else c)"
    "o' = Alive \<Longrightarrow> ks' = ks"
proof -
  let ?K = "{processingKey m, pendingKey m, deadletterKey m, attemptsKey m i}"
  have t: "touches ?K (reap_script (ks_server n) m i maxAttempts drop_mode)"
    unfolding reapProcessingScript_def ks_server_simps INCR_def by (intro touches_intros) simp_all
  let ?ks1 = "snd (ks_lrem1 (processingKey m) i ks)"
  have l1: "lists m ?ks1 p (remove1 i q) d" by (rule lrem_processing_lists [OF assms(1)])
  have look1: "look ?ks1 (attemptsKey m i) = look ks (attemptsKey m i)" "clock ?ks1 = clock ks"
    using touchesD [OF touches_commands(7) [of "processingKey m" "{processingKey m}" i]] by auto
  let ?ks2 = "count_until (attemptsKey m i) (c + 1) (clock ks + 1000 * attemptsTTL) ?ks1"
  have c1: "counter ?ks1 (attemptsKey m i) = Some c" using assms(2) counter_look [OF look1(1)] by simp
  have l2: "lists m ?ks2 p (remove1 i q) d"
    using look1(2) by (intro lists_cong [OF l1]) (simp add: attemptsTTL_def)
  have rem: "ks_lrem1 (processingKey m) i ks = (Some (if i \<in> set q then 1 else 0), ?ks1)"
    using assms(1) by (simp add: lists_def ks_lrem1_def)
  have gone: "?ks1 = ks" if "i \<notin> set q" using assms(1) that by (simp add: lists_def ks_lrem1_def)
  have push: "ks_rpush (pendingKey m) i ?ks2 = (Some (1 + int (length p)), snd (ks_rpush (pendingKey m) i ?ks2))"
    "ks_rpush (deadletterKey m) i ?ks2 = (Some (1 + int (length d)), snd (ks_rpush (deadletterKey m) i ?ks2))"
    using l2 by (simp_all add: lists_def ks_rpush_def)
  have ttl: "0 < attemptsTTL" by (simp add: attemptsTTL_def)
  have run: "reap_script (ks_server n) m i maxAttempts drop_mode ks =
      (if look ks (leaseKey m i) \<noteq> None then (Some Alive, ks)
       else if i \<notin> set q then (Some Gone, ks)
       else if drop_mode then (Some Dropped, ?ks1)
       else if c + 1 > maxAttempts then (Some Deadletter, snd (ks_rpush (deadletterKey m) i ?ks2))
       else (Some Requeued, snd (ks_rpush (pendingKey m) i ?ks2)))"
    using rem gone push assms(3) ttl look1(2) c1
    by (auto simp: reapProcessingScript_def script_simps INCR_def ks_exists_def)
  have c3: "counter (snd (ks_rpush k i ?ks2)) (attemptsKey m i) = Some (c + 1)" if "k \<in> {pendingKey m, deadletterKey m}" for k
  proof -
    have "look (snd (ks_rpush k i ?ks2)) (attemptsKey m i) = look ?ks2 (attemptsKey m i)"
      using that touchesD(1) [OF touches_commands(6) [of k "{k}" i]] by auto
    from counter_look [OF this] show ?thesis using assms(3) look1(2) ttl by simp
  qed
  obtain o' ks' where res: "reap_script (ks_server n) m i maxAttempts drop_mode ks = (Some o', ks')"
    using run by (auto split: if_splits)
  obtain p' q' d' where abs: "abs_reap (look ks (leaseKey m i) \<noteq> None) drop_mode c maxAttempts i (p, q, d) = (o', p', q', d')"
    using run res by (auto simp: abs_reap_def split: if_splits)
  show ?thesis
  proof (rule that [OF res abs])
    show "lists m ks' p' q' d'"
      using run res abs assms(1) l1 push_lists [OF l2, of i] by (auto simp: abs_reap_def split: if_splits)
    show "counter ks' (attemptsKey m i) = Some (if o' \<in> {Requeued, Deadletter} then c + 1 else c)"
      using run res assms(2) c1 c3 by (auto split: if_splits)
    show "clock ks' = clock ks" using touchesD(2) [OF t, of ks] by (simp add: res)
    show "k \<notin> ?K \<Longrightarrow> look ks' k = look ks k" for k using touchesD(1) [OF t, of k ks] by (simp add: res)
    show "o' = Alive \<Longrightarrow> ks' = ks" using run res by (auto split: if_splits)
  qed
qed

section \<open>No job is lost or doubled\<close>

text \<open>
  The state: the server, the identifiers submitted so far, and those that have left the queues (done, cancelled,
  dropped because their record is terminal or gone). \<open>other\<close> is anything that leaves the three lists alone:
  heartbeats, updates of records, the passing of time, other models. The reaper's step needs its counter to be
  a counter.
\<close>

inductive queue_step ::
  "'r redis \<Rightarrow> ('r \<Rightarrow> keyspace) \<Rightarrow> string \<Rightarrow> 'r \<times> string set \<times> string set \<Rightarrow> 'r \<times> string set \<times> string set \<Rightarrow> bool"
  for R view m where
  submit: "Model job = m \<Longrightarrow> ID job \<notin> sub \<Longrightarrow>
    queue_step R view m (st, sub, out) (snd (save_script R r ttl tx job st), insert (ID job) sub, out)"
| pop: "queue_step R view m (st, sub, out) (snd (LMOVE_LR R (pendingKey m) (processingKey m) st), sub, out)"
| finish: "q_model w = m \<Longrightarrow> i \<in> set q \<Longrightarrow> list_at (view st) (processingKey m) = Some (q, None) \<Longrightarrow>
    queue_step R view m (st, sub, out) (snd (doneScript R w i st), sub, insert i out)"
| finish_late: "q_model w = m \<Longrightarrow> i \<notin> set q \<Longrightarrow> list_at (view st) (processingKey m) = Some (q, None) \<Longrightarrow>
    queue_step R view m (st, sub, out) (snd (doneScript R w i st), sub, out)"
| remove_pending: "i \<in> set p \<Longrightarrow> list_at (view st) (pendingKey m) = Some (p, None) \<Longrightarrow>
    queue_step R view m (st, sub, out) (snd (LREM1 R (pendingKey m) i st), sub, insert i out)"
| remove_processing: "i \<in> set q \<Longrightarrow> list_at (view st) (processingKey m) = Some (q, None) \<Longrightarrow>
    queue_step R view m (st, sub, out) (snd (LREM1 R (processingKey m) i st), sub, insert i out)"
| reap: "counter (view st) (attemptsKey m i) = Some c \<Longrightarrow> int64 (c + 1) \<Longrightarrow>
    reap_script R m i maxAttempts drop_mode st = (res, st') \<Longrightarrow>
    queue_step R view m (st, sub, out) (st', sub, if res = Some Dropped then insert i out else out)"
| other: "\<forall>k \<in> {pendingKey m, processingKey m, deadletterKey m}. look (view st') k = look (view st) k \<Longrightarrow>
    queue_step R view m (st, sub, out) (st', sub, out)"

definition queue_inv :: "string \<Rightarrow> keyspace \<Rightarrow> string set \<Rightarrow> string set \<Rightarrow> bool" where
  "queue_inv m ks sub out \<longleftrightarrow> (\<exists>p q d. lists m ks p q d \<and> distinct (p @ q @ d)
     \<and> set (p @ q @ d) \<union> out = sub \<and> set (p @ q @ d) \<inter> out = {})"

lemma queue_invI:
  "lists m ks p q d \<Longrightarrow> distinct (p @ q @ d) \<Longrightarrow> set (p @ q @ d) \<union> out = sub \<Longrightarrow> set (p @ q @ d) \<inter> out = {} \<Longrightarrow> queue_inv m ks sub out"
  by (auto simp: queue_inv_def)

lemma queue_step_inv:
  assumes "redis_server R view" and "queue_step R view m w w'" and "queue_inv m (view (fst w)) (fst (snd w)) (snd (snd w))"
  shows "queue_inv m (view (fst w')) (fst (snd w')) (snd (snd w'))"
proof -
  obtain st sub out where w: "w = (st, sub, out)" by (cases w)
  then obtain p q d where inv: "lists m (view st) p q d" "distinct (p @ q @ d)" "set (p @ q @ d) \<union> out = sub"
    "set (p @ q @ d) \<inter> out = {}" using assms(3) by (auto simp: queue_inv_def)
  from assms(2) show ?thesis unfolding w
  proof cases
    case (submit job r ttl tx)
    have "view (snd (save_script R r ttl tx job st)) = snd (save_script (ks_server ks_link) r ttl tx job (view st))"
      using redis_server.save_script_sim [OF assms(1)] by (simp add: sim_def)
    with submit inv save_script_lists [of job "view st" p q d ks_link r ttl tx] show ?thesis
      by (auto intro!: queue_invI split: if_splits)
  next
    case pop
    have "view (snd (LMOVE_LR R (pendingKey m) (processingKey m) st)) = snd (ks_lmove_lr (pendingKey m) (processingKey m) (view st))"
      using redis_server.LMOVE_LR [OF assms(1)] by (simp add: sim_def)
    with pop inv lmove_lists [OF inv(1)] show ?thesis by (cases p) (auto intro!: queue_invI)
  next
    case (finish v i q')
    have "view (snd (doneScript R v i st)) = snd (doneScript (ks_server ks_link) v i (view st))"
      using redis_server.doneScript_sim [OF assms(1)] by (simp add: sim_def)
    with finish inv doneScript_lists [of v "view st" p q d ks_link i] show ?thesis
      by (auto intro!: queue_invI simp: lists_def)
  next
    case (finish_late v i q')
    have "view (snd (doneScript R v i st)) = snd (doneScript (ks_server ks_link) v i (view st))"
      using redis_server.doneScript_sim [OF assms(1)] by (simp add: sim_def)
    with finish_late inv doneScript_lists [of v "view st" p q d ks_link i] show ?thesis
      by (auto intro!: queue_invI simp: lists_def remove1_idem)
  next
    case (remove_pending i p')
    have "view (snd (LREM1 R (pendingKey m) i st)) = snd (ks_lrem1 (pendingKey m) i (view st))"
      using redis_server.LREM1 [OF assms(1)] by (simp add: sim_def)
    with remove_pending inv lrem_pending_lists [OF inv(1), of i] show ?thesis
      by (auto intro!: queue_invI simp: lists_def)
  next
    case (remove_processing i q')
    have "view (snd (LREM1 R (processingKey m) i st)) = snd (ks_lrem1 (processingKey m) i (view st))"
      using redis_server.LREM1 [OF assms(1)] by (simp add: sim_def)
    with remove_processing inv lrem_processing_lists [OF inv(1), of i] show ?thesis
      by (auto intro!: queue_invI simp: lists_def)
  next
    case (reap i c maxAttempts drop_mode res st')
    obtain ks' o' p' q' d' where r: "reap_script (ks_server ks_link) m i maxAttempts drop_mode (view st) = (Some o', ks')"
      "abs_reap (look (view st) (leaseKey m i) \<noteq> None) drop_mode c maxAttempts i (p, q, d) = (o', p', q', d')"
      "lists m ks' p' q' d'"
      by (rule reap_script_ks [OF inv(1) reap(2,3)]) blast
    from simD [OF redis_server.reapProcessingScript_sim [OF assms(1)] r(1)] reap(4) have "res = Some o'" "view st' = ks'" by auto
    with reap r inv show ?thesis by (auto simp: abs_reap_def intro!: queue_invI [of m _ p' q' d'] split: if_splits)
  next
    case (other st')
    with inv lists_cong [OF inv(1)] show ?thesis by (auto intro!: queue_invI)
  qed
qed

text \<open>
  C4: no job is lost and none is doubled. From empty queues, whatever submissions (each with a new identifier),
  workers, cancellations, sweeps and reapers do, in any order and however often, every job submitted to a model and
  not yet done, cancelled or dropped stands exactly once in exactly one of the model's three lists.
\<close>

theorem queues_conserve_jobs:
  assumes "redis_server R view" and "lists m (view st0) [] [] []"
    and "(queue_step R view m)\<^sup>*\<^sup>* (st0, {}, {}) (st, sub, out)"
  shows "\<exists>p q d. lists m (view st) p q d \<and> distinct (p @ q @ d) \<and> set (p @ q @ d) = sub - out \<and> out \<subseteq> sub"
proof -
  have "queue_inv m (view (fst w)) (fst (snd w)) (snd (snd w))" if "(queue_step R view m)\<^sup>*\<^sup>* (st0, {}, {}) w" for w
    using that
  proof (induction rule: rtranclp_induct)
    case base
    show ?case using assms(2) by (auto intro!: queue_invI)
  next
    case (step y z)
    then show ?case using queue_step_inv [OF assms(1)] by blast
  qed
  from this [OF assms(3)] show ?thesis by (fastforce simp: queue_inv_def)
qed

section \<open>The reaper\<close>

text \<open>
  C14: the reaper's script on any server that behaves as documented. An entry whose worker still holds its lease
  is left alone, and nothing changes. Otherwise the entry leaves the processing list: dropped if its record is
  terminal or gone, else appended to the pending list while the attempts, this one included, are at most the
  limit, and to the dead-letter list from then on. No other key of the server is touched.
\<close>

theorem reaper_refines:
  assumes "redis_server R view" and "lists m (view st) p q d"
    and "counter (view st) (attemptsKey m i) = Some c" and "int64 (c + 1)"
  shows "\<exists>out st' p' q' d'. reap_script R m i maxAttempts drop_mode st = (Some out, st')
     \<and> abs_reap (look (view st) (leaseKey m i) \<noteq> None) drop_mode c maxAttempts i (p, q, d) = (out, p', q', d')
     \<and> lists m (view st') p' q' d'
     \<and> counter (view st') (attemptsKey m i) = Some (if out \<in> {Requeued, Deadletter} then c + 1 else c)
     \<and> (\<forall>k. k \<notin> {processingKey m, pendingKey m, deadletterKey m, attemptsKey m i} \<longrightarrow> look (view st') k = look (view st) k)
     \<and> (look (view st) (leaseKey m i) \<noteq> None \<longrightarrow> view st' = view st)"
proof -
  obtain ks' o' p' q' d' where r: "reap_script (ks_server ks_link) m i maxAttempts drop_mode (view st) = (Some o', ks')"
    "abs_reap (look (view st) (leaseKey m i) \<noteq> None) drop_mode c maxAttempts i (p, q, d) = (o', p', q', d')"
    "lists m ks' p' q' d'" "\<And>k. k \<notin> {processingKey m, pendingKey m, deadletterKey m, attemptsKey m i} \<Longrightarrow> look ks' k = look (view st) k"
    "counter ks' (attemptsKey m i) = Some (if o' \<in> {Requeued, Deadletter} then c + 1 else c)" "o' = Alive \<Longrightarrow> ks' = view st"
    by (rule reap_script_ks [OF assms(2,3,4)]) blast
  obtain out st' where run: "reap_script R m i maxAttempts drop_mode st = (out, st')" by force
  from simD [OF redis_server.reapProcessingScript_sim [OF assms(1)] r(1)] run have "out = Some o'" "view st' = ks'" by auto
  moreover have "look (view st) (leaseKey m i) \<noteq> None \<longrightarrow> o' = Alive" using r(2) by (auto simp: abs_reap_def)
  ultimately show ?thesis using run r by blast
qed

section \<open>How often a job is handed out\<close>

text \<open>
  The state: the server, and how often a worker was given job \<open>i\<close>. Workers come with \<^verbatim>\<open>Pop\<close>, which also writes the lease, and the
  reaper with its script for the job, at any time: the script itself looks whether there is a lease. \<open>other\<close> is anything else that
  puts no entry of the job in a list: heartbeats, leases that run out, the end of a run, cancellations, sweeps, other jobs, and the passing
  of time. Time passes during calls too, and calls and replies may be lost. Over no step may the counter of the job's
  attempts run out, which each requeue keeps for another 24 hours.
\<close>

definition keeps_count :: "string \<Rightarrow> string \<Rightarrow> keyspace \<Rightarrow> keyspace \<Rightarrow> bool" where
  "keeps_count m i ks ks' \<longleftrightarrow> counter ks' (attemptsKey m i) = counter ks (attemptsKey m i)"

definition adds_none :: "string \<Rightarrow> string \<Rightarrow> keyspace \<Rightarrow> keyspace \<Rightarrow> bool" where
  "adds_none m i ks ks' \<longleftrightarrow> (\<forall>p q d. lists m ks p q d \<longrightarrow> (\<exists>p' q' d'. lists m ks' p' q' d' \<and>
     count_list p' i \<le> count_list p i \<and> count_list q' i \<le> count_list q i \<and> count_list d' i \<le> count_list d i))"

inductive delivery_step ::
  "'r redis \<Rightarrow> ('r \<Rightarrow> keyspace) \<Rightarrow> string \<Rightarrow> string \<Rightarrow> int \<Rightarrow> 'r \<times> nat \<Rightarrow> 'r \<times> nat \<Rightarrow> bool"
  for R view m i maxAttempts where
  pop: "q_model w = m \<Longrightarrow> Pop R w sigterm st = (res, st') \<Longrightarrow> keeps_count m i (view st) (view st') \<Longrightarrow>
    delivery_step R view m i maxAttempts (st, n) (st', if res = Inr i then Suc n else n)"
| reap: "rcall R (reap_script R m i maxAttempts drop_mode) st = (res, st') \<Longrightarrow> keeps_count m i (view st) (view (snd (net R st))) \<Longrightarrow>
    delivery_step R view m i maxAttempts (st, n) (st', n)"
| other: "adds_none m i (view st) (view st') \<Longrightarrow> keeps_count m i (view st) (view st') \<Longrightarrow>
    delivery_step R view m i maxAttempts (st, n) (st', n)"

text \<open>The job stands at most once in the lists. While it waits, it was handed out at most as often as it was put back; while it is
  being processed, once more.\<close>

definition delivery_inv :: "string \<Rightarrow> string \<Rightarrow> int \<Rightarrow> keyspace \<Rightarrow> nat \<Rightarrow> bool" where
  "delivery_inv m i maxAttempts ks n \<longleftrightarrow> (\<exists>p q d c. lists m ks p q d \<and> counter ks (attemptsKey m i) = Some c \<and> 0 \<le> c \<and> c \<le> maxAttempts + 1
     \<and> count_list (p @ q @ d) i \<le> 1 \<and> (i \<in> set p \<longrightarrow> int n \<le> c \<and> c \<le> maxAttempts) \<and> (i \<in> set q \<longrightarrow> int n \<le> c + 1 \<and> c \<le> maxAttempts)
     \<and> int n \<le> maxAttempts + 1)"

lemma lists_later: "lists m ks p q d \<Longrightarrow> clock ks \<le> t \<Longrightarrow> lists m (ks\<lparr>clock := t\<rparr>) p q d"
  by (auto simp: lists_def list_at_def look_later alive_def split: option.splits rval.splits)

lemma calm_lists: "calm R view \<Longrightarrow> lists m (view st) p q d \<Longrightarrow> lists m (view (snd (net R st))) p q d"
  using lists_later unfolding calm_def by (metis snd_conv)

lemma rcall_view:
  assumes "redis_server R view" "sim view c c'" "rcall R c st = (res, st')"
  shows "view st' \<in> {view (snd (net R st)), snd (c' (view (snd (net R st))))}"
    and "res \<noteq> None \<Longrightarrow> view st' = snd (c' (view (snd (net R st)))) \<and> res = fst (c' (view (snd (net R st))))"
  using assms by (auto simp: rcall_def sim_def split: prod.splits link.splits) (metis fst_conv snd_conv)+

lemma RefreshLease_lists:
  assumes "redis_server R view" "calm R view" "lists m (view st) p q d" "q_model w = m"
  shows "lists m (view (snd (RefreshLease R w j st))) p q d"
proof -
  let ?c = "ks_set (leaseKey m j) (owner w) (set_ttl (leaseTTL w))"
  note l = calm_lists [OF assms(2,3)]
  have "touches {leaseKey m j} ?c" by (rule touches_commands) simp
  then have "lists m (snd (?c (view (snd (net R st))))) p q d" by (rule lists_touches) (use l in simp_all)
  with l rcall_view(1) [OF assms(1) redis_server.SET [OF assms(1)] surjective_pairing] show ?thesis
    unfolding RefreshLease_def assms(4) by (metis insertE singletonD)
qed

lemma Pop_lists:
  assumes "redis_server R view" "calm R view" "lists m (view st) p q d" "q_model w = m" "Pop R w sigterm st = (res, st')"
  shows "lists m (view st') p q d \<and> res \<noteq> Inr i \<or> (\<exists>j p'. p = j # p' \<and> lists m (view st') p' (q @ [j]) d \<and> (res = Inr i \<longrightarrow> j = i))"
proof -
  let ?v = "view (snd (net R st))" and ?mv = "ks_lmove_lr (pendingKey m) (processingKey m)"
  have l: "lists m ?v p q d" by (rule calm_lists [OF assms(2,3)])
  obtain x st1 where call: "rcall R (LMOVE_LR R (q_pending w) (q_proc w)) st = (x, st1)" by (meson surj_pair)
  have "sim view (LMOVE_LR R (q_pending w) (q_proc w)) ?mv"
    using redis_server.LMOVE_LR [OF assms(1)] by (simp add: q_pending_def q_proc_def assms(4))
  note v = rcall_view [OF assms(1) this call]
  have moved: "lists m (snd (?mv ?v)) (tl p) (q @ (if p = [] then [] else [hd p])) d" by (rule lmove_lists [OF l])
  have ans: "fst (?mv ?v) = Some (if p = [] then None else Some (hd p))"
    using l by (cases p) (simp_all add: lists_def ks_lmove_lr_def Let_def)
  have res: "(res, st') = (case x of None \<Rightarrow> (Inl (if sigterm then PopCanceled else PopFailed), st1)
      | Some None \<Rightarrow> (Inl ErrNoJob, st1) | Some (Some k) \<Rightarrow> (Inr k, snd (RefreshLease R w k st1)))"
    using assms(5) call by (simp add: Pop_def)
  show ?thesis
  proof (cases p)
    case Nil
    then have "lists m (view st1) p q d" using v(1) l moved by auto
    moreover have "x \<in> {None, Some None}" using v(2) ans Nil by (cases x) auto
    ultimately show ?thesis using res by auto
  next
    case (Cons j p')
    show ?thesis
    proof (cases x)
      case None
      with res v(1) l moved Cons show ?thesis by auto
    next
      case (Some y)
      then have y: "y = Some j" "lists m (view st1) p' (q @ [j]) d" using v(2) ans moved Cons by auto
      with RefreshLease_lists [OF assms(1,2) y(2) assms(4), of j] res Some Cons show ?thesis by auto
    qed
  qed
qed

lemma delivery_pop:
  assumes "redis_server R view" "calm R view" "q_model w = m" "Pop R w sigterm st = (res, st')"
    "keeps_count m i (view st) (view st')" "delivery_inv m i maxAttempts (view st) n"
  shows "delivery_inv m i maxAttempts (view st') (if res = Inr i then Suc n else n)"
proof -
  obtain p q d c where inv: "lists m (view st) p q d" "counter (view st) (attemptsKey m i) = Some c" "0 \<le> c" "c \<le> maxAttempts + 1"
    "count_list (p @ q @ d) i \<le> 1" "i \<in> set p \<longrightarrow> int n \<le> c \<and> c \<le> maxAttempts" "i \<in> set q \<longrightarrow> int n \<le> c + 1 \<and> c \<le> maxAttempts"
    "int n \<le> maxAttempts + 1" using assms(6) by (auto simp: delivery_inv_def)
  have c: "counter (view st') (attemptsKey m i) = Some c" using inv(2) assms(5) by (simp add: keeps_count_def)
  from Pop_lists [OF assms(1,2) inv(1) assms(3,4), of i] show ?thesis
  proof (elim disjE exE conjE)
    assume l: "lists m (view st') p q d" "res \<noteq> Inr i"
    then show ?thesis unfolding delivery_inv_def
      by (intro exI [of _ p] exI [of _ q] exI [of _ d] exI [of _ c]) (use inv c in simp)
  next
    fix j p' assume l: "p = j # p'" "lists m (view st') p' (q @ [j]) d" "res = Inr i \<longrightarrow> j = i"
    have "i \<notin> set p' \<and> i \<notin> set q" if "j = i" using inv(5) that by (auto simp: l(1) count_list_0_iff [symmetric])
    then show ?thesis unfolding delivery_inv_def
      by (intro exI [of _ p'] exI [of _ "q @ [j]"] exI [of _ d] exI [of _ c]) (use inv c l in auto)
  qed
qed

lemma delivery_reap:
  assumes "redis_server R view" "calm R view" "rcall R (reap_script R m i maxAttempts drop_mode) st = (res, st')"
    "keeps_count m i (view st) (view (snd (net R st)))" "delivery_inv m i maxAttempts (view st) n" "0 < maxAttempts" "maxAttempts < 2 ^ 62"
  shows "delivery_inv m i maxAttempts (view st') n"
proof -
  let ?v = "view (snd (net R st))"
  obtain p q d c where inv: "lists m (view st) p q d" "counter (view st) (attemptsKey m i) = Some c" "0 \<le> c" "c \<le> maxAttempts + 1"
    "count_list (p @ q @ d) i \<le> 1" "i \<in> set p \<longrightarrow> int n \<le> c \<and> c \<le> maxAttempts" "i \<in> set q \<longrightarrow> int n \<le> c + 1 \<and> c \<le> maxAttempts"
    "int n \<le> maxAttempts + 1" using assms(5) by (auto simp: delivery_inv_def)
  have l: "lists m ?v p q d" and c: "counter ?v (attemptsKey m i) = Some c"
    using calm_lists [OF assms(2) inv(1)] inv(2) assms(4) by (simp_all add: keeps_count_def)
  have unchanged: "delivery_inv m i maxAttempts ?v n" unfolding delivery_inv_def
    by (intro exI [of _ p] exI [of _ q] exI [of _ d] exI [of _ c]) (use inv l c in simp)
  have i64: "int64 (c + 1)" using inv(3,4) assms(7) by (simp add: int64_def)
  obtain ks' o' p' q' d' where r: "reap_script (ks_server ks_link) m i maxAttempts drop_mode ?v = (Some o', ks')"
    "abs_reap (look ?v (leaseKey m i) \<noteq> None) drop_mode c maxAttempts i (p, q, d) = (o', p', q', d')"
    "lists m ks' p' q' d'" "counter ks' (attemptsKey m i) = Some (if o' \<in> {Requeued, Deadletter} then c + 1 else c)"
    by (rule reap_script_ks [OF l c i64]) blast
  have once: "i \<in> set q \<Longrightarrow> i \<notin> set p \<and> i \<notin> set d \<and> i \<notin> set (remove1 i q) \<and> count_list (remove1 i q) i = 0"
  proof -
    assume "i \<in> set q"
    then obtain q1 q2 where q: "q = q1 @ i # q2" "i \<notin> set q1" using split_list_first [of i q] by blast
    then have "count_list p i = 0" "count_list d i = 0" "count_list q1 i = 0" "count_list q2 i = 0" using inv(5) by (simp_all add: count_notin)
    with q show ?thesis by (simp add: remove1_append count_list_0_iff)
  qed
  have "(o', p', q', d') = (if look ?v (leaseKey m i) \<noteq> None then (Alive, p, q, d) else if i \<notin> set q then (Gone, p, q, d)
      else if drop_mode then (Dropped, p, remove1 i q, d) else if c + 1 > maxAttempts then (Deadletter, p, remove1 i q, d @ [i])
      else (Requeued, p @ [i], remove1 i q, d))" using r(2) by (simp add: abs_reap_def)
  then consider "p' = p" "q' = q" "d' = d" "o' \<in> {Alive, Gone}" | "i \<in> set q" "o' = Dropped" "p' = p" "q' = remove1 i q" "d' = d"
    | "i \<in> set q" "o' = Deadletter" "p' = p" "q' = remove1 i q" "d' = d @ [i]"
    | "i \<in> set q" "o' = Requeued" "p' = p @ [i]" "q' = remove1 i q" "d' = d" "c + 1 \<le> maxAttempts"
    by (simp split: if_split_asm)
  then have after: "delivery_inv m i maxAttempts ks' n"
  proof cases
    case 1
    then show ?thesis using r(3,4) inv unfolding delivery_inv_def by (intro exI [of _ p] exI [of _ q] exI [of _ d] exI [of _ c]) auto
  next
    case 2
    then show ?thesis using r(3,4) inv once [OF 2(1)] unfolding delivery_inv_def
      by (intro exI [of _ p] exI [of _ "remove1 i q"] exI [of _ d] exI [of _ c]) (simp add: count_notin)
  next
    case 3
    then show ?thesis using r(3,4) inv once [OF 3(1)] unfolding delivery_inv_def
      by (intro exI [of _ p] exI [of _ "remove1 i q"] exI [of _ "d @ [i]"] exI [of _ "c + 1"]) (simp add: count_notin)
  next
    case 4
    then show ?thesis using r(3,4) inv once [OF 4(1)] unfolding delivery_inv_def
      by (intro exI [of _ "p @ [i]"] exI [of _ "remove1 i q"] exI [of _ d] exI [of _ "c + 1"]) (simp add: count_notin)
  qed
  have "view st' \<in> {?v, ks'}"
    using rcall_view(1) [OF assms(1) redis_server.reapProcessingScript_sim [OF assms(1), where n = ks_link] assms(3)] r(1) by simp
  with unchanged after show ?thesis by auto
qed

lemma delivery_other:
  assumes "adds_none m i ks ks'" "keeps_count m i ks ks'" "delivery_inv m i maxAttempts ks n"
  shows "delivery_inv m i maxAttempts ks' n"
proof -
  obtain p q d c where inv: "lists m ks p q d" "counter ks (attemptsKey m i) = Some c" "0 \<le> c" "c \<le> maxAttempts + 1"
    "count_list (p @ q @ d) i \<le> 1" "i \<in> set p \<longrightarrow> int n \<le> c \<and> c \<le> maxAttempts" "i \<in> set q \<longrightarrow> int n \<le> c + 1 \<and> c \<le> maxAttempts"
    "int n \<le> maxAttempts + 1" using assms(3) by (auto simp: delivery_inv_def)
  from inv(1) assms(1) obtain p' q' d' where l: "lists m ks' p' q' d'" "count_list p' i \<le> count_list p i"
    "count_list q' i \<le> count_list q i" "count_list d' i \<le> count_list d i" unfolding adds_none_def by blast
  have "i \<in> set p' \<Longrightarrow> i \<in> set p" "i \<in> set q' \<Longrightarrow> i \<in> set q" using l(2,3) by (metis count_list_0_iff le_zero_eq)+
  with inv l assms(2) show ?thesis unfolding delivery_inv_def keeps_count_def
    by (intro exI [of _ p'] exI [of _ q'] exI [of _ d'] exI [of _ c]) auto
qed

text \<open>
  C15: a job that kills its workers is given up. A job that stands in the queue once, and has not been put back before, is handed out at most
  once more than the reaper may put it back: whatever workers, their leases, the reaper, time and the network do, in any order. When it
  has been handed out that often, it is not in the queue any more and no further worker gets it.
\<close>

theorem deliveries_bounded:
  assumes "redis_server R view" "calm R view" "lists m (view st) p q d" "count_list (p @ q @ d) i \<le> 1" "i \<notin> set q"
    "look (view st) (attemptsKey m i) = None" "0 < maxAttempts" "maxAttempts < 2 ^ 62"
    and "(delivery_step R view m i maxAttempts)\<^sup>*\<^sup>* (st, 0) (st', n)"
  shows "int n \<le> maxAttempts + 1 \<and> (\<exists>p' q' d'. lists m (view st') p' q' d' \<and> (int n = maxAttempts + 1 \<longrightarrow> i \<notin> set p'))"
proof -
  have start: "delivery_inv m i maxAttempts (view st) 0" unfolding delivery_inv_def
    by (intro exI [of _ p] exI [of _ q] exI [of _ d] exI [of _ 0]) (use assms(3-8) counter_absent [OF assms(6)] in simp)
  have "delivery_inv m i maxAttempts (view st') n" using assms(9)
  proof (induction "(st', n)" arbitrary: st' n rule: rtranclp_induct)
    case base
    then show ?case using start by simp
  next
    case (step y)
    obtain st1 n1 where y: "y = (st1, n1)" by (cases y)
    then have inv: "delivery_inv m i maxAttempts (view st1) n1" by (rule step(3))
    from step(2) [unfolded y] show ?case
    proof cases
      case (pop w sigterm res)
      then show ?thesis using delivery_pop [OF assms(1,2) pop(2,3,4) inv] by simp
    next
      case (reap drop_mode res)
      then show ?thesis using delivery_reap [OF assms(1,2) reap(2,3) inv assms(7,8)] by simp
    next
      case other
      then show ?thesis using delivery_other [OF other(2,3) inv] by simp
    qed
  qed
  then obtain p' q' d' c where "lists m (view st') p' q' d'" "int n \<le> maxAttempts + 1" "i \<in> set p' \<longrightarrow> int n \<le> c \<and> c \<le> maxAttempts"
    unfolding delivery_inv_def by blast
  then show ?thesis by (intro conjI exI [of _ p'] exI [of _ q'] exI [of _ d']) auto
qed

section \<open>Concrete queues\<close>

theorem queues_conserve_jobs_witness:
  "\<exists>p q d. lists ''m'' (snd (ks_lmove_lr (pendingKey ''m'') (processingKey ''m'')
       (snd (save_script (ks_server ks_link) sample_client (7200 * second) ''text'' sample_job no_keys)))) p q d
     \<and> set (p @ q @ d) = {''1''}"
proof -
  let ?st = "snd (save_script (ks_server ks_link) sample_client (7200 * second) ''text'' sample_job no_keys)"
  have start: "lists ''m'' (id no_keys) [] [] []" by (simp add: lists_def list_at_def)
  have "queue_step (ks_server ks_link) id ''m'' (no_keys, {}, {}) (?st, insert (ID sample_job) {}, {})"
    by (rule queue_step.submit) (simp_all add: sample_job_def)
  moreover have "queue_step (ks_server ks_link) id ''m'' (?st, {ID sample_job}, {})
      (snd (LMOVE_LR (ks_server ks_link) (pendingKey ''m'') (processingKey ''m'') ?st), {ID sample_job}, {})"
    by (rule queue_step.pop)
  ultimately have "(queue_step (ks_server ks_link) id ''m'')\<^sup>*\<^sup>* (no_keys, {}, {})
      (snd (ks_lmove_lr (pendingKey ''m'') (processingKey ''m'') ?st), {''1''}, {})"
    by (simp add: ks_server_simps sample_job_def)
  from queues_conserve_jobs [OF kss.redis_server_axioms start this] show ?thesis by auto
qed

definition one_pending :: keyspace where
  "one_pending = put (pendingKey ''m'') \<lparr>rv = RList [''1''], deadline = None\<rparr> no_keys"

lemma one_pending_lists: "lists ''m'' one_pending [''1''] [] []"
  by (simp add: lists_def list_at_def one_pending_def)

lemma one_pending_look [simp]: "k \<noteq> pendingKey ''m'' \<Longrightarrow> look one_pending k = None"
  by (simp add: one_pending_def)

theorem reaper_refines_witness:
  "\<exists>st'. reap_script (ks_server ks_link) ''m'' ''1'' 3 False one_pending = (Some Gone, st')"
proof -
  have c: "counter (id one_pending) (attemptsKey ''m'' ''1'') = Some 0" by (simp add: counter_absent)
  have l: "lists ''m'' (id one_pending) [''1''] [] []" using one_pending_lists by simp
  have "int64 (0 + 1)" by (simp add: int64_def)
  from reaper_refines [OF kss.redis_server_axioms [of ks_link] l c this, of 3 False] show ?thesis
    by (auto simp: abs_reap_def)
qed

text \<open>A worker takes the job and dies, its lease runs out, the reaper puts the job back, and a second worker takes it.\<close>

definition worker :: Queue where
  "worker = \<lparr>q_model = ''m'', owner = ''w'', leaseTTL = second\<rparr>"

definition job_taken :: keyspace where "job_taken = snd (Pop (ks_server ks_link) worker False one_pending)"
definition abandoned :: keyspace where "abandoned = job_taken\<lparr>clock := 2000\<rparr>"
definition put_back :: keyspace where "put_back = snd (rcall (ks_server ks_link) (reap_script (ks_server ks_link) ''m'' ''1'' 1 False) abandoned)"
definition job_taken_again :: keyspace where "job_taken_again = snd (Pop (ks_server ks_link) worker False put_back)"

lemma worker_steps:
  "fst (Pop (ks_server ks_link) worker False one_pending) = Inr ''1''" "counter job_taken (attemptsKey ''m'' ''1'') = Some 0"
  "clock job_taken = 0" "counter abandoned (attemptsKey ''m'' ''1'') = Some 0"
  "fst (Pop (ks_server ks_link) worker False put_back) = Inr ''1''"
  "counter put_back (attemptsKey ''m'' ''1'') = Some 1" "counter job_taken_again (attemptsKey ''m'' ''1'') = Some 1"
  by code_simp+

theorem deliveries_bounded_witness:
  "(delivery_step (ks_server ks_link) id ''m'' ''1'' 1)\<^sup>*\<^sup>* (one_pending, 0) (job_taken_again, 2)
   \<and> (\<exists>p q d. lists ''m'' job_taken_again p q d \<and> ''1'' \<notin> set p)"
proof -
  let ?S = "delivery_step (ks_server ks_link) id ''m'' ''1'' 1"
  have pop: "Pop (ks_server ks_link) worker False one_pending = (Inr ''1'', job_taken)"
    "Pop (ks_server ks_link) worker False put_back = (Inr ''1'', job_taken_again)"
    by (simp_all add: prod_eq_iff job_taken_def job_taken_again_def worker_steps)
  have "?S (one_pending, 0) (job_taken, if (Inr ''1'' :: pop_error + string) = Inr ''1'' then Suc 0 else 0)"
    by (rule delivery_step.pop [OF _ pop(1)]) (simp_all add: worker_def keeps_count_def worker_steps counter_absent)
  moreover have "?S (job_taken, 1) (abandoned, 1)"
  proof (rule delivery_step.other)
    show "adds_none ''m'' ''1'' (id job_taken) (id abandoned)"
      unfolding adds_none_def abandoned_def id_apply using lists_later [of "''m''" job_taken _ _ _ 2000] worker_steps(3) by fastforce
  qed (simp add: keeps_count_def worker_steps)
  moreover have "?S (abandoned, 1) (put_back, 1)"
    by (rule delivery_step.reap [where drop_mode = False and res = "fst (rcall (ks_server ks_link) (reap_script (ks_server ks_link) ''m'' ''1'' 1 False) abandoned)"])
      (simp_all add: put_back_def keeps_count_def ks_server_simps ks_link_def)
  moreover have "?S (put_back, 1) (job_taken_again, if (Inr ''1'' :: pop_error + string) = Inr ''1'' then Suc 1 else 1)"
    by (rule delivery_step.pop [OF _ pop(2)]) (simp_all add: worker_def keeps_count_def worker_steps)
  ultimately have run: "?S\<^sup>*\<^sup>* (one_pending, 0) (job_taken_again, 2)" by (simp add: worker_steps numeral_2_eq_2)
  have "calm (ks_server ks_link) id" by (auto simp: calm_def ks_server_simps ks_link_def)
  moreover have "lists ''m'' (id one_pending) [''1''] [] []" using one_pending_lists by simp
  ultimately show ?thesis using deliveries_bounded [OF kss.redis_server_axioms [of ks_link] _ _ _ _ _ _ _ run] run by auto
qed

end
