(* ===== verification/RelayRun.thy ===== *)
theory RelayRun
  imports JobQueues
begin

text \<open>
  One run of a relay pod, on a server that answers: what it leaves behind in the record of its job and in the
  queues, for every outcome of the object store and the inference; and what its update does not do.
\<close>

section \<open>Publishing a result\<close>

definition taken :: "'t codec \<Rightarrow> string \<Rightarrow> string \<Rightarrow> Job \<Rightarrow> string list \<times> string list \<times> string list \<Rightarrow> keyspace \<Rightarrow> bool" where
  "taken cd m i j s ks \<longleftrightarrow> (let (p, q, d) = s in lists m ks p (q @ [i]) d \<and> i \<notin> set q \<and> holds cd ks i j)"

definition settled :: "'t codec \<Rightarrow> string \<Rightarrow> string \<Rightarrow> Job \<Rightarrow> string list \<times> string list \<times> string list \<Rightarrow>
    JobStatus \<times> string \<times> string \<Rightarrow> keyspace \<Rightarrow> bool" where
  "settled cd m i j s out ks \<longleftrightarrow> (let (p, q, d) = s in lists m ks p q d \<and> (\<exists>j'. holds cd ks i j' \<and> outcome_of j' = out \<and> same_job j j'))"

lemma holds_cong: "holds cd ks i j \<Longrightarrow> look ks' (jobKey i) = look ks (jobKey i) \<Longrightarrow> holds cd ks' i j"
  by (simp add: holds_def)

lemma key_simps_more [simp]: "jobKey i \<noteq> leaseKey m i'" "leaseKey m i' \<noteq> jobKey i"
  by (simp_all add: job_key_defs)

lemma touches_doneScript: "touches {processingKey (q_model w), leaseKey (q_model w) i} (doneScript (ks_server n) w i)"
  unfolding doneScript_def ks_server_simps q_proc_def by (intro touches_intros) simp_all

lemma touches_publish [frame]: "touches K (ks_publish ch v)"
  by (simp add: touches_def ks_publish_def)

context redis_server
begin

lemma PublishResult_settles:
  assumes net: "\<And>st. net R st = (Delivered, st)" and "codec_ok cd" and "q_model w = m"
    and "taken cd m i j (p, q, d) (view st)" and "\<not> isTerminalStatus (Status j)"
  shows "\<exists>st'. PublishResult R cd w now i status ref msg pt prompt completion st = (Some (), st')
     \<and> settled cd m i j (p, q, d) (status, ref, msg) (view st')"
proof -
  note delivered = rcall_delivered [OF net]
  have l: "lists m (view st) p (q @ [i]) d" and "i \<notin> set q" and h: "holds cd (view st) i j"
    using assms(4) by (simp_all add: taken_def)
  let ?pt = "if pt > 0 then fmt_float cd pt else []" and ?p = "if prompt > 0 then itoa prompt else []"
    and ?c = "if completion > 0 then itoa completion else []"
  obtain ks1 j1 where k: "relay_updateJobScript (ks_server ks_link) cd (jobKey i) status ref msg (fmt_time cd now) ?pt ?p ?c (view st) = (Some (), ks1)"
    "holds cd ks1 i j1" "same_but_numbers (patched j status ref msg now) j1" "\<And>k. k \<noteq> jobKey i \<Longrightarrow> look ks1 k = look (view st) k"
    by (rule relay_updateJobScript_patches [OF assms(2) h assms(5), where n = ks_link]) blast
  obtain x st1 where st1: "relay_UpdateJobResult R cd now i status ref msg pt prompt completion st = (x, st1)" by (meson surj_pair)
  from simD [OF relay_updateJobScript_sim k(1)] st1 have "x = Some ()" "view st1 = ks1"
    by (auto simp: relay_UpdateJobResult_def delivered)
  have l1: "lists m ks1 p (q @ [i]) d" by (rule lists_cong [OF l]) (use k(4) in \<open>simp add: key_simps\<close>)
  define st2 where "st2 = snd (Publish R w i st1)"
  have "sim view (PUBLISH R (''jobs:'' @ q_model w @ '':completed'') i) (ks_publish (''jobs:'' @ q_model w @ '':completed'') i)" ..
  then have v2: "view st2 = ks1"
    using \<open>view st1 = ks1\<close> by (simp add: st2_def Publish_def delivered sim_def ks_publish_def)
  define st3 where "st3 = snd (Done R w i st2)"
  have "snd (Done R w i st2) = snd (doneScript R w i st2)"
    by (simp add: Done_def delivered rbind_def rret_def split: prod.split option.split)
  with doneScript_sim [of w i ks_link] have v3: "view st3 = snd (doneScript (ks_server ks_link) w i ks1)"
    by (simp add: st3_def sim_def v2)
  have "lists m (view st3) p (remove1 i (q @ [i])) d"
    unfolding v3 using doneScript_lists [of w ks1 p "q @ [i]" d] l1 assms(3) by simp
  then have "lists m (view st3) p q d" using \<open>i \<notin> set q\<close> by (simp add: remove1_append)
  moreover have "holds cd (view st3) i j1"
    unfolding v3 by (rule holds_cong [OF k(2)], rule touchesD(1) [OF touches_doneScript]) (simp add: key_simps)
  moreover have "PublishResult R cd w now i status ref msg pt prompt completion st = (Some (), st3)"
    using st1 \<open>x = Some ()\<close> by (simp add: PublishResult_def rbind_def st3_def st2_def)
  ultimately show ?thesis
    using same_but_numbers_patched [OF k(3)] by (auto simp: settled_def)
qed

lemma PublishOp_settles:
  assumes "\<And>st. net R st = (Delivered, st)" and "codec_ok cd" and "q_model w = m"
    and "taken cd m i j s (view (fst x))" and "\<not> isTerminalStatus (Status j)"
  shows "\<exists>st'. PublishOp (relay_env R cd w now ob) i status ref msg pt prompt completion x = (True, (st', snd x))
     \<and> settled cd m i j s (status, ref, msg) (view st')"
proof -
  obtain p q d where s: "s = (p, q, d)" by (cases s)
  obtain st' where "PublishResult R cd w now i status ref msg pt prompt completion (fst x) = (Some (), st')"
    "settled cd m i j s (status, ref, msg) (view st')"
    using PublishResult_settles [OF assms(1,2,3) assms(4) [unfolded s] assms(5)] s by blast
  then show ?thesis by (cases x) (simp add: relay_env_def)
qed

end

text \<open>The object store and the adapter leave the server alone.\<close>

lemma relay_env_simps:
  "GetObject (relay_env R cd w now ob) k (st, o1) = map_prod id (Pair st) (o_Get ob k o1)"
  "PutObject (relay_env R cd w now ob) k b (st, o1) = map_prod id (Pair st) (o_Put ob k b o1)"
  "DeleteObject (relay_env R cd w now ob) k (st, o1) = map_prod id (Pair st) (o_Delete ob k o1)"
  "Call (relay_env R cd w now ob) job c (st, o1) = map_prod id (Pair st) (o_Call ob job c o1)"
  by (simp_all add: relay_env_def)

lemma relay_env_objects:
  "GetObject (relay_env R cd w now ob) k y = (g, y') \<Longrightarrow> fst y' = fst y"
  "PutObject (relay_env R cd w now ob) k b y = (ok, y') \<Longrightarrow> fst y' = fst y"
  "Call (relay_env R cd w now ob) job c y = (r, y') \<Longrightarrow> fst y' = fst y"
  "fst (snd (DeleteObject (relay_env R cd w now ob) k y)) = fst y"
proof -
  obtain st o1 where y: "y = (st, o1)" by (cases y)
  show "GetObject (relay_env R cd w now ob) k y = (g, y') \<Longrightarrow> fst y' = fst y"
    by (cases "o_Get ob k o1") (auto simp: y relay_env_simps)
  show "PutObject (relay_env R cd w now ob) k b y = (ok, y') \<Longrightarrow> fst y' = fst y"
    by (cases "o_Put ob k b o1") (auto simp: y relay_env_simps)
  show "Call (relay_env R cd w now ob) job c y = (r, y') \<Longrightarrow> fst y' = fst y"
    by (cases "o_Call ob job c o1") (auto simp: y relay_env_simps)
  show "fst (snd (DeleteObject (relay_env R cd w now ob) k y)) = fst y"
    by (cases "o_Delete ob k o1") (simp add: y relay_env_simps)
qed

text \<open>How the processing of a job may end: without an error the job is settled, as completed with its result or
  as failed; with one, nothing on the server has changed.\<close>

definition ends_well :: "'t codec \<Rightarrow> string \<Rightarrow> Job \<Rightarrow> string list \<times> string list \<times> string list \<Rightarrow> ('r \<Rightarrow> keyspace) \<Rightarrow> 'r \<Rightarrow>
    process_error option \<times> 'r \<times> 'o \<Rightarrow> bool" where
  "ends_well cd m j s view st res \<longleftrightarrow>
     (if fst res = None
      then \<exists>out. settled cd m (ID j) j s out (view (fst (snd res)))
             \<and> (out = (JobStatusCompleted, ID j @ ''/result.json'', []) \<or> fst out = JobStatusFailed \<and> fst (snd out) = [])
      else fst (snd res) = st)"

lemma ends_well_None:
  "settled cd m (ID j) j s out (view st') \<Longrightarrow>
     out = (JobStatusCompleted, ID j @ ''/result.json'', []) \<or> fst out = JobStatusFailed \<and> fst (snd out) = [] \<Longrightarrow>
     fst y = st' \<Longrightarrow> ends_well cd m j s view st (None, y)"
  unfolding ends_well_def by (simp del: split_paired_Ex) blast

lemma ends_well_Some: "fst y = st \<Longrightarrow> ends_well cd m j s view st (Some e, y)"
  by (simp add: ends_well_def)

text \<open>Publishing from the state \<open>st\<close> of the server succeeds and settles the job.\<close>

definition can_publish :: "'r redis \<Rightarrow> 't codec \<Rightarrow> Queue \<Rightarrow> int \<Rightarrow> 'o objects \<Rightarrow> string \<Rightarrow> Job \<Rightarrow>
    string list \<times> string list \<times> string list \<Rightarrow> ('r \<Rightarrow> keyspace) \<Rightarrow> 'r \<Rightarrow> bool" where
  "can_publish R cd w now ob m j s view st \<longleftrightarrow> (\<forall>status ref msg pt prompt completion y. fst y = st \<longrightarrow>
     (\<exists>st'. PublishOp (relay_env R cd w now ob) (ID j) status ref msg pt prompt completion y = (True, (st', snd y))
        \<and> settled cd m (ID j) j s (status, ref, msg) (view st')))"

lemma can_publishE:
  assumes "can_publish R cd w now ob m j s view st" and "fst y = st"
  obtains st' where "PublishOp (relay_env R cd w now ob) (ID j) status ref msg pt prompt completion y = (True, (st', snd y))"
    "settled cd m (ID j) j s (status, ref, msg) (view st')"
  using assms unfolding can_publish_def by blast

lemma publish_failure_ends_well:
  assumes pub: "can_publish R cd w now ob m j s view st"
    and y: "fst y = st"
  shows "ends_well cd m j s view st (publish_failure (relay_env R cd w now ob) j msg y)"
  by (rule can_publishE [OF pub y, of JobStatusFailed "[]" msg 0 0 0])
    (simp add: publish_failure_def ends_well_None)

lemma inference_failed_ends_well:
  assumes pub: "can_publish R cd w now ob m j s view st"
    and y: "fst y = st"
  shows "ends_well cd m j s view st (inference_failed (relay_env R cd w now ob) j e y)"
  by (rule can_publishE [OF pub y, of JobStatusFailed "[]" "''inference: '' @ error_text e" 0 0 0])
    (simp add: inference_failed_def relay_env_objects(4) ends_well_None)

lemma finish_job_ends_well:
  assumes pub: "can_publish R cd w now ob m j s view st"
    and y: "fst y = st"
  shows "ends_well cd m j s view st (finish_job (relay_env R cd w now ob) rj j body y)"
proof -
  let ?E = "relay_env R cd w now ob" and ?key = "ID j @ ''/result.json''"
  obtain b1 y1 where y1: "PutObject ?E ?key body y = (b1, y1)" by (meson surj_pair)
  obtain b2 y2 where y2: "PutObject ?E ?key body y1 = (b2, y2)" by (meson surj_pair)
  have st: "fst y1 = st" "fst y2 = st" using relay_env_objects(2) y1 y2 y by metis+
  have after: "ends_well cd m j s view st (None, snd (DeleteObject ?E (InputRef j) (publish_twice ?E rj j body z)))"
    if "fst z = st" for z
    by (rule can_publishE [OF pub that, of JobStatusCompleted ?key "[]" "extractProcessingTime rj body"
          "fst (extractTokens rj body)" "snd (extractTokens rj body)"])
      (simp add: publish_twice_def relay_env_objects(4) ends_well_None)
  show ?thesis
    using after [OF st(1)] after [OF st(2)] y1 y2
    by (cases b1; cases b2) (simp_all add: finish_job_def ends_well_Some [OF st(2)] split: s3_error.split)
qed

lemma retry_inference_ends_well:
  assumes pub: "can_publish R cd w now ob m j s view st"
    and x: "fst x = st"
  shows "ends_well cd m j s view st (retry_inference (relay_env R cd w now ob) rj j x)"
proof -
  let ?E = "relay_env R cd w now ob"
  obtain g w1 where g: "GetObject ?E (InputRef j) x = (g, w1)" by (meson surj_pair)
  have w1: "fst w1 = st" using relay_env_objects(1) [OF g] x by simp
  show ?thesis
  proof (cases g)
    case (Inl e)
    with g w1 publish_failure_ends_well [OF pub w1] show ?thesis
      by (cases e) (auto simp: retry_inference_def ends_well_Some)
  next
    case (Inr input)
    obtain r w2 where r: "Call ?E j input w1 = (r, w2)" by (meson surj_pair)
    have w2: "fst w2 = st" using relay_env_objects(3) [OF r] w1 by simp
    from g r Inr finish_job_ends_well [OF pub w2] inference_failed_ends_well [OF pub w2] show ?thesis
      by (auto simp: retry_inference_def split: sum.split)
  qed
qed

lemma process_ends_well:
  assumes pub: "can_publish R cd w now ob m j s view st"
    and x: "fst x = st"
  shows "ends_well cd m j s view st (process (relay_env R cd w now ob) rj j x)"
proof -
  let ?E = "relay_env R cd w now ob"
  obtain g w1 where g: "GetObject ?E (InputRef j) x = (g, w1)" by (meson surj_pair)
  have w1: "fst w1 = st" using relay_env_objects(1) [OF g] x by simp
  show ?thesis
  proof (cases g)
    case (Inl e)
    with g w1 publish_failure_ends_well [OF pub w1] show ?thesis
      by (cases e) (auto simp: process_def ends_well_Some)
  next
    case (Inr input)
    obtain r w2 where r: "Call ?E j input w1 = (r, w2)" by (meson surj_pair)
    have w2: "fst w2 = st" using relay_env_objects(3) [OF r] w1 by simp
    from g r Inr w2 finish_job_ends_well [OF pub w2] retry_inference_ends_well [OF pub w2] show ?thesis
      by (auto simp: process_def ends_well_Some split: sum.split infer_error.split)
  qed
qed

section \<open>A run of the pod\<close>

context redis_server
begin

lemma can_publish_taken:
  assumes "\<And>st. net R st = (Delivered, st)" and "codec_ok cd" and "q_model w = m"
    and "taken cd m (ID j) j s (view st)" and "\<not> isTerminalStatus (Status j)"
  shows "can_publish R cd w now ob m j s view st"
  unfolding can_publish_def using PublishOp_settles [OF assms(1,2,3) _ assms(5)] assms(4) by blast

lemma Done_view:
  assumes "\<And>st. net R st = (Delivered, st)"
  shows "view (snd (Done R w i st)) = snd (doneScript (ks_server ks_link) w i (view st))"
proof -
  have "snd (Done R w i st) = snd (doneScript R w i st)"
    by (simp add: Done_def rcall_delivered [OF assms] rbind_def rret_def split: prod.split option.split)
  with doneScript_sim [of w i ks_link] show ?thesis by (simp add: sim_def)
qed

lemma Done_taken:
  assumes "\<And>st. net R st = (Delivered, st)" and "q_model w = m" and "taken cd m i j (p, q, d) (view st)"
  shows "lists m (view (snd (Done R w i st))) p q d \<and> holds cd (view (snd (Done R w i st))) i j"
proof -
  have l: "lists m (view st) p (q @ [i]) d" "i \<notin> set q" "holds cd (view st) i j" using assms(3) by (simp_all add: taken_def)
  have "lists m (snd (doneScript (ks_server ks_link) w i (view st))) p q d"
    using doneScript_lists [of w "view st" p "q @ [i]" d ks_link i] l assms(2) by (simp add: remove1_append)
  moreover have "holds cd (snd (doneScript (ks_server ks_link) w i (view st))) i j"
    by (rule holds_cong [OF l(3)], rule touchesD(1) [OF touches_doneScript]) (simp add: key_simps)
  ultimately show ?thesis by (simp add: Done_view [OF assms(1)])
qed

lemma Pop_takes:
  assumes net: "\<And>st. net R st = (Delivered, st)" and "q_model w = m" and "lists m (view st) (i # p) q d" and "i \<notin> set q"
    and "holds cd (view st) i j"
  obtains st1 where "Pop R w sigterm st = (Inr i, st1)" "taken cd m i j (p, q, d) (view st1)"
proof -
  note delivered = rcall_delivered [OF net]
  obtain x st0 where st0: "LMOVE_LR R (pendingKey m) (processingKey m) st = (x, st0)" by (meson surj_pair)
  have "fst (ks_lmove_lr (pendingKey m) (processingKey m) (view st)) = Some (Some i)"
    using assms(3) by (simp add: lists_def ks_lmove_lr_def Let_def)
  with LMOVE_LR [of "pendingKey m" "processingKey m"] st0
  have x: "x = Some (Some i)" "view st0 = snd (ks_lmove_lr (pendingKey m) (processingKey m) (view st))"
    by (simp_all add: sim_def) (metis fst_conv snd_conv)+
  have l0: "lists m (view st0) p (q @ [i]) d" using lmove_lists [OF assms(3)] by (simp add: x)
  have "look (view st0) (jobKey i) = look (view st) (jobKey i)"
    using assms(3) by (simp add: x lists_def ks_lmove_lr_def Let_def key_simps)
  with holds_cong [OF assms(5)] have h0: "holds cd (view st0) i j" by blast
  let ?st1 = "snd (RefreshLease R w i st0)"
  have v: "view ?st1 = snd (ks_set (leaseKey m i) (owner w) (set_ttl (leaseTTL w)) (view st0))"
    using SET [of "leaseKey m i" "owner w" "set_ttl (leaseTTL w)"] by (simp add: RefreshLease_def delivered assms(2) sim_def)
  have t: "touches {leaseKey m i} (ks_set (leaseKey m i) (owner w) (set_ttl (leaseTTL w)))" by (rule touches_commands) simp
  have "taken cd m i j (p, q, d) (view ?st1)"
    unfolding taken_def v
    using lists_touches [OF t _ _ _ l0] holds_cong [OF h0 touchesD(1) [OF t]] assms(4) by simp
  moreover have "Pop R w sigterm st = (Inr i, ?st1)"
    using st0 x(1) assms(2) by (simp add: Pop_def delivered q_pending_def q_proc_def)
  ultimately show ?thesis using that by blast
qed

lemma relay_GetJob_reads:
  assumes "\<And>st. net R st = (Delivered, st)" and "holds cd (view st) i j"
  obtains st1 where "relay_GetJob R cd i st = (Inr j, st1)" "view st1 = view st"
proof -
  obtain e tx where h: "look (view st) (jobKey i) = Some e" "rv e = RStr tx" "reads cd tx j"
    using assms(2) by (auto simp: holds_def)
  obtain x st1 where g: "GET R (jobKey i) st = (x, st1)" by (meson surj_pair)
  have "ks_get (jobKey i) (view st) = (Some (Some tx), view st)" using h by (simp add: ks_get_def)
  from simD [OF GET this] g have "x = Some (Some tx)" "view st1 = view st" by auto
  then show ?thesis
    using h(3) g that by (simp add: relay_GetJob_def rcall_delivered [OF assms(1)] reads_def)
qed

end

text \<open>
  C16: what a run of a relay pod leaves behind, for every outcome of the object store and the inference. If the pod
  exits with success, its job is out of the queues, and its record is completed with the result's key, or failed
  without a result, or (the inference having been cancelled) as it was. If it exits with an error, the record is
  untouched and the job stands in the processing list, where the reaper finds it once the lease has expired.
\<close>

theorem relay_run_outcome:
  assumes "redis_server R view" and "\<forall>st. net R st = (Delivered, st)" and "codec_ok cd" and "q_model w = m"
    and "lists m (view st) (ID j # p) q d" and "ID j \<notin> set q" and "holds cd (view st) (ID j) j"
    and "\<not> isTerminalStatus (Status j)" and "relay_main R cd w sigterm now ob rj (st, o1) = (ex, (st', o2))"
  shows "case ex of
     Exit1 \<Rightarrow> lists m (view st') p (q @ [ID j]) d \<and> holds cd (view st') (ID j) j
   | Exit0 \<Rightarrow> lists m (view st') p q d \<and> (\<exists>j'. holds cd (view st') (ID j) j' \<and> same_job j j'
        \<and> (outcome_of j' = (JobStatusCompleted, ID j @ ''/result.json'', []) \<or> Status j' = JobStatusFailed \<and> ResultRef j' = [] \<or> j' = j))"
proof -
  note server = assms(1)
  have net: "net R st = (Delivered, st)" for st using assms(2) by blast
  obtain st1 where pop: "Pop R w sigterm st = (Inr (ID j), st1)" and taken1: "taken cd m (ID j) j (p, q, d) (view st1)"
    using redis_server.Pop_takes [OF server net assms(4,5,6,7)] .
  have "holds cd (view st1) (ID j) j" using taken1 by (simp add: taken_def)
  then obtain st2 where get: "relay_GetJob R cd (ID j) st1 = (Inr j, st2)" and "view st2 = view st1"
    using redis_server.relay_GetJob_reads [OF server net] by metis
  with taken1 have taken2: "taken cd m (ID j) j (p, q, d) (view st2)" by simp
  obtain err y where proc: "process (relay_env R cd w now ob) rj j (st2, o1) = (err, y)" by (meson surj_pair)
  have "Status j \<noteq> JobStatusCancelled" using assms(8) by (auto simp: isTerminalStatus_def)
  then have run: "(ex, (st', o2)) = (case err of None \<Rightarrow> (Exit0, y)
      | Some JobCanceled \<Rightarrow> (Exit0, (snd (Done R w (ID j) (fst y)), snd y)) | Some _ \<Rightarrow> (Exit1, y))"
    using assms(9) pop get proc by (auto simp: relay_main_def relay_job_def split: option.splits process_error.splits prod.splits)
  have good: "ends_well cd m j (p, q, d) view st2 (err, y)"
    using process_ends_well [OF redis_server.can_publish_taken [OF server net assms(3,4) taken2 assms(8)], of "(st2, o1)"] proc
    by (metis fst_conv)
  show ?thesis
  proof (cases err)
    case None
    with good run show ?thesis by (auto simp: ends_well_def settled_def outcome_of_def)
  next
    case (Some e)
    with good have y: "fst y = st2" by (simp add: ends_well_def)
    show ?thesis
    proof (cases "e = JobCanceled")
      case True
      with Some run y redis_server.Done_taken [OF server net assms(4) taken2] show ?thesis by (auto simp: same_job_def)
    next
      case False
      with Some run y taken2 show ?thesis by (cases e) (auto simp: taken_def)
    qed
  qed
qed

section \<open>What the update of the relay leaves\<close>

lemma touches_relay_update:
  "touches {jobKey i} (relay_updateJobScript (ks_server n) cd (jobKey i) status ref msg ts pt p c)"
  unfolding relay_updateJobScript_def ks_server_simps SET_EX_def Let_def by (intro touches_intros) simp_all

text \<open>
  a job that a relay has finished keeps its place in the queue of its model. The relay's update touches the record
  only, and every later update finds the record terminal and does nothing, so the position of every job is as
  before: finished jobs still count as waiting ahead of the others.
\<close>

theorem finished_job_keeps_position:
  fixes ref msg :: string and now p c :: int and pt :: rat and later :: "update list"
  assumes "redis_server R view" and "\<forall>st. net R st = (Delivered, st)" and "codec_ok cd" and "ttls_ok pd r"
    and "holds cd (view st) i j" and "\<not> isTerminalStatus (Status j)" and "isTerminalStatus status"
  defines "st' \<equiv> fold (send_update R cd pd r i) (RelayUpdate status ref msg now pt p c # later) st"
  shows "fst (GetQueuePosition R i' m st') = fst (GetQueuePosition R i' m st)"
proof -
  note server = assms(1)
  have net: "net R st = (Delivered, st)" for st using assms(2) by blast
  define st1 where "st1 = send_update R cd pd r i (RelayUpdate status ref msg now pt p c) st"
  obtain j1 where j1: "holds cd (view st1) i j1" "outcome_of j1 = (status, ref, msg)"
    using redis_server.send_update_patches [OF server assms(3,4) net assms(5,6), of "RelayUpdate status ref msg now pt p c"]
    by (auto simp: st1_def)
  then have "isTerminalStatus (Status j1)" using assms(7) by (simp add: outcome_of_def)
  from redis_server.updates_terminal [OF server net j1(1) this] have v: "view st' = view st1" by (simp add: st'_def st1_def)
  have "look (view st1) (queueKey m) = look (view st) (queueKey m)"
    unfolding st1_def send_update.simps redis_server.relay_UpdateJobResult_view [OF server net]
    by (rule touchesD(1) [OF touches_relay_update]) (simp add: key_simps)
  then have rank: "fst (ks_zrank (queueKey m) i' (view st')) = fst (ks_zrank (queueKey m) i' (view st))"
    by (simp add: v ks_zrank_def zset_at_def)
  have "fst (ZRANK R (queueKey m) i' y) = fst (ks_zrank (queueKey m) i' (view y))" for y
    using redis_server.ZRANK [OF server] by (simp add: sim_def)
  then have "fst (ZRANK R (queueKey m) i' st') = fst (ZRANK R (queueKey m) i' st)" using rank by simp
  then show ?thesis
    by (cases "ZRANK R (queueKey m) i' st"; cases "ZRANK R (queueKey m) i' st'")
      (auto simp: GetQueuePosition_def rcall_delivered [OF net] rbind_def rret_def split: option.split)
qed

section \<open>Concrete runs\<close>

definition sample_queue :: Queue where
  "sample_queue = \<lparr>q_model = ''m'', owner = ''pod'', leaseTTL = 60 * second\<rparr>"

definition sample_objects :: "unit objects" where
  "sample_objects = \<lparr>o_Get = (\<lambda>_ o1. (Inr (''data'', ''text/plain''), o1)), o_Put = (\<lambda>_ _ o1. (None, o1)),
     o_Delete = (\<lambda>_ o1. (True, o1)), o_Call = (\<lambda>_ _ o1. (Inr ''{}'', o1))\<rparr>"

definition sample_results :: result_json where
  "sample_results = \<lparr>processing_time = (\<lambda>_. None), usage_tokens = (\<lambda>_. None)\<rparr>"

definition queued_store :: keyspace where
  "queued_store = put (pendingKey ''m'') \<lparr>rv = RList [''1''], deadline = None\<rparr> sample_store"

lemma queued_store_simps:
  "lists ''m'' queued_store [''1''] [] []" "holds sample_codec queued_store ''1'' sample_job"
proof -
  show "lists ''m'' queued_store [''1''] [] []"
    by (simp add: lists_def list_at_def queued_store_def sample_store_def key_simps)
  show "holds sample_codec queued_store ''1'' sample_job"
    by (rule holds_cong [OF sample_holds]) (simp add: queued_store_def key_simps)
qed

lemma sample_pending: "\<not> isTerminalStatus (Status sample_job)" "ID sample_job = ''1''"
  by (simp_all add: sample_job_def isTerminalStatus_def JobStatus_defs)

theorem relay_run_outcome_witness:
  "\<exists>ex st' o2. relay_main (ks_server ks_link) sample_codec sample_queue False 9 sample_objects sample_results (queued_store, ()) = (ex, (st', o2))
     \<and> (ex = Exit0 \<longrightarrow> lists ''m'' st' [] [] [])"
proof -
  obtain ex st' o2 where run: "relay_main (ks_server ks_link) sample_codec sample_queue False 9 sample_objects sample_results (queued_store, ()) = (ex, (st', o2))"
    by (metis prod_cases3)
  have "lists ''m'' (id queued_store) (ID sample_job # []) [] []" "holds sample_codec (id queued_store) (ID sample_job) sample_job"
    "q_model sample_queue = ''m''" "ID sample_job \<notin> set []"
    using queued_store_simps by (simp_all add: sample_pending sample_queue_def)
  from relay_run_outcome [OF kss.redis_server_axioms sample_link sample_codec_ok this(3,1,4,2) sample_pending(1) run] run
  show ?thesis by (auto split: exit_code.splits)
qed

theorem finished_job_keeps_position_witness:
  "fst (GetQueuePosition (ks_server ks_link) ''1'' ''m'' (fold (send_update (ks_server ks_link) sample_codec (\<lambda>_. None) sample_client ''1'')
      [RelayUpdate ''completed'' ''r'' [] 7 0 0 0] sample_store)) = fst (GetQueuePosition (ks_server ks_link) ''1'' ''m'' sample_store)"
proof -
  have store: "holds sample_codec (id sample_store) ''1'' sample_job" using sample_holds by simp
  have "isTerminalStatus ''completed''" by (simp add: isTerminalStatus_def JobStatus_defs)
  from finished_job_keeps_position [OF kss.redis_server_axioms sample_link sample_codec_ok sample_ttls_ok store sample_pending(1) this,
      where later = "[]"] show ?thesis by simp
qed

end
