(* ===== verification/Webhook.thy ===== *)
theory Webhook
  imports Frame
begin

text \<open>
  Delivery of job results to callback URLs (\<^verbatim>\<open>internal/consumer/webhook.go\<close>, \<^verbatim>\<open>webhook_retry.go\<close>): one attempt at once,
  then retries that are kept in Redis, a task under \<^verbatim>\<open>webhook:retry:{job}\<close> and the time of the next attempt in the
  sorted set \<^verbatim>\<open>webhook:retries\<close>, until the endpoint acknowledges or the attempts are used up. The object store, the
  HTTP client, the JSON codecs and HMAC-SHA256 are parameters; so are the times that \<^verbatim>\<open>time.Now()\<close> returns, in
  nanoseconds.
\<close>

section \<open>The sender and its environment\<close>

record webhookPayload =
  wp_JobID :: string
  wp_ServiceType :: string
  wp_Status :: JobStatus
  wp_Result :: "string option"
  wp_Error :: string
  wp_CompletedAt :: int

record webhookTask =
  wt_JobID :: string
  wt_ServiceType :: string
  wt_URL :: string
  wt_Payload :: string
  wt_Attempt :: int
  wt_ResultRef :: string

record webhookDeadLetterEntry =
  de_JobID :: string
  de_ServiceType :: string
  de_URL :: string
  de_Attempts :: int
  de_FailedAt :: int

text \<open>The encodings of these records; a payload has none where its result is not valid JSON.\<close>

record webhook_codec =
  marshal_payload :: "webhookPayload \<Rightarrow> string option"
  marshal_task :: "webhookTask \<Rightarrow> string option"
  unmarshal_task :: "string \<Rightarrow> webhookTask option"
  marshal_entry :: "webhookDeadLetterEntry \<Rightarrow> string"

text \<open>The object store and the HTTP client over a state of their own. \<open>h_Post\<close> answers with the status code,
  \<open>None\<close> where the request fails.\<close>

record 'o web =
  h_GetObject :: "string \<Rightarrow> 'o \<Rightarrow> string option \<times> 'o"
  h_DeleteObject :: "string \<Rightarrow> 'o \<Rightarrow> bool \<times> 'o"
  h_valid_url :: "string \<Rightarrow> bool"
  h_Post :: "string \<Rightarrow> (string \<times> string) list \<Rightarrow> string \<Rightarrow> 'o \<Rightarrow> int option \<times> 'o"
  h_hmac :: "string \<Rightarrow> string \<Rightarrow> string"

record WebhookSender =
  persistsResult :: bool
  maxRetries :: int
  baseBackoff :: int
  maxBackoff :: int
  signingSecret :: string

definition NewWebhookSender :: "parse_duration \<Rightarrow> bool \<Rightarrow> WebhookConfig \<Rightarrow> WebhookSender" where
  "NewWebhookSender pd persists cfg =
     \<lparr>persistsResult = persists, maxRetries = MaxRetriesOrDefault cfg, baseBackoff = RetryBackoffDuration pd cfg,
      maxBackoff = MaxBackoffDuration pd cfg, signingSecret = SigningSecret cfg\<rparr>"

definition UpdatePersistsResult :: "bool \<Rightarrow> WebhookSender \<Rightarrow> WebhookSender" where
  "UpdatePersistsResult v ws = ws\<lparr>persistsResult := v\<rparr>"

section \<open>One delivery\<close>

text \<open>The payload inlines the result of a completed job where it can be fetched; an encoding error leaves the
  body empty.\<close>

definition buildPayload :: "'o web \<Rightarrow> webhook_codec \<Rightarrow> Job \<Rightarrow> 'o \<Rightarrow> string \<times> 'o" where
  "buildPayload H wc job o1 =
     (let (result, o2) = (if Status job = JobStatusCompleted \<and> ResultRef job \<noteq> [] then h_GetObject H (ResultRef job) o1
                          else (None, o1));
          p = \<lparr>wp_JobID = ID job, wp_ServiceType = ServiceType job, wp_Status = Status job, wp_Result = result,
               wp_Error = ErrorMsg job, wp_CompletedAt = UpdatedAt job\<rparr>
      in (case marshal_payload wc p of None \<Rightarrow> [] | Some s \<Rightarrow> s, o2))"

definition signWebhook :: "'o web \<Rightarrow> string \<Rightarrow> int \<Rightarrow> string \<Rightarrow> string" where
  "signWebhook H secret now payload =
     (let ts = itoa (now div second) in ''t='' @ ts @ '',v1='' @ h_hmac H secret (ts @ ''.'' @ payload))"

definition deliver :: "'o web \<Rightarrow> WebhookSender \<Rightarrow> int \<Rightarrow> string \<Rightarrow> string \<Rightarrow> string \<Rightarrow> 'o \<Rightarrow> (bool \<times> int) \<times> 'o" where
  "deliver H ws now url payload jobID o1 =
     (if \<not> h_valid_url H url then ((False, 0), o1)
      else
        (let headers = [(''Content-Type'', ''application/json''), (''X-Job-ID'', jobID)] @
               (if signingSecret ws \<noteq> [] then [(''X-Gatewai-Signature'', signWebhook H (signingSecret ws) now payload)] else [])
         in case h_Post H url headers payload o1 of
              (None, o2) \<Rightarrow> ((False, 0), o2)
            | (Some code, o2) \<Rightarrow> if code \<ge> 500 then ((False, code), o2) else ((True, code), o2)))"

definition onDelivered :: "'o web \<Rightarrow> WebhookSender \<Rightarrow> string \<Rightarrow> 'o \<Rightarrow> 'o" where
  "onDelivered H ws resultRef o1 =
     (if \<not> persistsResult ws \<and> resultRef \<noteq> [] then snd (h_DeleteObject H resultRef o1) else o1)"

section \<open>Retries\<close>

definition webhookRetryZSet :: string where "webhookRetryZSet = ''webhook:retries''"
definition webhookDeadLetter :: string where "webhookDeadLetter = ''webhook:deadletter''"
definition webhookTaskKey :: "string \<Rightarrow> string" where "webhookTaskKey jobID = ''webhook:retry:'' @ jobID"

definition taskTTL :: "WebhookSender \<Rightarrow> int" where
  "taskTTL ws = wrap64 (wrap64 (maxBackoff ws * wrap64 (maxRetries ws + 2)) + 3600 * second)"

fun backoff_loop :: "int \<Rightarrow> int \<Rightarrow> nat \<Rightarrow> int" where
  "backoff_loop cap d 0 = d"
| "backoff_loop cap d (Suc n) = (let d' = wrap64 (d * 2) in if d' \<ge> cap then cap else backoff_loop cap d' n)"

definition backoff :: "WebhookSender \<Rightarrow> int \<Rightarrow> int" where
  "backoff ws attempt = backoff_loop (maxBackoff ws) (baseBackoff ws) (nat (attempt - 1))"

text \<open>The transaction that stores a task and the time of its next attempt, in milliseconds.\<close>

definition schedule_script :: "'r redis \<Rightarrow> WebhookSender \<Rightarrow> int \<Rightarrow> int \<Rightarrow> string \<Rightarrow> string \<Rightarrow> ('r, unit \<times> int) rop" where
  "schedule_script R ws now attempt jobID data =
     rboth (SET R (webhookTaskKey jobID) data (set_ttl (taskTTL ws)))
           (ZADD R webhookRetryZSet ((now + backoff ws attempt) div 1000000) jobID)"

definition enqueueRetry :: "'r redis \<Rightarrow> webhook_codec \<Rightarrow> WebhookSender \<Rightarrow> int \<Rightarrow> webhookTask \<Rightarrow> 'r \<Rightarrow> 'r" where
  "enqueueRetry R wc ws now task st =
     (case marshal_task wc task of
        None \<Rightarrow> st
      | Some data \<Rightarrow> snd (rcall R (schedule_script R ws now (wt_Attempt task) (wt_JobID task) data) st))"

definition Send :: "'r redis \<Rightarrow> 'o web \<Rightarrow> webhook_codec \<Rightarrow> WebhookSender \<Rightarrow> int \<Rightarrow> Job \<Rightarrow> 'r \<times> 'o \<Rightarrow> 'r \<times> 'o" where
  "Send R H wc ws now job w =
     (let (st, o1) = w;
          (payload, o2) = buildPayload H wc job o1;
          ((ok, code), o3) = deliver H ws now (CallbackURL job) payload (ID job) o2
      in if ok then (st, onDelivered H ws (ResultRef job) o3)
         else (enqueueRetry R wc ws now \<lparr>wt_JobID = ID job, wt_ServiceType = ServiceType job, wt_URL = CallbackURL job,
                 wt_Payload = payload, wt_Attempt = 1, wt_ResultRef = ResultRef job\<rparr> st, o3))"

definition removeTask :: "'r redis \<Rightarrow> string \<Rightarrow> 'r \<Rightarrow> 'r" where
  "removeTask R jobID st = snd (rcall R (rboth (ZREM R webhookRetryZSet jobID) (DEL R [webhookTaskKey jobID])) st)"

definition deadletter_script :: "'r redis \<Rightarrow> string \<Rightarrow> string \<Rightarrow> ('r, int \<times> int \<times> int) rop" where
  "deadletter_script R entry jobID =
     rboth (RPUSH R webhookDeadLetter entry)
       (rboth (ZREM R webhookRetryZSet jobID) (DEL R [webhookTaskKey jobID]))"

text \<open>A task that cannot be read, for whatever reason, leaves the schedule.\<close>

definition processRetry :: "'r redis \<Rightarrow> 'o web \<Rightarrow> webhook_codec \<Rightarrow> WebhookSender \<Rightarrow> int \<Rightarrow> string \<Rightarrow> 'r \<times> 'o \<Rightarrow> 'r \<times> 'o" where
  "processRetry R H wc ws now jobID w =
     (let (st, o1) = w in
      case rcall R (GET R (webhookTaskKey jobID)) st of
        (Some (Some data), st1) \<Rightarrow>
          (case unmarshal_task wc data of
             None \<Rightarrow> (removeTask R jobID st1, o1)
           | Some task0 \<Rightarrow>
               (let ((ok, code), o2) = deliver H ws now (wt_URL task0) (wt_Payload task0) (wt_JobID task0) o1;
                    task = task0\<lparr>wt_Attempt := wrap64 (wt_Attempt task0 + 1)\<rparr>
                in if ok then (removeTask R jobID st1, onDelivered H ws (wt_ResultRef task) o2)
                   else if wt_Attempt task \<ge> maxRetries ws then
                     (snd (rcall R (deadletter_script R (marshal_entry wc
                        \<lparr>de_JobID = wt_JobID task, de_ServiceType = wt_ServiceType task, de_URL = wt_URL task,
                         de_Attempts = wt_Attempt task, de_FailedAt = now\<rparr>) jobID) st1), o2)
                   else (snd (rcall R (schedule_script R ws now (wt_Attempt task) jobID
                            (case marshal_task wc task of None \<Rightarrow> [] | Some data \<Rightarrow> data)) st1), o2)))
      | (_, st1) \<Rightarrow> (snd (rcall R (ZREM R webhookRetryZSet jobID) st1), o1))"

fun bump_all :: "'r redis \<Rightarrow> string \<Rightarrow> int \<Rightarrow> string list \<Rightarrow> ('r, unit) rop" where
  "bump_all R key score [] = rret ()"
| "bump_all R key score (m # ms) = rbind (ZADD R key score m) (\<lambda>_. bump_all R key score ms)"

definition claimDueWebhooksScript :: "'r redis \<Rightarrow> string \<Rightarrow> int \<Rightarrow> int \<Rightarrow> int \<Rightarrow> ('r, string list) rop" where
  "claimDueWebhooksScript R key nowMs limit visibilityMs =
     rbind (ZRANGEBYSCORE R key None nowMs) (\<lambda>ids.
       let due = take (nat limit) ids in rbind (bump_all R key visibilityMs due) (\<lambda>_. rret due))"

text \<open>One tick of \<^verbatim>\<open>RunRetryLoop\<close>. \<open>stamp i\<close> is the time at which job \<open>i\<close> is worked on; the queue depth that is read
  first goes to a metric only.\<close>

definition processDueRetries ::
  "'r redis \<Rightarrow> 'o web \<Rightarrow> webhook_codec \<Rightarrow> WebhookSender \<Rightarrow> int \<Rightarrow> (string \<Rightarrow> int) \<Rightarrow> 'r \<times> 'o \<Rightarrow> 'r \<times> 'o" where
  "processDueRetries R H wc ws now stamp w =
     (let (st, o1) = w;
          st1 = snd (rcall R (ZCARD R webhookRetryZSet) st)
      in case rcall R (claimDueWebhooksScript R webhookRetryZSet (now div 1000000) 100 ((now + 120 * second) div 1000000)) st1 of
           (None, st2) \<Rightarrow> (st2, o1)
         | (Some ids, st2) \<Rightarrow> fold (\<lambda>i. processRetry R H wc ws (stamp i) i) ids (st2, o1))"

end
