(* ===== verification/WebhookRun.thy ===== *)
theory WebhookRun
  imports Webhook JobSamples
begin

text \<open>
  What the delivery of webhooks promises: the delays between attempts, that a due retry is claimed by one
  replica at a time, and that a webhook whose endpoint keeps failing is attempted a fixed number of times and then
  dead-lettered.
\<close>

section \<open>The delay before an attempt\<close>

lemma backoff_loop_min: "0 < d \<Longrightarrow> d \<le> cap \<Longrightarrow> cap < 2 ^ 62 \<Longrightarrow> backoff_loop cap d n = min cap (d * 2 ^ n)"
proof (induction n arbitrary: d)
  case (Suc n)
  have w: "wrap64 (d * 2) = d * 2" using Suc.prems by (intro wrap64_id) (simp add: int64_def)
  show ?case
  proof (cases "d * 2 \<ge> cap")
    case True
    have "d * 2 * 1 \<le> d * 2 * 2 ^ n" using Suc.prems(1) by (intro mult_left_mono) simp_all
    with True show ?thesis by (simp add: w)
  next
    case False
    with Suc.IH [of "d * 2"] Suc.prems show ?thesis by (simp add: w)
  qed
qed simp

text \<open>
  the delay before attempt \<open>n + 1\<close> doubles with every attempt, from the base on, and never exceeds the maximum;
  with durations below \<open>2 ^ 62\<close> nanoseconds the doubling does not overflow.
\<close>

theorem backoff_doubles_up_to_cap:
  assumes "0 < baseBackoff ws" and "baseBackoff ws \<le> maxBackoff ws" and "maxBackoff ws < 2 ^ 62" and "1 \<le> n"
  shows "backoff ws n = min (maxBackoff ws) (baseBackoff ws * 2 ^ nat (n - 1))
       \<and> baseBackoff ws \<le> backoff ws n \<and> backoff ws n \<le> backoff ws (n + 1)"
proof -
  have eq: "backoff ws k = min (maxBackoff ws) (baseBackoff ws * 2 ^ nat (k - 1))" for k
    unfolding backoff_def by (rule backoff_loop_min [OF assms(1,2,3)])
  have "nat (n + 1 - 1) = Suc (nat (n - 1))" using assms(4) by simp
  then have le: "baseBackoff ws * 2 ^ nat (n - 1) \<le> baseBackoff ws * 2 ^ nat (n + 1 - 1)"
    "baseBackoff ws * 1 \<le> baseBackoff ws * 2 ^ nat (n - 1)"
    using assms(1) by (simp_all only: power_Suc) (intro mult_left_mono, simp_all)+
  show ?thesis unfolding eq using le assms(2) by linarith
qed

section \<open>Claiming the due retries\<close>

lemma members_zinsert: "snd ` set (zinsert sc m zs) = insert m (snd ` set zs)"
  by (auto simp: zinsert_def zremove_def Let_def image_iff)

lemma in_zinsert: "z \<in> set (zinsert sc m zs) \<longleftrightarrow> z = (sc, m) \<or> z \<in> set zs \<and> snd z \<noteq> m"
  by (auto simp: zinsert_def zremove_def Let_def)

lemma zinsert_nonempty [simp]: "zinsert sc m zs \<noteq> []"
  by (simp add: zinsert_def Let_def)

lemma members_bumped: "snd ` set (fold (zinsert sc) ms zs) = set ms \<union> snd ` set zs"
  by (induction ms arbitrary: zs) (auto simp: members_zinsert)

lemma in_bumped: "z \<in> set (fold (zinsert sc) ms zs) \<Longrightarrow> fst z = sc \<and> snd z \<in> set ms \<or> z \<in> set zs \<and> snd z \<notin> set ms"
proof (induction ms arbitrary: zs)
  case (Cons m ms)
  then have "z \<in> set (fold (zinsert sc) ms (zinsert sc m zs))" by simp
  from Cons.IH [OF this] show ?case by (auto simp: in_zinsert)
qed simp

lemma zset_at_alive: "zset_at ks k = Some (zs, d) \<Longrightarrow> alive (clock ks) \<lparr>rv = v, deadline = d\<rparr>"
  by (auto simp: zset_at_def alive_def dest!: look_alive split: option.splits rval.splits)

lemma zset_at_put_zset:
  assumes "zset_at ks k = Some (zs, d)"
  shows "zset_at (put_zset k zs' d ks) k = Some (zs', if zs' = [] then None else d)"
proof (cases "zs' = []")
  case True
  then show ?thesis by (simp add: put_zset_def zset_at_def)
next
  case False
  have "look (put k \<lparr>rv = RZSet zs', deadline = d\<rparr> ks) k = Some \<lparr>rv = RZSet zs', deadline = d\<rparr>"
    by (rule look_put_live) (rule zset_at_alive [OF assms])
  with False show ?thesis by (simp add: put_zset_def zset_at_def)
qed

lemma ks_zadd_zset:
  assumes "zset_at ks k = Some (zs, d)"
  obtains n where "ks_zadd k sc m ks = (Some n, put_zset k (zinsert sc m zs) d ks)"
    "zset_at (put_zset k (zinsert sc m zs) d ks) k = Some (zinsert sc m zs, d)"
  using zset_at_put_zset [OF assms, of "zinsert sc m zs"] assms by (auto simp: ks_zadd_def)

lemma bump_all_ks:
  "zset_at ks k = Some (zs, d) \<Longrightarrow>
     \<exists>ks'. bump_all (ks_server n) k sc ms ks = (Some (), ks') \<and> zset_at ks' k = Some (fold (zinsert sc) ms zs, d)"
proof (induction ms arbitrary: ks zs)
  case Nil
  then show ?case by (simp add: rret_def)
next
  case (Cons m ms)
  obtain c where "ks_zadd k sc m ks = (Some c, put_zset k (zinsert sc m zs) d ks)"
    "zset_at (put_zset k (zinsert sc m zs) d ks) k = Some (zinsert sc m zs, d)"
    using ks_zadd_zset [OF Cons.prems] by metis
  with Cons.IH [of "put_zset k (zinsert sc m zs) d ks"] show ?case by (simp add: rbind_def ks_server_simps)
qed

definition due :: "int \<Rightarrow> int \<Rightarrow> (int \<times> string) list \<Rightarrow> string list" where
  "due nowMs limit zs = take (nat limit) (map snd (filter (\<lambda>z. fst z \<le> nowMs) zs))"

lemma claim_ks:
  assumes "zset_at ks k = Some (zs, d)"
  obtains ks' where "claimDueWebhooksScript (ks_server n) k nowMs limit vis ks = (Some (due nowMs limit zs), ks')"
    "zset_at ks' k = Some (fold (zinsert vis) (due nowMs limit zs) zs, d)"
proof -
  obtain ks' where "bump_all (ks_server n) k vis (due nowMs limit zs) ks = (Some (), ks')"
    "zset_at ks' k = Some (fold (zinsert vis) (due nowMs limit zs) zs, d)"
    using bump_all_ks [OF assms] by metis
  then show ?thesis
    using that assms by (simp add: claimDueWebhooksScript_def rbind_def ks_server_simps ks_zrangebyscore_def due_def rret_def Let_def)
qed

context redis_server
begin

lemma bump_all_sim: "sim view (bump_all R k sc ms) (bump_all (ks_server n) k sc ms)"
  by (induction ms) (auto simp: ks_server_simps intro!: sim_rbind ZADD)

lemma claim_sim:
  "sim view (claimDueWebhooksScript R k nowMs limit vis) (claimDueWebhooksScript (ks_server n) k nowMs limit vis)"
  unfolding claimDueWebhooksScript_def Let_def
  by (intro sim_rbind bump_all_sim sim_rret) (simp add: ks_server_simps ZRANGEBYSCORE)

lemma claim_server:
  assumes "zset_at (view st) k = Some (zs, d)"
  obtains st' where "claimDueWebhooksScript R k nowMs limit vis st = (Some (due nowMs limit zs), st')"
    "zset_at (view st') k = Some (fold (zinsert vis) (due nowMs limit zs) zs, d)"
proof -
  obtain ks' where ks': "claimDueWebhooksScript (ks_server ks_link) k nowMs limit vis (view st) = (Some (due nowMs limit zs), ks')"
    "zset_at ks' k = Some (fold (zinsert vis) (due nowMs limit zs) zs, d)"
    by (rule claim_ks [OF assms])
  from simD [OF claim_sim ks'(1)] ks'(2) that show ?thesis by (metis prod.collapse)
qed

end

text \<open>
  C19: a due retry is claimed by one replica at a time. A claim returns jobs whose time has come, at most \<open>limit\<close> of
  them and all of them if there are no more than that, loses none from the schedule, and until its visibility
  time has come no later claim, by whatever replica, returns any of these jobs again.
\<close>

theorem due_webhooks_claimed_once:
  assumes "redis_server R view" and "zset_at (view st) webhookRetryZSet = Some (zs, d)"
    and "claimDueWebhooksScript R webhookRetryZSet nowMs limit vis st = (ids, st1)"
    and "claimDueWebhooksScript R webhookRetryZSet now' limit' vis' st1 = (ids', st2)" and "now' < vis"
  shows "\<exists>mine others zs2. ids = Some mine \<and> ids' = Some others \<and> set mine \<inter> set others = {}
     \<and> length mine \<le> nat limit \<and> (\<forall>i \<in> set mine. \<exists>t \<le> nowMs. (t, i) \<in> set zs)
     \<and> (length mine < nat limit \<longrightarrow> set mine = {i. \<exists>t \<le> nowMs. (t, i) \<in> set zs})
     \<and> zset_at (view st2) webhookRetryZSet = Some (zs2, d) \<and> snd ` set zs2 = snd ` set zs"
proof -
  let ?mine = "due nowMs limit zs"
  let ?zs1 = "fold (zinsert vis) ?mine zs"
  let ?others = "due now' limit' ?zs1"
  let ?zs2 = "fold (zinsert vis') ?others ?zs1"
  obtain sa where "claimDueWebhooksScript R webhookRetryZSet nowMs limit vis st = (Some ?mine, sa)"
    "zset_at (view sa) webhookRetryZSet = Some (?zs1, d)"
    by (rule redis_server.claim_server [OF assms(1,2)])
  with assms(3) have one: "ids = Some ?mine" "zset_at (view st1) webhookRetryZSet = Some (?zs1, d)" by simp_all
  obtain sb where "claimDueWebhooksScript R webhookRetryZSet now' limit' vis' st1 = (Some ?others, sb)"
    "zset_at (view sb) webhookRetryZSet = Some (?zs2, d)"
    by (rule redis_server.claim_server [OF assms(1) one(2)])
  with assms(4) have two: "ids' = Some ?others" "zset_at (view st2) webhookRetryZSet = Some (?zs2, d)" by simp_all
  have due_sub: "i \<in> set (due t l ys) \<Longrightarrow> \<exists>s \<le> t. (s, i) \<in> set ys" for i t l ys
    by (fastforce simp: due_def dest!: in_set_takeD)
  then have mem: "set (due t l ys) \<subseteq> snd ` set ys" for t l ys by force
  have "i \<notin> set ?mine" if other: "i \<in> set ?others" for i
  proof -
    obtain s where "s \<le> now'" "(s, i) \<in> set ?zs1" using due_sub [OF other] by blast
    with in_bumped [of "(s, i)" vis ?mine zs] assms(5) show ?thesis by auto
  qed
  then have disjoint: "set ?mine \<inter> set ?others = {}" by blast
  have all_due: "set ?mine = {i. \<exists>t \<le> nowMs. (t, i) \<in> set zs}" if "length ?mine < nat limit"
  proof -
    from that have "?mine = map snd (filter (\<lambda>z. fst z \<le> nowMs) zs)" by (simp add: due_def min_def split: if_splits)
    then show ?thesis by force
  qed
  have kept: "snd ` set ?zs2 = snd ` set zs"
    using mem [of nowMs limit zs] mem [of now' limit' ?zs1] by (auto simp: members_bumped)
  have short: "length ?mine \<le> nat limit" by (simp add: due_def)
  show ?thesis
    using one(1) two disjoint all_due kept short due_sub
    by (intro exI [of _ ?mine] exI [of _ ?others] exI [of _ ?zs2] conjI) simp_all
qed

section \<open>An endpoint that keeps failing\<close>

definition task_codec_ok :: "webhook_codec \<Rightarrow> bool" where
  "task_codec_ok wc \<longleftrightarrow> (\<forall>t. \<exists>s. marshal_task wc t = Some s \<and> unmarshal_task wc s = Some t)"

definition never_acks :: "'o web \<Rightarrow> bool" where
  "never_acks H \<longleftrightarrow> (\<forall>url hs p o1. case fst (h_Post H url hs p o1) of None \<Rightarrow> True | Some code \<Rightarrow> code \<ge> 500)"

lemma deliver_fails:
  assumes "never_acks H"
  obtains code o2 where "deliver H ws now url p i o1 = ((False, code), o2)"
proof (cases "h_valid_url H url")
  case True
  define hs where "hs = [(''Content-Type'', ''application/json''), (''X-Job-ID'', i)] @
     (if signingSecret ws \<noteq> [] then [(''X-Gatewai-Signature'', signWebhook H (signingSecret ws) now p)] else [])"
  obtain c o2 where c: "h_Post H url hs p o1 = (c, o2)" by (meson surj_pair)
  with assms have "case c of None \<Rightarrow> True | Some code \<Rightarrow> code \<ge> 500" unfolding never_acks_def by (metis fst_conv)
  with c True that show ?thesis by (cases c) (auto simp: deliver_def hs_def Let_def)
qed (use that in \<open>simp add: deliver_def\<close>)

text \<open>A retry that is stored and scheduled; a webhook of which nothing is left but its dead letter.\<close>

definition scheduled :: "webhook_codec \<Rightarrow> keyspace \<Rightarrow> webhookTask \<Rightarrow> bool" where
  "scheduled wc ks task \<longleftrightarrow>
     (\<exists>e data. look ks (webhookTaskKey (wt_JobID task)) = Some e \<and> rv e = RStr data \<and> unmarshal_task wc data = Some task)
     \<and> (\<exists>zs d. zset_at ks webhookRetryZSet = Some (zs, d) \<and> wt_JobID task \<in> snd ` set zs)"

definition forgotten :: "keyspace \<Rightarrow> string \<Rightarrow> bool" where
  "forgotten ks i \<longleftrightarrow> look ks (webhookTaskKey i) = None
     \<and> (\<exists>zs d. zset_at ks webhookRetryZSet = Some (zs, d) \<and> i \<notin> snd ` set zs)"

lemma webhook_keys [simp]:
  "webhookTaskKey i \<noteq> webhookRetryZSet" "webhookTaskKey i \<noteq> webhookDeadLetter" "webhookRetryZSet \<noteq> webhookDeadLetter"
  "webhookRetryZSet \<noteq> webhookTaskKey i" "webhookDeadLetter \<noteq> webhookTaskKey i" "webhookDeadLetter \<noteq> webhookRetryZSet"
  by (simp_all add: webhookTaskKey_def webhookRetryZSet_def webhookDeadLetter_def)

lemma set_ttl_alive: "alive t \<lparr>rv = v, deadline = map_option (\<lambda>m. t + m) (set_ttl x)\<rparr>"
  by (auto simp: set_ttl_def)

lemma schedule_ks:
  fixes now a :: int
  assumes "zset_at ks webhookRetryZSet = Some (zs, d)" and "unmarshal_task wc data = Some task"
    and ks'_def: "ks' = snd (schedule_script (ks_server n) ws now a (wt_JobID task) data ks)"
  shows "scheduled wc ks' task" and "list_at ks' webhookDeadLetter = list_at ks webhookDeadLetter"
proof -
  let ?i = "wt_JobID task" and ?e = "\<lparr>rv = RStr data, deadline = map_option (\<lambda>m. clock ks + m) (set_ttl (taskTTL ws))\<rparr>"
  let ?sc = "(now + backoff ws a) div 1000000"
  have z: "zset_at (put (webhookTaskKey ?i) ?e ks) webhookRetryZSet = Some (zs, d)"
    using assms(1) by (simp add: zset_at_def)
  obtain c where add: "ks_zadd webhookRetryZSet ?sc ?i (put (webhookTaskKey ?i) ?e ks)
      = (Some c, put_zset webhookRetryZSet (zinsert ?sc ?i zs) d (put (webhookTaskKey ?i) ?e ks))"
    "zset_at (put_zset webhookRetryZSet (zinsert ?sc ?i zs) d (put (webhookTaskKey ?i) ?e ks)) webhookRetryZSet
      = Some (zinsert ?sc ?i zs, d)"
    by (rule ks_zadd_zset [OF z])
  have ks': "ks' = put_zset webhookRetryZSet (zinsert ?sc ?i zs) d (put (webhookTaskKey ?i) ?e ks)"
    using add(1) by (simp add: ks'_def schedule_script_def snd_rboth ks_server_simps ks_set_def)
  have "look ks' (webhookTaskKey ?i) = Some ?e"
    by (simp add: ks' set_ttl_alive)
  then show "scheduled wc ks' task"
    unfolding scheduled_def using add(2) assms(2) by (auto simp: ks' members_zinsert)
  show "list_at ks' webhookDeadLetter = list_at ks webhookDeadLetter"
    by (rule list_at_look) (simp add: ks')
qed

lemma zrem_members:
  assumes "zset_at ks k = Some (zs, d)"
  obtains zs' d' where "zset_at (snd (ks_zrem k i ks)) k = Some (zs', d')" "i \<notin> snd ` set zs'"
proof (cases "i \<in> snd ` set zs")
  case True
  then have "snd (ks_zrem k i ks) = put_zset k (zremove i zs) d ks" by (simp add: ks_zrem_def assms)
  moreover have "i \<notin> snd ` set (zremove i zs)" by (auto simp: zremove_def)
  ultimately show ?thesis using that zset_at_put_zset [OF assms, of "zremove i zs"] by metis
next
  case False
  then have "snd (ks_zrem k i ks) = ks" by (simp add: ks_zrem_def assms)
  with False that assms show ?thesis by metis
qed

lemma deadletter_ks:
  assumes "zset_at ks webhookRetryZSet = Some (zs, d)" and "list_at ks webhookDeadLetter = Some (xs, None)"
    and ks'_def: "ks' = snd (deadletter_script (ks_server n) entry i ks)"
  shows "forgotten ks' i" and "list_at ks' webhookDeadLetter = Some (xs @ [entry], None)"
proof -
  define ks1 where "ks1 = snd (ks_rpush webhookDeadLetter entry ks)"
  define ks2 where "ks2 = snd (ks_zrem webhookRetryZSet i ks1)"
  have ks': "ks' = snd (ks_del [webhookTaskKey i] ks2)"
    by (simp add: ks'_def ks1_def ks2_def deadletter_script_def snd_rboth ks_server_simps)
  have t1: "touches {webhookDeadLetter} (ks_rpush webhookDeadLetter entry)"
    and t2: "touches {webhookRetryZSet} (ks_zrem webhookRetryZSet i)"
    and t3: "touches {webhookTaskKey i} (ks_del [webhookTaskKey i])" by (rule frame; simp)+
  have l1: "list_at ks1 webhookDeadLetter = Some (xs @ [entry], None)"
    using assms(2) by (simp add: ks1_def ks_rpush_def)
  have z1: "zset_at ks1 webhookRetryZSet = Some (zs, d)"
    using assms(1) touchesD(1) [OF t1, of webhookRetryZSet ks] by (simp add: ks1_def zset_at_def)
  obtain zs' d' where z2: "zset_at ks2 webhookRetryZSet = Some (zs', d')" "i \<notin> snd ` set zs'"
    unfolding ks2_def by (rule zrem_members [OF z1])
  have "zset_at ks' webhookRetryZSet = Some (zs', d')"
    using z2(1) touchesD(1) [OF t3, of webhookRetryZSet ks2] by (simp add: ks' zset_at_def)
  moreover have "look ks' (webhookTaskKey i) = None" by (simp add: ks')
  ultimately show "forgotten ks' i" using z2(2) by (auto simp: forgotten_def)
  have "list_at ks' webhookDeadLetter = list_at ks1 webhookDeadLetter"
    using touchesD(1) [OF t3, of webhookDeadLetter ks2] touchesD(1) [OF t2, of webhookDeadLetter ks1]
    by (intro list_at_look) (simp add: ks' ks2_def)
  with l1 show "list_at ks' webhookDeadLetter = Some (xs @ [entry], None)" by simp
qed

context redis_server
begin

lemma view_rcall:
  assumes "\<And>st. net R st = (Delivered, st)" and "sim view c d"
  shows "view (snd (rcall R c st)) = snd (d (view st))" and "fst (rcall R c st) = fst (d (view st))"
  using assms(2) by (simp_all add: rcall_delivered [OF assms(1)] sim_def)

lemma schedule_sim: "sim view (schedule_script R ws now a i data) (schedule_script (ks_server n) ws now a i data)"
  unfolding schedule_script_def ks_server_simps by (intro sim_rboth SET ZADD)

lemma deadletter_sim: "sim view (deadletter_script R entry i) (deadletter_script (ks_server n) entry i)"
  unfolding deadletter_script_def ks_server_simps by (intro sim_rboth RPUSH ZREM DEL)

lemma Send_schedules:
  assumes net: "\<And>st. net R st = (Delivered, st)" and "task_codec_ok wc" and "never_acks H"
    and "zset_at (view st) webhookRetryZSet = Some (zs, d)"
  obtains task where "scheduled wc (view (fst (Send R H wc ws now job (st, o1)))) task" "wt_JobID task = ID job"
    "wt_Attempt task = 1" "wt_URL task = CallbackURL job"
    "list_at (view (fst (Send R H wc ws now job (st, o1)))) webhookDeadLetter = list_at (view st) webhookDeadLetter"
proof -
  obtain p o2 where p: "buildPayload H wc job o1 = (p, o2)" by (meson surj_pair)
  obtain code o3 where fails: "deliver H ws now (CallbackURL job) p (ID job) o2 = ((False, code), o3)"
    using deliver_fails [OF assms(3)] .
  let ?task = "\<lparr>wt_JobID = ID job, wt_ServiceType = ServiceType job, wt_URL = CallbackURL job, wt_Payload = p, wt_Attempt = 1,
     wt_ResultRef = ResultRef job\<rparr>"
  obtain data where data: "marshal_task wc ?task = Some data" "unmarshal_task wc data = Some ?task"
    using assms(2) unfolding task_codec_ok_def by blast
  have "view (fst (Send R H wc ws now job (st, o1))) = snd (schedule_script (ks_server ks_link) ws now 1 (ID job) data (view st))"
    by (simp add: Send_def p fails enqueueRetry_def data(1) view_rcall [OF net schedule_sim])
  then show ?thesis using schedule_ks [OF assms(4) data(2)] that [of ?task] by simp
qed

lemma processRetry_fails:
  assumes net: "\<And>st. net R st = (Delivered, st)" and "task_codec_ok wc" and "never_acks H"
    and "scheduled wc (view st) task" and "list_at (view st) webhookDeadLetter = Some (xs, None)"
    and small: "0 \<le> wt_Attempt task" "wt_Attempt task < 2 ^ 62"
    and st'_def: "st' = fst (processRetry R H wc ws now (wt_JobID task) (st, o1))"
  shows "if wt_Attempt task + 1 \<ge> maxRetries ws
     then forgotten (view st') (wt_JobID task) \<and> list_at (view st') webhookDeadLetter = Some (xs @ [marshal_entry wc
        \<lparr>de_JobID = wt_JobID task, de_ServiceType = wt_ServiceType task, de_URL = wt_URL task, de_Attempts = wt_Attempt task + 1,
         de_FailedAt = now\<rparr>], None)
     else scheduled wc (view st') (task\<lparr>wt_Attempt := wt_Attempt task + 1\<rparr>) \<and> list_at (view st') webhookDeadLetter = Some (xs, None)"
proof -
  let ?i = "wt_JobID task" and ?task = "task\<lparr>wt_Attempt := wt_Attempt task + 1\<rparr>"
  obtain e data zs d where sch: "look (view st) (webhookTaskKey ?i) = Some e" "rv e = RStr data" "unmarshal_task wc data = Some task"
    "zset_at (view st) webhookRetryZSet = Some (zs, d)" using assms(4) by (auto simp: scheduled_def)
  obtain g st1 where g: "rcall R (GET R (webhookTaskKey ?i)) st = (g, st1)" by (meson surj_pair)
  have get: "g = Some (Some data)" "view st1 = view st"
    using view_rcall [OF net GET [of "webhookTaskKey ?i"], of st] g sch(1,2) by (simp_all add: ks_get_def)
  obtain code o2 where fails: "deliver H ws now (wt_URL task) (wt_Payload task) ?i o1 = ((False, code), o2)"
    using deliver_fails [OF assms(3)] .
  have w: "wrap64 (wt_Attempt task + 1) = wt_Attempt task + 1" using small by (intro wrap64_id int64_small) simp_all
  obtain data' where data': "marshal_task wc ?task = Some data'" "unmarshal_task wc data' = Some ?task"
    using assms(2) unfolding task_codec_ok_def by blast
  have z1: "zset_at (view st1) webhookRetryZSet = Some (zs, d)" "list_at (view st1) webhookDeadLetter = Some (xs, None)"
    using sch(4) assms(5) by (simp_all add: get(2))
  show ?thesis
  proof (cases "wt_Attempt task + 1 \<ge> maxRetries ws")
    case True
    have "view st' = snd (deadletter_script (ks_server ks_link) (marshal_entry wc \<lparr>de_JobID = ?i, de_ServiceType = wt_ServiceType task,
        de_URL = wt_URL task, de_Attempts = wt_Attempt task + 1, de_FailedAt = now\<rparr>) ?i (view st1))"
      using True by (simp add: st'_def processRetry_def g get(1) sch(3) fails w view_rcall [OF net deadletter_sim])
    then show ?thesis using deadletter_ks [OF z1] True by simp
  next
    case False
    have "view st' = snd (schedule_script (ks_server ks_link) ws now (wt_Attempt task + 1) ?i data' (view st1))"
      using False by (simp add: st'_def processRetry_def g get(1) sch(3) fails w data'(1) view_rcall [OF net schedule_sim])
    then show ?thesis using schedule_ks [OF z1(1) data'(2)] z1(2) False by simp
  qed
qed

end


definition send_and_retry :: "'r redis \<Rightarrow> 'o web \<Rightarrow> webhook_codec \<Rightarrow> WebhookSender \<Rightarrow> Job \<Rightarrow> int \<Rightarrow> int list \<Rightarrow> 'r \<times> 'o \<Rightarrow> 'r \<times> 'o" where
  "send_and_retry R H wc ws job t0 nows w =
     fold (\<lambda>now. processRetry R H wc ws now (ID job)) nows (Send R H wc ws t0 job w)"

lemma send_and_retry_snoc:
  "send_and_retry R H wc ws job t0 (nows @ [t]) w = processRetry R H wc ws t (ID job) (send_and_retry R H wc ws job t0 nows w)"
  by (simp add: send_and_retry_def)

lemma still_scheduled:
  assumes "redis_server R view" and net: "\<And>st. net R st = (Delivered, st)" and "task_codec_ok wc" and "never_acks H"
    and "zset_at (view st) webhookRetryZSet = Some (zs, d)" and "list_at (view st) webhookDeadLetter = Some (xs, None)"
    and "maxRetries ws < 2 ^ 62"
  shows "int (length nows) + 1 < max 2 (maxRetries ws) \<Longrightarrow>
     \<exists>task. scheduled wc (view (fst (send_and_retry R H wc ws job t0 nows (st, o1)))) task \<and> wt_JobID task = ID job
       \<and> wt_URL task = CallbackURL job \<and> wt_Attempt task = int (length nows) + 1
       \<and> list_at (view (fst (send_and_retry R H wc ws job t0 nows (st, o1)))) webhookDeadLetter = Some (xs, None)"
proof (induction nows rule: rev_induct)
  case Nil
  obtain task where "scheduled wc (view (fst (Send R H wc ws t0 job (st, o1)))) task" "wt_JobID task = ID job" "wt_Attempt task = 1"
    "wt_URL task = CallbackURL job"
    "list_at (view (fst (Send R H wc ws t0 job (st, o1)))) webhookDeadLetter = list_at (view st) webhookDeadLetter"
    using redis_server.Send_schedules [OF assms(1) net assms(3,4,5)] .
  with assms(6) show ?case by (auto simp: send_and_retry_def)
next
  case (snoc t nows)
  define w where "w = send_and_retry R H wc ws job t0 nows (st, o1)"
  have earlier: "int (length nows) + 1 < max 2 (maxRetries ws)" using snoc.prems by simp
  obtain task where task: "scheduled wc (view (fst w)) task" "wt_JobID task = ID job" "wt_URL task = CallbackURL job"
    "wt_Attempt task = int (length nows) + 1" "list_at (view (fst w)) webhookDeadLetter = Some (xs, None)"
    using snoc.IH [OF earlier] unfolding w_def by blast
  have "wt_Attempt task + 1 < maxRetries ws" "0 \<le> wt_Attempt task" "wt_Attempt task < 2 ^ 62"
    using task(4) snoc.prems assms(7) by auto
  with redis_server.processRetry_fails [OF assms(1) net assms(3,4) task(1,5) _ _ refl, of ws t "snd w"]
  have "scheduled wc (view (fst (processRetry R H wc ws t (ID job) w))) (task\<lparr>wt_Attempt := wt_Attempt task + 1\<rparr>)
     \<and> list_at (view (fst (processRetry R H wc ws t (ID job) w))) webhookDeadLetter = Some (xs, None)"
    by (simp add: task(2))
  with task(2,3,4) show ?case
    by (intro exI [of _ "task\<lparr>wt_Attempt := wt_Attempt task + 1\<rparr>"]) (simp add: send_and_retry_snoc w_def)
qed

text \<open>
  C18: a webhook whose endpoint never acknowledges is neither lost nor retried for ever. After the first attempt and
  each retry it is stored and scheduled again, with the number of attempts made, until these are the configured
  number (at least two); with that attempt it leaves the schedule, its task is deleted, and exactly one entry, with
  that number of attempts, is appended to the dead letters.
\<close>

theorem failing_webhook_dead_lettered:
  assumes "redis_server R view" and "\<forall>st. net R st = (Delivered, st)" and "task_codec_ok wc" and "never_acks H"
    and "zset_at (view st) webhookRetryZSet = Some (zs, d)" and "list_at (view st) webhookDeadLetter = Some (xs, None)"
    and "maxRetries ws < 2 ^ 62" and "send_and_retry R H wc ws job t0 nows (st, o1) = (st', o2)"
  shows "(int (length nows) + 1 < max 2 (maxRetries ws) \<longrightarrow>
       (\<exists>task. scheduled wc (view st') task \<and> wt_JobID task = ID job \<and> wt_Attempt task = int (length nows) + 1)
       \<and> list_at (view st') webhookDeadLetter = Some (xs, None))
     \<and> (int (length nows) + 1 = max 2 (maxRetries ws) \<longrightarrow> forgotten (view st') (ID job)
       \<and> (\<exists>entry. list_at (view st') webhookDeadLetter = Some (xs @ [marshal_entry wc entry], None)
          \<and> de_JobID entry = ID job \<and> de_URL entry = CallbackURL job \<and> de_Attempts entry = int (length nows) + 1))"
proof (intro conjI impI)
  have net: "net R st = (Delivered, st)" for st using assms(2) by blast
  note waiting = still_scheduled [OF assms(1) net assms(3,4,5,6,7)]
  show "\<exists>task. scheduled wc (view st') task \<and> wt_JobID task = ID job \<and> wt_Attempt task = int (length nows) + 1"
    and "list_at (view st') webhookDeadLetter = Some (xs, None)"
    if "int (length nows) + 1 < max 2 (maxRetries ws)"
    using waiting [OF that, of job t0 o1] assms(8) by auto
  assume last: "int (length nows) + 1 = max 2 (maxRetries ws)"
  then obtain ns t where nows: "nows = ns @ [t]" by (cases nows rule: rev_cases) auto
  define w where "w = send_and_retry R H wc ws job t0 ns (st, o1)"
  have "int (length ns) + 1 < max 2 (maxRetries ws)" using last nows by simp
  from waiting [OF this, of job t0 o1] obtain task where task: "scheduled wc (view (fst w)) task" "wt_JobID task = ID job"
    "wt_URL task = CallbackURL job" "wt_Attempt task = int (length ns) + 1" "list_at (view (fst w)) webhookDeadLetter = Some (xs, None)"
    unfolding w_def by auto
  have "wt_Attempt task + 1 \<ge> maxRetries ws" "0 \<le> wt_Attempt task" "wt_Attempt task < 2 ^ 62"
    using task(4) last nows assms(7) by (auto simp: max_def split: if_splits)
  with redis_server.processRetry_fails [OF assms(1) net assms(3,4) task(1,5) _ _ refl, of ws t "snd w"]
  have "forgotten (view (fst (processRetry R H wc ws t (ID job) w))) (ID job)"
    "list_at (view (fst (processRetry R H wc ws t (ID job) w))) webhookDeadLetter = Some (xs @ [marshal_entry wc
        \<lparr>de_JobID = ID job, de_ServiceType = wt_ServiceType task, de_URL = CallbackURL job, de_Attempts = wt_Attempt task + 1,
         de_FailedAt = t\<rparr>], None)"
    by (simp_all add: task(2,3))
  moreover have "fst (processRetry R H wc ws t (ID job) w) = st'"
    using assms(8) by (simp add: nows send_and_retry_snoc w_def)
  ultimately show "forgotten (view st') (ID job)"
    "\<exists>entry. list_at (view st') webhookDeadLetter = Some (xs @ [marshal_entry wc entry], None)
       \<and> de_JobID entry = ID job \<and> de_URL entry = CallbackURL job \<and> de_Attempts entry = int (length nows) + 1"
    using task(4) nows by (auto intro!: exI [of _ "\<lparr>de_JobID = ID job, de_ServiceType = wt_ServiceType task,
      de_URL = CallbackURL job, de_Attempts = wt_Attempt task + 1, de_FailedAt = t\<rparr>"])
qed

section \<open>Concrete deliveries\<close>

definition sample_sender :: WebhookSender where
  "sample_sender = \<lparr>persistsResult = False, maxRetries = 3, baseBackoff = 30 * second, maxBackoff = 600 * second, signingSecret = []\<rparr>"

definition task_of :: "text_table \<Rightarrow> webhookTask" where
  "task_of t = \<lparr>wt_JobID = field t ''i'', wt_ServiceType = field t ''s'', wt_URL = field t ''u'', wt_Payload = field t ''p'',
     wt_Attempt = of_unary (field t ''a''), wt_ResultRef = field t ''r''\<rparr>"

definition sample_webhook_codec :: webhook_codec where
  "sample_webhook_codec = \<lparr>marshal_payload = (\<lambda>p. Some (wp_JobID p)),
     marshal_task = (\<lambda>t. Some (put_table [(''i'', wt_JobID t), (''s'', wt_ServiceType t), (''u'', wt_URL t), (''p'', wt_Payload t),
       (''a'', unary (wt_Attempt t)), (''r'', wt_ResultRef t)])),
     unmarshal_task = (\<lambda>s. Some (task_of (decode_table s))), marshal_entry = de_JobID\<rparr>"

definition dead_endpoint :: "unit web" where
  "dead_endpoint = \<lparr>h_GetObject = (\<lambda>_ o1. (None, o1)), h_DeleteObject = (\<lambda>_ o1. (True, o1)), h_valid_url = (\<lambda>_. True),
     h_Post = (\<lambda>_ _ _ o1. (Some 503, o1)), h_hmac = (\<lambda>_ _. [])\<rparr>"

lemma sample_webhook_codec_ok: "task_codec_ok sample_webhook_codec"
  by (simp add: task_codec_ok_def sample_webhook_codec_def task_of_def field_def del: put_table.simps)

lemma dead_endpoint_never_acks: "never_acks dead_endpoint"
  by (simp add: never_acks_def dead_endpoint_def)

theorem backoff_doubles_witness: "backoff sample_sender 2 = 60 * second \<and> backoff sample_sender 9 = 600 * second"
  using backoff_doubles_up_to_cap [of sample_sender 2] backoff_doubles_up_to_cap [of sample_sender 9] by (simp add: sample_sender_def)

definition two_due :: keyspace where
  "two_due = put webhookRetryZSet \<lparr>rv = RZSet [(3, ''a''), (5, ''b'')], deadline = None\<rparr> no_keys"

theorem due_webhooks_claimed_once_witness:
  "\<exists>mine others. fst (claimDueWebhooksScript (ks_server ks_link) webhookRetryZSet 4 100 9 two_due) = Some mine
     \<and> fst (claimDueWebhooksScript (ks_server ks_link) webhookRetryZSet 7 100 12
          (snd (claimDueWebhooksScript (ks_server ks_link) webhookRetryZSet 4 100 9 two_due))) = Some others
     \<and> set mine \<inter> set others = {}"
proof -
  let ?claim = "claimDueWebhooksScript (ks_server ks_link) webhookRetryZSet"
  have "zset_at (id two_due) webhookRetryZSet = Some ([(3, ''a''), (5, ''b'')], None)" by (simp add: zset_at_def two_due_def)
  from due_webhooks_claimed_once [OF kss.redis_server_axioms [of ks_link] this, of 4 100 9 "fst (?claim 4 100 9 two_due)"
      "snd (?claim 4 100 9 two_due)" 7 100 12 "fst (?claim 7 100 12 (snd (?claim 4 100 9 two_due)))"
      "snd (?claim 7 100 12 (snd (?claim 4 100 9 two_due)))"]
  obtain mine others where "fst (?claim 4 100 9 two_due) = Some mine"
    "fst (?claim 7 100 12 (snd (?claim 4 100 9 two_due))) = Some others" "set mine \<inter> set others = {}" by auto
  then show ?thesis by blast
qed

theorem failing_webhook_dead_lettered_witness:
  "\<exists>st'. fst (send_and_retry (ks_server ks_link) dead_endpoint sample_webhook_codec sample_sender sample_job 1 [2, 3] (no_keys, ())) = st'
     \<and> forgotten st' ''1''"
proof -
  obtain st' o2 where run: "send_and_retry (ks_server ks_link) dead_endpoint sample_webhook_codec sample_sender sample_job 1 [2, 3] (no_keys, ())
      = (st', o2)" by (meson surj_pair)
  have empty: "zset_at (id no_keys) webhookRetryZSet = Some ([], None)" "list_at (id no_keys) webhookDeadLetter = Some ([], None)"
    by (simp_all add: zset_at_def list_at_def)
  have three: "maxRetries sample_sender = 3" by (simp add: sample_sender_def)
  then have "maxRetries sample_sender < 2 ^ 62" by simp
  from failing_webhook_dead_lettered [OF kss.redis_server_axioms sample_link sample_webhook_codec_ok dead_endpoint_never_acks
      empty this run]
  have "forgotten st' (ID sample_job)" by (simp add: three)
  with run show ?thesis by (simp add: sample_job_def)
qed

end
