(* ===== verification/GC.thy ===== *)
theory GC
  imports JobSamples Routing
begin

text \<open>
  One cycle of the garbage collector (\<^verbatim>\<open>cmd/gateway/gc.go\<close>) and the grouping of stored objects by job
  (\<^verbatim>\<open>internal/storage/s3.go\<close>). It composes the reaper, the stale sweep and the queue sweep of the job store with the
  deletion of objects whose job is gone. The listing of the bucket and the deletion of an object are parameters over a
  state of their own.
\<close>

section \<open>Objects of a job\<close>



definition job_of_key :: "string \<Rightarrow> string" where
  "job_of_key key = takeWhile (\<lambda>c. c \<noteq> CHR ''/'') key"

definition job_file :: "string \<Rightarrow> bool" where
  "job_file key \<longleftrightarrow> CHR ''/'' \<in> set key \<and> job_of_key key \<noteq> []"



section \<open>The phases\<close>










section \<open>What is deleted\<close>



lemma job_of_key_split: "job_file k \<Longrightarrow> \<exists>rest. k = job_of_key k @ CHR ''/'' # rest"
proof -
  assume "job_file k"
  then have "dropWhile (\<lambda>c. c \<noteq> CHR ''/'') k \<noteq> []" by (auto simp: job_file_def dropWhile_eq_Nil_conv)
  then obtain c cs where d: "dropWhile (\<lambda>c. c \<noteq> CHR ''/'') k = c # cs" by (cases "dropWhile (\<lambda>c. c \<noteq> CHR ''/'') k") auto
  then have "c = CHR ''/''" using hd_dropWhile [of "\<lambda>c. c \<noteq> CHR ''/''" k] by simp
  moreover have "k = job_of_key k @ c # cs"
    using takeWhile_dropWhile_id [of "\<lambda>c. c \<noteq> CHR ''/''" k] by (simp add: job_of_key_def d)
  ultimately show ?thesis by blast
qed





















end
