(* ===== verification/Regex.thy ===== *)
theory Regex
  imports Prelude
begin

text \<open>
  The part of Go's package \<^verbatim>\<open>regexp\<close> that the guardrails use: byte classes, literals, sequences, alternatives, greedy
  repetition and the ASCII word boundary, with the leftmost-first preference of Perl that the package documents. A
  position is the byte before it (none at the start of the text) and the text from there on; \<open>ends\<close> lists the
  positions at which a match that starts at a position may end, the preferred one first.
\<close>

section \<open>Expressions and their matches\<close>

datatype re =
    Cls "(nat \<times> nat) list"
  | Lit string
  | Seq re re
  | Alt re re
  | Rep nat "nat option" re
  | WordB

type_synonym pos = "char option \<times> string"

definition in_class :: "(nat \<times> nat) list \<Rightarrow> char \<Rightarrow> bool" where
  "in_class rs c = list_ex (\<lambda>(lo, hi). lo \<le> of_char c \<and> of_char c \<le> (hi :: nat)) rs"

definition word_byte :: "char \<Rightarrow> bool" where
  "word_byte = in_class [(48, 57), (65, 90), (95, 95), (97, 122)]"

definition at_boundary :: "pos \<Rightarrow> bool" where
  "at_boundary x =
     ((case fst x of None \<Rightarrow> False | Some c \<Rightarrow> word_byte c) \<noteq> (case snd x of [] \<Rightarrow> False | c # _ \<Rightarrow> word_byte c))"

fun eat :: "string \<Rightarrow> pos \<Rightarrow> pos list" where
  "eat [] x = [x]"
| "eat (c # cs) (p, t) = (case t of [] \<Rightarrow> [] | d # ds \<Rightarrow> if c = d then eat cs (Some d, ds) else [])"

text \<open>Exactly \<open>n\<close> times, and greedily up to \<open>n\<close> times.\<close>

fun times_ends :: "(pos \<Rightarrow> pos list) \<Rightarrow> nat \<Rightarrow> pos \<Rightarrow> pos list" where
  "times_ends f 0 x = [x]"
| "times_ends f (Suc n) x = concat (map (times_ends f n) (f x))"

fun upto_ends :: "(pos \<Rightarrow> pos list) \<Rightarrow> nat \<Rightarrow> pos \<Rightarrow> pos list" where
  "upto_ends f 0 x = [x]"
| "upto_ends f (Suc n) x = concat (map (upto_ends f n) (f x)) @ [x]"

text \<open>A repetition without an upper bound runs at most once for every byte that is left, which is no bound for
  a body that consumes something.\<close>

fun ends :: "re \<Rightarrow> pos \<Rightarrow> pos list" where
  "ends (Cls rs) (p, t) = (case t of [] \<Rightarrow> [] | c # cs \<Rightarrow> if in_class rs c then [(Some c, cs)] else [])"
| "ends (Lit s) x = eat s x"
| "ends (Seq a b) x = concat (map (ends b) (ends a x))"
| "ends (Alt a b) x = ends a x @ ends b x"
| "ends (Rep lo hi r) x =
     concat (map (\<lambda>y. upto_ends (ends r) (case hi of Some n \<Rightarrow> n - lo | None \<Rightarrow> length (snd y)) y) (times_ends (ends r) lo x))"
| "ends WordB x = (if at_boundary x then [x] else [])"

text \<open>The leftmost match from a position on: the text before it and the position at its end.\<close>

fun find_match :: "re \<Rightarrow> char option \<Rightarrow> string \<Rightarrow> (string \<times> pos) option" where
  "find_match r p [] = (case ends r (p, []) of [] \<Rightarrow> None | y # _ \<Rightarrow> Some ([], y))"
| "find_match r p (c # cs) =
     (case ends r (p, c # cs) of
        y # _ \<Rightarrow> Some ([], y)
      | [] \<Rightarrow> map_option (\<lambda>(pre, y). (c # pre, y)) (find_match r (Some c) cs))"

definition MatchString :: "re \<Rightarrow> string \<Rightarrow> bool" where
  "MatchString r s \<longleftrightarrow> find_match r None s \<noteq> None"

section \<open>Where matches lie\<close>

text \<open>\<open>later x y\<close>: \<open>y\<close> is a position of the same text, at \<open>x\<close> or behind it.\<close>

definition later :: "pos \<Rightarrow> pos \<Rightarrow> bool" where
  "later x y \<longleftrightarrow> (\<exists>u. snd x = u @ snd y \<and> fst y = (if u = [] then fst x else Some (last u)))"

lemma later_refl [simp]: "later x x"
  by (simp add: later_def)

lemma later_trans: "later x y \<Longrightarrow> later y z \<Longrightarrow> later x z"
  unfolding later_def by (elim exE conjE, rename_tac u v, rule_tac x = "u @ v" in exI) auto

lemma later_length: "later x y \<Longrightarrow> length (snd y) \<le> length (snd x)"
  by (auto simp: later_def)

lemma later_step: "later (p, c # cs) (Some c, cs)"
  by (auto simp: later_def intro: exI [of _ "[c]"])

lemma eat_later: "y \<in> set (eat s x) \<Longrightarrow> later x y \<and> length (snd x) = length s + length (snd y)"
proof (induction s x rule: eat.induct)
  case (2 c cs p t)
  then show ?case by (cases t) (auto split: if_splits intro: later_trans later_step)
qed simp

lemma times_later:
  assumes "\<And>x y. y \<in> set (f x) \<Longrightarrow> later x y"
  shows "y \<in> set (times_ends f n x) \<Longrightarrow> later x y"
proof (induction n arbitrary: x)
  case (Suc n)
  then consider "y = x" | z where "z \<in> set (f x)" "y \<in> set (times_ends f n z)" by auto
  then show ?case using Suc.IH assms later_trans by cases (simp, blast)
qed simp

lemma upto_later:
  assumes "\<And>x y. y \<in> set (f x) \<Longrightarrow> later x y"
  shows "y \<in> set (upto_ends f n x) \<Longrightarrow> later x y"
proof (induction n arbitrary: x)
  case (Suc n)
  then consider "y = x" | z where "z \<in> set (f x)" "y \<in> set (upto_ends f n z)" by auto
  then show ?case using Suc.IH assms later_trans by cases (simp, blast)
qed simp

lemma ends_later: "y \<in> set (ends r x) \<Longrightarrow> later x y"
proof (induction r arbitrary: x y)
  case (Cls rs)
  then show ?case by (cases x; cases "snd x") (auto simp: later_step split: if_splits)
next
  case (Rep lo hi r)
  then obtain n z where "z \<in> set (times_ends (ends r) lo x)" "y \<in> set (upto_ends (ends r) n z)" by auto
  with Rep.IH show ?case using times_later [of "ends r"] upto_later [of "ends r"] later_trans by meson
next
  case (Seq a b)
  then obtain z where "z \<in> set (ends a x)" "y \<in> set (ends b z)" by auto
  with Seq.IH show ?case using later_trans by meson
qed (auto dest: eat_later split: if_splits)

text \<open>Expressions every match of which consumes a byte.\<close>

fun consumes :: "re \<Rightarrow> bool" where
  "consumes (Cls rs) = True"
| "consumes (Lit s) = (s \<noteq> [])"
| "consumes (Seq a b) = (consumes a \<or> consumes b)"
| "consumes (Alt a b) = (consumes a \<and> consumes b)"
| "consumes (Rep lo hi r) = (0 < lo \<and> consumes r)"
| "consumes WordB = False"

lemma consumes_shorter: "consumes r \<Longrightarrow> y \<in> set (ends r x) \<Longrightarrow> length (snd y) < length (snd x)"
proof (induction r arbitrary: x y)
  case (Cls rs)
  then show ?case by (cases x; cases "snd x") (auto split: if_splits)
next
  case (Lit s)
  then show ?case using eat_later [of y s x] by auto
next
  case (Seq a b)
  then obtain z where z: "z \<in> set (ends a x)" "y \<in> set (ends b z)" by auto
  have le: "length (snd y) \<le> length (snd z)" "length (snd z) \<le> length (snd x)"
    using z by (auto dest!: ends_later intro: later_length)
  from Seq.prems(1) have "consumes a \<or> consumes b" by simp
  then show ?case
  proof
    assume "consumes a"
    from Seq.IH(1) [OF this z(1)] le show ?thesis by simp
  next
    assume "consumes b"
    from Seq.IH(2) [OF this z(2)] le show ?thesis by simp
  qed
next
  case (Rep lo hi r)
  then obtain n z where lo: "lo = Suc n" and z: "z \<in> set (times_ends (ends r) lo x)"
    and "y \<in> set (upto_ends (ends r) (case hi of Some n \<Rightarrow> n - lo | None \<Rightarrow> length (snd z)) z)"
    by (cases lo) auto
  then have "later z y" using upto_later [of "ends r"] ends_later by blast
  from z lo obtain w where w: "w \<in> set (ends r x)" "z \<in> set (times_ends (ends r) n w)" by auto
  then have "later w z" using times_later [of "ends r"] ends_later by blast
  with Rep.IH [OF _ w(1)] Rep.prems(1) \<open>later z y\<close> show ?case by (force dest!: later_length)
qed auto

lemma find_match_later:
  "find_match r p t = Some (pre, y) \<Longrightarrow> \<exists>q u. t = pre @ u \<and> q = (if pre = [] then p else Some (last pre)) \<and> y \<in> set (ends r (q, u))"
proof (induction t arbitrary: p pre)
  case Nil
  then show ?case by (auto split: list.splits)
next
  case (Cons c cs)
  show ?case
  proof (cases "ends r (p, c # cs)")
    case Nil
    with Cons.prems obtain pre' where pre': "pre = c # pre'" "find_match r (Some c) cs = Some (pre', y)" by auto
    from Cons.IH [OF this(2)] pre'(1) show ?thesis by auto
  next
    case (Cons z zs)
    with Cons.prems show ?thesis by auto
  qed
qed

lemma find_match_shorter:
  assumes "find_match r p t = Some (pre, (q, rest))"
  shows "length pre + length rest \<le> length t" "consumes r \<Longrightarrow> length pre + length rest < length t"
proof -
  obtain q' u where u: "t = pre @ u" "(q, rest) \<in> set (ends r (q', u))" using find_match_later [OF assms] by blast
  from ends_later [OF u(2)] u(1) show "length pre + length rest \<le> length t" by (auto dest!: later_length)
  show "length pre + length rest < length t" if "consumes r" using consumes_shorter [OF that u(2)] u(1) by simp
qed

section \<open>All matches\<close>

text \<open>\<^verbatim>\<open>ReplaceAllString\<close> with a replacement without \<^verbatim>\<open>$\<close>, and \<^verbatim>\<open>FindAllStringIndex\<close>, both for expressions that
  consume something: the next search begins where the last match ended.\<close>

function replace_all :: "re \<Rightarrow> string \<Rightarrow> char option \<Rightarrow> string \<Rightarrow> string" where
  "replace_all r new p t =
     (case find_match r p t of
        None \<Rightarrow> t
      | Some (pre, (q, rest)) \<Rightarrow> if length rest < length t then pre @ new @ replace_all r new q rest else t)"
  by pat_completeness auto
termination by (relation "measure (\<lambda>(r, new, p, t). length t)") auto

definition ReplaceAllString :: "re \<Rightarrow> string \<Rightarrow> string \<Rightarrow> string" where
  "ReplaceAllString r s new = replace_all r new None s"

function all_spans :: "re \<Rightarrow> nat \<Rightarrow> char option \<Rightarrow> string \<Rightarrow> (nat \<times> nat) list" where
  "all_spans r off p t =
     (case find_match r p t of
        None \<Rightarrow> []
      | Some (pre, (q, rest)) \<Rightarrow>
          if length rest < length t then
            (off + length pre, off + (length t - length rest)) # all_spans r (off + (length t - length rest)) q rest
          else [])"
  by pat_completeness auto
termination by (relation "measure (\<lambda>(r, off, p, t). length t)") auto

declare replace_all.simps [simp del] all_spans.simps [simp del]

definition FindAllStringIndex :: "re \<Rightarrow> string \<Rightarrow> (nat \<times> nat) list" where
  "FindAllStringIndex r s = all_spans r 0 None s"

lemma ReplaceAllString_no_match: "\<not> MatchString r s \<Longrightarrow> ReplaceAllString r s new = s"
  by (cases "find_match r None s") (simp_all add: MatchString_def ReplaceAllString_def replace_all.simps [of r new None s])

lemma all_spans_cases:
  assumes "(a, b) \<in> set (all_spans r off p t)"
  obtains pre q rest where "find_match r p t = Some (pre, (q, rest))" "length rest < length t"
    "a = off + length pre \<and> b = off + (length t - length rest) \<or> (a, b) \<in> set (all_spans r (off + (length t - length rest)) q rest)"
proof (cases "find_match r p t")
  case None
  with assms show ?thesis by (subst (asm) all_spans.simps) simp
next
  case (Some m)
  obtain pre q rest where m: "m = (pre, (q, rest))" by (cases m)
  from assms have "length rest < length t" by (subst (asm) all_spans.simps) (simp add: Some m split: if_splits)
  moreover from this assms have "a = off + length pre \<and> b = off + (length t - length rest) \<or>
      (a, b) \<in> set (all_spans r (off + (length t - length rest)) q rest)"
    by (subst (asm) all_spans.simps) (simp add: Some m)
  ultimately show ?thesis using that Some m by blast
qed

lemma all_spans_bounds:
  "consumes r \<Longrightarrow> (a, b) \<in> set (all_spans r off p t) \<Longrightarrow> off \<le> a \<and> a < b \<and> b \<le> off + length t"
proof (induction r off p t arbitrary: a b rule: all_spans.induct)
  case (1 r off p t)
  from "1.prems"(2) obtain pre q rest where f: "find_match r p t = Some (pre, (q, rest))" "length rest < length t"
    and ab: "a = off + length pre \<and> b = off + (length t - length rest) \<or> (a, b) \<in> set (all_spans r (off + (length t - length rest)) q rest)"
    by (rule all_spans_cases)
  have short: "length pre + length rest < length t" using find_match_shorter(2) [OF f(1) "1.prems"(1)] .
  from ab show ?case
  proof
    assume "(a, b) \<in> set (all_spans r (off + (length t - length rest)) q rest)"
    from "1.IH" [OF f(1) refl refl f(2) "1.prems"(1) this] f(2) show ?thesis by arith
  qed (use short in simp)
qed

end
