(* ===== verification/Guardrails.thy ===== *)
theory Guardrails
  imports Regex Json Registry Utf8
begin

text \<open>
  The guardrails (\<^verbatim>\<open>internal/guardrails\<close>): the patterns for personal data and secrets, scanning and redaction of texts,
  of request and response bodies and of arbitrary results, the safe prefix of a stream, the detectors and the
  pipeline that runs them. Parameters: the JSON codec, the call to a guardrail model, the verdict cache and SHA-256.
\<close>

section \<open>Patterns\<close>

definition CheckPII :: string where "CheckPII = ''pii''"
definition CheckPIIFR :: string where "CheckPIIFR = ''pii_fr''"
definition CheckPIIUS :: string where "CheckPIIUS = ''pii_us''"
definition CheckPIIUK :: string where "CheckPIIUK = ''pii_uk''"
definition CheckPIIES :: string where "CheckPIIES = ''pii_es''"
definition CheckPIIIT :: string where "CheckPIIIT = ''pii_it''"
definition CheckSecrets :: string where "CheckSecrets = ''secrets''"

lemmas Check_defs = CheckPII_def CheckPIIFR_def CheckPIIUS_def CheckPIIUK_def CheckPIIES_def CheckPIIIT_def CheckSecrets_def

record namedPattern =
  np_group :: string
  np_name :: string
  np_re :: re
  np_placeholder :: string

text \<open>Building blocks: a sequence, a class given by its single bytes and ranges, digits, \<^verbatim>\<open>\s\<close>, and the letters under
  \<^verbatim>\<open>(?i)\<close>, which in Go include the long s and the Kelvin sign.\<close>

fun seqs :: "re list \<Rightarrow> re" where
  "seqs [] = Lit []"
| "seqs [r] = r"
| "seqs (r # r' # rs) = Seq r (seqs (r' # rs))"

definition bytes :: "string \<Rightarrow> (nat \<times> nat) list" where
  "bytes s = map (\<lambda>c. (of_char c, of_char c)) s"

definition rng :: "char \<Rightarrow> char \<Rightarrow> nat \<times> nat" where
  "rng a b = (of_char a, of_char b)"

definition digits :: "(nat \<times> nat) list" where "digits = [rng CHR ''0'' CHR ''9'']"
definition uppers :: "(nat \<times> nat) list" where "uppers = [rng CHR ''A'' CHR ''Z'']"
definition lowers :: "(nat \<times> nat) list" where "lowers = [rng CHR ''a'' CHR ''z'']"
definition blanks :: "(nat \<times> nat) list" where "blanks = [(9, 10), (12, 13), (32, 32)]"

abbreviation dig :: re where "dig \<equiv> Cls digits"
abbreviation exactly :: "nat \<Rightarrow> re \<Rightarrow> re" where "exactly n r \<equiv> Rep n (Some n) r"
abbreviation maybe :: "re \<Rightarrow> re" where "maybe r \<equiv> Rep 0 (Some 1) r"

definition fold_cls :: "(nat \<times> nat) list \<Rightarrow> re" where
  "fold_cls rs = Alt (Cls rs) (Alt (Lit [CHR 0xC5, CHR 0xBF]) (Lit [CHR 0xE2, CHR 0x84, CHR 0xAA]))"

definition email_re :: re where
  "email_re = seqs [Rep 1 None (fold_cls (lowers @ uppers @ digits @ bytes ''._%+-'')), Lit ''@'',
     Rep 1 None (fold_cls (lowers @ uppers @ digits @ bytes ''.-'')), Lit ''.'', Rep 2 None (fold_cls (lowers @ uppers))]"

definition credit_card_re :: re where
  "credit_card_re = seqs [WordB, Rep 13 (Some 16) (Seq dig (maybe (Cls (bytes '' -'')))), WordB]"

definition iban_re :: re where
  "iban_re = seqs [WordB, exactly 2 (Cls uppers), exactly 2 dig, exactly 4 (Cls (uppers @ digits)), exactly 7 dig,
     Rep 0 (Some 16) (Cls (uppers @ digits)), WordB]"

definition octet_re :: re where
  "octet_re = Alt (seqs [Lit ''25'', Cls [rng CHR ''0'' CHR ''5'']])
     (Alt (seqs [Lit ''2'', Cls [rng CHR ''0'' CHR ''4''], dig]) (seqs [maybe (Lit ''1''), maybe dig, dig]))"

definition ipv4_re :: re where
  "ipv4_re = seqs [WordB, exactly 3 (Seq octet_re (Lit ''.'')), octet_re, WordB]"

definition phone_intl_re :: re where
  "phone_intl_re = seqs [Lit ''+'', Cls [rng CHR ''1'' CHR ''9''], Rep 7 (Some 14) dig, WordB]"

definition phone_fr_re :: re where
  "phone_fr_re = seqs [Alt (Seq (Alt (Lit ''+'') (Lit ''00'')) (Lit ''33'')) (Lit ''0''), Rep 0 None (Cls blanks),
     Cls [rng CHR ''1'' CHR ''9''], exactly 4 (Seq (Rep 0 None (Cls (blanks @ bytes ''.-''))) (exactly 2 dig))]"

definition fr_nir_re :: re where
  "fr_nir_re = (let sp = maybe (Cls blanks) in
     seqs [WordB, Cls (bytes ''12''), sp, exactly 2 dig, sp,
       Alt (Seq (Lit ''0'') (Cls [rng CHR ''1'' CHR ''9''])) (Seq (Lit ''1'') (Cls [rng CHR ''0'' CHR ''2''])),
       sp, exactly 2 dig, sp, exactly 3 dig, sp, exactly 3 dig, sp, exactly 2 dig, WordB])"

definition uk_nino_re :: re where
  "uk_nino_re = (let sp = maybe (Cls blanks) in
     seqs [WordB, exactly 2 (Cls [rng CHR ''A'' CHR ''C'', rng CHR ''E'' CHR ''E'', rng CHR ''G'' CHR ''H'', rng CHR ''J'' CHR ''P'',
       rng CHR ''R'' CHR ''T'', rng CHR ''W'' CHR ''Z'']), sp, exactly 2 dig, sp, exactly 2 dig, sp, exactly 2 dig, sp,
       Cls [rng CHR ''A'' CHR ''D''], WordB])"

definition es_dni_re :: re where
  "es_dni_re = seqs [WordB, exactly 8 dig,
     Cls [rng CHR ''A'' CHR ''H'', rng CHR ''J'' CHR ''N'', rng CHR ''P'' CHR ''T'', rng CHR ''V'' CHR ''Z''], WordB]"

definition it_cf_re :: re where
  "it_cf_re = seqs [WordB, exactly 6 (Cls uppers), exactly 2 dig,
     Cls ([rng CHR ''A'' CHR ''E'', rng CHR ''R'' CHR ''T''] @ bytes ''HLMP''), exactly 2 dig, Cls uppers, exactly 3 dig, Cls uppers, WordB]"

definition token_cls :: re where
  "token_cls = Cls (uppers @ lowers @ digits @ bytes ''_-'')"

definition private_key_re :: re where
  "private_key_re = seqs [Lit ''-----BEGIN '',
     maybe (Alt (Lit ''RSA '') (Alt (Lit ''EC '') (Alt (Lit ''OPENSSH '') (Alt (Lit ''DSA '') (Lit ''PGP ''))))), Lit ''PRIVATE KEY-----'']"

definition jwt_re :: re where
  "jwt_re = seqs [Lit ''eyJ'', Rep 10 None token_cls, Lit ''.eyJ'', Rep 10 None token_cls, Lit ''.'', Rep 10 None token_cls]"

definition compiledPatterns :: "namedPattern list" where
  "compiledPatterns = map (\<lambda>(g, n, r, p). \<lparr>np_group = g, np_name = n, np_re = r, np_placeholder = p\<rparr>)
    [(CheckPII, ''email'', email_re, ''[REDACTED_EMAIL]''),
     (CheckPII, ''credit_card'', credit_card_re, ''[REDACTED_CREDIT_CARD]''),
     (CheckPII, ''iban'', iban_re, ''[REDACTED_IBAN]''),
     (CheckPII, ''ipv4'', ipv4_re, ''[REDACTED_IPV4]''),
     (CheckPII, ''phone_intl'', phone_intl_re, ''[REDACTED_PHONE_INTL]''),
     (CheckPIIFR, ''phone_fr'', phone_fr_re, ''[REDACTED_PHONE_FR]''),
     (CheckPIIFR, ''fr_nir'', fr_nir_re, ''[REDACTED_FR_NIR]''),
     (CheckPIIFR, ''siret'', seqs [WordB, exactly 14 dig, WordB], ''[REDACTED_SIRET]''),
     (CheckPIIFR, ''siren'', seqs [WordB, exactly 9 dig, WordB], ''[REDACTED_SIREN]''),
     (CheckPIIUS, ''us_ssn'', seqs [WordB, exactly 3 dig, Lit ''-'', exactly 2 dig, Lit ''-'', exactly 4 dig, WordB], ''[REDACTED_US_SSN]''),
     (CheckPIIUK, ''uk_nino'', uk_nino_re, ''[REDACTED_UK_NINO]''),
     (CheckPIIES, ''es_dni'', es_dni_re, ''[REDACTED_ES_DNI]''),
     (CheckPIIIT, ''it_codice_fiscale'', it_cf_re, ''[REDACTED_IT_CODICE_FISCALE]''),
     (CheckSecrets, ''aws_access_key'', seqs [Lit ''AKIA'', exactly 16 (Cls (digits @ uppers))], ''[REDACTED_AWS_ACCESS_KEY]''),
     (CheckSecrets, ''private_key'', private_key_re, ''[REDACTED_PRIVATE_KEY]''),
     (CheckSecrets, ''jwt'', jwt_re, ''[REDACTED_JWT]''),
     (CheckSecrets, ''github_token'',
        seqs [Lit ''gh'', Cls (bytes ''pousr''), Lit ''_'', Rep 36 None (Cls (uppers @ lowers @ digits))], ''[REDACTED_GITHUB_TOKEN]''),
     (CheckSecrets, ''slack_token'',
        seqs [Lit ''xox'', Cls (bytes ''baprs''), Lit ''-'', Rep 10 None (Cls (uppers @ lowers @ digits @ bytes ''-''))], ''[REDACTED_SLACK_TOKEN]''),
     (CheckSecrets, ''google_api_key'', seqs [Lit ''AIza'', exactly 35 token_cls], ''[REDACTED_GOOGLE_API_KEY]'')]"

definition groupEnabled :: "string \<Rightarrow> string list \<Rightarrow> bool" where
  "groupEnabled grp enabled \<longleftrightarrow> enabled = [] \<or> list_ex (\<lambda>g. g = grp) enabled"

section \<open>Scanning and redacting texts\<close>

text \<open>The categories found so far are in \<open>found\<close>, in the order in which they were found.\<close>

fun scan_text :: "namedPattern list \<Rightarrow> string list \<Rightarrow> string \<Rightarrow> string list \<Rightarrow> string list" where
  "scan_text [] enabled tx found = found"
| "scan_text (p # ps) enabled tx found =
     (if \<not> groupEnabled (np_group p) enabled \<or> np_name p \<in> set found then scan_text ps enabled tx found
      else if MatchString (np_re p) tx then scan_text ps enabled tx (found @ [np_name p])
      else scan_text ps enabled tx found)"

definition scanTexts :: "string list \<Rightarrow> string list \<Rightarrow> string list" where
  "scanTexts texts enabled = fold (\<lambda>tx found. scan_text compiledPatterns enabled tx found) texts []"

definition ScanStrings :: "string list \<Rightarrow> string list \<Rightarrow> string list" where
  "ScanStrings texts enabled = scanTexts texts enabled"

fun redact_with :: "namedPattern list \<Rightarrow> string list \<Rightarrow> string \<Rightarrow> string \<times> string list" where
  "redact_with [] enabled tx = (tx, [])"
| "redact_with (p # ps) enabled tx =
     (if groupEnabled (np_group p) enabled \<and> MatchString (np_re p) tx then
        (let (tx', cats) = redact_with ps enabled (ReplaceAllString (np_re p) tx (np_placeholder p)) in (tx', np_name p # cats))
      else redact_with ps enabled tx)"

definition applyRedactions :: "string \<Rightarrow> string list \<Rightarrow> string \<times> string list" where
  "applyRedactions tx enabled = redact_with compiledPatterns enabled tx"

definition RedactText :: "string \<Rightarrow> string list \<Rightarrow> string \<times> string list" where
  "RedactText tx enabled = applyRedactions tx enabled"

text \<open>The spans of a text, merged. Where two spans start at the same byte the order of \<^verbatim>\<open>sort.Slice\<close> is not specified,
  and the merged spans do not depend on it.\<close>

fun merge_from :: "nat \<times> nat \<Rightarrow> (nat \<times> nat) list \<Rightarrow> (nat \<times> nat) list" where
  "merge_from (a, b) [] = [(a, b)]"
| "merge_from (a, b) ((c, d) # ss) = (if c \<le> b then merge_from (a, max b d) ss else (a, b) # merge_from (c, d) ss)"

definition matchSpans :: "string \<Rightarrow> string list \<Rightarrow> (nat \<times> nat) list" where
  "matchSpans tx enabled =
     (let spans = concat (map (\<lambda>p. if groupEnabled (np_group p) enabled then FindAllStringIndex (np_re p) tx else []) compiledPatterns)
      in if length spans < 2 then spans
         else (let sorted = sort_key fst spans in merge_from (hd sorted) (tl sorted)))"

definition RuneStart :: "char \<Rightarrow> bool" where
  "RuneStart c \<longleftrightarrow> (let n = of_char c :: nat in \<not> (128 \<le> n \<and> n < 192))"

fun snap :: "string \<Rightarrow> nat \<Rightarrow> nat" where
  "snap tx 0 = 0"
| "snap tx (Suc b) = (if Suc b < length tx \<and> \<not> RuneStart (tx ! Suc b) then snap tx b else Suc b)"

definition out_of_spans :: "(nat \<times> nat) list \<Rightarrow> nat \<Rightarrow> nat" where
  "out_of_spans spans boundary = fold (\<lambda>(a, b) bd. if a < bd \<and> bd < b then a else bd) spans boundary"

definition SafeRedactPrefix :: "string \<Rightarrow> string list \<Rightarrow> int \<Rightarrow> string \<times> nat \<times> bool" where
  "SafeRedactPrefix tx enabled hold =
     (let b0 = int (length tx) - hold in
      if b0 \<le> 0 then ([], 0, False)
      else (let boundary = snap tx (out_of_spans (matchSpans tx enabled) (nat b0)) in
            if boundary = 0 then ([], 0, False)
            else (let (red, cats) = applyRedactions (take boundary tx) enabled in (red, boundary, cats \<noteq> []))))"

section \<open>Texts of a body\<close>

text \<open>\<open>parse\<close> decodes for a struct (members in the order of the document), \<open>parse_any\<close> into an \<^verbatim>\<open>any\<close> (one member per key);
  \<open>render\<close> is \<^verbatim>\<open>json.Marshal\<close>.\<close>

record json_codec =
  parse :: "string \<Rightarrow> json option"
  parse_any :: "string \<Rightarrow> json option"
  render :: "json \<Rightarrow> string option"

text \<open>Decoding into a string, a slice and a struct: \<^verbatim>\<open>null\<close> leaves the zero value, another kind of value is an error
  that fails the whole decoding.\<close>

definition dec_string :: "json \<Rightarrow> string option" where
  "dec_string j = (case j of JStr s \<Rightarrow> Some s | JNull \<Rightarrow> Some [] | _ \<Rightarrow> None)"

definition dec_list :: "(json \<Rightarrow> 'a option) \<Rightarrow> json \<Rightarrow> 'a list option" where
  "dec_list f j = (case j of JArr xs \<Rightarrow> those (map f xs) | JNull \<Rightarrow> Some [] | _ \<Rightarrow> None)"

definition dec_struct :: "json \<Rightarrow> (string \<times> json) list option" where
  "dec_struct j = (case j of JObj kvs \<Rightarrow> Some kvs | JNull \<Rightarrow> Some [] | _ \<Rightarrow> None)"

definition jraw :: "(string \<times> json) list \<Rightarrow> string \<Rightarrow> json option" where
  "jraw kvs name = map_option snd (find (\<lambda>p. fold_key (fst p) = name) (rev kvs))"

definition toolCall :: "json \<Rightarrow> string option" where
  "toolCall j =
     Option.bind (dec_struct j) (\<lambda>tc. Option.bind (dec_struct (jfield tc ''function'')) (\<lambda>fn. dec_string (jfield fn ''arguments'')))"

definition dec_message :: "json \<Rightarrow> (json option \<times> string list) option" where
  "dec_message j =
     Option.bind (dec_struct j) (\<lambda>kvs.
       Option.bind (dec_list toolCall (jfield kvs ''tool_calls'')) (\<lambda>calls. Some (jraw kvs ''content'', calls)))"

definition appendToolCallArgs :: "string list \<Rightarrow> string list \<Rightarrow> string list" where
  "appendToolCallArgs texts calls = texts @ filter (\<lambda>s. s \<noteq> []) (map TrimSpace calls)"

definition content_texts :: "json option \<Rightarrow> string list" where
  "content_texts content =
     (case content of
        None \<Rightarrow> []
      | Some raw \<Rightarrow>
          (case dec_string raw of
             Some s \<Rightarrow> [s]
           | None \<Rightarrow>
               (case dec_list (\<lambda>part. Option.bind (dec_struct part) (\<lambda>kvs. dec_string (jfield kvs ''text''))) raw of
                  Some parts \<Rightarrow> filter (\<lambda>t. t \<noteq> []) parts
                | None \<Rightarrow> [])))"

definition prompt_texts :: "json \<Rightarrow> string list" where
  "prompt_texts prompt =
     (case dec_string prompt of
        Some s \<Rightarrow> if s = [] then [] else [s]
      | None \<Rightarrow> (case dec_list dec_string prompt of Some arr \<Rightarrow> filter (\<lambda>p. p \<noteq> []) arr | None \<Rightarrow> []))"

definition extractMessageTexts :: "json_codec \<Rightarrow> string \<Rightarrow> string list" where
  "extractMessageTexts jc body =
     (case Option.bind (parse jc body) dec_struct of
        None \<Rightarrow> []
      | Some kvs \<Rightarrow>
          (case dec_list dec_message (jfield kvs ''messages'') of
             None \<Rightarrow> []
           | Some msgs \<Rightarrow>
               if msgs = [] then (case jraw kvs ''prompt'' of None \<Rightarrow> [] | Some p \<Rightarrow> prompt_texts p)
               else fold (\<lambda>msg texts. appendToolCallArgs texts (snd msg)) msgs (concat (map (\<lambda>msg. content_texts (fst msg)) msgs))))"

definition extractResponseTexts :: "json_codec \<Rightarrow> string \<Rightarrow> string list" where
  "extractResponseTexts jc body =
     (case Option.bind (parse jc body) dec_struct of
        None \<Rightarrow> []
      | Some kvs \<Rightarrow>
          (case dec_list (\<lambda>choice. Option.bind (dec_struct choice) (\<lambda>c. dec_message (jfield c ''message''))) (jfield kvs ''choices'') of
             None \<Rightarrow> []
           | Some choices \<Rightarrow> fold (\<lambda>msg texts. appendToolCallArgs texts (snd msg) @ content_texts (fst msg)) choices []))"

text \<open>Every string in a value; Go walks the members of an object in an unspecified order, here it is that of the list.\<close>

fun walk_texts :: "json \<Rightarrow> string list" where
  "walk_texts (JStr s) = (if TrimSpace s = [] then [] else [TrimSpace s])"
| "walk_texts (JArr xs) = concat (map walk_texts xs)"
| "walk_texts (JObj kvs) = concat (map (\<lambda>kv. walk_texts (snd kv)) kvs)"
| "walk_texts _ = []"

definition extractResultTexts :: "json_codec \<Rightarrow> string \<Rightarrow> string list" where
  "extractResultTexts jc body =
     (case parse_any jc body of
        None \<Rightarrow> (let s = TrimSpace body in if s = [] then [] else [s])
      | Some v \<Rightarrow> walk_texts v)"

definition Scan :: "json_codec \<Rightarrow> string \<Rightarrow> string list \<Rightarrow> string list" where
  "Scan jc body enabled = scanTexts (extractMessageTexts jc body) enabled"

definition ScanResponse :: "json_codec \<Rightarrow> string \<Rightarrow> string list \<Rightarrow> string list" where
  "ScanResponse jc body enabled = scanTexts (extractResponseTexts jc body) enabled"

section \<open>Redacting a body\<close>

text \<open>Each function returns the changed value and the categories redacted in it.\<close>

definition redact_part :: "string list \<Rightarrow> json \<Rightarrow> json \<times> string list" where
  "redact_part enabled part =
     (case part of
        JObj kvs \<Rightarrow>
          (case jget kvs ''text'' of
             Some (JStr t) \<Rightarrow> (let (new, cats) = applyRedactions t enabled in (JObj (jput ''text'' (JStr new) kvs), cats))
           | _ \<Rightarrow> (part, []))
      | _ \<Rightarrow> (part, []))"

definition redact_content :: "string list \<Rightarrow> (string \<times> json) list \<Rightarrow> (string \<times> json) list \<times> string list" where
  "redact_content enabled msg =
     (case jget msg ''content'' of
        Some (JStr cv) \<Rightarrow> (let (new, cats) = applyRedactions cv enabled in (jput ''content'' (JStr new) msg, cats))
      | Some (JArr cv) \<Rightarrow>
          (let parts = map (redact_part enabled) cv
           in (jput ''content'' (JArr (map fst parts)) msg, concat (map snd parts)))
      | _ \<Rightarrow> (msg, []))"

definition redact_tool_call :: "string list \<Rightarrow> json \<Rightarrow> json \<times> string list" where
  "redact_tool_call enabled call =
     (case call of
        JObj tc \<Rightarrow>
          (case jget tc ''function'' of
             Some (JObj fn) \<Rightarrow>
               (case jget fn ''arguments'' of
                  Some (JStr args) \<Rightarrow>
                    if args = [] then (call, [])
                    else (let (new, cats) = applyRedactions args enabled in
                          if cats = [] then (call, [])
                          else (JObj (jput ''function'' (JObj (jput ''arguments'' (JStr new) fn)) tc), cats))
                | _ \<Rightarrow> (call, []))
           | _ \<Rightarrow> (call, []))
      | _ \<Rightarrow> (call, []))"

definition redactToolCalls :: "string list \<Rightarrow> (string \<times> json) list \<Rightarrow> (string \<times> json) list \<times> string list" where
  "redactToolCalls enabled msg =
     (case jget msg ''tool_calls'' of
        Some (JArr calls) \<Rightarrow>
          (let res = map (redact_tool_call enabled) calls
           in (jput ''tool_calls'' (JArr (map fst res)) msg, concat (map snd res)))
      | _ \<Rightarrow> (msg, []))"

definition redact_message :: "string list \<Rightarrow> (string \<times> json) list \<Rightarrow> (string \<times> json) list \<times> string list" where
  "redact_message enabled msg =
     (let (msg1, cats1) = redact_content enabled msg; (msg2, cats2) = redactToolCalls enabled msg1 in (msg2, cats1 @ cats2))"

definition redact_choice :: "string list \<Rightarrow> json \<Rightarrow> json \<times> string list" where
  "redact_choice enabled choice =
     (case choice of
        JObj kvs \<Rightarrow>
          (case jget kvs ''message'' of
             Some (JObj msg) \<Rightarrow> (let (msg', cats) = redact_message enabled msg in (JObj (jput ''message'' (JObj msg') kvs), cats))
           | _ \<Rightarrow> (choice, []))
      | _ \<Rightarrow> (choice, []))"

text \<open>The common frame of \<^verbatim>\<open>Redact\<close> and \<^verbatim>\<open>RedactResponse\<close>: the elements of the array under \<open>key\<close> are redacted; without a
  redaction, or where the result cannot be encoded, the body is returned as it is.\<close>

definition redact_array :: "json_codec \<Rightarrow> string \<Rightarrow> (json \<Rightarrow> json \<times> string list) \<Rightarrow> string \<Rightarrow> string \<times> string list" where
  "redact_array jc key f body =
     (case parse_any jc body of
        Some (JObj payload) \<Rightarrow>
          (case jget payload key of
             Some (JArr items) \<Rightarrow>
               if items = [] then (body, [])
               else (let res = map f items; cats = concat (map snd res) in
                     if cats = [] then (body, [])
                     else (case render jc (JObj (jput key (JArr (map fst res)) payload)) of
                             None \<Rightarrow> (body, [])
                           | Some out \<Rightarrow> (out, sort (remdups cats))))
           | _ \<Rightarrow> (body, []))
      | _ \<Rightarrow> (body, []))"

definition Redact :: "json_codec \<Rightarrow> string \<Rightarrow> string list \<Rightarrow> string \<times> string list" where
  "Redact jc body enabled =
     redact_array jc ''messages''
       (\<lambda>msgRaw. case msgRaw of
          JObj msg \<Rightarrow> (let (msg', cats) = redact_message enabled msg in (JObj msg', cats)) | _ \<Rightarrow> (msgRaw, [])) body"

definition RedactResponse :: "json_codec \<Rightarrow> string \<Rightarrow> string list \<Rightarrow> string \<times> string list" where
  "RedactResponse jc body enabled = redact_array jc ''choices'' (redact_choice enabled) body"

fun walk_redact :: "string list \<Rightarrow> json \<Rightarrow> json \<times> string list" where
  "walk_redact enabled (JStr t) = (let (new, cats) = applyRedactions t enabled in (JStr new, cats))"
| "walk_redact enabled (JArr xs) =
     (let res = map (walk_redact enabled) xs in (JArr (map fst res), concat (map snd res)))"
| "walk_redact enabled (JObj kvs) =
     (let res = map (\<lambda>kv. (fst kv, walk_redact enabled (snd kv))) kvs
      in (JObj (map (\<lambda>kr. (fst kr, fst (snd kr))) res), concat (map (\<lambda>kr. snd (snd kr)) res)))"
| "walk_redact enabled j = (j, [])"

definition RedactResultTexts :: "json_codec \<Rightarrow> string \<Rightarrow> string list \<Rightarrow> string \<times> string list" where
  "RedactResultTexts jc body enabled =
     (case parse_any jc body of
        None \<Rightarrow> (let (red, matched) = applyRedactions body enabled in if matched = [] then (body, []) else (red, matched))
      | Some v \<Rightarrow>
          (let (v', cats) = walk_redact enabled v in
           if cats = [] then (body, [])
           else (case render jc v' of None \<Rightarrow> (body, []) | Some out \<Rightarrow> (out, first_occurrences {} cats))))"

section \<open>Detectors\<close>

record Finding =
  fi_Category :: string
  fi_Detector :: string
  fi_Score :: rat
  fi_Text :: string

definition Categories :: "Finding list \<Rightarrow> string list" where
  "Categories findings = map fi_Category findings"

definition categoriesToFindings :: "string list \<Rightarrow> string \<Rightarrow> Finding list" where
  "categoriesToFindings cats detector =
     map (\<lambda>c. \<lparr>fi_Category = c, fi_Detector = detector, fi_Score = 1, fi_Text = []\<rparr>) cats"

definition regex_Scan :: "string list \<Rightarrow> string list \<Rightarrow> Finding list" where
  "regex_Scan groups texts = categoriesToFindings (ScanStrings texts groups) ''regex''"

definition regex_Redact :: "json_codec \<Rightarrow> string list \<Rightarrow> string \<Rightarrow> string \<times> Finding list" where
  "regex_Redact jc groups body = (let (out, cats) = Redact jc body groups in (out, categoriesToFindings cats ''regex''))"

record modelResponse =
  mr_Findings :: "(string \<times> rat \<times> string) list"
  mr_RedactedTexts :: "string list"

text \<open>What a model detector works with, over a state of its own: the call to the model (\<open>None\<close> on a network error, a
  timeout, a status other than 200 or a body that does not decode), the verdict cache, and the digest of a key.\<close>

record 'w model_env =
  me_call :: "ModelConfig \<Rightarrow> string list \<Rightarrow> 'w \<Rightarrow> modelResponse option \<times> 'w"
  me_cache_get :: "string \<Rightarrow> 'w \<Rightarrow> Finding list option \<times> 'w"
  me_cache_set :: "string \<Rightarrow> Finding list \<Rightarrow> int \<Rightarrow> 'w \<Rightarrow> 'w"
  me_sha256_hex :: "string \<Rightarrow> string"

definition verdictKey :: "'w model_env \<Rightarrow> string \<Rightarrow> string list \<Rightarrow> string" where
  "verdictKey E detector texts = me_sha256_hex E (detector @ [CHR 0x00] @ join_with [CHR 0x00] texts)"

definition estimateTokens :: "string list \<Rightarrow> int" where
  "estimateTokens texts = int (sum_list (map length texts)) div 4"

definition model_filter :: "ModelConfig \<Rightarrow> modelResponse \<Rightarrow> Finding list" where
  "model_filter cfg mr =
     map (\<lambda>(cat, score, tx). \<lparr>fi_Category = cat, fi_Detector = mc_Name cfg, fi_Score = score, fi_Text = tx\<rparr>)
       (filter (\<lambda>(cat, score, _). mc_Threshold cfg \<le> score \<and> (mc_Categories cfg = [] \<or> cat \<in> set (mc_Categories cfg))) (mr_Findings mr))"

text \<open>\<^verbatim>\<open>Scan\<close> of a model detector; \<open>None\<close> is the error a detector with \<^verbatim>\<open>fail_closed\<close> hands on.\<close>

definition model_Scan :: "'w model_env \<Rightarrow> ModelConfig \<Rightarrow> string list \<Rightarrow> 'w \<Rightarrow> Finding list option \<times> 'w" where
  "model_Scan E cfg texts w =
     (if texts = [] then (Some [], w)
      else if mc_MaxInputTokens cfg > 0 \<and> estimateTokens texts > mc_MaxInputTokens cfg then (Some [], w)
      else
        (let key = verdictKey E (mc_Name cfg) texts;
             (hit, w1) = (if mc_CacheTTL cfg > 0 then me_cache_get E key w else (None, w))
         in case hit of
              Some findings \<Rightarrow> (Some findings, w1)
            | None \<Rightarrow>
                (case me_call E cfg texts w1 of
                   (None, w2) \<Rightarrow> (if mc_OnError cfg = ''fail_closed'' then None else Some [], w2)
                 | (Some raw, w2) \<Rightarrow>
                     (let findings = model_filter cfg raw in
                      (Some findings, if mc_CacheTTL cfg > 0 then me_cache_set E key findings (mc_CacheTTL cfg) w2 else w2)))))"

text \<open>\<^verbatim>\<open>bytes.ReplaceAll\<close>: an empty old value matches before every rune and at the end.\<close>

function before_runes :: "string \<Rightarrow> string \<Rightarrow> string" where
  "before_runes new s =
     (if s = [] then new
      else new @ take (snd (DecodeRune s)) s @ before_runes new (drop (snd (DecodeRune s)) s))"
  by pat_completeness auto
termination
  by (relation "measure (\<lambda>(new, s). length s)") (auto simp: DecodeRune_pos)

function replace_bytes :: "string \<Rightarrow> string \<Rightarrow> string \<Rightarrow> string" where
  "replace_bytes old new s =
     (if old = [] then before_runes new s
      else case cut old s of None \<Rightarrow> s | Some (a, b) \<Rightarrow> a @ new @ replace_bytes old new b)"
  by pat_completeness auto
termination
  by (relation "measure (\<lambda>(old, new, s). length s)") (auto dest!: cut_Some)

declare before_runes.simps [simp del] replace_bytes.simps [simp del]

definition mask_texts :: "string list \<Rightarrow> string list \<Rightarrow> string \<Rightarrow> string" where
  "mask_texts texts redacted body =
     fold (\<lambda>(orig, masked) out. if masked \<noteq> [] \<and> masked \<noteq> orig then replace_bytes orig masked out else out) (zip texts redacted) body"

text \<open>\<^verbatim>\<open>Redact\<close> of a model detector: the body, and the findings or an error.\<close>

definition model_Redact ::
  "'w model_env \<Rightarrow> json_codec \<Rightarrow> ModelConfig \<Rightarrow> string \<Rightarrow> 'w \<Rightarrow> (string \<times> Finding list option) \<times> 'w" where
  "model_Redact E jc cfg body w =
     (let texts = extractMessageTexts jc body in
      if mc_Kind cfg \<noteq> KindNER then (let (f, w1) = model_Scan E cfg texts w in ((body, f), w1))
      else if texts = [] then ((body, Some []), w)
      else (case me_call E cfg texts w of
              (None, w1) \<Rightarrow> ((body, if mc_OnError cfg = ''fail_closed'' then None else Some []), w1)
            | (Some raw, w1) \<Rightarrow> ((mask_texts texts (mr_RedactedTexts raw) body, Some (model_filter cfg raw)), w1)))"

section \<open>The pipeline\<close>

record ModelResult =
  res_Name :: string
  res_Action :: string
  res_Categories :: "string list"
  res_Err :: bool

definition Fired :: "ModelResult \<Rightarrow> bool" where
  "Fired r \<longleftrightarrow> res_Err r \<or> res_Categories r \<noteq> []"

definition model_result :: "Enforcement \<Rightarrow> Finding list option \<Rightarrow> ModelResult" where
  "model_result m res =
     \<lparr>res_Name = mc_Name (Detector m), res_Action = e_Action m,
      res_Categories = (case res of None \<Rightarrow> [] | Some f \<Rightarrow> Categories f), res_Err = (res = None)\<rparr>"

text \<open>The detectors run at the same time and their results are put back in order; here they run one after the
  other on the shared state.\<close>

fun run_models :: "'w model_env \<Rightarrow> Enforcement list \<Rightarrow> string list \<Rightarrow> 'w \<Rightarrow> ModelResult list \<times> 'w" where
  "run_models E [] texts w = ([], w)"
| "run_models E (m # ms) texts w =
     (let (res, w1) = model_Scan E (Detector m) texts w; (rest, w2) = run_models E ms texts w1
      in (model_result m res # rest, w2))"

definition EvaluateSync :: "'w model_env \<Rightarrow> Enforcement list \<Rightarrow> string list \<Rightarrow> 'w \<Rightarrow> ModelResult list \<times> 'w" where
  "EvaluateSync E models texts w =
     (let ms = filter (\<lambda>m. e_Mode m = ModeSync \<and> e_Action m \<noteq> ActionRedact) models in
      if ms = [] \<or> texts = [] then ([], w)
      else (let (res, w') = run_models E ms texts w in (filter Fired res, w')))"

definition EvaluateAll :: "'w model_env \<Rightarrow> Enforcement list \<Rightarrow> string list \<Rightarrow> 'w \<Rightarrow> ModelResult list \<times> 'w" where
  "EvaluateAll E models texts w =
     (if models = [] \<or> texts = [] then ([], w)
      else (let (res, w') = run_models E models texts w in (filter Fired res, w')))"

record RedactResult =
  rd_Name :: string
  rd_Categories :: "string list"
  rd_Err :: bool

fun EvaluateRedact :: "'w model_env \<Rightarrow> json_codec \<Rightarrow> Enforcement list \<Rightarrow> string \<Rightarrow> 'w \<Rightarrow> (string \<times> RedactResult list) \<times> 'w" where
  "EvaluateRedact E jc [] body w = ((body, []), w)"
| "EvaluateRedact E jc (m # ms) body w =
     (if e_Mode m \<noteq> ModeSync \<or> e_Action m \<noteq> ActionRedact then EvaluateRedact E jc ms body w
      else
        (let ((cleaned, res), w1) = model_Redact E jc (Detector m) body w;
             (body1, entry) = (case res of
                 None \<Rightarrow> (body, [\<lparr>rd_Name = mc_Name (Detector m), rd_Categories = [], rd_Err = True\<rparr>])
               | Some [] \<Rightarrow> (body, [])
               | Some f \<Rightarrow> (cleaned, [\<lparr>rd_Name = mc_Name (Detector m), rd_Categories = Categories f, rd_Err = False\<rparr>]));
             ((out, rest), w2) = EvaluateRedact E jc ms body1 w1
         in ((out, entry @ rest), w2)))"

definition MaxScore :: "Finding list \<Rightarrow> rat" where
  "MaxScore findings = fold (\<lambda>f best. if fi_Score f > best then fi_Score f else best) findings 0"

text \<open>\<^verbatim>\<open>FireAsync\<close>: what the observer is told, detector by detector.\<close>

fun FireAsync :: "'w model_env \<Rightarrow> Enforcement list \<Rightarrow> string list \<Rightarrow> 'w \<Rightarrow> (string \<times> string list \<times> rat) list \<times> 'w" where
  "FireAsync E [] texts w = ([], w)"
| "FireAsync E (m # ms) texts w =
     (if texts = [] \<or> e_Mode m \<noteq> ModeAsync then FireAsync E ms texts w
      else
        (let (res, w1) = model_Scan E (Detector m) texts w; (rest, w2) = FireAsync E ms texts w1
         in (case res of
               None \<Rightarrow> (rest, w2)
             | Some f \<Rightarrow> if Categories f = [] then (rest, w2)
                         else ((mc_Name (Detector m), Categories f, MaxScore f) # rest, w2))))"

end
