(* ===== verification/StreamGuard.thy ===== *)
theory StreamGuard
  imports Guardrails
begin

text \<open>
  Output guardrails on a streamed answer (\<^verbatim>\<open>internal/llmproxy/stream_guard.go\<close>): content is held back in a buffer and
  released in pieces that do not cut through a match. The writer is a parameter, a function from what is written to
  whether it was accepted; flushing it has no effect on the answer.
\<close>

section \<open>The guard\<close>

type_synonym 'w writer = "string \<Rightarrow> 'w \<Rightarrow> bool \<times> 'w"

record 'w streamGuard =
  g_w :: 'w
  checks :: "string list"
  g_redact :: bool
  window :: int
  pending :: string
  g_id :: string
  g_model :: string
  g_created :: rat
  aborted :: bool
  violated :: bool

text \<open>The window is about four characters a token; a configured one is far from where the product would overflow.\<close>

definition newStreamGuard :: "'w \<Rightarrow> string list \<Rightarrow> bool \<Rightarrow> int \<Rightarrow> 'w streamGuard" where
  "newStreamGuard w cs redact windowTokens =
     \<lparr>g_w = w, checks = cs, g_redact = redact, window = (if windowTokens \<le> 0 then 64 else windowTokens) * 4,
      pending = [], g_id = [], g_model = [], g_created = 0, aborted = False, violated = False\<rparr>"

section \<open>Chunks\<close>

definition cutData :: "string \<Rightarrow> string option" where
  "cutData raw = (if HasPrefix raw ''data:'' then Some (TrimSpace (TrimPrefix raw ''data:'')) else None)"

definition part_text :: "json \<Rightarrow> string" where
  "part_text part = (case part of JObj p \<Rightarrow> (case jget p ''text'' of Some (JStr t) \<Rightarrow> t | _ \<Rightarrow> []) | _ \<Rightarrow> [])"

text \<open>The content of a delta; empty content is no content.\<close>

definition extractDeltaContent :: "json option \<Rightarrow> string" where
  "extractDeltaContent v =
     (case v of Some (JStr cv) \<Rightarrow> cv | Some (JArr cv) \<Rightarrow> concat (map part_text cv) | _ \<Rightarrow> [])"

record chunk =
  ch_content :: string
  ch_finish :: bool
  ch_siblings :: bool
  ch_rawNoContent :: string

abbreviation opaque_chunk :: "string \<Rightarrow> chunk" where
  "opaque_chunk data \<equiv> \<lparr>ch_content = [], ch_finish = False, ch_siblings = False, ch_rawNoContent = data\<rparr>"

definition without_content ::
  "(string \<times> json) list \<Rightarrow> (string \<times> json) list \<Rightarrow> json list \<Rightarrow> (string \<times> json) list \<Rightarrow> json" where
  "without_content obj c0 cs delta =
     JObj (jput ''choices'' (JArr (JObj (jput ''delta'' (JObj (jdel ''content'' delta)) c0) # cs)) obj)"

definition parseChunk :: "json_codec \<Rightarrow> string \<Rightarrow> chunk" where
  "parseChunk jc data =
     (case parse_any jc data of
        Some (JObj obj) \<Rightarrow>
          (case jget obj ''choices'' of
             Some (JArr (JObj c0 # cs)) \<Rightarrow>
               (let hasFinish = (case jget c0 ''finish_reason'' of None \<Rightarrow> False | Some fr \<Rightarrow> fr \<noteq> JNull) in
                (case jget c0 ''delta'' of
                   Some (JObj delta) \<Rightarrow>
                     (let content = extractDeltaContent (jget delta ''content'');
                          hasSiblings = list_ex (\<lambda>kv. fst kv \<noteq> ''content'') delta
                      in \<lparr>ch_content = content, ch_finish = hasFinish, ch_siblings = hasSiblings,
                          ch_rawNoContent =
                            (if content \<noteq> [] \<and> (hasFinish \<or> hasSiblings)
                             then (case render jc (without_content obj c0 cs delta) of None \<Rightarrow> [] | Some b \<Rightarrow> b) else [])\<rparr>)
                 | _ \<Rightarrow> \<lparr>ch_content = [], ch_finish = hasFinish, ch_siblings = False, ch_rawNoContent = []\<rparr>))
           | _ \<Rightarrow> opaque_chunk data)
      | _ \<Rightarrow> opaque_chunk data)"

definition dec_num :: "json \<Rightarrow> rat option" where
  "dec_num j = (case j of JNum n \<Rightarrow> Some n | JNull \<Rightarrow> Some 0 | _ \<Rightarrow> None)"

definition captureEnvelope :: "json_codec \<Rightarrow> string \<Rightarrow> 'w streamGuard \<Rightarrow> 'w streamGuard" where
  "captureEnvelope jc data g =
     (if g_id g \<noteq> [] then g
      else case Option.bind (parse jc data) dec_struct of
             None \<Rightarrow> g
           | Some kvs \<Rightarrow>
               (case (dec_string (jfield kvs ''id''), dec_string (jfield kvs ''model''), dec_num (jfield kvs ''created'')) of
                  (Some i, Some mo, Some cr) \<Rightarrow> g\<lparr>g_id := i, g_model := mo, g_created := cr\<rparr>
                | _ \<Rightarrow> g))"

section \<open>Writing\<close>

definition g_write :: "'w writer \<Rightarrow> string \<Rightarrow> 'w streamGuard \<Rightarrow> bool \<times> 'w streamGuard" where
  "g_write wr s g = (let (ok, w') = wr s (g_w g) in (ok, g\<lparr>g_w := w'\<rparr>))"

definition sse :: "string \<Rightarrow> string" where
  "sse data = ''data: '' @ data @ [CHR 0x0A, CHR 0x0A]"

definition content_chunk :: "'w streamGuard \<Rightarrow> string \<Rightarrow> json" where
  "content_chunk g content =
     JObj ([(''object'', JStr ''chat.completion.chunk''),
            (''choices'', JArr [JObj [(''index'', JNum 0), (''delta'', JObj [(''content'', JStr content)])]])]
       @ (if g_id g = [] then [] else [(''id'', JStr (g_id g))])
       @ (if g_model g = [] then [] else [(''model'', JStr (g_model g))])
       @ (if g_created g = 0 then [] else [(''created'', JNum (g_created g))]))"

definition writeContentChunk :: "'w writer \<Rightarrow> json_codec \<Rightarrow> string \<Rightarrow> 'w streamGuard \<Rightarrow> bool \<times> 'w streamGuard" where
  "writeContentChunk wr jc content g =
     (if content = [] then (True, g)
      else case render jc (content_chunk g content) of None \<Rightarrow> (True, g) | Some b \<Rightarrow> g_write wr (sse b) g)"

section \<open>Releasing and reading\<close>

definition blocked_frame :: string where
  "blocked_frame = sse (''{'' @ [CHR 0x22] @ ''error'' @ [CHR 0x22] @ '':'' @ [CHR 0x22] @ ''response blocked by guardrails'' @ [CHR 0x22] @ ''}'')"

definition emit :: "'w writer \<Rightarrow> json_codec \<Rightarrow> bool \<Rightarrow> 'w streamGuard \<Rightarrow> bool \<times> 'w streamGuard" where
  "emit wr jc final g =
     (if pending g = [] then (True, g)
      else if g_redact g then
        (let (red, consumed, matched) = SafeRedactPrefix (pending g) (checks g) (if final then 0 else window g) in
         if consumed = 0 then (True, g)
         else writeContentChunk wr jc red
                (g\<lparr>violated := violated g \<or> matched, pending := drop consumed (pending g)\<rparr>))
      else if ScanStrings [pending g] (checks g) \<noteq> [] then
        (let (_, g1) = g_write wr blocked_frame (g\<lparr>violated := True, aborted := True\<rparr>);
             (_, g2) = g_write wr (sse ''[DONE]'') g1
         in (False, g2))
      else
        (let end0 = int (length (pending g)) - (if final then 0 else window g);
             end = (if end0 \<le> 0 then 0 else snap (pending g) (nat end0))
         in if end = 0 then (True, g)
            else writeContentChunk wr jc (take end (pending g)) (g\<lparr>pending := drop end (pending g)\<rparr>)))"

text \<open>What \<^verbatim>\<open>line\<close> does everywhere: release, and forward something unless that stopped the stream.\<close>

definition emit_write :: "'w writer \<Rightarrow> json_codec \<Rightarrow> bool \<Rightarrow> string \<Rightarrow> 'w streamGuard \<Rightarrow> bool \<times> 'w streamGuard" where
  "emit_write wr jc final s g = (let (ok, g1) = emit wr jc final g in if \<not> ok then (False, g1) else g_write wr s g1)"

definition guard_line :: "'w writer \<Rightarrow> json_codec \<Rightarrow> string \<Rightarrow> 'w streamGuard \<Rightarrow> bool \<times> 'w streamGuard" where
  "guard_line wr jc raw g =
     (if raw = [] then (True, g)
      else case cutData raw of
        None \<Rightarrow> emit_write wr jc True (raw @ [CHR 0x0A, CHR 0x0A]) g
      | Some data \<Rightarrow>
          if data = ''[DONE]'' then (False, snd (emit_write wr jc True (sse ''[DONE]'') g))
          else
            (let ch = parseChunk jc data; g1 = captureEnvelope jc data g in
             if ch_content ch = [] then
               (if ch_finish ch then emit_write wr jc True (sse data) g1 else g_write wr (sse data) g1)
             else
               (let g2 = g1\<lparr>pending := pending g1 @ ch_content ch\<rparr> in
                if ch_finish ch then emit_write wr jc True (sse (ch_rawNoContent ch)) g2
                else if ch_siblings ch then emit_write wr jc False (sse (ch_rawNoContent ch)) g2
                else emit wr jc False g2)))"

definition finish :: "'w writer \<Rightarrow> json_codec \<Rightarrow> 'w streamGuard \<Rightarrow> 'w streamGuard" where
  "finish wr jc g = snd (emit wr jc True g)"

text \<open>The loop of \<^verbatim>\<open>handleStream\<close> over the lines of the backend's answer.\<close>

fun guard_lines :: "'w writer \<Rightarrow> json_codec \<Rightarrow> string list \<Rightarrow> 'w streamGuard \<Rightarrow> 'w streamGuard" where
  "guard_lines wr jc [] g = g"
| "guard_lines wr jc (l # ls) g = (let (ok, g1) = guard_line wr jc l g in if ok then guard_lines wr jc ls g1 else g1)"

definition guard_stream :: "'w writer \<Rightarrow> json_codec \<Rightarrow> string list \<Rightarrow> 'w streamGuard \<Rightarrow> 'w streamGuard" where
  "guard_stream wr jc ls g = finish wr jc (guard_lines wr jc ls g)"

end
