(* ===== verification/GuardrailsRun.thy ===== *)
theory GuardrailsRun
  imports Guardrails
begin

text \<open>
  What scanning and redaction promise: they agree on what they find, the safe prefix of a stream never cuts through
  a rune or a match, a redacted result keeps its structure, and where redaction and scanning fall short.
\<close>

section \<open>Rune boundaries\<close>

text \<open>\<^verbatim>\<open>utf8.ValidString\<close>.\<close>

function valid_utf8 :: "string \<Rightarrow> bool" where
  "valid_utf8 s = (if s = [] then True else DecodeRune s \<noteq> (RuneError, 1) \<and> valid_utf8 (drop (snd (DecodeRune s)) s))"
  by pat_completeness auto
termination by (relation "measure length") (auto simp: DecodeRune_pos)

declare valid_utf8.simps [simp del]

lemma valid_utf8_Nil [simp]: "valid_utf8 []"
  by (simp add: valid_utf8.simps)

lemma RuneStart_byte: "RuneStart c \<longleftrightarrow> \<not> cont 128 191 (byte c)"
  by (auto simp: RuneStart_def cont_def byte_def Let_def)

text \<open>A rune that decodes begins with a byte that may begin one, and its other bytes may not.\<close>

lemma DecodeRune_bytes:
  assumes "DecodeRune (c # cs) \<noteq> (RuneError, 1)"
  shows "RuneStart c" "snd (DecodeRune (c # cs)) \<le> Suc (length cs)"
    "\<And>i. 0 < i \<Longrightarrow> i < snd (DecodeRune (c # cs)) \<Longrightarrow> \<not> RuneStart ((c # cs) ! i)"
proof -
  let ?n = "rune_size (byte c)"
  obtain lo hi where r: "second_range (byte c) = (lo, hi)" by fastforce
  have bd: "128 \<le> lo" "hi \<le> 191" using r by (auto simp: second_range_def split: if_splits)
  have ok: "?n = 1 \<or> ?n \<noteq> 0 \<and> ?n - 1 \<le> length cs \<and> cont lo hi (hd (map byte cs)) \<and> list_all (cont 128 191) (take (?n - 2) (tl (map byte cs)))"
    using assms by (auto simp: Let_def r split: if_splits)
  have n: "snd (DecodeRune (c # cs)) = ?n"
    using assms ok by (auto simp: Let_def r split: if_splits)
  show "RuneStart c" using ok by (auto simp: RuneStart_byte rune_size_def cont_def split: if_splits)
  show "snd (DecodeRune (c # cs)) \<le> Suc (length cs)" using n ok by (cases cs) auto
  show "\<not> RuneStart ((c # cs) ! i)" if "0 < i" "i < snd (DecodeRune (c # cs))" for i
  proof -
    from that n ok have k: "?n - 1 \<le> length cs" "cont lo hi (hd (map byte cs))" "list_all (cont 128 191) (take (?n - 2) (tl (map byte cs)))"
      by auto
    obtain j where j: "i = Suc j" using \<open>0 < i\<close> gr0_implies_Suc by blast
    from k(1) that n j have len: "j < length cs" by simp
    then obtain d ds where cs: "cs = d # ds" by (cases cs) auto
    show ?thesis
    proof (cases j)
      case 0
      with cs k(2) bd show ?thesis by (simp add: j RuneStart_byte cont_def)
    next
      case (Suc l)
      with that n len j cs have "l < ?n - 2" "l < length ds" by auto
      with k(3) cs have "cont 128 191 (map byte ds ! l)" by (simp add: list_all_length)
      with \<open>l < length ds\<close> show ?thesis by (simp add: j Suc cs RuneStart_byte)
    qed
  qed
qed

lemma valid_hd: "valid_utf8 (c # cs) \<Longrightarrow> RuneStart c"
  using DecodeRune_bytes(1) [of c cs] by (subst (asm) valid_utf8.simps) (simp del: DecodeRune.simps)

text \<open>In a valid text the bytes that may begin a rune do.\<close>

lemma valid_drop: "valid_utf8 s \<Longrightarrow> i < length s \<Longrightarrow> RuneStart (s ! i) \<Longrightarrow> valid_utf8 (drop i s)"
proof (induction s arbitrary: i rule: valid_utf8.induct)
  case (1 s)
  then obtain c cs where s: "s = c # cs" by (cases s) auto
  let ?n = "snd (DecodeRune s)"
  have ok: "DecodeRune s \<noteq> (RuneError, 1)" "valid_utf8 (drop ?n s)"
    using "1.prems"(1) s by (subst (asm) valid_utf8.simps; simp)+
  consider "i = 0" | "0 < i" "i < ?n" | "?n \<le> i" by linarith
  then show ?case
  proof cases
    case 1
    with "1.prems" show ?thesis by simp
  next
    case 2
    with DecodeRune_bytes(3) [of c cs i] ok(1) "1.prems"(3) s show ?thesis by simp
  next
    case 3
    with "1.prems" have "i - ?n < length (drop ?n s)" "drop ?n s ! (i - ?n) = s ! i" by auto
    with "1.IH" [of "i - ?n"] ok s "1.prems"(3) have "valid_utf8 (drop (i - ?n) (drop ?n s))" by simp
    with 3 show ?thesis by simp
  qed
qed

lemma valid_ascii: "list_all (\<lambda>c. byte c < 128) s \<Longrightarrow> valid_utf8 s"
proof (induction s)
  case (Cons c cs)
  then have "DecodeRune (c # cs) = (byte c, 1)" by (simp add: Let_def rune_size_def split: prod.split)
  with Cons show ?case by (subst valid_utf8.simps) (simp add: RuneError_def del: DecodeRune.simps)
qed simp

section \<open>Matches end at rune boundaries\<close>

text \<open>The last thing a match consumes: an ASCII byte, the long s or the Kelvin sign.\<close>

definition closer :: "string \<Rightarrow> bool" where
  "closer w \<longleftrightarrow> (\<exists>c. w = [c] \<and> byte c < 128) \<or> w = [CHR 0xC5, CHR 0xBF] \<or> w = [CHR 0xE2, CHR 0x84, CHR 0xAA]"

definition closed :: "string \<Rightarrow> string \<Rightarrow> bool" where
  "closed t t' \<longleftrightarrow> t = t' \<or> (\<exists>v w. closer w \<and> t = v @ w @ t')"

fun whole :: "re \<Rightarrow> bool" where
  "whole (Cls rs) = list_all (\<lambda>(lo, hi). hi < 128) rs"
| "whole (Lit s) = (s = [] \<or> byte (last s) < 128 \<or> s = [CHR 0xC5, CHR 0xBF] \<or> s = [CHR 0xE2, CHR 0x84, CHR 0xAA])"
| "whole (Seq a b) = (whole a \<and> whole b)"
| "whole (Alt a b) = (whole a \<and> whole b)"
| "whole (Rep lo hi r) = whole r"
| "whole WordB = True"

lemma closed_refl [simp]: "closed t t"
  by (simp add: closed_def)

lemma closed_trans:
  assumes "closed t t'" "closed t' t''"
  shows "closed t t''"
proof (cases "t' = t''")
  case False
  with assms(2) obtain v w where "closer w" "t' = v @ w @ t''" by (auto simp: closed_def)
  moreover obtain u where "t = u @ t'" using assms(1) by (auto simp: closed_def)
  ultimately have "closer w \<and> t = (u @ v) @ w @ t''" by simp
  then show ?thesis unfolding closed_def by blast
qed (use assms in simp)

lemma eat_append: "y \<in> set (eat s x) \<Longrightarrow> snd x = s @ snd y"
proof (induction s x rule: eat.induct)
  case (2 c cs p t)
  then show ?case by (cases t) (auto split: if_splits)
qed simp

lemma times_closed:
  assumes "\<And>x y. y \<in> set (f x) \<Longrightarrow> closed (snd x) (snd y)"
  shows "y \<in> set (times_ends f n x) \<Longrightarrow> closed (snd x) (snd y)"
proof (induction n arbitrary: x)
  case (Suc n)
  then obtain z where "z \<in> set (f x)" "y \<in> set (times_ends f n z)" by auto
  then show ?case using Suc.IH assms closed_trans by blast
qed simp

lemma upto_closed:
  assumes "\<And>x y. y \<in> set (f x) \<Longrightarrow> closed (snd x) (snd y)"
  shows "y \<in> set (upto_ends f n x) \<Longrightarrow> closed (snd x) (snd y)"
proof (induction n arbitrary: x)
  case (Suc n)
  then consider "y = x" | z where "z \<in> set (f x)" "y \<in> set (upto_ends f n z)" by auto
  then show ?case using Suc.IH assms closed_trans by cases (simp, blast)
qed simp

lemma ends_closed: "whole r \<Longrightarrow> y \<in> set (ends r x) \<Longrightarrow> closed (snd x) (snd y)"
proof (induction r arbitrary: x y)
  case (Cls rs)
  then obtain p c cs where x: "x = (p, c # cs)" "in_class rs c" "y = (Some c, cs)"
    by (cases x; cases "snd x") (auto split: if_splits)
  with Cls.prems(1) have "byte c < 128" by (auto simp: in_class_def byte_def list_ex_iff list_all_iff)
  then have "closer [c] \<and> c # cs = [] @ [c] @ cs" by (simp add: closer_def)
  then show ?case unfolding x closed_def snd_conv by blast
next
  case (Lit s)
  then have t: "snd x = s @ snd y" by (simp add: eat_append)
  consider "s = []" | "s \<noteq> []" "byte (last s) < 128" | "closer s" using Lit.prems(1) by (auto simp: closer_def)
  then show ?case
  proof cases
    case 2
    then have "closer [last s] \<and> snd x = butlast s @ [last s] @ snd y" using t by (simp add: closer_def)
    then show ?thesis unfolding closed_def by blast
  next
    case 3
    with t have "closer s \<and> snd x = [] @ s @ snd y" by simp
    then show ?thesis unfolding closed_def by blast
  qed (simp add: t)
next
  case (Seq a b)
  then obtain z where "z \<in> set (ends a x)" "y \<in> set (ends b z)" by auto
  with Seq.IH Seq.prems(1) show ?case using closed_trans by (metis whole.simps(3))
next
  case (Rep lo hi r)
  then obtain n z where "z \<in> set (times_ends (ends r) lo x)" "y \<in> set (upto_ends (ends r) n z)" by auto
  moreover have c: "closed (snd x) (snd y)" if "y \<in> set (ends r x)" for x y using Rep.IH Rep.prems(1) that by simp
  ultimately show ?case using times_closed [of "ends r", OF c] upto_closed [of "ends r", OF c] closed_trans by blast
qed (auto split: if_splits)

lemma all_spans_closed:
  "whole r \<Longrightarrow> consumes r \<Longrightarrow> (a, b) \<in> set (all_spans r off p t) \<Longrightarrow>
     \<exists>v w. closer w \<and> t = v @ w @ drop (b - off) t"
proof (induction r off p t arbitrary: a b rule: all_spans.induct)
  case (1 r off p t)
  from "1.prems"(3) obtain pre q rest where f: "find_match r p t = Some (pre, (q, rest))" "length rest < length t"
    and ab: "a = off + length pre \<and> b = off + (length t - length rest) \<or> (a, b) \<in> set (all_spans r (off + (length t - length rest)) q rest)"
    by (rule all_spans_cases)
  obtain q' u where u: "t = pre @ u" "(q, rest) \<in> set (ends r (q', u))" using find_match_later [OF f(1)] by blast
  have "length rest < length u" using consumes_shorter [OF "1.prems"(2) u(2)] by simp
  with ends_closed [OF "1.prems"(1) u(2)] obtain v w where w: "closer w" "u = v @ w @ rest" by (auto simp: closed_def)
  with u have t: "t = (pre @ v @ w) @ rest" by simp
  from ab consider "b = off + (length t - length rest)" | "(a, b) \<in> set (all_spans r (off + (length t - length rest)) q rest)"
    by blast
  then show ?case
  proof cases
    case 1
    then have "drop (b - off) t = rest" by (simp add: t)
    with w(1) t have "closer w \<and> t = (pre @ v) @ w @ drop (b - off) t" by simp
    then show ?thesis by blast
  next
    case 2
    let ?k = "length t - length rest"
    from "1.IH" [OF f(1) refl refl f(2) "1.prems"(1,2) 2]
    obtain v' w' where "closer w' \<and> rest = v' @ w' @ drop (b - (off + ?k)) rest" by blast
    moreover have "drop (b - (off + ?k)) rest = drop (b - off) t"
      using all_spans_bounds [OF "1.prems"(2) 2] by (auto simp: t add.assoc)
    ultimately have "closer w' \<and> t = (pre @ v @ w @ v') @ w' @ drop (b - off) t" using t by simp
    then show ?thesis by blast
  qed
qed

lemma closer_decodes:
  assumes "closer w"
  shows "w \<noteq> []" "RuneStart (hd w)" "DecodeRune (w @ t) \<noteq> (RuneError, 1)" "snd (DecodeRune (w @ t)) = length w"
proof -
  from assms consider c where "w = [c]" "byte c < 128" | "w = [CHR 0xC5, CHR 0xBF]" | "w = [CHR 0xE2, CHR 0x84, CHR 0xAA]"
    by (auto simp: closer_def)
  then have "w \<noteq> [] \<and> RuneStart (hd w) \<and> DecodeRune (w @ t) \<noteq> (RuneError, 1) \<and> snd (DecodeRune (w @ t)) = length w"
    by cases (simp_all add: RuneStart_byte Let_def byte_def rune_size_def cont_def second_range_def RuneError_def)
  then show "w \<noteq> []" "RuneStart (hd w)" "DecodeRune (w @ t) \<noteq> (RuneError, 1)" "snd (DecodeRune (w @ t)) = length w"
    by blast+
qed

lemma closer_boundary:
  assumes "closer w" "valid_utf8 (v @ w @ t)"
  shows "valid_utf8 t"
proof -
  have "valid_utf8 (w @ t)"
    using valid_drop [OF assms(2), of "length v"] closer_decodes(1,2) [OF assms(1)] by (simp add: nth_append hd_conv_nth)
  with closer_decodes(3,4) [OF assms(1), of t] closer_decodes(1) [OF assms(1)] show ?thesis by (subst (asm) valid_utf8.simps) simp
qed

section \<open>Merged spans\<close>

text \<open>Spans in order, with a gap between neighbours.\<close>

fun gapped :: "(nat \<times> nat) list \<Rightarrow> bool" where
  "gapped ((a, b) # (c, d) # ss) = (b < c \<and> c < d \<and> gapped ((c, d) # ss))"
| "gapped _ = True"

lemma merge_from_hd: "\<exists>b' ss'. merge_from (a, b) ss = (a, b') # ss' \<and> b \<le> b'"
proof (induction ss arbitrary: b)
  case (Cons s ss)
  obtain c d where s: "s = (c, d)" by fastforce
  show ?case using Cons.IH [of "max b d"] by (force simp: s)
qed simp

lemma merge_from_gapped:
  "a < b \<Longrightarrow> list_all (\<lambda>(c, d). c < d) ss \<Longrightarrow> gapped (merge_from (a, b) ss)"
proof (induction ss arbitrary: a b)
  case (Cons s ss)
  obtain c d where s: "s = (c, d)" by fastforce
  show ?case
  proof (cases "c \<le> b")
    case True
    with Cons s show ?thesis by auto
  next
    case False
    obtain b' ss' where m: "merge_from (c, d) ss = (c, b') # ss'" "d \<le> b'" using merge_from_hd by blast
    have "gapped (merge_from (c, d) ss)" using Cons.IH [of c d] Cons.prems(2) s by simp
    with m False Cons.prems(2) s show ?thesis by simp
  qed
qed simp

text \<open>Every span lies in a merged one, which ends where some span ends.\<close>

lemma merge_from_cover:
  "sorted (map fst ((a, b) # ss)) \<Longrightarrow> (x, y) \<in> set ((a, b) # ss) \<Longrightarrow>
     \<exists>a' b'. (a', b') \<in> set (merge_from (a, b) ss) \<and> a' \<le> x \<and> y \<le> b'"
proof (induction ss arbitrary: a b)
  case (Cons s ss)
  obtain c d where s: "s = (c, d)" by fastforce
  show ?case
  proof (cases "c \<le> b")
    case True
    show ?thesis
    proof (cases "(x, y) \<in> set ss")
      case True
      then show ?thesis using Cons.IH [of a "max b d"] Cons.prems(1) s \<open>c \<le> b\<close> by auto
    next
      case False
      with Cons.prems s have "a \<le> x" "y \<le> max b d" by auto
      moreover obtain b' ss' where "merge_from (a, max b d) ss = (a, b') # ss'" "max b d \<le> b'" using merge_from_hd by blast
      ultimately have "(a, b') \<in> set (merge_from (a, b) (s # ss)) \<and> a \<le> x \<and> y \<le> b'" using \<open>c \<le> b\<close> s by auto
      then show ?thesis by blast
    qed
  next
    case False
    then show ?thesis using Cons.IH [of c d] Cons.prems s by auto
  qed
qed auto

lemma merge_from_ends: "(x, y) \<in> set (merge_from (a, b) ss) \<Longrightarrow> y = b \<or> y \<in> snd ` set ss"
proof (induction ss arbitrary: a b)
  case (Cons s ss)
  obtain c d where s: "s = (c, d)" by fastforce
  show ?case using Cons.IH [of a "max b d"] Cons.IH [of c d] Cons.prems by (auto simp: s max_def split: if_splits)
qed simp

lemma gapped_starts: "gapped ((a, b) # ss) \<Longrightarrow> (c, d) \<in> set ss \<Longrightarrow> b < c"
proof (induction ss arbitrary: a b)
  case (Cons s ss)
  obtain x y where s: "s = (x, y)" by fastforce
  with Cons.prems have g: "b < x" "x < y" "gapped ((x, y) # ss)" by auto
  show ?case
  proof (cases "(c, d) = s")
    case False
    with Cons.prems(2) Cons.IH [OF g(3)] g s show ?thesis by auto
  qed (use g s in simp)
qed simp

lemma gapped_tl: "gapped (s # ss) \<Longrightarrow> gapped ss"
  by (cases s; cases ss) auto

lemma out_of_spans_Cons: "out_of_spans ((a, b) # ss) n = out_of_spans ss (if a < n \<and> n < b then a else n)"
  by (simp add: out_of_spans_def)

lemma out_of_spans_value: "out_of_spans spans n \<le> n \<and> (out_of_spans spans n = n \<or> out_of_spans spans n \<in> fst ` set spans)"
proof (induction spans arbitrary: n)
  case (Cons s ss)
  obtain a b where s: "s = (a, b)" by fastforce
  show ?case
  proof (cases "a < n \<and> n < b")
    case True
    with Cons.IH [of a] s show ?thesis unfolding s out_of_spans_Cons by auto
  next
    case False
    with Cons.IH [of n] s show ?thesis unfolding s out_of_spans_Cons by auto
  qed
qed (simp add: out_of_spans_def)

lemma out_of_spans_id: "(\<And>a b. (a, b) \<in> set spans \<Longrightarrow> b \<le> n) \<Longrightarrow> out_of_spans spans n = n"
proof (induction spans)
  case (Cons s ss)
  obtain a b where s: "s = (a, b)" by fastforce
  with Cons.prems have "b \<le> n" by auto
  with Cons s show ?case by (auto simp: out_of_spans_Cons)
qed (simp add: out_of_spans_def)

lemma out_of_gapped:
  "gapped spans \<Longrightarrow> (a, b) \<in> set spans \<Longrightarrow> \<not> (a < out_of_spans spans n \<and> out_of_spans spans n < b)"
proof (induction spans arbitrary: n)
  case (Cons s ss)
  obtain c d where s: "s = (c, d)" by fastforce
  let ?m = "if c < n \<and> n < d then c else n"
  note starts = gapped_starts [OF Cons.prems(1) [unfolded s]]
  show ?case
  proof (cases "(a, b) \<in> set ss")
    case True
    then show ?thesis using Cons.IH [OF gapped_tl [OF Cons.prems(1)], of ?m] by (simp add: s out_of_spans_Cons)
  next
    case False
    with Cons.prems(2) s have ab: "a = c" "b = d" by auto
    from out_of_spans_value [of ss ?m] consider "out_of_spans ss ?m = ?m" | "out_of_spans ss ?m \<in> fst ` set ss" by blast
    then show ?thesis
    proof cases
      case 1
      then show ?thesis by (auto simp: s ab out_of_spans_Cons)
    next
      case 2
      then have "d < out_of_spans ss ?m" using starts by fastforce
      then show ?thesis by (simp add: s ab out_of_spans_Cons)
    qed
  qed
qed simp

text \<open>The merged spans of a text.\<close>

lemma patterns_whole: "list_all (\<lambda>p. consumes (np_re p) \<and> whole (np_re p)) compiledPatterns"
  by code_simp

lemma pattern_span:
  assumes "p \<in> set compiledPatterns" "(a, b) \<in> set (FindAllStringIndex (np_re p) tx)"
  shows "a < b" "b \<le> length tx" "valid_utf8 tx \<Longrightarrow> valid_utf8 (drop b tx)"
proof -
  have p: "consumes (np_re p)" "whole (np_re p)" using patterns_whole assms(1) by (auto simp: list_all_iff)
  show "a < b" "b \<le> length tx"
    using all_spans_bounds [OF p(1) assms(2) [unfolded FindAllStringIndex_def]] by auto
  show "valid_utf8 (drop b tx)" if "valid_utf8 tx"
  proof -
    from all_spans_closed [OF p(2,1) assms(2) [unfolded FindAllStringIndex_def]]
    obtain v w where vw: "closer w" "tx = v @ w @ drop b tx" by auto
    then have "valid_utf8 (v @ w @ drop b tx)" using that by simp
    with vw(1) show ?thesis by (rule closer_boundary)
  qed
qed

lemma matchSpans_spec:
  shows "gapped (matchSpans tx enabled)"
    and "(a, b) \<in> set (matchSpans tx enabled) \<Longrightarrow> b \<le> length tx \<and> (valid_utf8 tx \<longrightarrow> valid_utf8 (drop b tx))"
    and "p \<in> set compiledPatterns \<Longrightarrow> groupEnabled (np_group p) enabled \<Longrightarrow> (x, y) \<in> set (FindAllStringIndex (np_re p) tx) \<Longrightarrow>
      \<exists>a b. (a, b) \<in> set (matchSpans tx enabled) \<and> a \<le> x \<and> y \<le> b"
proof -
  define spans where "spans = concat (map (\<lambda>p. if groupEnabled (np_group p) enabled then FindAllStringIndex (np_re p) tx else []) compiledPatterns)"
  have sp: "a < b \<and> b \<le> length tx \<and> (valid_utf8 tx \<longrightarrow> valid_utf8 (drop b tx))" if "(a, b) \<in> set spans" for a b
    using that pattern_span by (auto simp: spans_def split: if_splits)
  have all: "(x, y) \<in> set spans" if "p \<in> set compiledPatterns" "groupEnabled (np_group p) enabled" "(x, y) \<in> set (FindAllStringIndex (np_re p) tx)" for p x y
    using that by (auto simp: spans_def)
  have "gapped (matchSpans tx enabled) \<and>
    (\<forall>(a, b) \<in> set (matchSpans tx enabled). b \<in> snd ` set spans) \<and>
    (\<forall>(x, y) \<in> set spans. \<exists>a b. (a, b) \<in> set (matchSpans tx enabled) \<and> a \<le> x \<and> y \<le> b)"
  proof (cases "length spans < 2")
    case True
    then have "matchSpans tx enabled = spans" by (simp add: matchSpans_def spans_def Let_def)
    moreover from True have "gapped spans" by (cases spans rule: gapped.cases) auto
    ultimately show ?thesis by force
  next
    case False
    define ss where "ss = sort_key fst spans"
    obtain a b rest where ss: "ss = (a, b) # rest" using False by (cases ss) (auto simp: ss_def dest: arg_cong [of _ _ length])
    have m: "matchSpans tx enabled = merge_from (a, b) rest"
      using False ss by (simp add: matchSpans_def spans_def [symmetric] ss_def [symmetric] Let_def)
    have set: "set ((a, b) # rest) = set spans" by (simp add: ss [symmetric] ss_def)
    have "sorted (map fst ((a, b) # rest))" by (simp add: ss [symmetric] ss_def)
    then have "\<forall>(x, y) \<in> set spans. \<exists>a' b'. (a', b') \<in> set (merge_from (a, b) rest) \<and> a' \<le> x \<and> y \<le> b'"
      using merge_from_cover set by blast
    moreover have "gapped (merge_from (a, b) rest)"
      using set sp by (intro merge_from_gapped) (auto simp: list_all_iff)
    moreover have "\<forall>(x, y) \<in> set (merge_from (a, b) rest). y \<in> snd ` set spans"
      using merge_from_ends [of _ _ a b rest] set by force
    ultimately show ?thesis by (simp add: m)
  qed
  then show "gapped (matchSpans tx enabled)"
    and "(a, b) \<in> set (matchSpans tx enabled) \<Longrightarrow> b \<le> length tx \<and> (valid_utf8 tx \<longrightarrow> valid_utf8 (drop b tx))"
    and "p \<in> set compiledPatterns \<Longrightarrow> groupEnabled (np_group p) enabled \<Longrightarrow> (x, y) \<in> set (FindAllStringIndex (np_re p) tx) \<Longrightarrow>
      \<exists>a b. (a, b) \<in> set (matchSpans tx enabled) \<and> a \<le> x \<and> y \<le> b"
    using sp all by (blast | fastforce)+
qed

section \<open>Scanning and redacting\<close>

definition fires :: "string list \<Rightarrow> string \<Rightarrow> namedPattern \<Rightarrow> bool" where
  "fires enabled tx p \<longleftrightarrow> groupEnabled (np_group p) enabled \<and> MatchString (np_re p) tx"

lemma scan_text_spec:
  "distinct found \<Longrightarrow> distinct (scan_text ps enabled tx found) \<and>
     set (scan_text ps enabled tx found) = set found \<union> np_name ` {p \<in> set ps. fires enabled tx p}"
proof (induction ps arbitrary: found)
  case (Cons p ps)
  then have "distinct (scan_text ps enabled tx found)" "distinct (np_name p # found) \<Longrightarrow> distinct (scan_text ps enabled tx (found @ [np_name p]))"
    by auto
  with Cons show ?case by (auto simp: fires_def)
qed simp

lemma scanTexts_spec:
  "distinct (scanTexts texts enabled) \<and>
   set (scanTexts texts enabled) = np_name ` {p \<in> set compiledPatterns. \<exists>tx\<in>set texts. fires enabled tx p}"
proof -
  have "distinct found \<Longrightarrow>
      distinct (fold (scan_text compiledPatterns enabled) texts found) \<and>
      set (fold (scan_text compiledPatterns enabled) texts found) =
        set found \<union> np_name ` {p \<in> set compiledPatterns. \<exists>tx\<in>set texts. fires enabled tx p}" for found
  proof (induction texts arbitrary: found)
    case (Cons tx texts)
    note sp = scan_text_spec [OF Cons.prems, of compiledPatterns enabled tx]
    from Cons.IH [of "scan_text compiledPatterns enabled tx found"] sp show ?case by auto
  qed simp
  from this [of "[]"] show ?thesis by (simp add: scanTexts_def)
qed

lemma redact_with_none: "redact_with ps enabled tx = (tx, []) \<longleftrightarrow> (\<forall>p\<in>set ps. \<not> fires enabled tx p)"
  by (induction ps) (auto simp: fires_def split: prod.splits)

lemma redact_with_nothing_found: "snd (redact_with ps enabled tx) = [] \<longleftrightarrow> redact_with ps enabled tx = (tx, [])"
  by (induction ps) (auto split: prod.splits)

lemma applyRedactions_none: "applyRedactions tx enabled = (tx, []) \<longleftrightarrow> scanTexts [tx] enabled = []"
  using scanTexts_spec [of "[tx]" enabled] redact_with_none [of compiledPatterns enabled tx]
  by (auto simp: applyRedactions_def simp flip: set_empty)

text \<open>Scanning reports each category once, exactly those of the enabled patterns that match one of the texts, and
  redaction of a text leaves it unchanged and reports nothing exactly when scanning it finds nothing.\<close>

theorem scan_and_redact_agree:
  "distinct (ScanStrings texts enabled)
   \<and> set (ScanStrings texts enabled) =
       {np_name p |p. p \<in> set compiledPatterns \<and> groupEnabled (np_group p) enabled \<and> list_ex (MatchString (np_re p)) texts}
   \<and> (RedactText tx enabled = (tx, []) \<longleftrightarrow> ScanStrings [tx] enabled = [])
   \<and> (snd (RedactText tx enabled) = [] \<longleftrightarrow> ScanStrings [tx] enabled = [])"
  using scanTexts_spec [of texts enabled] applyRedactions_none [of tx enabled] redact_with_nothing_found [of compiledPatterns enabled tx]
  by (auto simp: ScanStrings_def RedactText_def applyRedactions_def fires_def list_ex_iff)

lemma applyRedactions_Nil [simp]: "applyRedactions [] enabled = ([], [])"
proof -
  have "\<not> fires enabled [] p" if "p \<in> set compiledPatterns" for p
  proof -
    have "consumes (np_re p)" using patterns_whole that by (auto simp: list_all_iff)
    then have "ends (np_re p) (None, []) = []" using consumes_shorter [of "np_re p" _ "(None, [])"] by (cases "ends (np_re p) (None, [])") auto
    then show ?thesis by (simp add: fires_def MatchString_def)
  qed
  then show ?thesis by (simp add: applyRedactions_def redact_with_none)
qed

section \<open>The safe prefix\<close>

lemma snap_spec:
  "snap tx n \<le> n" "snap tx n = 0 \<or> length tx \<le> snap tx n \<or> RuneStart (tx ! snap tx n)"
  "snap tx n < i \<Longrightarrow> i \<le> n \<Longrightarrow> i < length tx \<and> \<not> RuneStart (tx ! i)"
proof (induction n)
  case (Suc n)
  {
    case 1
    then show ?case using Suc by auto
  next
    case 2
    then show ?case using Suc by auto
  next
    case 3
    then show ?case using Suc.IH(3) by (cases "i = Suc n") (auto split: if_splits)
  }
qed auto

lemma SafeRedactPrefix_facts:
  assumes "valid_utf8 tx" "0 \<le> hold" "SafeRedactPrefix tx enabled hold = (red, n, matched)"
  shows "int n \<le> max 0 (int (length tx) - hold)"
    and "n = length tx \<or> RuneStart (tx ! n)"
    and "(red, matched) = (fst (applyRedactions (take n tx) enabled), snd (applyRedactions (take n tx) enabled) \<noteq> [])"
    and "p \<in> set compiledPatterns \<Longrightarrow> groupEnabled (np_group p) enabled \<Longrightarrow> (a, b) \<in> set (FindAllStringIndex (np_re p) tx) \<Longrightarrow> \<not> (a < n \<and> n < b)"
    and "hold = 0 \<Longrightarrow> n = length tx"
proof -
  let ?spans = "matchSpans tx enabled" and ?n0 = "nat (int (length tx) - hold)"
  let ?m = "out_of_spans ?spans ?n0"
  have n: "n = (if int (length tx) - hold \<le> 0 then 0 else snap tx ?m)"
    using assms(3) by (auto simp: SafeRedactPrefix_def Let_def split: if_splits prod.splits)
  show red: "(red, matched) = (fst (applyRedactions (take n tx) enabled), snd (applyRedactions (take n tx) enabled) \<noteq> [])"
    using assms(3) by (auto simp: SafeRedactPrefix_def Let_def split: if_splits prod.splits)
  have m: "?m \<le> ?n0" using out_of_spans_value by blast
  show "int n \<le> max 0 (int (length tx) - hold)" using n m snap_spec(1) [of tx ?m] by auto
  have zero: "tx = [] \<or> RuneStart (tx ! 0)" using assms(1) valid_hd by (cases tx) auto
  have le: "n \<le> length tx" using n m snap_spec(1) [of tx ?m] assms(2) by auto
  then show "n = length tx \<or> RuneStart (tx ! n)"
    using n snap_spec(2) [of tx ?m] zero by (auto split: if_splits)
  have merged: "\<not> (a < n \<and> n < b)" if ab: "(a, b) \<in> set ?spans" for a b
  proof
    assume in_ab: "a < n \<and> n < b"
    then have n': "n = snap tx ?m" using n by (auto split: if_splits)
    with in_ab snap_spec(1) [of tx ?m] out_of_gapped [OF matchSpans_spec(1) ab, of ?n0] have "b \<le> ?m" by linarith
    with snap_spec(3) [of tx ?m b] in_ab n' have b: "b < length tx" "\<not> RuneStart (tx ! b)" by auto
    with matchSpans_spec(2) [OF ab] assms(1) have "valid_utf8 (tx ! b # drop (Suc b) tx)" by (simp add: Cons_nth_drop_Suc)
    with valid_hd b(2) show False by blast
  qed
  show "\<not> (a < n \<and> n < b)"
    if "p \<in> set compiledPatterns" "groupEnabled (np_group p) enabled" "(a, b) \<in> set (FindAllStringIndex (np_re p) tx)" for p a b
    using matchSpans_spec(3) [OF that] merged by fastforce
  show "n = length tx" if "hold = 0"
  proof (cases "tx = []")
    case False
    have "?m = length tx" using that matchSpans_spec(2) by (auto intro: out_of_spans_id)
    then show ?thesis using n that False snap_spec(3) [of tx "length tx" "length tx"] snap_spec(1) [of tx "length tx"]
      by (auto simp: order.order_iff_strict)
  qed (use le in simp)
qed

text \<open>C23: The prefix that a stream may release leaves the held window, ends between two runes and never inside a match of
  an enabled pattern; what is released is its redaction, flagged exactly if something in it was redacted; at the end
  of the stream everything is released.\<close>

theorem SafeRedactPrefix_safe:
  assumes "valid_utf8 tx" "0 \<le> hold" "SafeRedactPrefix tx enabled hold = (red, n, matched)"
  shows "int n \<le> max 0 (int (length tx) - hold) \<and> (n = length tx \<or> RuneStart (tx ! n))
    \<and> (red, matched) = (fst (applyRedactions (take n tx) enabled), snd (applyRedactions (take n tx) enabled) \<noteq> [])
    \<and> (\<forall>p a b. p \<in> set compiledPatterns \<and> groupEnabled (np_group p) enabled \<and> (a, b) \<in> set (FindAllStringIndex (np_re p) tx)
         \<longrightarrow> \<not> (a < n \<and> n < b))
    \<and> (hold = 0 \<longrightarrow> n = length tx)"
  using SafeRedactPrefix_facts [OF assms] by blast

text \<open>Six characters are to be held back, which would cut the number; it is held as a whole.\<close>

theorem SafeRedactPrefix_safe_witness:
  "valid_utf8 ''no. 078051120 is'' \<and>
   SafeRedactPrefix ''no. 078051120 is'' [CheckPIIFR] 6 = (''no. '', 4, False) \<and>
   (4 = length ''no. 078051120 is'' \<or> RuneStart (''no. 078051120 is'' ! 4))"
proof -
  have v: "valid_utf8 ''no. 078051120 is''" by (rule valid_ascii) code_simp
  have "concat (map (\<lambda>p. if groupEnabled (np_group p) [CheckPIIFR] then FindAllStringIndex (np_re p) ''no. 078051120 is'' else [])
      compiledPatterns) = [(4, 13)]" by code_simp
  then have "matchSpans ''no. 078051120 is'' [CheckPIIFR] = [(4, 13)]" by (simp add: matchSpans_def)
  moreover have "snap ''no. 078051120 is'' (out_of_spans [(4, 13)] 10) = 4" by code_simp
  moreover have "applyRedactions ''no. '' [CheckPIIFR] = (''no. '', [])" by code_simp
  ultimately have e: "SafeRedactPrefix ''no. 078051120 is'' [CheckPIIFR] 6 = (''no. '', 4, False)" by (simp add: SafeRedactPrefix_def)
  from SafeRedactPrefix_safe [OF v _ e] v e show ?thesis by simp
qed

section \<open>Where redaction and scanning fall short\<close>

text \<open>Redaction is not idempotent: a second pass over a redacted text can redact more, because a placeholder may
  complete the word boundary that another pattern was missing.\<close>

theorem redaction_not_idempotent:
  "RedactText ''123456789AKIAABCDEFGHIJKLMNOP'' [CheckPIIFR, CheckSecrets] = (''123456789[REDACTED_AWS_ACCESS_KEY]'', [''aws_access_key''])
   \<and> RedactText ''123456789[REDACTED_AWS_ACCESS_KEY]'' [CheckPIIFR, CheckSecrets] =
       (''[REDACTED_SIREN][REDACTED_AWS_ACCESS_KEY]'', [''siren''])"
  by (intro conjI; code_simp)

text \<open>One tool call whose arguments are not a string takes a whole request past the input scan: nothing in any of its
  messages is found, although redaction of the same request still finds it.\<close>

theorem malformed_tool_call_evades_scan:
  assumes "parse jc body = Some doc" "parse_any jc body = Some doc" "render jc = (\<lambda>j. Some (enc j))"
    and "doc = JObj [(''messages'', JArr [JObj [(''content'', JStr tx)],
           JObj [(''tool_calls'', JArr [JObj [(''function'', JObj [(''arguments'', JObj args)])]])]])]"
    and "ScanStrings [tx] enabled \<noteq> []"
  shows "Scan jc body enabled = [] \<and> snd (Redact jc body enabled) \<noteq> []"
proof
  show "Scan jc body enabled = []"
    by (simp add: Scan_def extractMessageTexts_def assms(1,4) dec_struct_def jfield_def dec_list_def dec_message_def toolCall_def dec_string_def
        scanTexts_def jraw_def)
  have "snd (applyRedactions tx enabled) \<noteq> []"
    using assms(5) applyRedactions_none [of tx enabled] redact_with_nothing_found [of compiledPatterns enabled tx]
    by (simp add: ScanStrings_def applyRedactions_def)
  then show "snd (Redact jc body enabled) \<noteq> []"
    by (auto simp: Redact_def redact_array_def assms(2,3,4) jget_def redact_message_def redact_content_def redactToolCalls_def Let_def
        redact_tool_call_def split: prod.splits dest!: arg_cong [of _ _ set])
qed

definition evading_doc :: json where
  "evading_doc = JObj [(''messages'', JArr [JObj [(''content'', JStr ''078051120'')],
     JObj [(''tool_calls'', JArr [JObj [(''function'', JObj [(''arguments'', JObj [])])]])]])]"

definition one_doc_codec :: "json \<Rightarrow> json_codec" where
  "one_doc_codec doc = \<lparr>parse = \<lambda>_. Some doc, parse_any = \<lambda>_. Some doc, render = \<lambda>_. Some []\<rparr>"

theorem malformed_tool_call_evades_scan_witness:
  "Scan (one_doc_codec evading_doc) [] [CheckPIIFR] = [] \<and> snd (Redact (one_doc_codec evading_doc) [] [CheckPIIFR]) \<noteq> []"
proof -
  have "ScanStrings [''078051120''] [CheckPIIFR] \<noteq> []" by code_simp
  then show ?thesis
    by (intro malformed_tool_call_evades_scan [where doc = evading_doc and enc = "\<lambda>_. []" and args = "[]" and tx = "''078051120''"])
      (simp_all add: one_doc_codec_def evading_doc_def)
qed

section \<open>Redaction of a result\<close>

text \<open>All strings of a value, and a value with each of its strings changed.\<close>

fun leaves :: "json \<Rightarrow> string list" where
  "leaves (JStr s) = [s]"
| "leaves (JArr xs) = concat (map leaves xs)"
| "leaves (JObj kvs) = concat (map (\<lambda>kv. leaves (snd kv)) kvs)"
| "leaves _ = []"

fun map_leaves :: "(string \<Rightarrow> string) \<Rightarrow> json \<Rightarrow> json" where
  "map_leaves f (JStr s) = JStr (f s)"
| "map_leaves f (JArr xs) = JArr (map (map_leaves f) xs)"
| "map_leaves f (JObj kvs) = JObj (map (\<lambda>kv. (fst kv, map_leaves f (snd kv))) kvs)"
| "map_leaves f j = j"

lemma concat_concat_map: "concat (concat (map f xs)) = concat (map (\<lambda>x. concat (f x)) xs)"
  by (induction xs) auto

lemma walk_redact_leaves:
  "walk_redact enabled j = (map_leaves (\<lambda>t. fst (applyRedactions t enabled)) j, concat (map (\<lambda>t. snd (applyRedactions t enabled)) (leaves j)))"
proof (induction enabled j rule: walk_redact.induct)
  case (2 enabled xs)
  then show ?case by (auto simp: Let_def map_concat concat_concat_map comp_def cong: map_cong)
next
  case (3 enabled kvs)
  then show ?case by (auto simp: Let_def map_concat concat_concat_map comp_def cong: map_cong)
qed (auto split: prod.split)

text \<open>A job result comes back as it was when no enabled pattern fires on any of its strings. Otherwise every string in
  it is replaced by its redaction and nothing else changes, neither keys nor numbers nor its shape, and the
  categories reported are those redacted somewhere in it, each once.\<close>

theorem RedactResultTexts_spec:
  assumes "parse_any jc body = Some v" "render jc (map_leaves (\<lambda>t. fst (RedactText t enabled)) v) = Some out"
  shows "if ScanStrings (leaves v) enabled = [] then RedactResultTexts jc body enabled = (body, [])
    else \<exists>cats. RedactResultTexts jc body enabled = (out, cats) \<and> cats \<noteq> [] \<and> distinct cats \<and>
           set cats = (\<Union>t\<in>set (leaves v). set (snd (RedactText t enabled)))"
proof -
  let ?cats = "concat (map (\<lambda>t. snd (applyRedactions t enabled)) (leaves v))"
  have w: "walk_redact enabled v = (map_leaves (\<lambda>t. fst (applyRedactions t enabled)) v, ?cats)" by (rule walk_redact_leaves)
  have "?cats = [] \<longleftrightarrow> (\<forall>t\<in>set (leaves v). \<forall>p\<in>set compiledPatterns. \<not> fires enabled t p)"
    using redact_with_nothing_found [of compiledPatterns enabled] redact_with_none [of compiledPatterns enabled]
    by (simp add: applyRedactions_def)
  also have "\<dots> \<longleftrightarrow> ScanStrings (leaves v) enabled = []"
    using scanTexts_spec [of "leaves v" enabled] by (auto simp: ScanStrings_def simp flip: set_empty)
  finally have none: "?cats = [] \<longleftrightarrow> ScanStrings (leaves v) enabled = []" .
  show ?thesis
  proof (cases "?cats = []")
    case True
    then have "RedactResultTexts jc body enabled = (body, [])" by (simp only: RedactResultTexts_def assms(1) w option.case Let_def prod.case simp_thms if_True)
    with True none show ?thesis by simp
  next
    case False
    then have "RedactResultTexts jc body enabled = (out, first_occurrences {} ?cats)"
      using assms(2) by (simp only: RedactResultTexts_def RedactText_def assms(1) w option.case Let_def prod.case if_False)
    moreover have "set (first_occurrences {} ?cats) = (\<Union>t\<in>set (leaves v). set (snd (RedactText t enabled)))"
      by (simp add: set_first_occurrences RedactText_def)
    moreover have "set (first_occurrences {} ?cats) \<noteq> {}" using False by (simp only: set_first_occurrences set_empty Diff_empty not_False_eq_True)
    ultimately show ?thesis using False none distinct_first_occurrences [of "{}" ?cats] by auto
  qed
qed

theorem RedactResultTexts_spec_witness:
  "\<exists>cats. RedactResultTexts (one_doc_codec (JArr [JStr ''078051120'', JNum 3])) [] [CheckPIIFR] = ([], cats) \<and> distinct cats \<and> cats \<noteq> []"
proof -
  have "ScanStrings (leaves (JArr [JStr ''078051120'', JNum 3])) [CheckPIIFR] \<noteq> []" by code_simp
  with RedactResultTexts_spec [where jc = "one_doc_codec (JArr [JStr ''078051120'', JNum 3])" and body = "[]" and enabled = "[CheckPIIFR]"
      and v = "JArr [JStr ''078051120'', JNum 3]" and out = "[]"]
  show ?thesis by (auto simp: one_doc_codec_def)
qed

end
