(* ===== verification/StreamRun.thy ===== *)
theory StreamRun
  imports StreamGuard GuardrailsRun "HOL-Library.Sublist"
begin

text \<open>
  What the stream guard promises. In redact mode all content arrives in order, cut into pieces that are redacted one by
  one, and where it is cut is safe as long as content ends with the first line that flushes the buffer; a line that is
  no data flushes it too, and there a match leaks. In block mode only text in which nothing matches is released.
\<close>

section \<open>Lines\<close>

definition ends_stream :: "string \<Rightarrow> bool" where
  "ends_stream raw \<longleftrightarrow> cutData raw = Some ''[DONE]''"

definition line_content :: "json_codec \<Rightarrow> string \<Rightarrow> string" where
  "line_content jc raw =
     (case cutData raw of None \<Rightarrow> [] | Some data \<Rightarrow> if data = ''[DONE]'' then [] else ch_content (parseChunk jc data))"

definition flushes :: "json_codec \<Rightarrow> string \<Rightarrow> bool" where
  "flushes jc raw \<longleftrightarrow> raw \<noteq> [] \<and> (case cutData raw of None \<Rightarrow> True | Some data \<Rightarrow> data = ''[DONE]'' \<or> ch_finish (parseChunk jc data))"

definition stream_content :: "json_codec \<Rightarrow> string list \<Rightarrow> string" where
  "stream_content jc ls = concat (map (line_content jc) (takeWhile (\<lambda>l. \<not> ends_stream l) ls))"

fun content_then_flush :: "json_codec \<Rightarrow> string list \<Rightarrow> bool" where
  "content_then_flush jc [] = True"
| "content_then_flush jc (l # ls) =
     (ends_stream l \<or> (flushes jc l \<longrightarrow> stream_content jc ls = []) \<and> content_then_flush jc ls)"

lemma cutData_Nil [simp]: "cutData [] = None"
  by (simp add: cutData_def HasPrefix_def)

lemma stream_content_Cons:
  "stream_content jc (l # ls) = (if ends_stream l then [] else line_content jc l @ stream_content jc ls)"
  by (simp add: stream_content_def)

text \<open>The frames a line may be forwarded as: without content it goes on as it is; of a chunk with content that has something else
  besides, what is left without the content; a chunk that is all content not at all.\<close>

definition line_frames :: "json_codec \<Rightarrow> string \<Rightarrow> string list" where
  "line_frames jc raw =
     (if raw = [] then []
      else case cutData raw of
        None \<Rightarrow> [raw @ [CHR 0x0A, CHR 0x0A]]
      | Some data \<Rightarrow>
          (let ch = parseChunk jc data in
           if line_content jc raw = [] then [sse data]
           else if ch_finish ch \<or> ch_siblings ch then [sse (ch_rawNoContent ch)] else []))"

fun lines_read :: "string list \<Rightarrow> string list" where
  "lines_read [] = []"
| "lines_read (l # ls) = (if ends_stream l then [l] else l # lines_read ls)"

text \<open>The content of a chunk as a document; and a frame that carries none: a line that is no data, the end mark, data from which no
  content can be read, or the rendering of a chunk without content (nothing, where it cannot be rendered).\<close>

definition chunk_text :: "json \<Rightarrow> string" where
  "chunk_text j =
     (case j of JObj kvs \<Rightarrow>
        (case jget kvs ''choices'' of Some (JArr (JObj c # _)) \<Rightarrow>
           (case jget c ''delta'' of Some (JObj d) \<Rightarrow> extractDeltaContent (jget d ''content'') | _ \<Rightarrow> []) | _ \<Rightarrow> []) | _ \<Rightarrow> [])"

definition contentless :: "json_codec \<Rightarrow> string \<Rightarrow> bool" where
  "contentless jc s \<longleftrightarrow>
     (\<exists>raw. s = raw @ [CHR 0x0A, CHR 0x0A] \<and> cutData raw = None) \<or>
     (\<exists>data. s = sse data \<and> (data \<in> {[], ''[DONE]''} \<or> ch_content (parseChunk jc data) = [] \<or> (\<exists>j. render jc j = Some data \<and> chunk_text j = [])))"

lemma jget_jdel [simp]: "jget (jdel k kvs) k = None"
  by (auto simp: jget_def jdel_def map_of_eq_None_iff)

lemma parseChunk_content:
  assumes "ch_content (parseChunk jc data) \<noteq> []"
  obtains obj c0 cs delta where "parse_any jc data = Some (JObj obj)" "jget obj ''choices'' = Some (JArr (JObj c0 # cs))"
    "jget c0 ''delta'' = Some (JObj delta)"
proof -
  obtain j where "parse_any jc data = Some j" using assms by (cases "parse_any jc data") (simp_all add: parseChunk_def)
  moreover from this obtain obj where "j = JObj obj" using assms by (cases j) (simp_all add: parseChunk_def)
  ultimately have o: "parse_any jc data = Some (JObj obj)" by simp
  obtain ch where "jget obj ''choices'' = Some ch" using assms o by (cases "jget obj ''choices''") (simp_all add: parseChunk_def)
  moreover from this obtain xs where "ch = JArr xs" using assms o by (cases ch) (simp_all add: parseChunk_def)
  moreover from calculation obtain x cs where "xs = x # cs" using assms o by (cases xs) (simp_all add: parseChunk_def)
  moreover from calculation obtain c0 where "x = JObj c0" using assms o by (cases x) (simp_all add: parseChunk_def)
  ultimately have c: "jget obj ''choices'' = Some (JArr (JObj c0 # cs))" by simp
  obtain d where d: "jget c0 ''delta'' = Some d" using assms o c by (cases "jget c0 ''delta''") (simp_all add: parseChunk_def Let_def)
  then obtain delta where "d = JObj delta" using assms o c by (cases d) (simp_all add: parseChunk_def Let_def)
  then show thesis using that o c d by simp
qed

lemma without_content_text: "chunk_text (without_content obj c0 cs delta) = []"
  by (simp add: without_content_def chunk_text_def jget_jput extractDeltaContent_def)

lemma rawNoContent_cases:
  assumes "ch_content (parseChunk jc data) \<noteq> []"
  shows "ch_rawNoContent (parseChunk jc data) = [] \<or> (\<exists>j. render jc j = Some (ch_rawNoContent (parseChunk jc data)) \<and> chunk_text j = [])"
proof -
  obtain obj c0 cs delta where p: "parse_any jc data = Some (JObj obj)" "jget obj ''choices'' = Some (JArr (JObj c0 # cs))"
    "jget c0 ''delta'' = Some (JObj delta)" using parseChunk_content [OF assms] .
  then have "ch_rawNoContent (parseChunk jc data) \<in> {[], case render jc (without_content obj c0 cs delta) of None \<Rightarrow> [] | Some b \<Rightarrow> b}"
    by (simp add: parseChunk_def Let_def)
  then show ?thesis using without_content_text by (cases "render jc (without_content obj c0 cs delta)") auto
qed

lemma line_frames_contentless: "s \<in> set (line_frames jc l) \<Longrightarrow> contentless jc s"
proof -
  assume s: "s \<in> set (line_frames jc l)"
  show ?thesis
  proof (cases "cutData l")
    case None
    then show ?thesis using s by (auto simp: line_frames_def contentless_def split: if_splits)
  next
    case (Some data)
    then show ?thesis using s rawNoContent_cases [of jc data]
      by (auto simp: line_frames_def contentless_def line_content_def Let_def split: if_splits)
  qed
qed

section \<open>What is written\<close>

text \<open>A piece of content with the identifiers of its chunk, or something forwarded.\<close>

datatype out = Released "string \<times> string \<times> rat" (original: string) (redacted: string) | Forwarded string

abbreviation envelope :: "'w streamGuard \<Rightarrow> string \<times> string \<times> rat" where
  "envelope g \<equiv> (g_id g, g_model g, g_created g)"

fun out_frame :: "json_codec \<Rightarrow> out \<Rightarrow> string list" where
  "out_frame jc (Forwarded s) = [s]"
| "out_frame jc (Released (i, mo, cr) seg red) =
     (if red = [] then []
      else case render jc (content_chunk ((newStreamGuard () [] True 0)\<lparr>g_id := i, g_model := mo, g_created := cr\<rparr>) red) of
             None \<Rightarrow> [] | Some b \<Rightarrow> [sse b])"

fun originals :: "out list \<Rightarrow> string" where
  "originals [] = []"
| "originals (Released e seg red # os) = seg @ originals os"
| "originals (Forwarded s # os) = originals os"

fun forwarded :: "out list \<Rightarrow> string list" where
  "forwarded [] = []"
| "forwarded (Released e seg red # os) = forwarded os"
| "forwarded (Forwarded s # os) = s # forwarded os"

definition play :: "'w writer \<Rightarrow> string list \<Rightarrow> 'w \<Rightarrow> 'w" where
  "play wr ss w = fold (\<lambda>s w. snd (wr s w)) ss w"

text \<open>A cut behind \<open>seg\<close>, with \<open>aft\<close> still to come: the guard had seen the text \<open>p\<close>, which is all there is or reaches at least a
  window behind the cut. In redact mode the piece is sent redacted and no match of an enabled pattern in \<open>p\<close> lies across the
  cut; in block mode it is sent as it is and no enabled pattern matches in \<open>p\<close>.\<close>

definition seen :: "int \<Rightarrow> string \<Rightarrow> string \<Rightarrow> string \<Rightarrow> bool" where
  "seen win seg aft p \<longleftrightarrow> (\<exists>rest. seg @ aft = p @ rest) \<and> (aft = [] \<or> int (length seg) + win \<le> int (length p))"

definition redact_cut :: "string list \<Rightarrow> int \<Rightarrow> string \<Rightarrow> string \<Rightarrow> string \<Rightarrow> bool" where
  "redact_cut cs win seg red aft \<longleftrightarrow> red = fst (RedactText seg cs) \<and>
     (\<exists>p. seen win seg aft p \<and>
        (\<forall>q a b. q \<in> set compiledPatterns \<and> groupEnabled (np_group q) cs \<and> (a, b) \<in> set (FindAllStringIndex (np_re q) p) \<longrightarrow>
           \<not> (a < length seg \<and> length seg < b)))"

definition block_cut :: "string list \<Rightarrow> int \<Rightarrow> string \<Rightarrow> string \<Rightarrow> string \<Rightarrow> bool" where
  "block_cut cs win seg red aft \<longleftrightarrow> red = seg \<and> (\<exists>p. seen win seg aft p \<and> ScanStrings [p] cs = [])"

fun well_cut :: "(string \<Rightarrow> string \<Rightarrow> string \<Rightarrow> bool) \<Rightarrow> out list \<Rightarrow> string \<Rightarrow> bool" where
  "well_cut ok [] aft = True"
| "well_cut ok (Forwarded s # os) aft = well_cut ok os aft"
| "well_cut ok (Released e seg red # os) aft = (ok seg red (originals os @ aft) \<and> well_cut ok os aft)"

lemma originals_append [simp]: "originals (xs @ ys) = originals xs @ originals ys"
  by (induction xs rule: originals.induct) auto

lemma well_cut_append: "well_cut ok (xs @ ys) aft \<longleftrightarrow> well_cut ok xs (originals ys @ aft) \<and> well_cut ok ys aft"
  by (induction xs rule: originals.induct) auto

lemma forwarded_append [simp]: "forwarded (xs @ ys) = forwarded xs @ forwarded ys"
  by (induction xs rule: originals.induct) auto

lemma play_append: "play wr (xs @ ys) w = play wr ys (play wr xs w)"
  by (simp add: play_def)

section \<open>One release\<close>

lemma DecodeRune_append:
  assumes "a \<noteq> []" "DecodeRune a \<noteq> (RuneError, 1)"
  shows "DecodeRune (a @ b) = DecodeRune a"
proof -
  obtain c cs where a: "a = c # cs" using assms(1) by (cases a) auto
  let ?n = "rune_size (byte c)"
  obtain lo hi where r: "second_range (byte c) = (lo, hi)" by fastforce
  show ?thesis
  proof (cases "?n = 1")
    case False
    with assms(2) have n: "?n \<noteq> 0" "?n - 1 \<le> length cs" by (auto simp: a r Let_def split: if_splits)
    with False have "cs \<noteq> []" by (cases cs) auto
    with n show ?thesis by (simp add: a r Let_def)
  qed (simp add: a r Let_def)
qed

lemma valid_append: "valid_utf8 a \<Longrightarrow> valid_utf8 b \<Longrightarrow> valid_utf8 (a @ b)"
proof (induction a rule: valid_utf8.induct)
  case (1 a)
  show ?case
  proof (cases "a = []")
    case False
    let ?n = "snd (DecodeRune a)"
    have ok: "DecodeRune a \<noteq> (RuneError, 1)" "valid_utf8 (drop ?n a)"
      using "1.prems"(1) False by (subst (asm) valid_utf8.simps; simp)+
    have "?n \<le> length a" using DecodeRune_bytes(2) ok(1) False by (cases a) fastforce+
    with "1.IH" [OF False ok(2) "1.prems"(2)] have "valid_utf8 (drop ?n (a @ b))" by simp
    with DecodeRune_append [OF False ok(1), of b] ok(1) False show ?thesis by (subst valid_utf8.simps) simp
  qed (use "1.prems" in simp)
qed

text \<open>From \<open>g\<close> to \<open>g'\<close> the content \<open>new\<close> came in and exactly \<open>outs\<close> was written, every piece as it should be, where the content
  still to come is \<open>aft\<close>.\<close>

definition cut_of :: "'w streamGuard \<Rightarrow> string \<Rightarrow> string \<Rightarrow> string \<Rightarrow> bool" where
  "cut_of g = (if g_redact g then redact_cut else block_cut) (checks g) (window g)"

definition moves :: "'w writer \<Rightarrow> json_codec \<Rightarrow> 'w streamGuard \<Rightarrow> string \<Rightarrow> out list \<Rightarrow> 'w streamGuard \<Rightarrow> string \<Rightarrow> bool" where
  "moves wr jc g new outs g' aft \<longleftrightarrow>
     g_w g' = play wr (concat (map (out_frame jc) outs)) (g_w g) \<and>
     checks g' = checks g \<and> g_redact g' = g_redact g \<and> window g' = window g \<and>
     originals outs @ pending g' = pending g @ new \<and> valid_utf8 (pending g') \<and>
     well_cut (cut_of g) outs (pending g' @ aft)"

lemma moves_trans:
  assumes "moves wr jc g new outs g' (new' @ aft)" "moves wr jc g' new' outs' g'' aft"
  shows "moves wr jc g (new @ new') (outs @ outs') g'' aft"
proof -
  have eq: "originals outs' @ pending g'' @ aft = pending g' @ new' @ aft"
    using assms(2) unfolding moves_def by (metis append.assoc)
  have "well_cut (cut_of g) (outs @ outs') (pending g'' @ aft)"
    unfolding well_cut_append eq using assms unfolding moves_def cut_of_def by simp
  moreover have "originals (outs @ outs') @ pending g'' = pending g @ new @ new'"
    using assms unfolding moves_def by (metis append.assoc originals_append)
  ultimately show ?thesis using assms unfolding moves_def by (simp add: play_append)
qed

lemma g_write_accepts:
  assumes "\<And>s w. fst (wr s w)" "valid_utf8 (pending g)"
  shows "\<exists>g'. g_write wr s g = (True, g') \<and> moves wr jc g [] [Forwarded s] g' aft \<and> pending g' = pending g \<and> aborted g' = aborted g"
  using assms(1) [of s "g_w g"] assms(2) by (cases "wr s (g_w g)") (auto simp: g_write_def moves_def play_def)

lemma writeContentChunk_accepts:
  assumes "\<And>s w. fst (wr s w)"
  shows "writeContentChunk wr jc red g = (True, g\<lparr>g_w := play wr (out_frame jc (Released (envelope g) seg red)) (g_w g)\<rparr>)"
proof -
  have "content_chunk ((newStreamGuard () [] True 0)\<lparr>g_id := g_id g, g_model := g_model g, g_created := g_created g\<rparr>) red = content_chunk g red"
    by (simp add: content_chunk_def)
  then show ?thesis using assms
    by (auto simp: writeContentChunk_def g_write_def play_def split: option.split prod.split) (metis fst_conv)
qed

lemma moves_refl: "valid_utf8 (pending g) \<Longrightarrow> moves wr jc g [] [] g aft"
  by (simp add: moves_def play_def)

lemma release_moves:
  assumes "\<And>s w. fst (wr s w)" "valid_utf8 (pending g)" "n \<le> length (pending g)" "n = length (pending g) \<or> RuneStart (pending g ! n)"
    and "cut_of g (take n (pending g)) red (drop n (pending g) @ aft)"
  shows "\<exists>g' outs. writeContentChunk wr jc red (g\<lparr>violated := v, pending := drop n (pending g)\<rparr>) = (True, g') \<and>
    moves wr jc g [] outs g' aft \<and> forwarded outs = [] \<and> pending g' = drop n (pending g) \<and> aborted g' = aborted g"
proof -
  let ?g = "g\<lparr>violated := v, pending := drop n (pending g)\<rparr>" and ?o = "Released (envelope g) (take n (pending g)) red"
  have "valid_utf8 (drop n (pending g))" using valid_drop [OF assms(2), of n] assms(3,4) by (cases "n = length (pending g)") auto
  then have "moves wr jc g [] [?o] (?g\<lparr>g_w := play wr (out_frame jc ?o) (g_w g)\<rparr>) aft"
    using assms(5) by (simp add: moves_def)
  then show ?thesis using writeContentChunk_accepts [where wr = wr and jc = jc and red = red and g = ?g and seg = "take n (pending g)", OF assms(1)]
    by (intro exI [of _ "?g\<lparr>g_w := play wr (out_frame jc ?o) (g_w g)\<rparr>"] exI [of _ "[?o]"]) auto
qed

text \<open>In block mode the guard may stop the stream instead.\<close>

definition caught :: "'w streamGuard \<Rightarrow> bool" where
  "caught g \<longleftrightarrow> \<not> g_redact g \<and> ScanStrings [pending g] (checks g) \<noteq> []"

definition halt :: "'w writer \<Rightarrow> 'w streamGuard \<Rightarrow> 'w streamGuard" where
  "halt wr g = g\<lparr>violated := True, aborted := True, g_w := play wr [blocked_frame, sse ''[DONE]''] (g_w g)\<rparr>"

definition released ::
  "'w writer \<Rightarrow> json_codec \<Rightarrow> bool \<Rightarrow> 'w streamGuard \<Rightarrow> string \<Rightarrow> string list \<Rightarrow> bool \<times> 'w streamGuard \<Rightarrow> string \<Rightarrow> bool" where
  "released wr jc final g new fs res aft \<longleftrightarrow>
     (\<exists>g' outs. res = (True, g') \<and> moves wr jc g new outs g' aft \<and> forwarded outs = fs \<and> (final \<longrightarrow> pending g' = []) \<and> aborted g' = aborted g) \<or>
     (\<exists>g1. res = (False, halt wr g1) \<and> moves wr jc g new [] g1 aft \<and> caught g1)"

lemma caught_pending: "caught g \<Longrightarrow> pending g \<noteq> []"
  using applyRedactions_none [of "[]" "checks g"] by (auto simp: caught_def ScanStrings_def)

lemma emit_caught: "caught g \<Longrightarrow> emit wr jc final g = (False, halt wr g)"
  using caught_pending [of g] by (simp add: emit_def caught_def g_write_def halt_def play_def split: prod.split)

lemma emit_redact:
  assumes "\<And>s w. fst (wr s w)" "valid_utf8 (pending g)" "g_redact g" "0 \<le> window g" "final \<Longrightarrow> aft = []" "pending g \<noteq> []"
  shows "released wr jc final g [] [] (emit wr jc final g) aft"
proof -
  let ?p = "pending g" and ?hold = "if final then 0 else window g"
  obtain red n matched where sr: "SafeRedactPrefix ?p (checks g) ?hold = (red, n, matched)" by (metis prod_cases3)
  have hold: "0 \<le> ?hold" using assms(4) by simp
  note facts = SafeRedactPrefix_facts [OF assms(2) hold sr]
  show ?thesis
  proof (cases "n = 0")
    case True
    with facts(5) assms(6) have "\<not> final" by auto
    with True assms(3,6) sr moves_refl [OF assms(2)] show ?thesis by (fastforce simp: emit_def released_def)
  next
    case False
    have le: "n \<le> length ?p" using facts(1) hold by (auto simp: max_def split: if_splits)
    have "cut_of g (take n ?p) red (drop n ?p @ aft)"
      unfolding cut_of_def redact_cut_def seen_def if_P [OF assms(3)]
    proof (intro exI conjI)
      show "red = fst (RedactText (take n ?p) (checks g))" using facts(3) by (simp add: RedactText_def)
      show "take n ?p @ drop n ?p @ aft = ?p @ aft" by simp
      show "drop n ?p @ aft = [] \<or> int (length (take n ?p)) + window g \<le> int (length ?p)"
        using facts(1,5) False assms(5) by (cases final) (auto simp: max_def split: if_splits)
      show "\<forall>q a b. q \<in> set compiledPatterns \<and> groupEnabled (np_group q) (checks g) \<and> (a, b) \<in> set (FindAllStringIndex (np_re q) ?p) \<longrightarrow>
          \<not> (a < length (take n ?p) \<and> length (take n ?p) < b)"
        using facts(4) le by (auto simp: min_absorb2)
    qed
    with release_moves [where wr = wr and jc = jc and v = "violated g \<or> matched", OF assms(1,2) le facts(2)] obtain g' outs
      where "writeContentChunk wr jc red (g\<lparr>violated := violated g \<or> matched, pending := drop n ?p\<rparr>) = (True, g')"
        "moves wr jc g [] outs g' aft" "forwarded outs = []" "pending g' = drop n ?p" "aborted g' = aborted g" by blast
    then show ?thesis using facts(5) False assms(3,6) sr by (auto simp: emit_def released_def)
  qed
qed

lemma emit_block:
  assumes "\<And>s w. fst (wr s w)" "valid_utf8 (pending g)" "\<not> g_redact g" "0 \<le> window g" "final \<Longrightarrow> aft = []" "pending g \<noteq> []" "\<not> caught g"
  shows "released wr jc final g [] [] (emit wr jc final g) aft"
proof -
  let ?p = "pending g"
  let ?e = "int (length ?p) - (if final then 0 else window g)"
  let ?n = "if ?e \<le> 0 then 0 else snap ?p (nat ?e)"
  have clean: "ScanStrings [?p] (checks g) = []" using assms(3,7) by (simp add: caught_def)
  have e: "emit wr jc final g = (if ?n = 0 then (True, g) else writeContentChunk wr jc (take ?n ?p) (g\<lparr>pending := drop ?n ?p\<rparr>))"
    using assms(3,6) clean by (simp add: emit_def Let_def)
  have fin: "?n = length ?p" if final
    using that snap_spec(1) [of ?p "length ?p"] snap_spec(3) [of ?p "length ?p" "length ?p"] assms(6) by (auto simp: order.order_iff_strict)
  show ?thesis
  proof (cases "?n = 0")
    case True
    with fin assms(6) have "\<not> final" by (metis length_0_conv)
    moreover have "emit wr jc final g = (True, g)" by (simp only: e True simp_thms if_True)
    ultimately show ?thesis using moves_refl [OF assms(2)] by (fastforce simp: released_def)
  next
    case False
    then have n: "?n = snap ?p (nat ?e)" "0 < ?e" by (auto split: if_splits)
    then have le: "?n \<le> length ?p" "?n \<le> nat ?e" using snap_spec(1) [of ?p "nat ?e"] assms(4) by auto
    have st: "?n = length ?p \<or> RuneStart (?p ! ?n)" using snap_spec(2) [of ?p "nat ?e"] n le False by auto
    have "cut_of g (take ?n ?p) (take ?n ?p) (drop ?n ?p @ aft)"
      unfolding cut_of_def block_cut_def seen_def if_not_P [OF assms(3)]
    proof (intro exI conjI)
      show "take ?n ?p @ drop ?n ?p @ aft = ?p @ aft" by simp
      show "drop ?n ?p @ aft = [] \<or> int (length (take ?n ?p)) + window g \<le> int (length ?p)"
        using le n(2) fin assms(5) by (cases final) auto
    qed (use clean in simp_all)
    with release_moves [where wr = wr and jc = jc and v = "violated g", OF assms(1,2) le(1) st] obtain g' outs
      where "writeContentChunk wr jc (take ?n ?p) (g\<lparr>violated := violated g, pending := drop ?n ?p\<rparr>) = (True, g')"
        "moves wr jc g [] outs g' aft" "forwarded outs = []" "pending g' = drop ?n ?p" "aborted g' = aborted g" by blast
    moreover have "g\<lparr>violated := violated g, pending := drop ?n ?p\<rparr> = g\<lparr>pending := drop ?n ?p\<rparr>" by simp
    ultimately show ?thesis unfolding e if_not_P [OF False] released_def using fin by auto
  qed
qed

lemma emit_releases:
  assumes "\<And>s w. fst (wr s w)" "valid_utf8 (pending g)" "0 \<le> window g" "final \<Longrightarrow> aft = []"
  shows "released wr jc final g [] [] (emit wr jc final g) aft"
proof -
  consider "pending g = []" | "caught g" | "pending g \<noteq> []" "g_redact g" | "pending g \<noteq> []" "\<not> g_redact g" "\<not> caught g" by blast
  then show ?thesis
  proof cases
    case 1
    then show ?thesis using moves_refl [OF assms(2)] by (fastforce simp: emit_def released_def)
  next
    case 2
    then show ?thesis using moves_refl [OF assms(2)] by (auto simp: emit_caught released_def)
  qed (use assms emit_redact [where wr = wr] emit_block [where wr = wr] in blast)+
qed

lemma emit_write_releases:
  assumes "\<And>s w. fst (wr s w)" "valid_utf8 (pending g)" "0 \<le> window g" "final \<Longrightarrow> aft = []"
  shows "released wr jc final g [] [s] (emit_write wr jc final s g) aft"
  using emit_releases [where wr = wr and jc = jc and g = g and final = final and aft = aft, OF assms] unfolding released_def
proof
  assume "\<exists>g' outs. emit wr jc final g = (True, g') \<and> moves wr jc g [] outs g' aft \<and> forwarded outs = [] \<and> (final \<longrightarrow> pending g' = []) \<and> aborted g' = aborted g"
  then obtain g1 outs where e: "emit wr jc final g = (True, g1)" "moves wr jc g [] outs g1 aft" "forwarded outs = []" "final \<longrightarrow> pending g1 = []" "aborted g1 = aborted g"
    by blast
  then have "valid_utf8 (pending g1)" by (simp add: moves_def)
  with g_write_accepts [where wr = wr, OF assms(1), of g1 s jc aft] obtain g2
    where w: "g_write wr s g1 = (True, g2)" "moves wr jc g1 [] [Forwarded s] g2 aft" "pending g2 = pending g1" "aborted g2 = aborted g1" by blast
  have "moves wr jc g [] (outs @ [Forwarded s]) g2 aft" using moves_trans [where new = "[]" and new' = "[]"] e(2) w(2) by force
  then show "(\<exists>g' outs. emit_write wr jc final s g = (True, g') \<and> moves wr jc g [] outs g' aft \<and> forwarded outs = [s] \<and> (final \<longrightarrow> pending g' = []) \<and> aborted g' = aborted g)
    \<or> (\<exists>g1. emit_write wr jc final s g = (False, halt wr g1) \<and> moves wr jc g [] [] g1 aft \<and> caught g1)"
    using e w by (intro disjI1 exI [of _ g2] exI [of _ "outs @ [Forwarded s]"]) (auto simp: emit_write_def)
qed (auto simp: emit_write_def)

section \<open>A whole stream\<close>

lemma captureEnvelope_same [simp]:
  "g_w (captureEnvelope jc data g) = g_w g" "checks (captureEnvelope jc data g) = checks g"
  "g_redact (captureEnvelope jc data g) = g_redact g" "window (captureEnvelope jc data g) = window g"
  "pending (captureEnvelope jc data g) = pending g" "aborted (captureEnvelope jc data g) = aborted g"
  by (auto simp: captureEnvelope_def split: option.splits)

lemma either: "(c \<Longrightarrow> P a x) \<Longrightarrow> (\<not> c \<Longrightarrow> P b y) \<Longrightarrow> P (if c then a else b) (if c then x else y)"
  by simp

text \<open>One line that does not end the stream.\<close>

lemma guard_line_releases:
  assumes acc: "\<And>s w. fst (wr s w)" and g: "valid_utf8 (pending g)" "0 \<le> window g"
    and l: "valid_utf8 (line_content jc l)" "\<not> ends_stream l" "flushes jc l \<Longrightarrow> aft = []"
  shows "released wr jc False g (line_content jc l) (line_frames jc l) (guard_line wr jc l g) aft"
proof -
  have any: "released wr jc False g' new fs res aft" if "released wr jc final g' new fs res aft" for final g' new fs res
    using that by (auto simp: released_def)
  consider "l = []" | "l \<noteq> []" "cutData l = None" | data where "l \<noteq> []" "cutData l = Some data" "data \<noteq> ''[DONE]''"
    using l(2) by (auto simp: ends_stream_def)
  then show ?thesis
  proof cases
    case 1
    then show ?thesis using moves_refl [OF g(1)] by (fastforce simp: guard_line_def line_content_def line_frames_def released_def)
  next
    case 2
    then have "aft = []" using l(3) by (simp add: flushes_def)
    then have "released wr jc True g [] [l @ [CHR 0x0A, CHR 0x0A]] (emit_write wr jc True (l @ [CHR 0x0A, CHR 0x0A]) g) aft"
      by (intro emit_write_releases acc g)
    with 2 any show ?thesis by (auto simp: guard_line_def line_content_def line_frames_def)
  next
    case 3
    let ?ch = "parseChunk jc data" and ?g1 = "captureEnvelope jc data g"
    let ?g2 = "?g1\<lparr>pending := pending ?g1 @ ch_content ?ch\<rparr>"
    have c: "line_content jc l = ch_content ?ch" using 3 by (simp add: line_content_def)
    have g2: "valid_utf8 (pending ?g2)" "0 \<le> window ?g2" using g l(1) c by (simp_all add: valid_append)
    have fin: "ch_finish ?ch \<Longrightarrow> aft = []" using l(3) 3 by (simp add: flushes_def)
    have start: "released wr jc False g (ch_content ?ch) fs res aft" if "released wr jc final ?g2 [] fs res aft" for final fs res
      using that by (auto simp: released_def moves_def cut_of_def)
    have same: "?g1\<lparr>pending := pending g\<rparr> = ?g1" by (rule streamGuard.equality) simp_all
    have line: "guard_line wr jc l g =
       (if ch_content ?ch = [] then (if ch_finish ?ch then emit_write wr jc True (sse data) ?g2 else g_write wr (sse data) ?g2)
        else if ch_finish ?ch then emit_write wr jc True (sse (ch_rawNoContent ?ch)) ?g2
        else if ch_siblings ?ch then emit_write wr jc False (sse (ch_rawNoContent ?ch)) ?g2
        else emit wr jc False ?g2)"
      using 3 by (simp add: guard_line_def Let_def same)
    let ?R = "\<lambda>fs res. released wr jc False g (ch_content ?ch) fs res aft"
    have "released wr jc False ?g2 [] [s] (g_write wr s ?g2) aft" for s
      using g_write_accepts [where wr = wr and jc = jc and aft = aft and s = s, OF acc g2(1)] unfolding released_def by fastforce
    then have W: "?R [s] (g_write wr s ?g2)" for s by (rule start)
    have E: "?R [s] (emit_write wr jc final s ?g2)" if "final \<Longrightarrow> aft = []" for final s
      by (rule start [where final = final], intro emit_write_releases acc g2 that)
    have M: "?R [] (emit wr jc False ?g2)" by (rule start [where final = False], intro emit_releases acc g2) simp
    have frames: "line_frames jc l =
       (if ch_content ?ch = [] then (if ch_finish ?ch then [sse data] else [sse data])
        else if ch_finish ?ch then [sse (ch_rawNoContent ?ch)] else if ch_siblings ?ch then [sse (ch_rawNoContent ?ch)] else [])"
      using 3(1,2) c by (simp add: line_frames_def Let_def)
    show ?thesis unfolding line c frames by (intro either [where P = ?R] W E M fin) simp_all
  qed
qed

lemma guard_done_releases:
  assumes "\<And>s w. fst (wr s w)" "valid_utf8 (pending g)" "0 \<le> window g" "ends_stream l"
  shows "\<exists>ok. released wr jc True g [] (line_frames jc l) (ok, snd (guard_line wr jc l g)) [] \<and> \<not> fst (guard_line wr jc l g)"
proof -
  have "released wr jc True g [] [sse ''[DONE]''] (emit_write wr jc True (sse ''[DONE]'') g) []" by (intro emit_write_releases assms) simp
  moreover have "l \<noteq> []" "cutData l = Some ''[DONE]''" using assms(4) by (auto simp: ends_stream_def)
  ultimately show ?thesis by (auto simp: guard_line_def line_frames_def line_content_def intro: exI [of _ "fst (emit_write wr jc True (sse ''[DONE]'') g)"])
qed

text \<open>A whole stream, with the frames it may forward: all content is delivered, or the stream is stopped.\<close>

definition streamed :: "'w writer \<Rightarrow> json_codec \<Rightarrow> 'w streamGuard \<Rightarrow> string \<Rightarrow> string list \<Rightarrow> 'w streamGuard \<Rightarrow> bool" where
  "streamed wr jc g new fs G \<longleftrightarrow>
     (\<exists>outs. moves wr jc g new outs G [] \<and> forwarded outs = fs \<and> pending G = [] \<and> aborted G = aborted g) \<or>
     (\<exists>outs g1 before rest. moves wr jc g before outs g1 rest \<and> prefix (forwarded outs) fs \<and> new = before @ rest \<and> caught g1 \<and>
        (G = halt wr g1 \<or> G = halt wr (halt wr g1)))"

lemma caught_halt: "caught (halt wr g) = caught g"
  by (simp add: caught_def halt_def)

lemma finish_stopped: "caught g \<Longrightarrow> finish wr jc (halt wr g) = halt wr (halt wr g)"
  by (simp add: finish_def emit_caught caught_halt)

lemma streamed_after:
  assumes "moves wr jc g new outs g1 new'" "forwarded outs = fs" "aborted g1 = aborted g" "streamed wr jc g1 new' fs' G"
  shows "streamed wr jc g (new @ new') (fs @ fs') G"
proof -
  from assms(4) consider
    (all) outs' where "moves wr jc g1 new' outs' G []" "forwarded outs' = fs'" "pending G = []" "aborted G = aborted g1"
  | (stop) outs' g2 before rest where "moves wr jc g1 before outs' g2 rest" "prefix (forwarded outs') fs'" "new' = before @ rest" "caught g2"
      "G = halt wr g2 \<or> G = halt wr (halt wr g2)"
    unfolding streamed_def by blast
  then show ?thesis
  proof cases
    case all
    have "moves wr jc g (new @ new') (outs @ outs') G []" using moves_trans [where aft = "[]"] assms(1) all(1) by fastforce
    then show ?thesis unfolding streamed_def using all assms(2,3) by (intro disjI1 exI [of _ "outs @ outs'"]) simp
  next
    case stop
    have "moves wr jc g (new @ before) (outs @ outs') g2 rest" using moves_trans [OF _ stop(1)] assms(1) stop(3) by blast
    then show ?thesis unfolding streamed_def using stop assms(2)
      by (intro disjI2 exI [of _ "outs @ outs'"] exI [of _ g2] exI [of _ "new @ before"] exI [of _ rest]) simp
  qed
qed

lemma streamed_caught:
  assumes "moves wr jc g before [] g1 rest" "caught g1"
  shows "streamed wr jc g (before @ rest) fs (finish wr jc (halt wr g1))"
  unfolding streamed_def finish_stopped [OF assms(2)]
  by (rule disjI2) (use assms in \<open>force intro: exI [of _ "[]"]\<close>)

lemma guard_stream_streams:
  assumes acc: "\<And>s w. fst (wr s w)"
  shows "valid_utf8 (pending g) \<Longrightarrow> 0 \<le> window g \<Longrightarrow> (\<And>l. l \<in> set ls \<Longrightarrow> valid_utf8 (line_content jc l)) \<Longrightarrow>
    content_then_flush jc ls \<Longrightarrow> streamed wr jc g (stream_content jc ls) (concat (map (line_frames jc) (lines_read ls))) (guard_stream wr jc ls g)"
proof (induction ls arbitrary: g)
  case Nil
  then have r: "released wr jc True g [] [] (emit wr jc True g) []" by (intro emit_releases acc) simp_all
  show ?case
  proof (cases "fst (emit wr jc True g)")
    case True
    with r show ?thesis unfolding streamed_def by (intro disjI1) (auto simp: released_def guard_stream_def finish_def stream_content_def)
  next
    case False
    with r obtain g1 where "emit wr jc True g = (False, halt wr g1)" "moves wr jc g [] [] g1 []" "caught g1" by (auto simp: released_def)
    then show ?thesis unfolding streamed_def
      by (intro disjI2 exI [of _ "[]"] exI [of _ g1]) (auto simp: guard_stream_def finish_def stream_content_def)
  qed
next
  case (Cons l ls)
  show ?case
  proof (cases "ends_stream l")
    case True
    obtain ok where r: "released wr jc True g [] (line_frames jc l) (ok, snd (guard_line wr jc l g)) []" "\<not> fst (guard_line wr jc l g)"
      using guard_done_releases [where wr = wr, OF acc Cons.prems(1,2) True] by blast
    have G: "guard_stream wr jc (l # ls) g = finish wr jc (snd (guard_line wr jc l g))" using r(2) by (cases "guard_line wr jc l g") (simp add: guard_stream_def)
    from r(1) consider outs where "moves wr jc g [] outs (snd (guard_line wr jc l g)) []" "forwarded outs = line_frames jc l"
        "pending (snd (guard_line wr jc l g)) = []" "aborted (snd (guard_line wr jc l g)) = aborted g"
      | g1 where "snd (guard_line wr jc l g) = halt wr g1" "moves wr jc g [] [] g1 []" "caught g1"
      by (auto simp: released_def)
    then show ?thesis
    proof cases
      case 1
      then have "finish wr jc (snd (guard_line wr jc l g)) = snd (guard_line wr jc l g)" by (simp add: finish_def emit_def)
      with 1 G True show ?thesis by (auto simp: streamed_def stream_content_Cons)
    next
      case 2
      then show ?thesis using streamed_caught [OF 2(2,3)] G True by (simp add: stream_content_Cons)
    qed
  next
    case False
    have r: "released wr jc False g (line_content jc l) (line_frames jc l) (guard_line wr jc l g) (stream_content jc ls)"
      using Cons.prems False by (intro guard_line_releases acc) auto
    show ?thesis
    proof (cases "fst (guard_line wr jc l g)")
      case True
      with r obtain g1 outs where g1: "guard_line wr jc l g = (True, g1)" "aborted g1 = aborted g" "forwarded outs = line_frames jc l"
        "moves wr jc g (line_content jc l) outs g1 (stream_content jc ls)" by (auto simp: released_def)
      then have "valid_utf8 (pending g1)" "0 \<le> window g1" using Cons.prems(2) by (simp_all add: moves_def)
      with Cons.IH [of g1] Cons.prems(3,4) False
      have "streamed wr jc g1 (stream_content jc ls) (concat (map (line_frames jc) (lines_read ls))) (guard_stream wr jc ls g1)" by auto
      moreover have "guard_stream wr jc (l # ls) g = guard_stream wr jc ls g1" using g1(1) by (simp add: guard_stream_def)
      ultimately show ?thesis using streamed_after [OF g1(4,3,2)] False by (simp add: stream_content_Cons)
    next
      case stop: False
      with r obtain g1 where "guard_line wr jc l g = (False, halt wr g1)" "moves wr jc g (line_content jc l) [] g1 (stream_content jc ls)" "caught g1"
        by (auto simp: released_def)
      then show ?thesis using streamed_caught False by (simp add: guard_stream_def stream_content_Cons)
    qed
  qed
qed

lemma frames_contentless: "s \<in> set (concat (map (line_frames jc) ls)) \<Longrightarrow> contentless jc s"
  using line_frames_contentless by fastforce

text \<open>C21: In redact mode and with a client that stays connected, all the content of a stream is delivered in order: it is cut
  into pieces, each is sent as its redaction, and every cut is safe, as long as content ends with the first line that
  flushes the buffer (a finish reason, the end mark, or a line that is no data). Besides these pieces exactly the frames of the lines
  are sent that carry no content: nothing of the content goes out but redacted.\<close>

theorem redacted_stream_safe:
  assumes "\<forall>s w. fst (wr s w)" "\<forall>l\<in>set ls. valid_utf8 (line_content jc l)" "content_then_flush jc ls"
  shows "\<exists>outs. g_w (guard_stream wr jc ls (newStreamGuard w cs True n)) = play wr (concat (map (out_frame jc) outs)) w
     \<and> originals outs = stream_content jc ls \<and> well_cut (redact_cut cs ((if n \<le> 0 then 64 else n) * 4)) outs []
     \<and> forwarded outs = concat (map (line_frames jc) (lines_read ls)) \<and> (\<forall>s \<in> set (forwarded outs). contentless jc s)"
proof -
  let ?g = "newStreamGuard w cs True n" and ?fs = "concat (map (line_frames jc) (lines_read ls))"
  have s: "streamed wr jc ?g (stream_content jc ls) ?fs (guard_stream wr jc ls ?g)"
    using assms by (intro guard_stream_streams) (auto simp: newStreamGuard_def)
  have "\<not> caught g1" if "moves wr jc ?g before outs g1 rest" for before outs g1 rest
    using that by (simp add: caught_def moves_def newStreamGuard_def)
  with s obtain outs where "moves wr jc ?g (stream_content jc ls) outs (guard_stream wr jc ls ?g) []" "pending (guard_stream wr jc ls ?g) = []" "forwarded outs = ?fs"
    by (auto simp: streamed_def)
  then show ?thesis using frames_contentless [of _ jc "lines_read ls"]
    by (intro exI [of _ outs]) (auto simp: moves_def newStreamGuard_def cut_of_def simp del: set_concat)
qed


section \<open>Concrete streams\<close>

text \<open>A writer that keeps what is written, and a codec in which a chunk is its content.\<close>

definition log_writer :: "string list writer" where
  "log_writer s l = (True, l @ [s])"

definition plain_codec :: json_codec where
  "plain_codec = \<lparr>parse = \<lambda>_. None,
     parse_any = \<lambda>d. Some (JObj [(''choices'', JArr [JObj [(''delta'', JObj [(''content'', JStr d)])]])]),
     render = \<lambda>j. Some (chunk_text j)\<rparr>"
lemma plain_content: "cutData l = Some d \<Longrightarrow> d \<noteq> ''[DONE]'' \<Longrightarrow> line_content plain_codec l = d"
  by (simp add: line_content_def parseChunk_def plain_codec_def jget_def extractDeltaContent_def)

lemma plain_no_flush: "cutData l = Some d \<Longrightarrow> d \<noteq> ''[DONE]'' \<Longrightarrow> \<not> flushes plain_codec l"
  by (simp add: flushes_def parseChunk_def plain_codec_def jget_def)

definition two_lines :: "string list" where
  "two_lines = [''data: call 078051'', ''data: 120'']"

lemma two_lines_ok:
  "\<forall>s w. fst (log_writer s w)" "\<forall>l\<in>set two_lines. valid_utf8 (line_content plain_codec l)"
  "content_then_flush plain_codec two_lines" "stream_content plain_codec two_lines = ''call 078051120''"
proof -
  have c: "cutData ''data: call 078051'' = Some ''call 078051''" "cutData ''data: 120'' = Some ''120''" by code_simp+
  note lc = plain_content [OF c(1)] plain_content [OF c(2)] and fl = plain_no_flush [OF c(1)] plain_no_flush [OF c(2)]
  show "\<forall>s w. fst (log_writer s w)" by (simp add: log_writer_def)
  have "valid_utf8 ''call 078051''" "valid_utf8 ''120''" by (rule valid_ascii, code_simp)+
  then show "\<forall>l\<in>set two_lines. valid_utf8 (line_content plain_codec l)" using lc by (simp add: two_lines_def)
  show "content_then_flush plain_codec two_lines" using fl by (simp add: two_lines_def)
  show "stream_content plain_codec two_lines = ''call 078051120''"
    using lc c by (simp add: two_lines_def stream_content_Cons ends_stream_def) (simp add: stream_content_def)
qed

theorem redacted_stream_safe_witness:
  "\<exists>outs. g_w (guard_stream log_writer plain_codec two_lines (newStreamGuard [] [CheckPIIFR] True 2)) =
       play log_writer (concat (map (out_frame plain_codec) outs)) []
     \<and> originals outs = ''call 078051120'' \<and> well_cut (redact_cut [CheckPIIFR] 8) outs [] \<and> (\<forall>s \<in> set (forwarded outs). contentless plain_codec s)"
  using redacted_stream_safe [OF two_lines_ok(1-3), of "[]" "[CheckPIIFR]" 2] two_lines_ok(4) by (simp; blast)


section \<open>Where the guard falls short\<close>

text \<open>While a stream is redacted and no end mark has come, every line is read on.\<close>

lemma guard_lines_on:
  assumes acc: "\<And>s w. fst (wr s w)"
  shows "g_redact g \<Longrightarrow> valid_utf8 (pending g) \<Longrightarrow> 0 \<le> window g \<Longrightarrow> \<forall>l \<in> set ls. valid_utf8 (line_content jc l) \<and> \<not> ends_stream l \<Longrightarrow>
    g_redact (guard_lines wr jc ls g) \<and> valid_utf8 (pending (guard_lines wr jc ls g)) \<and> 0 \<le> window (guard_lines wr jc ls g) \<and>
    guard_lines wr jc (ls @ ls') g = guard_lines wr jc ls' (guard_lines wr jc ls g)"
proof (induction ls arbitrary: g)
  case (Cons l ls)
  have "released wr jc False g (line_content jc l) (line_frames jc l) (guard_line wr jc l g) []"
    using Cons.prems by (intro guard_line_releases acc) auto
  then obtain g1 outs where "guard_line wr jc l g = (True, g1)" "moves wr jc g (line_content jc l) outs g1 []"
    using Cons.prems(1) by (auto simp: released_def moves_def caught_def)
  moreover from this have "g_redact g1" "valid_utf8 (pending g1)" "0 \<le> window g1" using Cons.prems(1,3) by (simp_all add: moves_def)
  ultimately show ?case using Cons.IH [of g1] Cons.prems(4) by simp
qed simp

text \<open>C24: A line that is no data, such as a comment to keep the connection alive, splits a redacted stream: what is sent is the same
  as if the lines up to it and the lines behind it were two streams, and all content before it has been released by then. Text is
  not scanned across it, and a match split around it leaves the gateway in the clear.\<close>

theorem comment_line_splits_stream:
  assumes "\<forall>s w. fst (wr s w)" "\<forall>l \<in> set ls. valid_utf8 (line_content jc l) \<and> \<not> ends_stream l" "c \<noteq> []" "cutData c = None"
    and "g = newStreamGuard w cs True n" "g1 = guard_stream wr jc (ls @ [c]) g"
  shows "guard_stream wr jc (ls @ c # ls') g = guard_stream wr jc ls' g1 \<and> pending g1 = []"
proof -
  let ?g = "guard_lines wr jc ls g"
  have g: "g_redact g" "valid_utf8 (pending g)" "0 \<le> window g" by (simp_all add: assms(5) newStreamGuard_def)
  note on = guard_lines_on [where wr = wr and jc = jc and g = g and ls = ls, OF _ g assms(2)]
  have split: "guard_lines wr jc (ls @ xs) g = guard_lines wr jc xs ?g" for xs using on assms(1) by blast
  have inv: "g_redact ?g" "valid_utf8 (pending ?g)" "0 \<le> window ?g" using on assms(1) by blast+
  have "released wr jc True ?g [] [c @ [CHR 0x0A, CHR 0x0A]] (emit_write wr jc True (c @ [CHR 0x0A, CHR 0x0A]) ?g) []"
    by (rule emit_write_releases) (use assms(1) inv in auto)
  moreover have "guard_line wr jc c ?g = emit_write wr jc True (c @ [CHR 0x0A, CHR 0x0A]) ?g" using assms(3,4) by (simp add: guard_line_def)
  ultimately obtain g2 where g2: "guard_line wr jc c ?g = (True, g2)" "pending g2 = []"
    using inv(1) by (auto simp: released_def moves_def caught_def)
  then have "g1 = g2" using split [of "[c]"] by (simp add: assms(6) guard_stream_def finish_def emit_def)
  then show ?thesis using split [of "c # ls'"] g2 by (simp add: guard_stream_def)
qed

theorem comment_line_splits_stream_witness:
  "g_w (guard_stream log_writer plain_codec [''data: 120'']
       (guard_stream log_writer plain_codec [''data: 078051'', '': ping''] (newStreamGuard [] [CheckPIIFR] True 64))) =
     [sse ''078051'', '': ping'' @ [CHR 0x0A, CHR 0x0A], sse ''120'']
   \<and> g_w (guard_stream log_writer plain_codec [''data: 078051'', '': ping'', ''data: 120''] (newStreamGuard [] [CheckPIIFR] True 64)) =
     [sse ''078051'', '': ping'' @ [CHR 0x0A, CHR 0x0A], sse ''120'']
   \<and> RedactText ''078051120'' [CheckPIIFR] = (''[REDACTED_SIREN]'', [''siren''])"
proof -
  have c: "cutData ''data: 078051'' = Some ''078051''" "cutData '': ping'' = None" by code_simp+
  have "valid_utf8 ''078051''" by (rule valid_ascii, code_simp)
  then have l: "\<forall>l \<in> set [''data: 078051'']. valid_utf8 (line_content plain_codec l) \<and> \<not> ends_stream l"
    using plain_content [OF c(1)] c(1) by (simp add: ends_stream_def)
  let ?g = "newStreamGuard [] [CheckPIIFR] True 64"
  have split: "guard_stream log_writer plain_codec ([''data: 078051''] @ '': ping'' # [''data: 120'']) ?g =
      guard_stream log_writer plain_codec [''data: 120''] (guard_stream log_writer plain_codec ([''data: 078051''] @ ['': ping'']) ?g)"
    by (rule conjunct1 [OF comment_line_splits_stream [OF two_lines_ok(1) l _ c(2) refl refl]]) (rule list.discI [OF refl])
  have sent: "g_w (guard_stream log_writer plain_codec [''data: 078051'', '': ping'', ''data: 120''] ?g) =
     [sse ''078051'', '': ping'' @ [CHR 0x0A, CHR 0x0A], sse ''120'']" by code_simp
  have whole: "RedactText ''078051120'' [CheckPIIFR] = (''[REDACTED_SIREN]'', [''siren''])" by code_simp
  show ?thesis by (intro conjI sent whole) (rule trans [OF arg_cong [where f = g_w, OF split [unfolded append.simps, symmetric]] sent])
qed

text \<open>A blocked stream ends with two errors and two end marks: the guard keeps the buffer that matched, and the flush at
  the end of the stream finds it again.\<close>

theorem blocked_stream_ends_twice:
  "g_w (guard_stream log_writer plain_codec [''data: 078051120''] (newStreamGuard [] [CheckPIIFR] False 64)) =
     [blocked_frame, sse ''[DONE]'', blocked_frame, sse ''[DONE]'']"
  by code_simp

end
