(* ===== verification/JobsApi.thy ===== *)
theory JobsApi
  imports Routing Authz RateLimit Webhook Guardrails Breaker
begin

text \<open>
  The HTTP handlers of the job API (\<^verbatim>\<open>internal/handler/jobs.go\<close>, audience checks of \<^verbatim>\<open>models.go\<close>): submission, status,
  listing, cancellation and purge, composed of the registry, the access policies, the rate limits, the guardrails and
  the job store. A handler takes the request and the state of the world and returns the reply; an early return of the
  code is a reply that stops the rest (\<open>Inl\<close>).

  Parameters, besides those of the components: the object store, the usage tracker, the parsing of the multipart form
  under a limit, \<^verbatim>\<open>json.Valid\<close>, the new job's ID, the trace context and the values of \<^verbatim>\<open>time.Now()\<close>. Metrics and logs are left out.
\<close>

section \<open>Requests and replies\<close>

record FileHeader =
  fh_Filename :: string
  fh_ContentType :: string
  fh_Data :: string

record Form =
  f_Value :: "(string \<times> string list) list"
  f_File :: "FileHeader option"

text \<open>\<open>rq_form n\<close> is the parsed body, \<open>None\<close> where it is malformed or longer than \<open>n\<close> bytes.\<close>

record JobRequest =
  rq_Header :: header
  rq_principal :: "Principal option"
  rq_policy :: "RateLimitConfig option"
  rq_query :: "(string \<times> string list) list"
  rq_form :: "int \<Rightarrow> Form option"
  rq_traceparent :: string

definition vals :: "(string \<times> string list) list \<Rightarrow> string \<Rightarrow> string list" where
  "vals m k = (case map_of m k of None \<Rightarrow> [] | Some vs \<Rightarrow> vs)"

definition first_val :: "string list \<Rightarrow> string" where
  "first_val vs = (case vs of [] \<Rightarrow> [] | v # _ \<Rightarrow> v)"

text \<open>\<^verbatim>\<open>FormValue\<close>: values of the query come before those of a multipart body.\<close>

definition FormValue :: "JobRequest \<Rightarrow> Form \<Rightarrow> string \<Rightarrow> string" where
  "FormValue rq f key = first_val (vals (rq_query rq) key @ vals (f_Value f) key)"

datatype message =
    Text string
  | TooLarge int
  | Route route_error
  | BadForm
  | OnlySync string
  | AccessDenied string
  | JobNotFound string
  | CannotCancel string JobStatus
  | HeaderRequired string
  | BadOlderThan string
  | BadLimit string

record statusResponse =
  sr_JobID :: string
  sr_ServiceType :: string
  sr_Model :: string
  sr_Status :: JobStatus
  sr_QueuePosition :: "int option"
  sr_Result :: "string option"
  sr_Error :: string
  sr_CreatedAt :: int
  sr_UpdatedAt :: int

record listJobsResponse =
  lj_Consumer :: string
  lj_Total :: int
  lj_Limit :: int
  lj_Offset :: int
  lj_Jobs :: "statusResponse list"

text \<open>\<open>LlmErr\<close> is an error in the format of the LLM proxy, \<open>Raw\<close> the bytes of an inference backend; a panic of a handler is
  caught by the router, which answers 500.\<close>

datatype body =
    NoBody
  | Err message
  | Submitted string string string JobStatus
  | Expired string
  | StatusBody statusResponse
  | Listing listJobsResponse
  | Purged string int int bool
  | LlmErr message
  | Raw string
  | Panicked

record Reply =
  Code :: int
  Body :: body

section \<open>The world of a handler\<close>

record 'o s3Store = "'o web" +
  s3_Upload :: "string \<Rightarrow> string \<Rightarrow> string \<Rightarrow> 'o \<Rightarrow> bool \<times> 'o"

datatype usage_call =
    TrackRequest string string
  | TrackJob string string
  | TrackProcessingTime string string rat
  | TrackTokens string string int int
  | TrackActive string
  | TrackUserType string string string

record ('r, 't, 'o, 'g, 'u) jobs_env =
  je_R :: "'r redis"
  je_cd :: "'t codec"
  je_pd :: parse_duration
  je_rc :: RedisClient
  je_S :: "'o s3Store"
  je_G :: "'g model_env"
  je_U :: "usage_call \<Rightarrow> 'u \<Rightarrow> 'u"
  je_cj :: job_decoder
  je_show_dur :: "int \<Rightarrow> string"
  je_valid_json :: "string \<Rightarrow> bool"

text \<open>\<open>w_hdr\<close> are the headers of the reply so far, \<open>w_slot\<close> says whether a concurrency slot is held.\<close>

record ('r, 'o, 'g, 'u) world =
  w_r :: 'r
  w_o :: 'o
  w_g :: 'g
  w_u :: 'u
  w_cb :: CircuitBreaker
  w_hdr :: header
  w_slot :: bool

type_synonym ('w, 'a) hop = "'w \<Rightarrow> (Reply + 'a) \<times> 'w"

definition hbind :: "('w, 'a) hop \<Rightarrow> ('a \<Rightarrow> ('w, 'b) hop) \<Rightarrow> ('w, 'b) hop" where
  "hbind m k w = (case m w of (Inl rep, w1) \<Rightarrow> (Inl rep, w1) | (Inr x, w1) \<Rightarrow> k x w1)"

definition hret :: "'a \<Rightarrow> ('w, 'a) hop" where
  "hret x w = (Inr x, w)"

definition on_redis :: "('r \<Rightarrow> 'a \<times> 'r) \<Rightarrow> ('r, 'o, 'g, 'u) world \<Rightarrow> 'a \<times> ('r, 'o, 'g, 'u) world" where
  "on_redis f w = (let (x, r') = f (w_r w) in (x, w\<lparr>w_r := r'\<rparr>))"

definition on_objects :: "('o \<Rightarrow> 'a \<times> 'o) \<Rightarrow> ('r, 'o, 'g, 'u) world \<Rightarrow> 'a \<times> ('r, 'o, 'g, 'u) world" where
  "on_objects f w = (let (x, o') = f (w_o w) in (x, w\<lparr>w_o := o'\<rparr>))"

definition on_models :: "('g \<Rightarrow> 'a \<times> 'g) \<Rightarrow> ('r, 'o, 'g, 'u) world \<Rightarrow> 'a \<times> ('r, 'o, 'g, 'u) world" where
  "on_models f w = (let (x, g') = f (w_g w) in (x, w\<lparr>w_g := g'\<rparr>))"

definition set_hdr :: "string \<Rightarrow> string \<Rightarrow> ('r, 'o, 'g, 'u) world \<Rightarrow> ('r, 'o, 'g, 'u) world" where
  "set_hdr k v w = w\<lparr>w_hdr := hSet k v (w_hdr w)\<rparr>"

text \<open>A JSON reply.\<close>

definition stop_with :: "int \<Rightarrow> body \<Rightarrow> (('r, 'o, 'g, 'u) world, 'a) hop" where
  "stop_with c b w = (Inl \<lparr>Code = c, Body = b\<rparr>, set_hdr ''Content-Type'' ''application/json'' w)"

definition writeError :: "int \<Rightarrow> message \<Rightarrow> (('r, 'o, 'g, 'u) world, 'a) hop" where
  "writeError c m = stop_with c (Err m)"

definition setRateLimitHeaders :: "(int \<Rightarrow> string) \<Rightarrow> int \<Rightarrow> CheckResult \<Rightarrow> ('r, 'o, 'g, 'u) world \<Rightarrow> ('r, 'o, 'g, 'u) world" where
  "setRateLimitHeaders show_dur now rl w =
     (if Limit rl \<le> 0 then w
      else
        (let w1 = set_hdr ''X-RateLimit-Limit'' (itoa (Limit rl)) w;
             w2 = set_hdr ''X-RateLimit-Remaining'' (itoa (Remaining rl)) w1;
             w3 = set_hdr ''X-RateLimit-Reset'' (itoa ((now + ResetAfter rl) div second)) w2
         in w3\<lparr>w_hdr := WriteOpenAIHeaders show_dur ''requests'' rl (w_hdr w3)\<rparr>))"

section \<open>The handler\<close>

record JobHandler =
  jh_registry :: Registry
  jh_priorityHeader :: string
  jh_consumerHeader :: string
  jh_rateLimiter :: "Limiter option"
  jh_PersistsResult :: bool
  jh_concurrentLimiter :: "Limiter option"
  jh_processingTimeLimiter :: "Limiter option"
  jh_tokenLimiter :: "Limiter option"
  jh_userTypeHeader :: string
  jh_authz :: "Engine option"
  jh_usageTracker :: bool
  jh_idempotencyTTL :: int

definition NewJobHandler :: "Registry \<Rightarrow> string \<Rightarrow> string \<Rightarrow> Limiter option \<Rightarrow> bool \<Rightarrow> JobHandler" where
  "NewJobHandler reg prio consumerH limiter persists =
     \<lparr>jh_registry = reg, jh_priorityHeader = prio, jh_consumerHeader = consumerH, jh_rateLimiter = limiter,
      jh_PersistsResult = persists, jh_concurrentLimiter = None, jh_processingTimeLimiter = None, jh_tokenLimiter = None,
      jh_userTypeHeader = [], jh_authz = None, jh_usageTracker = False, jh_idempotencyTTL = 24 * 3600 * second\<rparr>"

definition WithIdempotencyTTL :: "int \<Rightarrow> JobHandler \<Rightarrow> JobHandler" where
  "WithIdempotencyTTL ttl h = (if ttl > 0 then h\<lparr>jh_idempotencyTTL := ttl\<rparr> else h)"

definition WithConcurrentLimiter :: "Limiter option \<Rightarrow> string \<Rightarrow> JobHandler \<Rightarrow> JobHandler" where
  "WithConcurrentLimiter l userTypeH h = h\<lparr>jh_concurrentLimiter := l, jh_userTypeHeader := userTypeH\<rparr>"

definition WithProcessingTimeLimiter :: "Limiter option \<Rightarrow> JobHandler \<Rightarrow> JobHandler" where
  "WithProcessingTimeLimiter l h = h\<lparr>jh_processingTimeLimiter := l\<rparr>"

definition WithTokenLimiter :: "Limiter option \<Rightarrow> JobHandler \<Rightarrow> JobHandler" where
  "WithTokenLimiter l h = h\<lparr>jh_tokenLimiter := l\<rparr>"

definition WithAuthz :: "Engine option \<Rightarrow> JobHandler \<Rightarrow> JobHandler" where
  "WithAuthz e h = h\<lparr>jh_authz := e\<rparr>"

text \<open>A header named in the configuration; the empty name stands for none.\<close>

definition header_of :: "JobRequest \<Rightarrow> string \<Rightarrow> string" where
  "header_of rq name = (if name \<noteq> [] then hGet (rq_Header rq) name else [])"

definition callerAudience :: "JobRequest \<Rightarrow> string \<Rightarrow> string \<times> string list" where
  "callerAudience rq userTypeH =
     (let userType = header_of rq userTypeH in
      case rq_principal rq of
        None \<Rightarrow> (userType, [])
      | Some p \<Rightarrow> (if userType = [] then UserType p else userType, p_Groups p))"

definition checkModelVisible :: "JobRequest \<Rightarrow> Def \<Rightarrow> string \<Rightarrow> (('r, 'o, 'g, 'u) world, unit) hop" where
  "checkModelVisible rq def userTypeH =
     (if \<not> IsRestricted def then hret ()
      else (let (userType, groups) = callerAudience rq userTypeH in
            if VisibleTo def userType groups then hret () else writeError 404 (Text ''model not found'')))"

section \<open>Submission\<close>

text \<open>The limits that submission and the synchronous handlers check, each with its limiter (\<open>None\<close> where it is not configured).\<close>

definition rate_stage ::
  "'r redis \<Rightarrow> parse_duration \<Rightarrow> (int \<Rightarrow> string) \<Rightarrow> Limiter option \<Rightarrow> JobRequest \<Rightarrow> string \<Rightarrow> int \<Rightarrow> (('r, 'o, 'g, 'u) world, unit) hop" where
  "rate_stage R pd show_dur limiter rq serviceType now w =
     (case limiter of
        None \<Rightarrow> hret () w
      | Some l \<Rightarrow>
          (case on_redis (Check R pd l (rq_policy rq) (rq_Header rq) serviceType) w of
             ((_, Some _), w1) \<Rightarrow> hret () w1
           | ((rl, None), w1) \<Rightarrow>
               (let w2 = setRateLimitHeaders show_dur now rl w1 in
                if \<not> CheckResult.Allowed rl then
                  writeError 429 (Text ''rate limit exceeded'') (set_hdr ''Retry-After'' (itoa (trunc_secs (ResetAfter rl))) w2)
                else hret () w2)))"

definition authz_stage :: "JobHandler \<Rightarrow> JobRequest \<Rightarrow> Def \<Rightarrow> (('r, 'o, 'g, 'u) world, unit) hop" where
  "authz_stage h rq def =
     (case jh_authz h of
        None \<Rightarrow> hret ()
      | Some e \<Rightarrow>
          if Authz.Allowed e (rq_principal rq) (Type def) (Def.Model def) then hret ()
          else writeError 403 (AccessDenied (Def.Model def)))"

definition time_stage ::
  "'r redis \<Rightarrow> parse_duration \<Rightarrow> Limiter option \<Rightarrow> JobRequest \<Rightarrow> string \<Rightarrow> (('r, 'o, 'g, 'u) world, unit) hop" where
  "time_stage R pd limiter rq serviceType w =
     (case limiter of
        None \<Rightarrow> hret () w
      | Some l \<Rightarrow>
          (case on_redis (CheckProcessingTime R pd l (rq_Header rq) serviceType) w of
             ((_, Some _), w1) \<Rightarrow> hret () w1
           | ((pr, None), w1) \<Rightarrow>
               (let w2 = (if Limit pr > 0 then
                            set_hdr ''X-ProcessingTime-Remaining'' (itoa (Remaining pr)) (set_hdr ''X-ProcessingTime-Limit'' (itoa (Limit pr)) w1)
                          else w1)
                in if \<not> CheckResult.Allowed pr then
                     writeError 429 (Text ''processing time budget exceeded'') (set_hdr ''Retry-After'' (itoa (trunc_secs (ResetAfter pr))) w2)
                   else hret () w2)))"

definition token_stage ::
  "'r redis \<Rightarrow> parse_duration \<Rightarrow> (int \<Rightarrow> string) \<Rightarrow> Limiter option \<Rightarrow> JobRequest \<Rightarrow> string \<Rightarrow> (('r, 'o, 'g, 'u) world, unit) hop" where
  "token_stage R pd show_dur limiter rq serviceType w =
     (case limiter of
        None \<Rightarrow> hret () w
      | Some l \<Rightarrow>
          (case on_redis (CheckTokens R pd l (rq_policy rq) (rq_Header rq) serviceType) w of
             ((_, Some _), w1) \<Rightarrow> hret () w1
           | ((tr, None), w1) \<Rightarrow>
               (let w2 = (if Limit tr > 0 then
                            (let w' = set_hdr ''X-TokenRateLimit-Remaining'' (itoa (Remaining tr)) (set_hdr ''X-TokenRateLimit-Limit'' (itoa (Limit tr)) w1)
                             in w'\<lparr>w_hdr := WriteOpenAIHeaders show_dur ''tokens'' tr (w_hdr w')\<rparr>)
                          else w1)
                in if \<not> CheckResult.Allowed tr then
                     writeError 429 (Text ''token rate limit exceeded'') (set_hdr ''Retry-After'' (itoa (trunc_secs (ResetAfter tr))) w2)
                   else hret () w2)))"

definition concurrent_stage ::
  "('r, 't, 'o, 'g, 'u) jobs_env \<Rightarrow> JobHandler \<Rightarrow> JobRequest \<Rightarrow> string \<Rightarrow> (('r, 'o, 'g, 'u) world, unit) hop" where
  "concurrent_stage E h rq serviceType w =
     (case jh_concurrentLimiter h of
        None \<Rightarrow> hret () w
      | Some l \<Rightarrow>
          (case on_redis (CheckConcurrent (je_R E) (je_cj E) l (rq_Header rq) serviceType) w of
             ((_, Some _), w1) \<Rightarrow> hret () w1
           | ((cr, None), w1) \<Rightarrow>
               (let w2 = (if Limit cr > 0 then
                            set_hdr ''X-Concurrent-Remaining'' (itoa (Remaining cr)) (set_hdr ''X-Concurrent-Limit'' (itoa (Limit cr)) w1)
                          else w1)
                in if \<not> CheckResult.Allowed cr then writeError 429 (Text ''concurrent job limit exceeded'') w2
                   else hret () (w2\<lparr>w_slot := True\<rparr>))))"

definition reservedJobFields :: "string list" where
  "reservedJobFields = [''model'', ''file'', ''callback_url'', ''operation'']"

definition job_params :: "Form \<Rightarrow> (string \<times> string) list" where
  "job_params f = map (\<lambda>(k, vs). (k, hd vs)) (filter (\<lambda>(k, vs). k \<notin> set reservedJobFields \<and> vs \<noteq> []) (f_Value f))"

text \<open>\<^verbatim>\<open>scanAsyncSubmitInput\<close>: the categories or the reason of the first violation that blocks.\<close>

definition blocking_result :: "ModelResult list \<Rightarrow> string list option" where
  "blocking_result results =
     (case find (\<lambda>res. res_Err res \<or> res_Action res = ActionBlock) results of
        None \<Rightarrow> None
      | Some res \<Rightarrow> Some (if res_Err res then [''detector unavailable''] else res_Categories res))"

definition violation :: "string list \<Rightarrow> message" where
  "violation cats = Text (''guardrails violation: '' @ join_with '', '' cats)"

definition scanAsyncSubmitInput ::
  "('r, 't, 'o, 'g, 'u) jobs_env \<Rightarrow> GuardrailsStage \<Rightarrow> string list \<Rightarrow> (('r, 'o, 'g, 'u) world, unit) hop" where
  "scanAsyncSubmitInput E stage texts w =
     (if texts = [] then hret () w
      else
        (let findings = (if Checks stage \<noteq> [] then regex_Scan (Checks stage) texts else []) in
         if findings \<noteq> [] \<and> Action stage = ''block'' then writeError 422 (violation (Categories findings)) w
         else
           (let (results, w1) = on_models (EvaluateSync (je_G E) (Models stage) texts) w in
            case blocking_result results of
              Some reason \<Rightarrow> writeError 422 (violation reason) w1
            | None \<Rightarrow> hret () (snd (on_models (FireAsync (je_G E) (Models stage) texts) w1)))))"

definition input_stage ::
  "('r, 't, 'o, 'g, 'u) jobs_env \<Rightarrow> Def \<Rightarrow> (string \<times> string) list \<Rightarrow> (('r, 'o, 'g, 'u) world, unit) hop" where
  "input_stage E def params =
     (if Enabled (Input (Guardrails def)) \<and> params \<noteq> [] then
        scanAsyncSubmitInput E (Input (Guardrails def)) (filter (\<lambda>s. s \<noteq> []) (map (TrimSpace \<circ> snd) params))
      else hret ())"

definition new_job :: "JobHandler \<Rightarrow> JobRequest \<Rightarrow> Form \<Rightarrow> string \<Rightarrow> Def \<Rightarrow> string \<Rightarrow> string \<Rightarrow> string \<Rightarrow> int \<Rightarrow> Job" where
  "new_job h rq f serviceType def inferenceURL jobID inputRef now =
     \<lparr>ID = jobID, ServiceType = serviceType, Job.Model = Def.Model def, Status = JobStatusPending, InputRef = inputRef, ResultRef = [],
      CallbackURL = FormValue rq f ''callback_url'', Job.InferenceURL = inferenceURL, Params = job_params f,
      ConsumerName = header_of rq (jh_consumerHeader h), UserTypeJ = header_of rq (jh_userTypeHeader h),
      Priority = (header_of rq (jh_priorityHeader h) \<noteq> []), ErrorMsg = [], Job.ProcessingTime = 0, PromptTokens = 0,
      CompletionTokens = 0, CreatedAt = now, UpdatedAt = now, QueuePosition = None, TraceContext = rq_traceparent rq\<rparr>"

definition upload_stage ::
  "('r, 't, 'o, 'g, 'u) jobs_env \<Rightarrow> string \<Rightarrow> FileHeader \<Rightarrow> (('r, 'o, 'g, 'u) world, unit) hop" where
  "upload_stage E inputRef file w =
     (let (ok, w1) = on_objects (s3_Upload (je_S E) inputRef (fh_Data file) (fh_ContentType file)) w in
      if ok then hret () w1 else writeError 500 (Text ''failed to store file'') w1)"

text \<open>The idempotency key: won, or an error of the server, lets the submission go on; a key in use replays the job it
  stands for.\<close>

definition idempotency_stage ::
  "('r, 't, 'o, 'g, 'u) jobs_env \<Rightarrow> JobHandler \<Rightarrow> string \<Rightarrow> string \<Rightarrow> string \<Rightarrow> (('r, 'o, 'g, 'u) world, unit) hop" where
  "idempotency_stage E h consumer idemKey jobID w =
     (if idemKey = [] then hret () w
      else case on_redis (ReserveIdempotencyKey (je_R E) consumer idemKey jobID (jh_idempotencyTTL h)) w of
          (None, w1) \<Rightarrow> hret () w1
        | (Some True, w1) \<Rightarrow> hret () w1
        | (Some False, w1) \<Rightarrow>
            (let (existing, w2) = on_redis (GetIdempotencyKey (je_R E) consumer idemKey) w1;
                 existingID = (case existing of None \<Rightarrow> [] | Some i \<Rightarrow> i);
                 (found, w3) = (if existingID \<noteq> [] then on_redis (GetJob (je_R E) (je_cd E) existingID) w2 else (Inl RedisError, w2))
             in case found of
                  Inr job \<Rightarrow> stop_with 200 (Submitted (ID job) (ServiceType job) (Job.Model job) (Status job)) (set_hdr ''X-Idempotent-Replay'' ''true'' w3)
                | Inl _ \<Rightarrow> writeError 409 (Text ''Idempotency-Key was recently used for a job that is no longer available; retry with a new key'') w3))"

definition release_key :: "('r, 't, 'o, 'g, 'u) jobs_env \<Rightarrow> string \<Rightarrow> string \<Rightarrow> ('r, 'o, 'g, 'u) world \<Rightarrow> ('r, 'o, 'g, 'u) world" where
  "release_key E consumer idemKey w =
     (if idemKey \<noteq> [] then snd (on_redis (ReleaseIdempotencyKey (je_R E) consumer idemKey) w) else w)"

definition gate_stage ::
  "('r, 't, 'o, 'g, 'u) jobs_env \<Rightarrow> Def \<Rightarrow> string \<Rightarrow> string \<Rightarrow> string \<Rightarrow> (('r, 'o, 'g, 'u) world, unit) hop" where
  "gate_stage E def consumer idemKey jobID w =
     (let a = Async (Guardrails def) in
      if \<not> Enforcing a then hret () w
      else case on_redis (SetScanGate (je_R E) (je_pd E) (je_rc E) jobID (ScanTimeout a) (OnTimeoutFailClosed a)) w of
          (None, w1) \<Rightarrow> writeError 500 (Text ''failed to arm guardrail scan gate'') (release_key E consumer idemKey w1)
        | (Some _, w1) \<Rightarrow> hret () w1)"

definition save_stage ::
  "('r, 't, 'o, 'g, 'u) jobs_env \<Rightarrow> Def \<Rightarrow> string \<Rightarrow> Job \<Rightarrow> (('r, 'o, 'g, 'u) world, unit) hop" where
  "save_stage E def idemKey job w =
     (case on_redis (SaveJob (je_R E) (je_cd E) (je_pd E) (je_rc E) job) w of
        (None, w1) \<Rightarrow>
          (let w2 = release_key E (ConsumerName job) idemKey w1;
               w3 = (if Enforcing (Async (Guardrails def)) then snd (on_redis (ClearScanGate (je_R E) (ID job)) w2) else w2)
           in writeError 500 (Text ''failed to save job'') w3)
      | (Some _, w1) \<Rightarrow> hret () w1)"

definition track :: "('r, 't, 'o, 'g, 'u) jobs_env \<Rightarrow> usage_call list \<Rightarrow> ('r, 'o, 'g, 'u) world \<Rightarrow> ('r, 'o, 'g, 'u) world" where
  "track E calls w = w\<lparr>w_u := fold (je_U E) calls (w_u w)\<rparr>"

text \<open>From the parsed form on.\<close>

definition submit_form ::
  "('r, 't, 'o, 'g, 'u) jobs_env \<Rightarrow> JobHandler \<Rightarrow> JobRequest \<Rightarrow> string \<Rightarrow> Form \<Rightarrow> string \<Rightarrow> int \<Rightarrow> (('r, 'o, 'g, 'u) world, unit) hop" where
  "submit_form E h rq serviceType f jobID now =
     (case RouteAsync (jh_registry h) serviceType (FormValue rq f ''model'') of
        Inl e \<Rightarrow> writeError 400 (Route e)
      | Inr def \<Rightarrow>
          hbind (checkModelVisible rq def (jh_userTypeHeader h)) (\<lambda>_.
          if \<not> SupportsAsync def then writeError 405 (OnlySync (Def.Model def))
          else hbind (authz_stage h rq def) (\<lambda>_.
          case f_File f of
            None \<Rightarrow> writeError 400 (Text (''field '' @ [CHR 0x27] @ ''file'' @ [CHR 0x27] @ '' is required''))
          | Some file \<Rightarrow>
              (case ValidateFileDef def (fh_Filename file) of
                 Some e \<Rightarrow> writeError 400 (Route e)
               | None \<Rightarrow>
                   (case OperationPath def (FormValue rq f ''operation'') of
                      Inl e \<Rightarrow> writeError 400 (Route e)
                    | Inr inferenceURL \<Rightarrow>
                        hbind (time_stage (je_R E) (je_pd E) (jh_processingTimeLimiter h) rq serviceType) (\<lambda>_.
                        hbind (token_stage (je_R E) (je_pd E) (je_show_dur E) (jh_tokenLimiter h) rq serviceType) (\<lambda>_.
                        hbind (concurrent_stage E h rq serviceType) (\<lambda>_.
                        hbind (input_stage E def (job_params f)) (\<lambda>_.
                        let inputRef = jobID @ ''/input'' @ Ext (fh_Filename file);
                            job = new_job h rq f serviceType def inferenceURL jobID inputRef now;
                            idemKey = hGet (rq_Header rq) ''Idempotency-Key''
                        in hbind (upload_stage E inputRef file) (\<lambda>_.
                           hbind (idempotency_stage E h (ConsumerName job) idemKey jobID) (\<lambda>_.
                           hbind (gate_stage E def (ConsumerName job) idemKey jobID) (\<lambda>_.
                           hbind (save_stage E def idemKey job) (\<lambda>_ w.
                           stop_with 202 (Submitted jobID serviceType (Def.Model def) JobStatusPending)
                             (if ConsumerName job \<noteq> [] \<and> jh_usageTracker h then
                                track E [TrackRequest (ConsumerName job) serviceType, TrackJob (ConsumerName job) serviceType,
                                  TrackActive (ConsumerName job), TrackUserType (ConsumerName job) serviceType (UserTypeJ job)] w
                              else w))))))))))))))"

definition submit_request ::
  "('r, 't, 'o, 'g, 'u) jobs_env \<Rightarrow> JobHandler \<Rightarrow> JobRequest \<Rightarrow> string \<Rightarrow> string \<Rightarrow> int \<Rightarrow> (('r, 'o, 'g, 'u) world, unit) hop" where
  "submit_request E h rq serviceType jobID now =
     (case MaxFileSizeForType (jh_registry h) serviceType of
        Inl e \<Rightarrow> writeError 404 (Route e)
      | Inr maxSize \<Rightarrow>
          hbind (rate_stage (je_R E) (je_pd E) (je_show_dur E) (jh_rateLimiter h) rq serviceType now) (\<lambda>_.
            case rq_form rq (wrap64 (maxSize * 2 ^ 20)) of
              None \<Rightarrow> writeError 400 BadForm
            | Some f \<Rightarrow> submit_form E h rq serviceType f jobID now))"

text \<open>\<^verbatim>\<open>Submit\<close>, with the release of the slot that is deferred to its end.\<close>

definition Submit ::
  "('r, 't, 'o, 'g, 'u) jobs_env \<Rightarrow> JobHandler \<Rightarrow> JobRequest \<Rightarrow> string \<Rightarrow> string \<Rightarrow> int \<Rightarrow> ('r, 'o, 'g, 'u) world \<Rightarrow>
   Reply \<times> ('r, 'o, 'g, 'u) world" where
  "Submit E h rq serviceType jobID now w =
     (let (res, w1) = submit_request E h rq serviceType jobID now (w\<lparr>w_hdr := [], w_slot := False\<rparr>);
          reply = (case res of Inl rep \<Rightarrow> rep | Inr _ \<Rightarrow> \<lparr>Code = 200, Body = NoBody\<rparr>)
      in case (w_slot w1, jh_concurrentLimiter h) of
           (True, Some l) \<Rightarrow> (reply, snd (on_redis (ReleaseSlot (je_R E) l (rq_Header rq) serviceType) w1))
         | _ \<Rightarrow> (reply, w1))"

section \<open>Status\<close>

definition status_of :: "Job \<Rightarrow> statusResponse" where
  "status_of job = \<lparr>sr_JobID = ID job, sr_ServiceType = ServiceType job, sr_Model = Job.Model job, sr_Status = Status job,
     sr_QueuePosition = None, sr_Result = None, sr_Error = ErrorMsg job, sr_CreatedAt = CreatedAt job, sr_UpdatedAt = UpdatedAt job\<rparr>"

text \<open>Whether a job is the caller's: of the service asked for, and of the consumer, where the request names one.\<close>

definition owns_job :: "JobHandler \<Rightarrow> JobRequest \<Rightarrow> string \<Rightarrow> Job \<Rightarrow> bool" where
  "owns_job h rq serviceType job \<longleftrightarrow>
     ServiceType job = serviceType \<and> (header_of rq (jh_consumerHeader h) = [] \<or> ConsumerName job = header_of rq (jh_consumerHeader h))"

text \<open>The scan gate of a completed job: \<open>Inl\<close> withholds the result, \<open>Inr True\<close> lets it through because the gate has lapsed.\<close>

definition gate_check ::
  "('r, 't, 'o, 'g, 'u) jobs_env \<Rightarrow> string \<Rightarrow> Job \<Rightarrow> int \<Rightarrow> (('r, 'o, 'g, 'u) world, bool) hop" where
  "gate_check E i job now w =
     (if Status job \<noteq> JobStatusCompleted then hret False w
      else case on_redis (GetScanGate (je_R E) i) w of
          (Some (Some gate), w1) \<Rightarrow>
            if now < UpdatedAt job + Timeout gate then stop_with 200 (StatusBody ((status_of job)\<lparr>sr_Status := JobStatusProcessing\<rparr>)) w1
            else if FailClosed gate then
              (let (_, w2) = on_redis (OverrideJobResult (je_R E) (je_cd E) (je_pd E) (je_rc E) now i JobStatusFailed [] ''guardrail result scan timed out'') w1;
                   (_, w3) = on_redis (ClearScanGate (je_R E) i) w2
               in stop_with 200 (StatusBody ((status_of job)\<lparr>sr_Status := JobStatusFailed, sr_Error := ''guardrail result scan timed out''\<rparr>)) w3)
            else hret True (snd (on_redis (ClearScanGate (je_R E) i) w1))
        | (_, w1) \<Rightarrow> hret False w1)"

definition position_stage :: "('r, 't, 'o, 'g, 'u) jobs_env \<Rightarrow> Job \<Rightarrow> ('r, 'o, 'g, 'u) world \<Rightarrow> int option \<times> ('r, 'o, 'g, 'u) world" where
  "position_stage E job w =
     (if Status job = JobStatusPending then
        (case on_redis (GetQueuePosition (je_R E) (ID job) (Job.Model job)) w of
           (Some (pos, True), w1) \<Rightarrow> (Some pos, w1) | (_, w1) \<Rightarrow> (None, w1))
      else (None, w))"

definition result_stage :: "('r, 't, 'o, 'g, 'u) jobs_env \<Rightarrow> Job \<Rightarrow> ('r, 'o, 'g, 'u) world \<Rightarrow> string option \<times> ('r, 'o, 'g, 'u) world" where
  "result_stage E job w =
     (if Status job = JobStatusCompleted \<and> ResultRef job \<noteq> [] then on_objects (h_GetObject (je_S E) (ResultRef job)) w else (None, w))"

text \<open>The body of a status. An empty result is left out of it; one that is no JSON makes the encoder fail before it has written
  anything.\<close>

definition status_body :: "('r, 't, 'o, 'g, 'u) jobs_env \<Rightarrow> statusResponse \<Rightarrow> body" where
  "status_body E sr = (case sr_Result sr of
       Some data \<Rightarrow> if data = [] then StatusBody (sr\<lparr>sr_Result := None\<rparr>) else if je_valid_json E data then StatusBody sr else NoBody
     | None \<Rightarrow> StatusBody sr)"

text \<open>\<^verbatim>\<open>GetStatus\<close>; the job whose result and record a delivery leaves to be deleted in the background.\<close>

definition status_request ::
  "('r, 't, 'o, 'g, 'u) jobs_env \<Rightarrow> JobHandler \<Rightarrow> JobRequest \<Rightarrow> string \<Rightarrow> string \<Rightarrow> int \<Rightarrow> (('r, 'o, 'g, 'u) world, Reply \<times> Job option) hop" where
  "status_request E h rq serviceType i now w =
     (case on_redis (GetJob (je_R E) (je_cd E) i) w of
        (Inl _, w1) \<Rightarrow>
          (case on_redis (JobEverExisted (je_R E) i) w1 of
             (Some True, w2) \<Rightarrow> stop_with 410 (Expired i) w2
           | (_, w2) \<Rightarrow> writeError 404 (JobNotFound i) w2)
      | (Inr job, w1) \<Rightarrow>
          if \<not> owns_job h rq serviceType job then writeError 404 (JobNotFound i) w1
          else hbind (gate_check E i job now) (\<lambda>lapsed w2.
            let (pos, w3) = position_stage E job w2; (data, w4) = result_stage E job w3
            in (Inr (\<lparr>Code = 200, Body = status_body E ((status_of job)\<lparr>sr_QueuePosition := pos, sr_Result := data\<rparr>)\<rparr>,
                 if Status job = JobStatusCompleted \<and> \<not> jh_PersistsResult h \<and> \<not> lapsed then Some job else None),
                set_hdr ''Content-Type'' ''application/json'' w4)) w1)"

definition GetStatus ::
  "('r, 't, 'o, 'g, 'u) jobs_env \<Rightarrow> JobHandler \<Rightarrow> JobRequest \<Rightarrow> string \<Rightarrow> string \<Rightarrow> int \<Rightarrow> ('r, 'o, 'g, 'u) world \<Rightarrow>
   (Reply \<times> Job option) \<times> ('r, 'o, 'g, 'u) world" where
  "GetStatus E h rq serviceType i now w =
     (let (res, w1) = status_request E h rq serviceType i now (w\<lparr>w_hdr := []\<rparr>)
      in (case res of Inl rep \<Rightarrow> (rep, None) | Inr x \<Rightarrow> x, w1))"

definition status_cleanup :: "('r, 't, 'o, 'g, 'u) jobs_env \<Rightarrow> Job \<Rightarrow> ('r, 'o, 'g, 'u) world \<Rightarrow> ('r, 'o, 'g, 'u) world" where
  "status_cleanup E job w =
     (let w1 = (if ResultRef job \<noteq> [] then snd (on_objects (h_DeleteObject (je_S E) (ResultRef job)) w) else w)
      in snd (on_redis (DeleteJob (je_R E) (je_cd E) (ID job)) w1))"

section \<open>Listing, cancelling and purging\<close>

definition query_get :: "JobRequest \<Rightarrow> string \<Rightarrow> string" where
  "query_get rq k = first_val (vals (rq_query rq) k)"

definition list_limit :: "JobRequest \<Rightarrow> int" where
  "list_limit rq = (case atoi (query_get rq ''limit'') of Some n \<Rightarrow> if n > 0 then min n 100 else 20 | None \<Rightarrow> 20)"

definition list_offset :: "JobRequest \<Rightarrow> int" where
  "list_offset rq = (case atoi (query_get rq ''offset'') of Some n \<Rightarrow> if n \<ge> 0 then n else 0 | None \<Rightarrow> 0)"

definition list_request ::
  "('r, 't, 'o, 'g, 'u) jobs_env \<Rightarrow> JobHandler \<Rightarrow> JobRequest \<Rightarrow> (('r, 'o, 'g, 'u) world, unit) hop" where
  "list_request E h rq w =
     (let consumer = hGet (rq_Header rq) (jh_consumerHeader h) in
      if jh_consumerHeader h = [] then writeError 501 (Text ''GET /jobs requires consumer_header to be configured'') w
      else if consumer = [] then writeError 400 (HeaderRequired (jh_consumerHeader h)) w
      else case on_redis (ListJobsByConsumer (je_R E) (je_cd E) consumer (list_limit rq) (list_offset rq)) w of
          (None, w1) \<Rightarrow> writeError 500 (Text ''failed to list jobs'') w1
        | (Some (jobs, nAll), w1) \<Rightarrow>
            stop_with 200 (Listing \<lparr>lj_Consumer = consumer, lj_Total = nAll, lj_Limit = list_limit rq, lj_Offset = list_offset rq,
              lj_Jobs = map (\<lambda>j. (status_of j)\<lparr>sr_QueuePosition := QueuePosition j\<rparr>) jobs\<rparr>) w1)"

definition cancel_request ::
  "('r, 't, 'o, 'g, 'u) jobs_env \<Rightarrow> JobHandler \<Rightarrow> JobRequest \<Rightarrow> string \<Rightarrow> string \<Rightarrow> int \<Rightarrow> (('r, 'o, 'g, 'u) world, unit) hop" where
  "cancel_request E h rq serviceType i now w =
     (case on_redis (GetJob (je_R E) (je_cd E) i) w of
        (Inl _, w1) \<Rightarrow> writeError 404 (JobNotFound i) w1
      | (Inr job, w1) \<Rightarrow>
          if \<not> owns_job h rq serviceType job then writeError 404 (JobNotFound i) w1
          else if Status job = JobStatusPending \<or> Status job = JobStatusProcessing then
            (case on_redis (MarkJobCancelled (je_R E) (je_cd E) (je_pd E) (je_rc E) now i (Job.Model job)) w1 of
               (None, w2) \<Rightarrow> writeError 500 (Text ''failed to cancel job'') w2
             | (Some _, w2) \<Rightarrow> (Inl \<lparr>Code = 202, Body = NoBody\<rparr>, w2))
          else writeError 409 (CannotCancel i (Status job)) w1)"

text \<open>A handler that always replies.\<close>

definition serve :: "(('r, 'o, 'g, 'u) world, unit) hop \<Rightarrow> ('r, 'o, 'g, 'u) world \<Rightarrow> Reply \<times> ('r, 'o, 'g, 'u) world" where
  "serve m w = (case m (w\<lparr>w_hdr := []\<rparr>) of (Inl rep, w1) \<Rightarrow> (rep, w1) | (Inr _, w1) \<Rightarrow> (\<lparr>Code = 200, Body = NoBody\<rparr>, w1))"

definition ListJobs ::
  "('r, 't, 'o, 'g, 'u) jobs_env \<Rightarrow> JobHandler \<Rightarrow> JobRequest \<Rightarrow> ('r, 'o, 'g, 'u) world \<Rightarrow> Reply \<times> ('r, 'o, 'g, 'u) world" where
  "ListJobs E h rq = serve (list_request E h rq)"

definition Cancel ::
  "('r, 't, 'o, 'g, 'u) jobs_env \<Rightarrow> JobHandler \<Rightarrow> JobRequest \<Rightarrow> string \<Rightarrow> string \<Rightarrow> int \<Rightarrow> ('r, 'o, 'g, 'u) world \<Rightarrow> Reply \<times> ('r, 'o, 'g, 'u) world" where
  "Cancel E h rq serviceType i now = serve (cancel_request E h rq serviceType i now)"

definition defaultPurgeLimit :: int where "defaultPurgeLimit = 500"

text \<open>The purge of the listed jobs: how many were deleted; the deletion of an input runs in the background.\<close>

fun purge_jobs :: "('r, 't, 'o, 'g, 'u) jobs_env \<Rightarrow> Job list \<Rightarrow> int \<Rightarrow> ('r, 'o, 'g, 'u) world \<Rightarrow> int \<times> ('r, 'o, 'g, 'u) world" where
  "purge_jobs E [] purged w = (purged, w)"
| "purge_jobs E (job # jobs) purged w =
     (case on_redis (DeleteJob (je_R E) (je_cd E) (ID job)) w of
        (None, w1) \<Rightarrow> purge_jobs E jobs purged w1
      | (Some _, w1) \<Rightarrow>
          purge_jobs E jobs (purged + 1)
            (if InputRef job \<noteq> [] then snd (on_objects (h_DeleteObject (je_S E) (InputRef job)) w1) else w1))"

text \<open>The outer \<open>None\<close> is a \<^verbatim>\<open>SCAN\<close> that never ends.\<close>

definition purge_request ::
  "('r, 't, 'o, 'g, 'u) jobs_env \<Rightarrow> string \<Rightarrow> int \<Rightarrow> int \<Rightarrow> int \<Rightarrow> ('r, 'o, 'g, 'u) world \<Rightarrow> (Reply \<times> ('r, 'o, 'g, 'u) world) option" where
  "purge_request E rawDur olderThan limit now w =
     (case ListStalePendingJobs (je_R E) (je_cd E) now olderThan (w_r w) of
        None \<Rightarrow> None
      | Some (None, st1) \<Rightarrow> Some (serve (writeError 500 (Text ''failed to list stale jobs'')) (w\<lparr>w_r := st1\<rparr>))
      | Some (Some found, st1) \<Rightarrow>
          (let jobs = take (nat limit) found; (purged, w2) = purge_jobs E jobs 0 (w\<lparr>w_r := st1\<rparr>)
           in Some (serve (stop_with 200 (Purged rawDur (int (length jobs)) purged (int (length found) > limit))) w2)))"

definition AdminPurge ::
  "('r, 't, 'o, 'g, 'u) jobs_env \<Rightarrow> JobRequest \<Rightarrow> int \<Rightarrow> ('r, 'o, 'g, 'u) world \<Rightarrow> (Reply \<times> ('r, 'o, 'g, 'u) world) option" where
  "AdminPurge E rq now w =
     (let rawDur = query_get rq ''older_than''; rawLimit = query_get rq ''limit'';
          limit = (if rawLimit = [] then Some defaultPurgeLimit
                   else (case atoi rawLimit of Some n \<Rightarrow> if n \<le> 0 then None else Some n | None \<Rightarrow> None))
      in if rawDur = [] then Some (serve (writeError 400 (Text (''query param '' @ [CHR 0x27] @ ''older_than'' @ [CHR 0x27] @ '' is required (e.g. '' @ [CHR 0x27] @ ''2h'' @ [CHR 0x27] @ '')''))) w)
         else case je_pd E rawDur of
           None \<Rightarrow> Some (serve (writeError 400 (BadOlderThan rawDur)) w)
         | Some olderThan \<Rightarrow>
             if olderThan \<le> 0 then Some (serve (writeError 400 (BadOlderThan rawDur)) w)
             else (case limit of
                     None \<Rightarrow> Some (serve (writeError 400 (BadLimit rawLimit)) w)
                   | Some n \<Rightarrow> purge_request E rawDur olderThan n now w))"

end
