(* ===== verification/Completion.thy ===== *)
theory Completion
  imports JobsApi
begin

text \<open>
  The work on a finished job (\<^verbatim>\<open>internal/handler/relaycomplete.go\<close>): one replica claims the job, debits time and tokens,
  runs the result guardrails, opens the gate for polls and delivers the webhook. The work runs in the background; here
  it is a step on the state of the world. Its parameters are those of the job API and of the webhooks.
\<close>

record RelayCompleteHandler =
  rh_reg :: "Registry option"
  rh_sender :: WebhookSender
  rh_processingTimeLimiter :: "Limiter option"
  rh_tokenLimiter :: "Limiter option"
  rh_usageTracker :: bool
  rh_closing :: bool

definition NewRelayCompleteHandler :: "parse_duration \<Rightarrow> bool \<Rightarrow> WebhookConfig \<Rightarrow> RelayCompleteHandler" where
  "NewRelayCompleteHandler pd persists cfg =
     \<lparr>rh_reg = None, rh_sender = NewWebhookSender pd persists cfg, rh_processingTimeLimiter = None, rh_tokenLimiter = None,
      rh_usageTracker = False, rh_closing = False\<rparr>"

definition WithRegistry :: "Registry \<Rightarrow> RelayCompleteHandler \<Rightarrow> RelayCompleteHandler" where
  "WithRegistry reg h = h\<lparr>rh_reg := Some reg\<rparr>"

definition trackStart :: "RelayCompleteHandler \<Rightarrow> bool" where
  "trackStart h \<longleftrightarrow> \<not> rh_closing h"

text \<open>\<^verbatim>\<open>Wait\<close>: no work is started afterwards.\<close>

definition Wait :: "RelayCompleteHandler \<Rightarrow> RelayCompleteHandler" where
  "Wait h = h\<lparr>rh_closing := True\<rparr>"

section \<open>Guardrails on the result\<close>

definition dedupeStrings :: "string list \<Rightarrow> string list" where
  "dedupeStrings xs = first_occurrences {} xs"

definition asyncGuardrailsFor :: "RelayCompleteHandler \<Rightarrow> Job \<Rightarrow> Def option" where
  "asyncGuardrailsFor h job =
     (case rh_reg h of
        None \<Rightarrow> None
      | Some reg \<Rightarrow>
          if Status job \<noteq> JobStatusCompleted \<or> ResultRef job = [] then None
          else (case RouteAsync reg (ServiceType job) (Job.Model job) of
                  Inl _ \<Rightarrow> None
                | Inr def \<Rightarrow> if Enabled (Async (Guardrails def)) then Some def else None))"

definition blockResult ::
  "('r, 't, 'o, 'g, 'u) jobs_env \<Rightarrow> string list \<Rightarrow> int \<Rightarrow> Job \<Rightarrow> ('r, 'o, 'g, 'u) world \<Rightarrow> Job \<times> ('r, 'o, 'g, 'u) world" where
  "blockResult E cats now job w =
     (let reason = ''guardrails violation: '' @ join_with '', '' cats in
      case on_redis (OverrideJobResult (je_R E) (je_cd E) (je_pd E) (je_rc E) now (ID job) JobStatusFailed [] reason) w of
        (None, w1) \<Rightarrow> (job, w1)
      | (Some _, w1) \<Rightarrow> (job\<lparr>Status := JobStatusFailed, ResultRef := [], ErrorMsg := reason\<rparr>, w1))"

definition redactResult ::
  "('r, 't, 'o, 'g, 'u) jobs_env \<Rightarrow> json_codec \<Rightarrow> string list \<Rightarrow> string \<Rightarrow> int \<Rightarrow> Job \<Rightarrow> ('r, 'o, 'g, 'u) world \<Rightarrow> Job \<times> ('r, 'o, 'g, 'u) world" where
  "redactResult E jc stage_checks data now job w =
     (if stage_checks = [] then (job, w)
      else
        (let (redacted, redCats) = RedactResultTexts jc data stage_checks; siblingKey = ResultRef job @ ''.redacted'' in
         if redCats = [] then (job, w)
         else (case on_objects (s3_Upload (je_S E) siblingKey redacted ''application/json'') w of
                 (False, w1) \<Rightarrow> (job, w1)
               | (True, w1) \<Rightarrow>
                   (case on_redis (OverrideJobResult (je_R E) (je_cd E) (je_pd E) (je_rc E) now (ID job) JobStatusCompleted siblingKey []) w1 of
                      (None, w2) \<Rightarrow> (job, w2)
                    | (Some _, w2) \<Rightarrow> (job\<lparr>ResultRef := siblingKey\<rparr>, w2)))))"

text \<open>The names of the detectors that fired and their categories; a detector that fails is passed over.\<close>

definition fired_detectors :: "GuardrailsStage \<Rightarrow> string list \<Rightarrow> ModelResult list \<Rightarrow> string list \<times> string list" where
  "fired_detectors stage texts results =
     (let findings = (if Checks stage \<noteq> [] then regex_Scan (Checks stage) texts else []); ok = filter (\<lambda>r. \<not> res_Err r) results
      in ((if findings \<noteq> [] then [''regex''] else []) @ map res_Name ok, Categories findings @ concat (map res_Categories ok)))"

definition applyResultGuardrails ::
  "('r, 't, 'o, 'g, 'u) jobs_env \<Rightarrow> json_codec \<Rightarrow> Def \<Rightarrow> int \<Rightarrow> Job \<Rightarrow> ('r, 'o, 'g, 'u) world \<Rightarrow> Job \<times> ('r, 'o, 'g, 'u) world" where
  "applyResultGuardrails E jc def now job w =
     (case on_objects (h_GetObject (je_S E) (ResultRef job)) w of
        (None, w1) \<Rightarrow> (job, w1)
      | (Some data, w1) \<Rightarrow>
          (let texts = extractResultTexts jc data; stage = Async (Guardrails def) in
           if texts = [] then (job, w1)
           else
             (let (results, w2) = on_models (EvaluateAll (je_G E) (Models stage) texts) w1;
                  (fired, cats) = fired_detectors stage texts results
              in if fired = [] then (job, w2)
                 else if Action stage = ActionBlock then blockResult E (dedupeStrings cats) now job w2
                 else if Action stage = ActionRedact then redactResult E jc (Checks stage) data now job w2
                 else (job, w2))))"

section \<open>Completion\<close>

definition debit_stage ::
  "('r, 't, 'o, 'g, 'u) jobs_env \<Rightarrow> RelayCompleteHandler \<Rightarrow> Job \<Rightarrow> ('r, 'o, 'g, 'u) world \<Rightarrow> ('r, 'o, 'g, 'u) world" where
  "debit_stage E h job w =
     (let w1 = (case rh_processingTimeLimiter h of
                  Some l \<Rightarrow> if Job.ProcessingTime job > 0 then
                      snd (on_redis (AddProcessingTime (je_R E) (je_pd E) l (ConsumerName job) (UserTypeJ job) (ServiceType job) (Job.ProcessingTime job)) w)
                    else w
                | None \<Rightarrow> w);
          totalTokens = wrap64 (PromptTokens job + CompletionTokens job)
      in case rh_tokenLimiter h of
           Some l \<Rightarrow> if totalTokens > 0 then
               snd (on_redis (AddTokensFor (je_R E) (je_pd E) l (ConsumerName job) (UserTypeJ job) (ServiceType job) totalTokens) w1)
             else w1
         | None \<Rightarrow> w1)"

definition completion_usage :: "RelayCompleteHandler \<Rightarrow> Job \<Rightarrow> usage_call list" where
  "completion_usage h job =
     (if \<not> rh_usageTracker h \<or> ConsumerName job = [] then []
      else
        (if Job.ProcessingTime job > 0 then
           [TrackProcessingTime (ConsumerName job) (ServiceType job) (Job.ProcessingTime job), TrackActive (ConsumerName job)] else []) @
        (if wrap64 (PromptTokens job + CompletionTokens job) > 0 then
           [TrackTokens (ConsumerName job) (ServiceType job) (PromptTokens job) (CompletionTokens job)] else []) @
        [TrackUserType (ConsumerName job) (ServiceType job) (UserTypeJ job)])"

definition NotifyJobDone :: "'r redis \<Rightarrow> string \<Rightarrow> 'r \<Rightarrow> unit option \<times> 'r" where
  "NotifyJobDone R i = rcall R (PUBLISH R (''job:'' @ i @ '':done'') ''1'')"

definition guardrail_stage ::
  "('r, 't, 'o, 'g, 'u) jobs_env \<Rightarrow> json_codec \<Rightarrow> RelayCompleteHandler \<Rightarrow> int \<Rightarrow> Job \<Rightarrow> ('r, 'o, 'g, 'u) world \<Rightarrow> Job \<times> ('r, 'o, 'g, 'u) world" where
  "guardrail_stage E jc h now job w =
     (case asyncGuardrailsFor h job of
        None \<Rightarrow> (job, w)
      | Some def \<Rightarrow>
          (let (job1, w1) = applyResultGuardrails E jc def now job w in
           if Enforcing (Async (Guardrails def)) then
             (let (_, w2) = on_redis (ClearScanGate (je_R E) (ID job)) w1; (_, w3) = on_redis (NotifyJobDone (je_R E) (ID job)) w2 in (job1, w3))
           else (job1, w1)))"

definition runCompletionWork ::
  "('r, 't, 'o, 'g, 'u) jobs_env \<Rightarrow> json_codec \<Rightarrow> webhook_codec \<Rightarrow> RelayCompleteHandler \<Rightarrow> int \<Rightarrow> Job \<Rightarrow> ('r, 'o, 'g, 'u) world \<Rightarrow> ('r, 'o, 'g, 'u) world" where
  "runCompletionWork E jc wc h now job w =
     (let w1 = track E (completion_usage h job) (debit_stage E h job w);
          (job1, w2) = guardrail_stage E jc h now job w1
      in if CallbackURL job1 \<noteq> [] then
           (let (st', o') = Send (je_R E) (web.truncate (je_S E)) wc (rh_sender h) now job1 (w_r w2, w_o w2) in w2\<lparr>w_r := st', w_o := o'\<rparr>)
         else w2)"

definition ProcessCompletion ::
  "('r, 't, 'o, 'g, 'u) jobs_env \<Rightarrow> json_codec \<Rightarrow> webhook_codec \<Rightarrow> RelayCompleteHandler \<Rightarrow> int \<Rightarrow> string \<Rightarrow> ('r, 'o, 'g, 'u) world \<Rightarrow> ('r, 'o, 'g, 'u) world" where
  "ProcessCompletion E jc wc h now jobID w =
     (case on_redis (ClaimCompletion (je_R E) (je_pd E) (je_rc E) jobID) w of
        (Some True, w1) \<Rightarrow>
          (case on_redis (GetJob (je_R E) (je_cd E) jobID) w1 of
             (Inl _, w2) \<Rightarrow> w2
           | (Inr job, w2) \<Rightarrow> if trackStart h then runCompletionWork E jc wc h now job w2 else w2)
      | (_, w1) \<Rightarrow> w1)"

definition Complete ::
  "('r, 't, 'o, 'g, 'u) jobs_env \<Rightarrow> json_codec \<Rightarrow> webhook_codec \<Rightarrow> RelayCompleteHandler \<Rightarrow> int \<Rightarrow> string \<Rightarrow> ('r, 'o, 'g, 'u) world \<Rightarrow>
   Reply \<times> ('r, 'o, 'g, 'u) world" where
  "Complete E jc wc h now i w =
     (case on_redis (GetJob (je_R E) (je_cd E) i) (w\<lparr>w_hdr := []\<rparr>) of
        (Inl _, w1) \<Rightarrow> serve (writeError 404 (JobNotFound i)) w1
      | (Inr _, w1) \<Rightarrow> (\<lparr>Code = 200, Body = NoBody\<rparr>, ProcessCompletion E jc wc h now i w1))"

end
