(* ===== verification/JobsRun.thy ===== *)
theory JobsRun
  imports Completion RelayRun WebhookRun RateLimit_Budgets GuardrailsRun
begin

text \<open>
  What the job API promises, on a server that answers: consumers are isolated from each other, a gated result is
  withheld, a verdict of the result guardrails is final; and the interleaving in which a poll still serves a result
  that has just been blocked.
\<close>

section \<open>Calls on a server that answers\<close>

text \<open>The gate of a job, as the server has it.\<close>

definition gate_at :: "keyspace \<Rightarrow> string \<Rightarrow> ScanGate option" where
  "gate_at ks i = (case look ks (scanGateKey i) of Some e \<Rightarrow> (case rv e of RStr v \<Rightarrow> Some (parse_gate v) | _ \<Rightarrow> None) | None \<Rightarrow> None)"

lemma overrideJobScript_patches:
  assumes "codec_ok cd" "holds cd ks i j" "0 < ttl"
  obtains ks' j' where "overrideJobScript (ks_server n) cd (jobKey i) status ref msg (fmt_time cd now) ttl ks = (Some (), ks')"
    "holds cd ks' i j'" "same_but_numbers (patched j status ref msg now) j'"
    "\<And>k. k \<noteq> jobKey i \<Longrightarrow> look ks' k = look ks k" "clock ks' = clock ks"
proof -
  from assms(2) obtain e tx where h: "look ks (jobKey i) = Some e" "rv e = RStr tx" "reads cd tx j" by (auto simp: holds_def)
  from h(3) obtain t where t: "cjson_decode cd tx = Some t" by (auto simp: reads_def split: option.splits)
  let ?t = "lua_patch cd status ref msg (fmt_time cd now) t"
  obtain j' where j': "reads cd (cjson_encode cd ?t) j'" "same_but_numbers (patched j status ref msg now) j'"
    using codec_patch [OF assms(1) h(3) t, of "[]" "[]" "[]" status ref msg now] by (auto simp: patched_def)
  let ?ks = "put (jobKey i) \<lparr>rv = RStr (cjson_encode cd ?t), deadline = Some (clock ks + 1000 * ttl)\<rparr> ks"
  show ?thesis
  proof (rule that [of ?ks j'])
    show "overrideJobScript (ks_server n) cd (jobKey i) status ref msg (fmt_time cd now) ttl ks = (Some (), ?ks)"
      using h t assms(3) by (simp add: overrideJobScript_def script_simps ks_get_def SET_EX_ks)
    show "holds cd ?ks i j'" using j'(1) assms(3) by (auto simp: holds_def)
  qed (use j'(2) in simp_all)
qed

locale live_server = redis_server +
  assumes live: "net R st = (Delivered, st)"
begin

lemma call_runs:
  assumes "sim view c d" "d (view st) = (x, ks)"
  obtains st1 where "rcall R c st = (x, st1)" "view st1 = ks"
  using simD [OF assms] rcall_delivered [OF live, of c st] by (metis prod.collapse)

lemma GetJob_holds:
  assumes "holds cd (view st) i j"
  obtains st1 where "GetJob R cd i st = (Inr j, st1)" "view st1 = view st"
proof -
  have "GetJob R cd i st = relay_GetJob R cd i st" by (simp add: GetJob_def relay_GetJob_def)
  then show ?thesis using relay_GetJob_reads [OF live assms] that by metis
qed

lemma GetScanGate_at:
  obtains r st1 where "GetScanGate R i st = (r, st1)" "view st1 = view st" "(case r of Some g \<Rightarrow> g | None \<Rightarrow> None) = gate_at (view st) i"
proof -
  have "snd (ks_get (scanGateKey i) (view st)) = view st" by (simp add: ks_get_def split: option.split rval.split)
  then obtain x where x: "ks_get (scanGateKey i) (view st) = (x, view st)" by (metis prod.collapse)
  obtain st1 where st1: "rcall R (GET R (scanGateKey i)) st = (x, st1)" "view st1 = view st" using call_runs [OF GET x] by metis
  let ?r = "case x of None \<Rightarrow> None | Some v \<Rightarrow> Some (map_option parse_gate v)"
  have "GetScanGate R i st = (?r, st1)" using st1(1) by (simp add: GetScanGate_def rbind_def rret_def split: option.split)
  moreover have "(case ?r of Some g \<Rightarrow> g | None \<Rightarrow> None) = gate_at (view st) i"
    using x by (auto simp: ks_get_def gate_at_def split: option.splits rval.splits)
  ultimately show ?thesis using st1(2) that by blast
qed

lemma OverrideJobResult_patches:
  assumes "codec_ok cd" "ttls_ok pd r" "holds cd (view st) i j"
  obtains st' j' where "OverrideJobResult R cd pd r now i status ref msg st = (Some (), st')" "holds cd (view st') i j'"
    "outcome_of j' = (status, ref, msg)" "same_job j j'" "\<And>k. k \<noteq> jobKey i \<Longrightarrow> look (view st') k = look (view st) k"
proof -
  obtain ks' j' where ks: "overrideJobScript (ks_server ks_link) cd (jobKey i) status ref msg (fmt_time cd now) (trunc_secs (ttlForStatus pd r status)) (view st) = (Some (), ks')"
    "holds cd ks' i j'" "same_but_numbers (patched j status ref msg now) j'" "\<And>k. k \<noteq> jobKey i \<Longrightarrow> look ks' k = look (view st) k"
    using overrideJobScript_patches [OF assms(1,3) ttls_ok_secs [OF assms(2)]] by metis
  have "sim view (overrideJobScript R cd k status ref msg ts t) (overrideJobScript (ks_server ks_link) cd k status ref msg ts t)" for k ts t
    unfolding overrideJobScript_def by (intro sim_rbind sim_option sim_rfail SET_EX_sim) (simp_all add: ks_server_simps GET)
  from call_runs [OF this ks(1)] obtain st' where "OverrideJobResult R cd pd r now i status ref msg st = (Some (), st')" "view st' = ks'"
    by (metis OverrideJobResult_def)
  with ks same_but_numbers_patched [OF ks(3)] that show ?thesis by blast
qed

lemma ClearScanGate_clears:
  obtains st' where "ClearScanGate R i st = (Some (), st')" "gate_at (view st') i = None"
    "\<And>k. k \<noteq> scanGateKey i \<Longrightarrow> look (view st') k = look (view st) k"
proof -
  obtain x ks where x: "ks_del [scanGateKey i] (view st) = (x, ks)" by fastforce
  have "x \<noteq> None" using x by (auto split: if_splits option.splits prod.splits)
  moreover obtain st' where st': "rcall R (DEL R [scanGateKey i]) st = (x, st')" "view st' = ks" using call_runs [OF DEL x] by metis
  ultimately have "ClearScanGate R i st = (Some (), st')" by (auto simp: ClearScanGate_def rbind_def rret_def)
  moreover have "look ks k = (if k = scanGateKey i then None else look (view st) k)" for k
    using look_ks_del [OF x] by simp
  ultimately show ?thesis using that st'(2) by (simp add: gate_at_def)
qed

end

section \<open>Isolation of consumers\<close>

lemma on_redis_simp: "f (w_r w) = (x, st) \<Longrightarrow> on_redis f w = (x, w\<lparr>w_r := st\<rparr>)"
  by (simp add: on_redis_def)

lemma snd_on_redis: "snd (on_redis f w) = w\<lparr>w_r := snd (f (w_r w))\<rparr>"
  by (simp add: on_redis_def split: prod.split)

lemmas reply_simps = serve_def writeError_def stop_with_def set_hdr_def hret_def hbind_def

context live_server
begin

lemma GetJob_none:
  assumes "look (view st) (jobKey i) = None"
  obtains st1 where "GetJob R cd i st = (Inl (NotFound i), st1)" "view st1 = view st"
proof -
  have "ks_get (jobKey i) (view st) = (Some None, view st)" using assms by (simp add: ks_get_def)
  from call_runs [OF GET this] obtain st1 where "rcall R (GET R (jobKey i)) st = (Some None, st1)" "view st1 = view st" by metis
  then show ?thesis using that by (simp add: GetJob_def)
qed

lemma JobEverExisted_none:
  assumes "look (view st) (jobMetaKey i) = None"
  obtains st1 where "JobEverExisted R i st = (Some False, st1)" "view st1 = view st"
proof -
  have "ks_exists (jobMetaKey i) (view st) = (Some 0, view st)" using assms by (simp add: ks_exists_def)
  from call_runs [OF EXISTS this] obtain st1 where "rcall R (EXISTS R (jobMetaKey i)) st = (Some 0, st1)" "view st1 = view st" by metis
  then show ?thesis using that by (simp add: JobEverExisted_def rbind_def rret_def)
qed

lemma foreign_job:
  assumes "je_R E = R" "holds (je_cd E) (view (w_r w)) i job" "\<not> owns_job h rq t job"
  shows "\<exists>w'. GetStatus E h rq t i now w = ((\<lparr>Code = 404, Body = Err (JobNotFound i)\<rparr>, None), w') \<and> view (w_r w') = view (w_r w) \<and> w_o w' = w_o w"
    and "\<exists>w'. Cancel E h rq t i now w = (\<lparr>Code = 404, Body = Err (JobNotFound i)\<rparr>, w') \<and> view (w_r w') = view (w_r w) \<and> w_o w' = w_o w"
proof -
  obtain st1 where g: "GetJob R (je_cd E) i (w_r w) = (Inr job, st1)" "view st1 = view (w_r w)" using GetJob_holds [OF assms(2)] by metis
  have o: "on_redis (GetJob R (je_cd E) i) (w\<lparr>w_hdr := []\<rparr>) = (Inr job, w\<lparr>w_hdr := [], w_r := st1\<rparr>)" using g(1) by (simp add: on_redis_def)
  show "\<exists>w'. GetStatus E h rq t i now w = ((\<lparr>Code = 404, Body = Err (JobNotFound i)\<rparr>, None), w') \<and> view (w_r w') = view (w_r w) \<and> w_o w' = w_o w"
    using o g(2) assms(1,3) by (simp add: GetStatus_def status_request_def reply_simps)
  show "\<exists>w'. Cancel E h rq t i now w = (\<lparr>Code = 404, Body = Err (JobNotFound i)\<rparr>, w') \<and> view (w_r w') = view (w_r w) \<and> w_o w' = w_o w"
    using o g(2) assms(1,3) by (simp add: Cancel_def cancel_request_def reply_simps)
qed

lemma unknown_job:
  assumes "je_R E = R" "look (view (w_r w)) (jobKey i) = None" "look (view (w_r w)) (jobMetaKey i) = None"
  shows "fst (GetStatus E h rq t i now w) = (\<lparr>Code = 404, Body = Err (JobNotFound i)\<rparr>, None)"
    and "fst (Cancel E h rq t i now w) = \<lparr>Code = 404, Body = Err (JobNotFound i)\<rparr>"
proof -
  obtain st1 where g: "GetJob R (je_cd E) i (w_r w) = (Inl (NotFound i), st1)" "view st1 = view (w_r w)" using GetJob_none [OF assms(2)] by metis
  obtain st2 where e: "JobEverExisted R i st1 = (Some False, st2)" using JobEverExisted_none g(2) assms(3) by metis
  have o: "on_redis (GetJob R (je_cd E) i) (w\<lparr>w_hdr := []\<rparr>) = (Inl (NotFound i), w\<lparr>w_hdr := [], w_r := st1\<rparr>)" using g(1) by (simp add: on_redis_def)
  show "fst (GetStatus E h rq t i now w) = (\<lparr>Code = 404, Body = Err (JobNotFound i)\<rparr>, None)"
    using o e assms(1) by (simp add: GetStatus_def status_request_def reply_simps on_redis_def)
  show "fst (Cancel E h rq t i now w) = \<lparr>Code = 404, Body = Err (JobNotFound i)\<rparr>"
    using o assms(1) by (simp add: Cancel_def cancel_request_def reply_simps)
qed

end

text \<open>C25: While the record of a job is kept, a caller who names another consumer than the owner can neither see nor cancel it, nor
  tell it from a job that never existed: both handlers answer 404 with the same message, and nothing changes. (After the record
  has expired, its marker is answered with 410 whoever asks.)\<close>

theorem job_api_isolates_consumers:
  assumes "live_server (je_R E) view" "holds (je_cd E) (view (w_r w)) i job"
    and "ConsumerName job \<noteq> header_of rq (jh_consumerHeader h)" "header_of rq (jh_consumerHeader h) \<noteq> []"
  shows "(\<exists>w'. GetStatus E h rq t i now w = ((\<lparr>Code = 404, Body = Err (JobNotFound i)\<rparr>, None), w') \<and> view (w_r w') = view (w_r w) \<and> w_o w' = w_o w)
    \<and> (\<exists>w'. Cancel E h rq t i now w = (\<lparr>Code = 404, Body = Err (JobNotFound i)\<rparr>, w') \<and> view (w_r w') = view (w_r w) \<and> w_o w' = w_o w)
    \<and> (\<forall>i'. look (view (w_r w)) (jobKey i') = None \<and> look (view (w_r w)) (jobMetaKey i') = None \<longrightarrow>
          fst (GetStatus E h rq t i' now w) = (\<lparr>Code = 404, Body = Err (JobNotFound i')\<rparr>, None)
          \<and> fst (Cancel E h rq t i' now w) = \<lparr>Code = 404, Body = Err (JobNotFound i')\<rparr>)"
proof -
  have "\<not> owns_job h rq t job" using assms(3,4) by (simp add: owns_job_def)
  with live_server.foreign_job [OF assms(1) refl assms(2)] live_server.unknown_job [OF assms(1) refl] show ?thesis by blast
qed

section \<open>The gate and the verdict\<close>

text \<open>A reply that does not hand out a result.\<close>

definition no_result_in :: "JobStatus \<Rightarrow> string \<Rightarrow> Reply \<Rightarrow> bool" where
  "no_result_in status i rep \<longleftrightarrow>
     rep = \<lparr>Code = 404, Body = Err (JobNotFound i)\<rparr> \<or>
     (\<exists>sr. rep = \<lparr>Code = 200, Body = StatusBody sr\<rparr> \<and> sr_Status sr = status \<and> sr_Result sr = None)"

text \<open>The job has failed and has no result.\<close>

definition failed_record :: "'t codec \<Rightarrow> keyspace \<Rightarrow> string \<Rightarrow> bool" where
  "failed_record cd ks i \<longleftrightarrow> (\<exists>j. holds cd ks i j \<and> Status j = JobStatusFailed \<and> ResultRef j = [])"

context live_server
begin

lemma status_withheld:
  assumes E: "je_R E = R" and j: "holds (je_cd E) (view (w_r w)) i job" "Status job = JobStatusCompleted"
    and g: "gate_at (view (w_r w)) i = Some g" "now < UpdatedAt job + Timeout g"
  shows "\<exists>rep w'. GetStatus E h rq t i now w = ((rep, None), w') \<and> no_result_in JobStatusProcessing i rep \<and>
    view (w_r w') = view (w_r w) \<and> w_o w' = w_o w"
proof (cases "owns_job h rq t job")
  case False
  then show ?thesis using foreign_job(1) [OF E j(1)] by (fastforce simp: no_result_in_def)
next
  case True
  obtain st1 where g1: "GetJob R (je_cd E) i (w_r w) = (Inr job, st1)" "view st1 = view (w_r w)" using GetJob_holds [OF j(1)] by metis
  obtain r st2 where g2: "GetScanGate R i st1 = (r, st2)" "view st2 = view st1" "(case r of Some g \<Rightarrow> g | None \<Rightarrow> None) = gate_at (view st1) i"
    using GetScanGate_at by blast
  then have r: "r = Some (Some g)" using g(1) g1(2) by (auto split: option.splits)
  show ?thesis using True g1 g2(1,2) [unfolded r] g(2) j(2) E
    by (simp add: GetStatus_def status_request_def gate_check_def on_redis_def reply_simps no_result_in_def status_of_def)
qed

lemma failed_status:
  assumes E: "je_R E = R" and f: "failed_record (je_cd E) (view (w_r w)) i"
  shows "\<exists>rep w'. GetStatus E h rq t i now w = ((rep, None), w') \<and> no_result_in JobStatusFailed i rep \<and>
    view (w_r w') = view (w_r w) \<and> w_o w' = w_o w"
proof -
  obtain job where j: "holds (je_cd E) (view (w_r w)) i job" "Status job = JobStatusFailed" "ResultRef job = []"
    using f by (auto simp: failed_record_def)
  have ne: "Status job \<noteq> JobStatusCompleted" "Status job \<noteq> JobStatusPending" using j(2) by (simp_all add: JobStatus_defs)
  show ?thesis
  proof (cases "owns_job h rq t job")
    case False
    then show ?thesis using foreign_job(1) [OF E j(1)] by (fastforce simp: no_result_in_def)
  next
    case True
    obtain st1 where g1: "GetJob R (je_cd E) i (w_r w) = (Inr job, st1)" "view st1 = view (w_r w)" using GetJob_holds [OF j(1)] by metis
    show ?thesis using True g1 ne j(2) E
      by (simp add: GetStatus_def status_request_def gate_check_def position_stage_def result_stage_def on_redis_def reply_simps
          no_result_in_def status_of_def status_body_def)
  qed
qed

text \<open>A job that timed out under a gate that fails closed.\<close>

lemma status_times_out:
  assumes E: "je_R E = R" "codec_ok (je_cd E)" "ttls_ok (je_pd E) (je_rc E)"
    and j: "holds (je_cd E) (view (w_r w)) i job" "Status job = JobStatusCompleted" "owns_job h rq t job"
    and g: "gate_at (view (w_r w)) i = Some g" "UpdatedAt job + Timeout g \<le> now" "FailClosed g"
  shows "\<exists>rep w'. GetStatus E h rq t i now w = ((rep, None), w') \<and> no_result_in JobStatusFailed i rep \<and>
    failed_record (je_cd E) (view (w_r w')) i \<and> w_o w' = w_o w"
proof -
  obtain st1 where g1: "GetJob R (je_cd E) i (w_r w) = (Inr job, st1)" "view st1 = view (w_r w)" using GetJob_holds [OF j(1)] by metis
  obtain r st2 where g2: "GetScanGate R i st1 = (r, st2)" "view st2 = view st1" "(case r of Some g \<Rightarrow> g | None \<Rightarrow> None) = gate_at (view st1) i"
    using GetScanGate_at by blast
  then have r: "r = Some (Some g)" using g(1) g1(2) by (auto split: option.splits)
  have "holds (je_cd E) (view st2) i job" using j(1) g1(2) g2(2) by simp
  from OverrideJobResult_patches [OF E(2,3) this, of now JobStatusFailed "[]" "''guardrail result scan timed out''"]
  obtain st3 j' where o: "OverrideJobResult R (je_cd E) (je_pd E) (je_rc E) now i JobStatusFailed [] ''guardrail result scan timed out'' st2 = (Some (), st3)"
    "holds (je_cd E) (view st3) i j'" "outcome_of j' = (JobStatusFailed, [], ''guardrail result scan timed out'')" by metis
  obtain st4 where c: "ClearScanGate R i st3 = (Some (), st4)" "\<And>k. k \<noteq> scanGateKey i \<Longrightarrow> look (view st4) k = look (view st3) k"
    using ClearScanGate_clears by metis
  have "holds (je_cd E) (view st4) i j'" by (rule holds_cong [OF o(2)]) (rule c(2), simp add: job_key_defs)
  then have "failed_record (je_cd E) (view st4) i" using o(3) by (auto simp: failed_record_def outcome_of_def)
  then show ?thesis using g1 g2(1,2) [unfolded r] g(2,3) j(2,3) E(1) o(1) c(1)
    by (simp add: GetStatus_def status_request_def gate_check_def on_redis_def reply_simps no_result_in_def status_of_def)
qed

lemma status_lapses:
  assumes E: "je_R E = R"
    and j: "holds (je_cd E) (view (w_r w)) i job" "Status job = JobStatusCompleted" "owns_job h rq t job"
    and g: "gate_at (view (w_r w)) i = Some g" "UpdatedAt job + Timeout g \<le> now" "\<not> FailClosed g"
  shows "\<exists>rep w'. GetStatus E h rq t i now w = ((rep, None), w') \<and> gate_at (view (w_r w')) i = None \<and>
    (\<forall>k. k \<noteq> scanGateKey i \<longrightarrow> look (view (w_r w')) k = look (view (w_r w)) k)"
proof -
  obtain st1 where g1: "GetJob R (je_cd E) i (w_r w) = (Inr job, st1)" "view st1 = view (w_r w)" using GetJob_holds [OF j(1)] by metis
  obtain r st2 where g2: "GetScanGate R i st1 = (r, st2)" "view st2 = view st1" "(case r of Some g \<Rightarrow> g | None \<Rightarrow> None) = gate_at (view st1) i"
    using GetScanGate_at by blast
  then have r: "r = Some (Some g)" using g(1) g1(2) by (auto split: option.splits)
  obtain st3 where c: "ClearScanGate R i st2 = (Some (), st3)" "gate_at (view st3) i = None" "\<And>k. k \<noteq> scanGateKey i \<Longrightarrow> look (view st3) k = look (view st2) k"
    using ClearScanGate_clears by metis
  have ne: "JobStatusCompleted \<noteq> JobStatusPending" by (simp add: JobStatus_defs)
  show ?thesis using g1 g2(1,2) [unfolded r] g(2,3) j(2,3) E c ne
    by (auto simp: GetStatus_def status_request_def gate_check_def on_redis_def reply_simps position_stage_def result_stage_def on_objects_def Let_def
        split: prod.splits)
qed

end

text \<open>C26: A poll never delivers a result past an armed gate. Until the deadline it says that the job is processing, reads no result and
  changes nothing. From then on, where the gate fails closed, it fails the job: this poll gets a failure without a result, and so
  does every later one, whoever asks and whenever, until the record is written again (a redaction still in flight may do so).
  Where the gate fails open, the poll takes the gate away and leaves every other key, the record included, as it is.\<close>

theorem gated_result_withheld:
  assumes "live_server (je_R E) view" "codec_ok (je_cd E)" "ttls_ok (je_pd E) (je_rc E)"
    and "holds (je_cd E) (view (w_r w)) i job" "Status job = JobStatusCompleted" "owns_job h rq t job" "gate_at (view (w_r w)) i = Some g"
  shows "\<exists>rep w'. GetStatus E h rq t i now w = ((rep, None), w') \<and>
    (if now < UpdatedAt job + Timeout g then no_result_in JobStatusProcessing i rep \<and> view (w_r w') = view (w_r w) \<and> w_o w' = w_o w
     else if FailClosed g then no_result_in JobStatusFailed i rep \<and> w_o w' = w_o w \<and>
       (\<forall>h' rq' t' now' w1. look (view (w_r w1)) (jobKey i) = look (view (w_r w')) (jobKey i) \<longrightarrow>
          (\<exists>rep' w2. GetStatus E h' rq' t' i now' w1 = ((rep', None), w2) \<and> no_result_in JobStatusFailed i rep' \<and> w_o w2 = w_o w1))
     else gate_at (view (w_r w')) i = None \<and> (\<forall>k. k \<noteq> scanGateKey i \<longrightarrow> look (view (w_r w')) k = look (view (w_r w)) k))"
proof -
  consider "now < UpdatedAt job + Timeout g" | "UpdatedAt job + Timeout g \<le> now" "FailClosed g" | "UpdatedAt job + Timeout g \<le> now" "\<not> FailClosed g" by linarith
  then show ?thesis
  proof cases
    case 1
    then show ?thesis using live_server.status_withheld [OF assms(1) refl assms(4,5,7)] by fastforce
  next
    case 2
    from live_server.status_times_out [OF assms(1) refl assms(2-7) this] obtain rep w'
      where w': "GetStatus E h rq t i now w = ((rep, None), w')" "no_result_in JobStatusFailed i rep" "failed_record (je_cd E) (view (w_r w')) i" "w_o w' = w_o w"
      by blast
    have later: "\<exists>rep' w2. GetStatus E h' rq' t' i now' w1 = ((rep', None), w2) \<and> no_result_in JobStatusFailed i rep' \<and> w_o w2 = w_o w1"
      if same: "look (view (w_r w1)) (jobKey i) = look (view (w_r w')) (jobKey i)" for h' rq' t' now' w1
    proof -
      have "failed_record (je_cd E) (view (w_r w1)) i" using w'(3) holds_cong [OF _ same] unfolding failed_record_def by blast
      from live_server.failed_status [OF assms(1) refl this] show ?thesis by blast
    qed
    show ?thesis by (rule exI [of _ rep], rule exI [of _ w']) (use w' 2 later in auto)
  next
    case 3
    then show ?thesis using live_server.status_lapses [OF assms(1) refl assms(4-7)] by (fastforce simp: not_less)
  qed
qed

section \<open>Completion\<close>

text \<open>The keys a job's status is read from stay as they are while the other components write theirs.\<close>

lemma status_keys [key_simps]:
  "jobKey i \<noteq> completionClaimKey i'" "jobKey i \<noteq> scanGateKey i'" "scanGateKey i \<noteq> jobKey i'"
  "jobKey i \<noteq> key3 ''ptrl'' a b c" "jobKey i \<noteq> key3 ''trl'' a b c"
  "jobKey i \<noteq> webhookTaskKey i'" "jobKey i \<noteq> webhookRetryZSet"
  by (simp_all add: job_key_defs key3_def webhookTaskKey_def webhookRetryZSet_def)

lemma touches_tokenAdd: "k \<in> K \<Longrightarrow> touches K (tokenAddScript (ks_server n) k t d)"
  unfolding tokenAddScript_def ks_server_simps by (intro touches_intros) simp_all

lemma touches_schedule:
  "webhookTaskKey i \<in> K \<Longrightarrow> webhookRetryZSet \<in> K \<Longrightarrow> touches K (schedule_script (ks_server n) ws now a i data)"
  unfolding schedule_script_def ks_server_simps by (intro touches_intros) simp_all

lemma touches_claim: "completionClaimKey i \<in> K \<Longrightarrow> touches K (SETNX_dur (ks_server n) (completionClaimKey i) v t)"
  unfolding SETNX_dur_def ks_server_simps by (intro touches_intros) simp_all

context live_server
begin

lemma call_keeps:
  assumes "sim view c d" "touches K d" "k \<notin> K"
  shows "look (view (snd (rcall R c st))) k = look (view st) k"
  using touchesD(1) [OF assms(2,3), of "view st"] assms(1) by (simp add: rcall_delivered [OF live] sim_def)

lemma AddProcessingTime_keeps:
  "look (view (snd (AddProcessingTime R pd l c u t secs st))) (jobKey i) = look (view st) (jobKey i)"
  using call_keeps [OF tokenAddScript_sim touches_tokenAdd [of "key3 ''ptrl'' c t u" "{key3 ''ptrl'' c t u}" ks_link], of "jobKey i"]
  by (auto simp: AddProcessingTime_def key_simps split: option.split)

lemma AddTokensFor_keeps:
  "look (view (snd (AddTokensFor R pd l c u t n st))) (jobKey i) = look (view st) (jobKey i)"
  using call_keeps [OF tokenAddScript_sim touches_tokenAdd [of "key3 ''trl'' c t u" "{key3 ''trl'' c t u}" ks_link], of "jobKey i"]
  by (auto simp: AddTokensFor_def key_simps split: option.split)

lemma debit_keeps:
  assumes "je_R E = R"
  shows "look (view (w_r (debit_stage E h job w))) (jobKey i) = look (view (w_r w)) (jobKey i)" "w_o (debit_stage E h job w) = w_o w"
  by (simp_all add: debit_stage_def assms Let_def snd_on_redis AddProcessingTime_keeps AddTokensFor_keeps split: option.split)

lemma Send_keeps: "look (view (fst (Send R H wc ws now job (st, o1)))) (jobKey i) = look (view st) (jobKey i)"
  using call_keeps [OF schedule_sim touches_schedule [of _ "{webhookTaskKey (ID job), webhookRetryZSet}" ks_link], of "ID job" "jobKey i"]
  by (auto simp: Send_def enqueueRetry_def key_simps split: prod.split option.split)

lemma ClaimCompletion_wins:
  assumes "ttls_ok pd r" "look (view st) (completionClaimKey i) = None"
  obtains st' where "ClaimCompletion R pd r i st = (Some True, st')" "look (view st') (jobKey i') = look (view st) (jobKey i')"
proof -
  let ?d = "ttlForStatus pd r JobStatusCompleted"
  obtain t where t: "0 < t" "set_ttl ?d = Some t" "0 \<le> ?d"
    using set_ttl_pos assms(1) unfolding ttls_ok_def by (metis dual_order.trans zero_le_numeral)
  let ?ks = "snd (ks_setnx (completionClaimKey i) ''1'' (Some t) (view st))"
  have "SETNX_dur (ks_server ks_link) (completionClaimKey i) ''1'' ?d (view st) = (Some True, ?ks)"
    using t assms(2) by (simp add: SETNX_dur_def ks_server_simps ks_setnx_def)
  from call_runs [OF SETNX_dur_sim this] obtain st' where st': "ClaimCompletion R pd r i st = (Some True, st')"
    by (metis ClaimCompletion_def)
  have "look (view (snd (rcall R (SETNX_dur R (completionClaimKey i) ''1'' ?d) st))) (jobKey i') = look (view st) (jobKey i')"
    by (rule call_keeps [OF SETNX_dur_sim touches_claim [of i "{completionClaimKey i}" ks_link]]) (simp_all add: key_simps)
  with st' show ?thesis using that by (simp add: ClaimCompletion_def)
qed

text \<open>The guardrails find something in the result of a job whose service blocks.\<close>

lemma guardrail_stage_blocks:
  assumes E: "je_R E = R" "codec_ok (je_cd E)" "ttls_ok (je_pd E) (je_rc E)"
    and j: "holds (je_cd E) (view (w_r w)) (ID job) job"
    and g: "asyncGuardrailsFor h job = Some def" "Action (Async (Guardrails def)) = ActionBlock"
    and d: "h_GetObject (je_S E) (ResultRef job) (w_o w) = (Some data, o1)" "ScanStrings (extractResultTexts jc data) (Checks (Async (Guardrails def))) \<noteq> []"
      "Checks (Async (Guardrails def)) \<noteq> []"
  shows "\<exists>job1 w'. guardrail_stage E jc h now job w = (job1, w') \<and> failed_record (je_cd E) (view (w_r w')) (ID job) \<and>
    Status job1 = JobStatusFailed \<and> ResultRef job1 = []"
proof -
  let ?texts = "extractResultTexts jc data" and ?s = "Async (Guardrails def)"
  let ?w1 = "w\<lparr>w_o := o1\<rparr>"
  obtain results w2 where w2: "on_models (EvaluateAll (je_G E) (Models ?s) ?texts) ?w1 = (results, w2)" "w_r w2 = w_r w"
    by (cases "EvaluateAll (je_G E) (Models ?s) ?texts (w_g ?w1)") (auto simp: on_models_def)
  obtain fired cats where f: "fired_detectors ?s ?texts results = (fired, cats)" "fired \<noteq> []"
    using d(2,3) by (auto simp: fired_detectors_def regex_Scan_def categoriesToFindings_def Let_def)
  have t: "?texts \<noteq> []" using d(2) by (auto simp: ScanStrings_def scanTexts_def)
  let ?reason = "''guardrails violation: '' @ join_with '', '' (dedupeStrings cats)"
  obtain st3 j' where o: "OverrideJobResult R (je_cd E) (je_pd E) (je_rc E) now (ID job) JobStatusFailed [] ?reason (w_r w2) = (Some (), st3)"
    "holds (je_cd E) (view st3) (ID job) j'" "outcome_of j' = (JobStatusFailed, [], ?reason)"
    using OverrideJobResult_patches [OF E(2,3)] j w2(2) by metis
  define w3 where "w3 = w2\<lparr>w_r := st3\<rparr>"
  have app: "applyResultGuardrails E jc def now job w = (job\<lparr>Status := JobStatusFailed, ResultRef := [], ErrorMsg := ?reason\<rparr>, w3)"
    using d(1) t w2(1) f g(2) o(1) E(1)
    by (simp add: applyResultGuardrails_def on_objects_def blockResult_def on_redis_def Let_def w3_def)
  obtain st4 where c: "ClearScanGate R (ID job) st3 = (Some (), st4)" "\<And>k. k \<noteq> scanGateKey (ID job) \<Longrightarrow> look (view st4) k = look (view st3) k"
    using ClearScanGate_clears by metis
  have "ks_publish ch v (view st4) = (Some (), view st4)" for ch v by (simp add: ks_publish_def)
  from call_runs [OF PUBLISH this] obtain st5 where n: "NotifyJobDone R (ID job) st4 = (Some (), st5)" "view st5 = view st4"
    by (metis NotifyJobDone_def)
  have enf: "Enforcing ?s" using g(2) by (simp add: Enforcing_def)
  have "holds (je_cd E) (view st5) (ID job) j'"
    by (rule holds_cong [OF o(2)]) (simp add: n(2) c(2) key_simps)
  then have "failed_record (je_cd E) (view st5) (ID job)" using o(3) by (auto simp: failed_record_def outcome_of_def)
  then show ?thesis using app enf c(1) n(1) g(1) E(1)
    by (simp add: guardrail_stage_def on_redis_def w3_def)
qed

lemma ProcessCompletion_blocks:
  assumes E: "je_R E = R" "codec_ok (je_cd E)" "ttls_ok (je_pd E) (je_rc E)"
    and j: "holds (je_cd E) (view (w_r w)) (ID job) job" "look (view (w_r w)) (completionClaimKey (ID job)) = None" "\<not> rh_closing h"
    and g: "asyncGuardrailsFor h job = Some def" "Action (Async (Guardrails def)) = ActionBlock"
    and d: "h_GetObject (je_S E) (ResultRef job) (w_o w) = (Some data, o1)" "ScanStrings (extractResultTexts jc data) (Checks (Async (Guardrails def))) \<noteq> []"
      "Checks (Async (Guardrails def)) \<noteq> []"
  shows "failed_record (je_cd E) (view (w_r (ProcessCompletion E jc wc h now (ID job) w))) (ID job)"
proof -
  obtain st1 where c: "ClaimCompletion R (je_pd E) (je_rc E) (ID job) (w_r w) = (Some True, st1)"
    "look (view st1) (jobKey (ID job)) = look (view (w_r w)) (jobKey (ID job))" using ClaimCompletion_wins [OF E(3) j(2)] by metis
  have "holds (je_cd E) (view st1) (ID job) job" by (rule holds_cong [OF j(1) c(2)])
  then obtain st2 where g2: "GetJob R (je_cd E) (ID job) st1 = (Inr job, st2)" "view st2 = view st1" using GetJob_holds by metis
  let ?w = "w\<lparr>w_r := st2\<rparr>"
  let ?w1 = "track E (completion_usage h job) (debit_stage E h job ?w)"
  have w1: "look (view (w_r ?w1)) (jobKey (ID job)) = look (view (w_r w)) (jobKey (ID job))" "w_o ?w1 = w_o w"
    using debit_keeps(1) [OF E(1), of h job ?w "ID job"] debit_keeps(2) [OF E(1), of h job ?w] c(2) g2(2) by (simp_all add: track_def)
  from guardrail_stage_blocks [OF E, of ?w1 job h def data o1 jc now] holds_cong [OF j(1) w1(1)] g d w1(2)
  obtain job1 w2 where w2: "guardrail_stage E jc h now job ?w1 = (job1, w2)" "failed_record (je_cd E) (view (w_r w2)) (ID job)" by auto
  have "look (view (w_r (runCompletionWork E jc wc h now job ?w))) (jobKey (ID job)) = look (view (w_r w2)) (jobKey (ID job))"
    using Send_keeps [of "web.truncate (je_S E)" wc "rh_sender h" now job1 "w_r w2" "w_o w2" "ID job"] w2(1) E(1)
    by (auto simp: runCompletionWork_def Let_def split: prod.split)
  moreover have "ProcessCompletion E jc wc h now (ID job) w = runCompletionWork E jc wc h now job ?w"
    using c(1) g2(1) j(3) E(1) by (simp add: ProcessCompletion_def on_redis_def trackStart_def)
  ultimately show ?thesis using w2(2) unfolding failed_record_def by (metis holds_cong)
qed

end

text \<open>C27: A result in which the result guardrails of a blocking service find something is not served: once the completion
  of its job has been processed, every poll, whoever makes it and whenever, gets a failure without a result.\<close>

theorem blocked_result_never_served:
  assumes "live_server (je_R E) view" "codec_ok (je_cd E)" "ttls_ok (je_pd E) (je_rc E)"
    and "holds (je_cd E) (view (w_r w)) (ID job) job" "look (view (w_r w)) (completionClaimKey (ID job)) = None" "\<not> rh_closing h"
    and "asyncGuardrailsFor h job = Some def" "Action (Async (Guardrails def)) = ActionBlock"
    and "h_GetObject (je_S E) (ResultRef job) (w_o w) = (Some data, o1)"
    and "ScanStrings (extractResultTexts jc data) (Checks (Async (Guardrails def))) \<noteq> []" "Checks (Async (Guardrails def)) \<noteq> []"
    and "view (w_r w1) = view (w_r (ProcessCompletion E jc wc h now (ID job) w))"
  shows "\<exists>rep w2. GetStatus E jh rq t (ID job) now' w1 = ((rep, None), w2) \<and> no_result_in JobStatusFailed (ID job) rep \<and> view (w_r w2) = view (w_r w1)"
  using live_server.ProcessCompletion_blocks [OF assms(1) refl assms(2-11), of wc now]
    live_server.failed_status [OF assms(1) refl, of w1 "ID job" jh rq t now'] assms(12) by auto

text \<open>C28: The record is read before the gate, so a poll may straddle the verdict: it reads the record while the job is
  completed, the result guardrails then fail the job and clear the gate, and the poll, finding no gate, serves the
  blocked result.\<close>

theorem poll_overlapping_scan_serves_result:
  assumes "redis_server (je_R E) view" "net (je_R E) (w_r w) = (Delivered, st1)"
    and "holds (je_cd E) (view st1) i job" "Status job = JobStatusCompleted" "ResultRef job \<noteq> []" "owns_job h rq t job"
    and "net (je_R E) (snd (GET (je_R E) (jobKey i) st1)) = (Delivered, st2)" "gate_at (view st2) i = None" "failed_record (je_cd E) (view st2) i"
    and "h_GetObject (je_S E) (ResultRef job) (w_o w) = (Some data, o1)" "je_valid_json E data"
  shows "\<exists>sr c w'. GetStatus E h rq t i now w = ((\<lparr>Code = 200, Body = StatusBody sr\<rparr>, c), w') \<and>
    sr_Status sr = JobStatusCompleted \<and> sr_Result sr = (if data = [] then None else Some data) \<and> failed_record (je_cd E) (view (w_r w')) i"
proof -
  from assms(3) obtain e tx where e: "look (view st1) (jobKey i) = Some e" "rv e = RStr tx" "reads (je_cd E) tx job" by (auto simp: holds_def)
  have "ks_get (jobKey i) (view st1) = (Some (Some tx), view st1)" using e by (simp add: ks_get_def)
  with simD [OF redis_server.GET [OF assms(1)]] have "fst (GET (je_R E) (jobKey i) st1) = Some (Some tx)" by fastforce
  then have g1: "GetJob (je_R E) (je_cd E) i (w_r w) = (Inr job, snd (GET (je_R E) (jobKey i) st1))"
    using e(3) assms(2) by (cases "GET (je_R E) (jobKey i) st1") (simp add: GetJob_def rcall_def reads_def)
  have "snd (ks_get (scanGateKey i) (view st2)) = view st2" by (simp add: ks_get_def split: option.split rval.split)
  then obtain x where x: "ks_get (scanGateKey i) (view st2) = (x, view st2)" by (metis prod.collapse)
  then have nx: "x = None \<or> x = Some None" using assms(8) by (auto simp: ks_get_def gate_at_def split: option.splits rval.splits)
  from simD [OF redis_server.GET [OF assms(1)] x] obtain st3 where st3: "GET (je_R E) (scanGateKey i) st2 = (x, st3)" "view st3 = view st2"
    by (metis prod.collapse)
  then obtain r where g2: "GetScanGate (je_R E) i (snd (GET (je_R E) (jobKey i) st1)) = (r, st3)" "r = None \<or> r = Some None"
    using nx assms(7) by (auto simp: GetScanGate_def rbind_def rret_def rcall_def)
  have p: "JobStatusCompleted \<noteq> JobStatusPending" by (simp add: JobStatus_defs)
  show ?thesis using g2(2) g1 g2(1) p assms(4-6,9-11) st3(2)
    by (auto simp: GetStatus_def status_request_def gate_check_def position_stage_def result_stage_def on_redis_def on_objects_def
        reply_simps status_of_def status_body_def)
qed

section \<open>Concrete polls\<close>

interpretation lks: live_server "ks_server ks_link" id
  by (intro live_server.intro live_server_axioms.intro kss.redis_server_axioms) (simp add: ks_server_simps ks_link_def)

definition done_job :: Job where
  "done_job = sample_job\<lparr>Status := JobStatusCompleted, ResultRef := ''1/result.json''\<rparr>"

definition record_of :: "Job \<Rightarrow> entry" where
  "record_of j = \<lparr>rv = RStr (put_table (table_of j)), deadline = None\<rparr>"

definition done_store :: keyspace where
  "done_store = put (jobKey ''1'') (record_of done_job) no_keys"

definition gated_store :: keyspace where
  "gated_store = put (scanGateKey ''1'') \<lparr>rv = RStr ''30|fail_closed'', deadline = None\<rparr> done_store"

text \<open>A service whose result guardrails block.\<close>

definition guarded_service :: ServiceConfig where
  "guarded_service = ocr_service\<lparr>sc_Guardrails := plain_guardrails\<lparr>g_Async :=
     Some \<lparr>ga_Action = ActionBlock, ga_Checks = [CheckPIIFR], ga_Models = [], ga_ScanTimeout = [], ga_OnTimeout = ''fail_closed''\<rparr>\<rparr>\<rparr>"

definition guarded_registry :: Registry where
  "guarded_registry = NewRegistry no_durations [] [guarded_service]"

definition siren_objects :: "unit s3Store" where
  "siren_objects = \<lparr>h_GetObject = (\<lambda>_ o1. (Some ''x'', o1)), h_DeleteObject = (\<lambda>_ o1. (True, o1)), h_valid_url = (\<lambda>_. True),
     h_Post = (\<lambda>_ _ _ o1. (None, o1)), h_hmac = (\<lambda>_ _. []), s3_Upload = (\<lambda>_ _ _ o1. (True, o1))\<rparr>"

definition no_models :: "unit model_env" where
  "no_models = \<lparr>me_call = (\<lambda>_ _ w. (None, w)), me_cache_get = (\<lambda>_ w. (None, w)), me_cache_set = (\<lambda>_ _ _ w. w), me_sha256_hex = id\<rparr>"

definition sample_env :: "(keyspace \<Rightarrow> link \<times> keyspace) \<Rightarrow> (keyspace, text_table, unit, unit, unit) jobs_env" where
  "sample_env n = \<lparr>je_R = ks_server n, je_cd = sample_codec, je_pd = no_durations, je_rc = sample_client, je_S = siren_objects, je_G = no_models,
     je_U = (\<lambda>_ u. u), je_cj = (\<lambda>_. None), je_show_dur = (\<lambda>_. []), je_valid_json = (\<lambda>d. d \<noteq> ''x y'')\<rparr>"

definition sample_world :: "keyspace \<Rightarrow> (keyspace, unit, unit, unit) world" where
  "sample_world ks = \<lparr>w_r = ks, w_o = (), w_g = (), w_u = (), w_cb = NewCircuitBreaker 0 0, w_hdr = [], w_slot = False\<rparr>"

definition sample_handler :: JobHandler where
  "sample_handler = NewJobHandler guarded_registry [] ''X-Consumer'' None False"

definition poll_by :: "string \<Rightarrow> JobRequest" where
  "poll_by consumer = \<lparr>rq_Header = [(''X-Consumer'', [consumer])], rq_principal = None, rq_policy = None, rq_query = [],
     rq_form = (\<lambda>_. None), rq_traceparent = []\<rparr>"

lemma sample_env_simps [simp]:
  "je_R (sample_env n) = ks_server n" "je_cd (sample_env n) = sample_codec" "je_pd (sample_env n) = no_durations" "je_rc (sample_env n) = sample_client"
  "je_S (sample_env n) = siren_objects" "je_valid_json (sample_env n) data \<longleftrightarrow> data \<noteq> ''x y''"
  by (simp_all add: sample_env_def)

lemma sample_world_simps [simp]: "w_r (sample_world ks) = ks" "w_o (sample_world ks) = ()"
  by (simp_all add: sample_world_def)

lemma sample_no_durations: "ttls_ok no_durations sample_client"
  using sample_ttls_ok by (simp add: no_durations_def [abs_def])

lemma poll_consumer [simp]: "header_of (poll_by c) (jh_consumerHeader sample_handler) = c"
  by (simp add: header_of_def poll_by_def sample_handler_def NewJobHandler_def) code_simp

lemma record_of_holds:
  assumes "job_of (table_of j) = j" "look ks (jobKey i) = Some (record_of j)"
  shows "holds sample_codec ks i j"
  using assms sample_codec_ok by (auto simp: holds_def record_of_def codec_ok_def sample_codec_def)

lemma done_job_holds: "holds sample_codec done_store ''1'' done_job" "holds sample_codec gated_store ''1'' done_job"
proof -
  have "job_of (table_of done_job) = done_job" by (simp add: job_of_def table_of_def field_def done_job_def sample_job_def)
  then show "holds sample_codec done_store ''1'' done_job" "holds sample_codec gated_store ''1'' done_job"
    by (auto intro!: record_of_holds simp: done_store_def gated_store_def record_of_def key_simps)
qed

lemma done_job_owned: "owns_job sample_handler (poll_by ''bob'') ''ocr'' done_job"
  by (simp add: owns_job_def) (simp add: done_job_def sample_job_def)

theorem job_api_isolates_consumers_witness:
  "fst (fst (GetStatus (sample_env ks_link) sample_handler (poll_by ''eve'') ''ocr'' ''1'' 9 (sample_world done_store))) = \<lparr>Code = 404, Body = Err (JobNotFound ''1'')\<rparr>"
proof -
  have "ConsumerName done_job \<noteq> ''eve''" by (simp add: done_job_def sample_job_def)
  with job_api_isolates_consumers [of "sample_env ks_link" id "sample_world done_store" "''1''" done_job "poll_by ''eve''" sample_handler "''ocr''" 9]
  show ?thesis using lks.live_server_axioms done_job_holds(1) by auto
qed

theorem gated_result_withheld_witness:
  "\<exists>rep w'. GetStatus (sample_env ks_link) sample_handler (poll_by ''bob'') ''ocr'' ''1'' (40 * second) (sample_world gated_store) = ((rep, None), w')
     \<and> no_result_in JobStatusFailed ''1'' rep"
proof -
  have gate: "gate_at (id gated_store) ''1'' = Some \<lparr>Timeout = 30 * second, FailClosed = True\<rparr>"
  proof -
    have "parse_gate ''30|fail_closed'' = \<lparr>Timeout = 30 * second, FailClosed = True\<rparr>" by code_simp
    then show ?thesis by (simp add: gate_at_def gated_store_def)
  qed
  have "UpdatedAt done_job = 5" "Status done_job = JobStatusCompleted" by (simp_all add: done_job_def sample_job_def)
  with gated_result_withheld [of "sample_env ks_link" id "sample_world gated_store" "''1''" done_job sample_handler "poll_by ''bob''" "''ocr''" _ "40 * second"]
  show ?thesis using lks.live_server_axioms done_job_holds(2) sample_codec_ok sample_no_durations done_job_owned gate by fastforce
qed

definition siren_result :: json_codec where
  "siren_result = one_doc_codec (JArr [JStr ''078051120''])"

definition guarded_def :: Def where
  "guarded_def = mk_def no_durations [] guarded_service"

definition completing :: RelayCompleteHandler where
  "completing = WithRegistry guarded_registry (NewRelayCompleteHandler no_durations False \<lparr>MaxRetries = 0, RetryBackoff = [], MaxBackoff = [], SigningSecret = []\<rparr>)"

lemma guarded_async: "asyncGuardrailsFor completing done_job = Some guarded_def"
  "Action (Async (Guardrails guarded_def)) = ActionBlock" "Checks (Async (Guardrails guarded_def)) = [CheckPIIFR]"
proof -
  have "rh_reg completing = Some guarded_registry" by (simp add: completing_def WithRegistry_def)
  moreover have "RouteAsync guarded_registry ''ocr'' ''m'' = Inr guarded_def" "Enabled (Async (Guardrails guarded_def))" by code_simp+
  ultimately show "asyncGuardrailsFor completing done_job = Some guarded_def"
    by (simp add: asyncGuardrailsFor_def done_job_def sample_job_def)
  show "Action (Async (Guardrails guarded_def)) = ActionBlock" "Checks (Async (Guardrails guarded_def)) = [CheckPIIFR]" by code_simp+
qed

lemma siren_found: "ScanStrings (extractResultTexts siren_result ''x'') [CheckPIIFR] \<noteq> []"
proof -
  have "ScanStrings [''078051120''] [CheckPIIFR] \<noteq> []" by code_simp
  moreover have "TrimSpace ''078051120'' = ''078051120''" by code_simp
  ultimately show ?thesis by (simp add: extractResultTexts_def siren_result_def one_doc_codec_def)
qed

theorem blocked_result_never_served_witness:
  "\<exists>rep w2. GetStatus (sample_env ks_link) sample_handler (poll_by ''bob'') ''ocr'' ''1'' 9
       (ProcessCompletion (sample_env ks_link) siren_result sample_webhook_codec completing 7 ''1'' (sample_world done_store)) = ((rep, None), w2)
     \<and> no_result_in JobStatusFailed ''1'' rep"
proof -
  have i: "ID done_job = ''1''" by (simp add: done_job_def sample_job_def)
  have "\<not> rh_closing completing" by (simp add: completing_def WithRegistry_def NewRelayCompleteHandler_def)
  moreover have "look (id done_store) (completionClaimKey ''1'') = None" by (simp add: done_store_def key_simps)
  moreover have "h_GetObject siren_objects (ResultRef done_job) () = (Some ''x'', ())" by (simp add: siren_objects_def)
  ultimately show ?thesis
    using blocked_result_never_served [of "sample_env ks_link" id "sample_world done_store" done_job completing guarded_def "''x''" "()" siren_result
        _ sample_webhook_codec 7 sample_handler "poll_by ''bob''" "''ocr''" 9]
      lks.live_server_axioms done_job_holds(1) sample_codec_ok sample_no_durations guarded_async siren_found i
    by fastforce
qed

text \<open>A verdict between the two reads of a poll: the first call advances the clock, the second finds the job blocked.\<close>

definition blocked_job :: Job where
  "blocked_job = done_job\<lparr>Status := JobStatusFailed, ResultRef := []\<rparr>"

definition racing_link :: "keyspace \<Rightarrow> link \<times> keyspace" where
  "racing_link ks = (Delivered, if clock ks = 0 then ks\<lparr>clock := 1\<rparr> else put (jobKey ''1'') (record_of blocked_job) ks)"

theorem poll_overlapping_scan_serves_result_witness:
  "\<exists>sr c w'. GetStatus (sample_env racing_link) sample_handler (poll_by ''bob'') ''ocr'' ''1'' 9 (sample_world done_store) = ((\<lparr>Code = 200, Body = StatusBody sr\<rparr>, c), w')
     \<and> sr_Result sr = Some ''x''"
proof -
  let ?st1 = "done_store\<lparr>clock := 1\<rparr>" and ?st2 = "put (jobKey ''1'') (record_of blocked_job) (done_store\<lparr>clock := 1\<rparr>)"
  have "look ?st1 (jobKey ''1'') = Some (record_of done_job)" "clock done_store = 0"
    by (simp_all add: done_store_def look_def put_def record_of_def no_keys_def)
  moreover have "job_of (table_of blocked_job) = blocked_job" "job_of (table_of done_job) = done_job"
    by (simp_all add: job_of_def table_of_def field_def blocked_job_def done_job_def sample_job_def)
  ultimately have 1: "holds sample_codec ?st1 ''1'' done_job" and 2: "holds sample_codec ?st2 ''1'' blocked_job"
    and n1: "net (ks_server racing_link) done_store = (Delivered, ?st1)"
    and n2: "net (ks_server racing_link) (snd (GET (ks_server racing_link) (jobKey ''1'') ?st1)) = (Delivered, ?st2)"
    by (auto intro!: record_of_holds simp: ks_server_simps racing_link_def ks_get_def record_of_def)
  have f: "failed_record sample_codec ?st2 ''1''" using 2 by (auto simp: failed_record_def blocked_job_def)
  have g: "gate_at ?st2 ''1'' = None" by (simp add: gate_at_def done_store_def key_simps look_def put_def no_keys_def)
  have "Status done_job = JobStatusCompleted" "ResultRef done_job \<noteq> []" "h_GetObject siren_objects (ResultRef done_job) () = (Some ''x'', ())"
    by (simp_all add: done_job_def siren_objects_def)
  with poll_overlapping_scan_serves_result [of "sample_env racing_link" id "sample_world done_store" ?st1 "''1''" done_job sample_handler
      "poll_by ''bob''" "''ocr''" ?st2 "''x''" "()" 9] 1 n1 n2 f g done_job_owned kss.redis_server_axioms
  show ?thesis by (fastforce simp del: split_paired_Ex)
qed

end
