(* ===== verification/SubmitRun.thy ===== *)
theory SubmitRun
  imports JobsRun
begin

text \<open>
  What a submission promises on a server that answers: an accepted job is stored, queued and gated, an idempotency key in
  use never starts a second job; and what a lost reply does to both.
\<close>

section \<open>What the limits touch\<close>

text \<open>The keys of the rate limiter.\<close>

definition limiter_keys :: "string set" where
  "limiter_keys = {k. \<exists>p \<in> {''rl'', ''rlp'', ''trl'', ''trlp'', ''ptrl'', ''jc''}. HasPrefix k (p @ '':'')}"

lemma limiter_keysI [simp]:
  "key3 ''rl'' a b c \<in> limiter_keys" "key2 ''rlp'' a b \<in> limiter_keys" "key3 ''trl'' a b c \<in> limiter_keys"
  "key2 ''trlp'' a b \<in> limiter_keys" "key3 ''ptrl'' a b c \<in> limiter_keys" "key3 ''jc'' a b c \<in> limiter_keys"
  by (simp_all add: limiter_keys_def key2_def key3_def HasPrefix_def)

lemma job_keys_not_limiter [simp]:
  "jobKey i \<notin> limiter_keys" "scanGateKey i \<notin> limiter_keys" "idempotencyKey c k \<notin> limiter_keys" "pendingKey m \<notin> limiter_keys"
  by (simp_all add: limiter_keys_def HasPrefix_def job_key_defs idempotencyKey_def)

text \<open>Two states that differ at most on \<open>K\<close>.\<close>

definition agree :: "string set \<Rightarrow> keyspace \<Rightarrow> keyspace \<Rightarrow> bool" where
  "agree K ks ks' \<longleftrightarrow> clock ks' = clock ks \<and> (\<forall>k. k \<notin> K \<longrightarrow> look ks' k = look ks k)"

lemma agree_refl [simp]: "agree K ks ks"
  by (simp add: agree_def)

lemma agree_trans: "agree K ks ks' \<Longrightarrow> agree K ks' ks'' \<Longrightarrow> agree K ks ks''"
  by (simp add: agree_def)

lemma agree_look: "agree K ks ks' \<Longrightarrow> k \<notin> K \<Longrightarrow> look ks' k = look ks k"
  by (simp add: agree_def)

lemma touches_agree: "touches K c \<longleftrightarrow> (\<forall>ks. agree K ks (snd (c ks)))"
  by (auto simp: touches_def agree_def)

lemma touches_zrange [frame]: "touches K (ks_zrange_all k)"
  by (auto simp: touches_def ks_zrange_all_def split: option.splits rval.splits)

lemma touches_prod: "(\<And>a b. x = (a, b) \<Longrightarrow> touches K (f a b)) \<Longrightarrow> touches K (case x of (a, b) \<Rightarrow> f a b)"
  by (cases x) simp

lemma touches_get_number: "touches K (get_number (ks_server n) k)"
  unfolding get_number_def ks_server_simps by (intro touches_intros) 

lemma touches_count_active: "touches K (count_active (ks_server n) cj svc ids a)"
  by (induction ids arbitrary: a) (auto intro!: touches_intros simp: ks_server_simps)

lemma touches_limiter:
  "k \<in> K \<Longrightarrow> touches K (window_script (ks_server n) k t)"
  "touches K (tokenCheckScript (ks_server n) k)"
  "k \<in> K \<Longrightarrow> touches K (checkAndReserveScript (ks_server n) cj jk k m svc ttl)"
  "k \<in> K \<Longrightarrow> touches K (releaseSlotScript (ks_server n) k)"
  unfolding window_script_def tokenCheckScript_def checkAndReserveScript_def releaseSlotScript_def Let_def INCR_def DECR_def ks_server_simps
  by (auto intro!: touches_rbind touches_get_number touches_count_active frame)

context live_server
begin

lemma call_agrees:
  assumes "sim view c d" "touches K d"
  shows "agree K (view st) (view (snd (rcall R c st)))"
  using assms by (simp add: touches_agree rcall_delivered [OF live] sim_def)

lemma limiter_calls:
  "k \<in> limiter_keys \<Longrightarrow> rcall R (window_script R k t) st = (x, st') \<Longrightarrow> agree limiter_keys (view st) (view st')"
  "rcall R (tokenCheckScript R k) st = (y, st') \<Longrightarrow> agree limiter_keys (view st) (view st')"
  "k \<in> limiter_keys \<Longrightarrow> rcall R (checkAndReserveScript R cj jk k m svc ttl) st = (y, st') \<Longrightarrow> agree limiter_keys (view st) (view st')"
  "k \<in> limiter_keys \<Longrightarrow> rcall R (releaseSlotScript R k) st = (z, st') \<Longrightarrow> agree limiter_keys (view st) (view st')"
  using call_agrees [OF window_script_sim touches_limiter(1)] call_agrees [OF tokenCheckScript_sim touches_limiter(2)]
    call_agrees [OF checkAndReserve_sim touches_limiter(3)] call_agrees [OF releaseSlot_sim touches_limiter(4)]
  by (metis snd_conv)+

lemma Check_agrees: "Check R pd l p r t st = (x, st') \<Longrightarrow> agree limiter_keys (view st) (view st')"
  by (auto simp: Check_def Let_def split: prod.splits option.splits if_splits dest!: limiter_calls(1) [rotated] elim: agree_trans)

lemma CheckTokens_agrees: "CheckTokens R pd l p r t st = (x, st') \<Longrightarrow> agree limiter_keys (view st) (view st')"
  by (auto simp: CheckTokens_def Let_def split: prod.splits option.splits if_splits dest!: limiter_calls(2) elim: agree_trans)

lemma CheckProcessingTime_agrees: "CheckProcessingTime R pd l r t st = (x, st') \<Longrightarrow> agree limiter_keys (view st) (view st')"
  by (auto simp: CheckProcessingTime_def Let_def split: prod.splits option.splits if_splits dest!: limiter_calls(2))

lemma CheckConcurrent_agrees: "CheckConcurrent R cj l r t st = (x, st') \<Longrightarrow> agree limiter_keys (view st) (view st')"
  by (auto simp: CheckConcurrent_def Let_def split: prod.splits option.splits if_splits dest!: limiter_calls(3) [rotated])

lemma ReleaseSlot_agrees: "ReleaseSlot R l r t st = (x, st') \<Longrightarrow> agree limiter_keys (view st) (view st')"
  by (auto simp: ReleaseSlot_def Let_def split: prod.splits option.splits if_splits dest!: limiter_calls(4) [rotated])

end

section \<open>The stages before anything is stored\<close>

text \<open>How a submission is refused before its idempotency key is looked at: a bad request, no access, a limit, guardrails on its
  input, or an upload that fails. A stage that touches only the limiter's keys and does not accept the job itself; and a handler that either stops
  as such a stage does, or goes on with \<open>T\<close> after such stages.\<close>

definition refusal :: "Reply \<Rightarrow> bool" where
  "refusal rep \<longleftrightarrow> Code rep \<in> {400, 403, 404, 405, 422, 429} \<or> rep = \<lparr>Code = 500, Body = Err (Text ''failed to store file'')\<rparr>"

definition quiet :: "('r \<Rightarrow> keyspace) \<Rightarrow> (('r, 'o, 'g, 'u) world, 'a) hop \<Rightarrow> bool" where
  "quiet view m \<longleftrightarrow> (\<forall>w res w1. m w = (res, w1) \<longrightarrow>
     agree limiter_keys (view (w_r w)) (view (w_r w1)) \<and> (\<forall>rep. res = Inl rep \<longrightarrow> refusal rep))"

definition reaches :: "('r \<Rightarrow> keyspace) \<Rightarrow> ('y \<Rightarrow> (('r, 'o, 'g, 'u) world, 'a) hop) \<Rightarrow> (('r, 'o, 'g, 'u) world, 'a) hop \<Rightarrow> bool" where
  "reaches view T m \<longleftrightarrow> (\<forall>w res w1. m w = (res, w1) \<longrightarrow>
     (agree limiter_keys (view (w_r w)) (view (w_r w1)) \<and> (\<exists>rep. res = Inl rep \<and> refusal rep)) \<or>
     (\<exists>y w0. agree limiter_keys (view (w_r w)) (view (w_r w0)) \<and> T y w0 = (res, w1)))"

lemma reaches_hbind: "quiet view m \<Longrightarrow> (\<And>x. reaches view T (k x)) \<Longrightarrow> reaches view T (hbind m k)"
  unfolding reaches_def
proof (intro allI impI)
  fix w res w1
  assume q: "quiet view m" and k: "\<And>x. \<forall>w res w1. k x w = (res, w1) \<longrightarrow>
       (agree limiter_keys (view (w_r w)) (view (w_r w1)) \<and> (\<exists>rep. res = Inl rep \<and> refusal rep)) \<or>
       (\<exists>y w0. agree limiter_keys (view (w_r w)) (view (w_r w0)) \<and> T y w0 = (res, w1))" and run: "hbind m k w = (res, w1)"
  obtain r w' where m: "m w = (r, w')" by fastforce
  then have a: "agree limiter_keys (view (w_r w)) (view (w_r w'))" "\<forall>rep. r = Inl rep \<longrightarrow> refusal rep"
    using q by (simp_all add: quiet_def)
  show "(agree limiter_keys (view (w_r w)) (view (w_r w1)) \<and> (\<exists>rep. res = Inl rep \<and> refusal rep)) \<or>
       (\<exists>y w0. agree limiter_keys (view (w_r w)) (view (w_r w0)) \<and> T y w0 = (res, w1))"
  proof (cases r)
    case (Inl rep)
    then show ?thesis using a run m by (auto simp: hbind_def)
  next
    case (Inr x)
    then have "k x w' = (res, w1)" using run m by (simp add: hbind_def)
    then show ?thesis using k [of x] agree_trans [OF a(1)] by blast
  qed
qed

lemma reaches_stop: "c \<in> {400, 403, 404, 405} \<Longrightarrow> reaches view T (writeError c m)"
  by (auto simp: reaches_def refusal_def writeError_def stop_with_def set_hdr_def)

lemma reaches_end: "reaches view T (T y)"
  unfolding reaches_def using agree_refl by blast

lemma reaches_split:
  "(\<And>e. x = Inl e \<Longrightarrow> reaches view T (f e)) \<Longrightarrow> (\<And>d. x = Inr d \<Longrightarrow> reaches view T (g d)) \<Longrightarrow> reaches view T (case x of Inl e \<Rightarrow> f e | Inr d \<Rightarrow> g d)"
  "(z = None \<Longrightarrow> reaches view T m) \<Longrightarrow> (\<And>d. z = Some d \<Longrightarrow> reaches view T (h d)) \<Longrightarrow> reaches view T (case z of None \<Rightarrow> m | Some d \<Rightarrow> h d)"
  "(b \<Longrightarrow> reaches view T m) \<Longrightarrow> (\<not> b \<Longrightarrow> reaches view T n) \<Longrightarrow> reaches view T (if b then m else n)"
  by (simp_all split: sum.split option.split)

lemma headers_keep [simp]:
  "w_r (set_hdr k v w) = w_r w" "w_r (setRateLimitHeaders f now rl w) = w_r w"
  by (simp_all add: set_hdr_def setRateLimitHeaders_def Let_def)

lemma quiet_stages:
  "quiet view (checkModelVisible rq def u)" "quiet view (authz_stage h rq def)" "quiet view (upload_stage E ref file)"
  "quiet view (input_stage E def params)"
  by (auto simp: quiet_def refusal_def checkModelVisible_def authz_stage_def upload_stage_def input_stage_def scanAsyncSubmitInput_def Let_def
      hret_def writeError_def stop_with_def on_objects_def on_models_def split: option.splits prod.splits if_splits)

context live_server
begin

lemma quiet_limits:
  "quiet view (rate_stage R pd f l rq t now)" "quiet view (time_stage R pd l rq t)" "quiet view (token_stage R pd f l rq t)"
  by (auto simp: quiet_def refusal_def rate_stage_def time_stage_def token_stage_def Let_def hret_def writeError_def stop_with_def
      on_redis_def split: option.splits prod.splits if_splits dest: Check_agrees CheckProcessingTime_agrees CheckTokens_agrees)

lemma quiet_concurrent:
  assumes "je_R E = R"
  shows "quiet view (concurrent_stage E h rq t)"
  by (auto simp: assms quiet_def refusal_def concurrent_stage_def Let_def hret_def writeError_def stop_with_def on_redis_def
      split: option.splits prod.splits if_splits dest: CheckConcurrent_agrees)

end

text \<open>The stages that store the job, with what the earlier ones resolved.\<close>

definition store_stages ::
  "('r, 't, 'o, 'g, 'u) jobs_env \<Rightarrow> JobHandler \<Rightarrow> JobRequest \<Rightarrow> string \<Rightarrow> string \<Rightarrow> int \<Rightarrow> Def \<times> Job \<Rightarrow> (('r, 'o, 'g, 'u) world, unit) hop" where
  "store_stages E h rq serviceType jobID now y =
     (let (def, job) = y; idemKey = hGet (rq_Header rq) ''Idempotency-Key'' in
      hbind (idempotency_stage E h (ConsumerName job) idemKey jobID) (\<lambda>_.
      hbind (gate_stage E def (ConsumerName job) idemKey jobID) (\<lambda>_.
      hbind (save_stage E def idemKey job) (\<lambda>_ w.
      stop_with 202 (Submitted jobID serviceType (Def.Model def) JobStatusPending)
        (if ConsumerName job \<noteq> [] \<and> jh_usageTracker h then
           track E [TrackRequest (ConsumerName job) serviceType, TrackJob (ConsumerName job) serviceType,
             TrackActive (ConsumerName job), TrackUserType (ConsumerName job) serviceType (UserTypeJ job)] w
         else w)))))"

text \<open>The service and the job a submission stands for.\<close>

definition submits :: "JobHandler \<Rightarrow> JobRequest \<Rightarrow> string \<Rightarrow> string \<Rightarrow> int \<Rightarrow> Def \<Rightarrow> Job \<Rightarrow> bool" where
  "submits h rq serviceType jobID now def job \<longleftrightarrow>
     (\<exists>n f file url. rq_form rq n = Some f \<and> RouteAsync (jh_registry h) serviceType (FormValue rq f ''model'') = Inr def \<and>
        f_File f = Some file \<and> OperationPath def (FormValue rq f ''operation'') = Inr url \<and>
        job = new_job h rq f serviceType def url jobID (jobID @ ''/input'' @ Ext (fh_Filename file)) now)"

definition store_if ::
  "('r, 't, 'o, 'g, 'u) jobs_env \<Rightarrow> JobHandler \<Rightarrow> JobRequest \<Rightarrow> string \<Rightarrow> string \<Rightarrow> int \<Rightarrow> (Def \<times> Job) \<Rightarrow> (('r, 'o, 'g, 'u) world, unit) hop" where
  "store_if E h rq t i now y = (if submits h rq t i now (fst y) (snd y) then store_stages E h rq t i now y else writeError 400 BadForm)"

context live_server
begin

lemma store_stages_reached:
  "submits h rq t i now def job \<Longrightarrow> reaches view (store_if E h rq t i now) (store_stages E h rq t i now (def, job))"
  using reaches_end [of view "store_if E h rq t i now" "(def, job)"] by (simp add: store_if_def)

lemma submit_form_stages:
  "submit_form E h rq t f i now =
     (case RouteAsync (jh_registry h) t (FormValue rq f ''model'') of
        Inl e \<Rightarrow> writeError 400 (Route e)
      | Inr def \<Rightarrow>
          hbind (checkModelVisible rq def (jh_userTypeHeader h)) (\<lambda>_.
          if \<not> SupportsAsync def then writeError 405 (OnlySync (Def.Model def))
          else hbind (authz_stage h rq def) (\<lambda>_.
          case f_File f of
            None \<Rightarrow> writeError 400 (Text (''field '' @ [CHR 0x27] @ ''file'' @ [CHR 0x27] @ '' is required''))
          | Some fh \<Rightarrow>
              (case ValidateFileDef def (fh_Filename fh) of
                 Some e \<Rightarrow> writeError 400 (Route e)
               | None \<Rightarrow>
                   (case OperationPath def (FormValue rq f ''operation'') of
                      Inl e \<Rightarrow> writeError 400 (Route e)
                    | Inr url \<Rightarrow>
                        hbind (time_stage (je_R E) (je_pd E) (jh_processingTimeLimiter h) rq t) (\<lambda>_.
                        hbind (token_stage (je_R E) (je_pd E) (je_show_dur E) (jh_tokenLimiter h) rq t) (\<lambda>_. hbind (concurrent_stage E h rq t) (\<lambda>_.
                        hbind (input_stage E def (job_params f)) (\<lambda>_.
                        hbind (upload_stage E (i @ ''/input'' @ Ext (fh_Filename fh)) fh) (\<lambda>_.
                        store_stages E h rq t i now (def, new_job h rq f t def url i (i @ ''/input'' @ Ext (fh_Filename fh)) now)))))))))))"
  unfolding submit_form_def store_stages_def Let_def prod.case ..

lemma submit_form_reaches:
  assumes "je_R E = R" "rq_form rq n = Some f"
  shows "reaches view (store_if E h rq t i now) (submit_form E h rq t f i now)"
  unfolding submit_form_stages assms(1)
  by (intro reaches_split reaches_stop reaches_hbind quiet_stages quiet_limits quiet_concurrent assms(1) store_stages_reached)
    (use assms(2) in \<open>auto simp: submits_def\<close>)

lemma submit_request_reaches:
  assumes "je_R E = R"
  shows "reaches view (store_if E h rq t i now) (submit_request E h rq t i now)"
  unfolding submit_request_def assms
  by (intro reaches_split reaches_stop reaches_hbind quiet_limits submit_form_reaches assms) simp_all

end

section \<open>The stages that store\<close>

text \<open>The keys a job is stored under, and those a submission writes besides.\<close>

definition job_keys :: "Job \<Rightarrow> string set" where
  "job_keys job = {jobKey (ID job), queueKey (Job.Model job), consumerKey (ConsumerName job), pendingKey (Job.Model job), jobMetaKey (ID job)}"

lemma submission_keys [simp]:
  "scanGateKey i \<notin> job_keys job" "idempotencyKey c k \<notin> job_keys job" "jobKey i \<noteq> idempotencyKey c k" "scanGateKey i \<noteq> idempotencyKey c k"
  "pendingKey m \<noteq> idempotencyKey c k" "pendingKey m \<noteq> scanGateKey i" "jobKey i \<noteq> scanGateKey i'" "idempotencyKey c k \<noteq> scanGateKey i"
  by (simp_all add: job_keys_def job_key_defs idempotencyKey_def)

lemma touches_save: "touches (job_keys job) (save_script (ks_server n) r ttl tx job)"
  unfolding save_script_def Let_def ks_server_simps job_keys_def
  by (intro touches_intros) simp_all

lemma push_stores:
  assumes "(if p then ks_lpush k v else ks_rpush k v) ks = (Some x, ks')"
  shows "\<exists>xs d. list_at ks' k = Some (xs, d) \<and> v \<in> set xs"
proof -
  obtain xs d where xs: "list_at ks k = Some (xs, d)"
    using assms by (cases "list_at ks k") (auto simp: ks_lpush_def ks_rpush_def split: if_splits)
  then obtain n1 ks1 where "(if p then ks_lpush k v ks else ks_rpush k v ks) = (Some n1, ks1)"
    "list_at ks1 k = Some (if p then v # xs else xs @ [v], d)"
    by (rule push_ks [of _ _ _ _ p v]) blast
  with assms show ?thesis by (cases p) auto
qed

lemma save_script_stores:
  assumes "save_script (ks_server n) r ttl tx job ks = (Some x, ks')" "second \<le> ttl"
  shows "\<exists>e. look ks' (jobKey (ID job)) = Some e \<and> rv e = RStr tx" "\<exists>xs d. list_at ks' (pendingKey (Job.Model job)) = Some (xs, d) \<and> ID job \<in> set xs"
proof -
  define A where "A = ks_set (jobKey (ID job)) tx (set_ttl ttl)"
  define B where "B = ks_zadd (queueKey (Job.Model job)) (CreatedAt job div second) (ID job)"
  define C where "C = ks_expire (queueKey (Job.Model job)) (expire_secs ttl)"
  define D where "D = (if ConsumerName job \<noteq> [] then rboth (ks_zadd (consumerKey (ConsumerName job)) (CreatedAt job div second) (ID job))
      (ks_expire (consumerKey (ConsumerName job)) (expire_secs ttl)) else rret (0, 0))"
  define F where "F = (if Priority job then ks_lpush (pendingKey (Job.Model job)) (ID job) else ks_rpush (pendingKey (Job.Model job)) (ID job))"
  define G where "G = (if expiredMarkerTTL r > 0 then ks_set (jobMetaKey (ID job)) (ServiceType job) (set_ttl (expiredMarkerTTL r)) else rret ())"
  have s: "save_script (ks_server n) r ttl tx job = rboth A (rboth B (rboth C (rboth D (rboth F G))))"
    unfolding save_script_def Let_def ks_server_simps A_def B_def C_def D_def F_def G_def ..
  have t: "touches {queueKey (Job.Model job)} B" "touches {queueKey (Job.Model job)} C" "touches {consumerKey (ConsumerName job)} D"
    "touches {pendingKey (Job.Model job)} F" "touches {jobMetaKey (ID job)} G"
    unfolding B_def C_def D_def F_def G_def by (intro touches_intros; simp)+
  define ks1 where "ks1 = snd (D (snd (C (snd (B (snd (A ks)))))))"
  have ks': "ks' = snd (G (snd (F ks1)))" using assms(1) unfolding s ks1_def by (metis snd_conv snd_rboth)
  have "fst (F ks1) \<noteq> None" using assms(1) unfolding s ks1_def by (auto simp: rboth_def split: prod.splits option.splits)
  then obtain y where "F ks1 = (Some y, snd (F ks1))" by (metis option.exhaust_sel prod.collapse)
  from push_stores [OF this [unfolded F_def]] obtain xs d where "list_at (snd (F ks1)) (pendingKey (Job.Model job)) = Some (xs, d)" "ID job \<in> set xs"
    unfolding F_def by blast
  moreover have "look ks' (pendingKey (Job.Model job)) = look (snd (F ks1)) (pendingKey (Job.Model job))"
    unfolding ks' by (rule touchesD(1) [OF t(5)]) (simp add: key_simps)
  ultimately show "\<exists>xs d. list_at ks' (pendingKey (Job.Model job)) = Some (xs, d) \<and> ID job \<in> set xs" by (metis list_at_look)
  obtain ms where ms: "0 < ms" "set_ttl ttl = Some ms" using set_ttl_pos [OF assms(2)] by blast
  have "look ks' (jobKey (ID job)) = look (snd (A ks)) (jobKey (ID job))"
    unfolding ks' ks1_def by (simp add: touchesD(1) [OF t(1)] touchesD(1) [OF t(2)] touchesD(1) [OF t(3)] touchesD(1) [OF t(4)] touchesD(1) [OF t(5)] key_simps)
  then show "\<exists>e. look ks' (jobKey (ID job)) = Some e \<and> rv e = RStr tx" using ms by (simp add: A_def ks_set_def)
qed

lemma parse_gate_policy [simp]: "FailClosed (parse_gate (gate_text timeout fc)) = fc"
  by (simp add: parse_gate_def gate_text_def takeWhile_bar Let_def)

context live_server
begin

lemma idempotency_new:
  assumes "je_R E = R" "second \<le> jh_idempotencyTTL h" "key \<noteq> []" "look (view (w_r w)) (idempotencyKey c key) = None"
  obtains w1 e where "idempotency_stage E h c key i w = (Inr (), w1)" "look (view (w_r w1)) (idempotencyKey c key) = Some e" "rv e = RStr i"
    "agree {idempotencyKey c key} (view (w_r w)) (view (w_r w1))"
proof -
  obtain t where t: "0 < t" "set_ttl (jh_idempotencyTTL h) = Some t" using set_ttl_pos [OF assms(2)] by blast
  let ?e = "\<lparr>rv = RStr i, deadline = Some (clock (view (w_r w)) + t)\<rparr>"
  have "SETNX_dur (ks_server ks_link) (idempotencyKey c key) i (jh_idempotencyTTL h) (view (w_r w)) = (Some True, put (idempotencyKey c key) ?e (view (w_r w)))"
    using t assms(2,4) by (simp add: SETNX_dur_def ks_server_simps ks_setnx_def)
  from call_runs [OF SETNX_dur_sim this] obtain st1 where st1: "ReserveIdempotencyKey R c key i (jh_idempotencyTTL h) (w_r w) = (Some True, st1)"
    "view st1 = put (idempotencyKey c key) ?e (view (w_r w))" by (metis ReserveIdempotencyKey_def)
  show ?thesis
    by (rule that [of "w\<lparr>w_r := st1\<rparr>" ?e]) (use st1 t assms(1,3) in \<open>simp_all add: idempotency_stage_def on_redis_def hret_def agree_def\<close>)
qed

lemma idempotency_used:
  assumes "je_R E = R" "second \<le> jh_idempotencyTTL h" "key \<noteq> []" "look (view (w_r w)) (idempotencyKey c key) = Some e" "rv e = RStr i0"
    and "i0 \<noteq> []" "holds (je_cd E) (view (w_r w)) i0 job"
  obtains w1 where "idempotency_stage E h c key i w = (Inl \<lparr>Code = 200, Body = Submitted (ID job) (ServiceType job) (Job.Model job) (Status job)\<rparr>, w1)"
    "view (w_r w1) = view (w_r w)"
proof -
  have "SETNX_dur (ks_server ks_link) (idempotencyKey c key) i (jh_idempotencyTTL h) (view (w_r w)) = (Some False, view (w_r w))"
    using assms(2,4) by (simp add: SETNX_dur_def ks_server_simps ks_setnx_def)
  from call_runs [OF SETNX_dur_sim this] obtain st1 where st1: "ReserveIdempotencyKey R c key i (jh_idempotencyTTL h) (w_r w) = (Some False, st1)"
    "view st1 = view (w_r w)" by (metis ReserveIdempotencyKey_def)
  have "ks_get (idempotencyKey c key) (view st1) = (Some (Some i0), view st1)" using assms(4,5) st1(2) by (simp add: ks_get_def)
  from call_runs [OF GET this] obtain st2 where st2: "rcall R (GET R (idempotencyKey c key)) st1 = (Some (Some i0), st2)" "view st2 = view st1" by metis
  have g: "GetIdempotencyKey R c key st1 = (Some i0, st2)" using st2(1) by (simp add: GetIdempotencyKey_def rbind_def rret_def)
  obtain st3 where st3: "GetJob R (je_cd E) i0 st2 = (Inr job, st3)" "view st3 = view st2"
    using GetJob_holds assms(7) st1(2) st2(2) by metis
  show ?thesis
    by (rule that [of "set_hdr ''Content-Type'' ''application/json'' (set_hdr ''X-Idempotent-Replay'' ''true'' (w\<lparr>w_r := st3\<rparr>))"])
      (use st1 g st2(2) st3 assms(1,3,6) in \<open>simp_all add: idempotency_stage_def on_redis_def stop_with_def Let_def\<close>)
qed

lemma gate_arms:
  assumes "je_R E = R" "ttls_ok (je_pd E) (je_rc E)"
  obtains w1 where "gate_stage E def c key i w = (Inr (), w1)" "agree {scanGateKey i} (view (w_r w)) (view (w_r w1))"
    "Enforcing (Async (Guardrails def)) \<longrightarrow> gate_at (view (w_r w1)) i =
       Some (parse_gate (gate_text (ScanTimeout (Async (Guardrails def))) (OnTimeoutFailClosed (Async (Guardrails def)))))"
proof (cases "Enforcing (Async (Guardrails def))")
  case False
  then show ?thesis using that [of w] by (simp add: gate_stage_def hret_def)
next
  case True
  let ?a = "Async (Guardrails def)" and ?d = "ttlForStatus (je_pd E) (je_rc E) JobStatusCompleted"
  obtain ms where ms: "0 < ms" "set_ttl ?d = Some ms" using set_ttl_pos assms(2) by (auto simp: ttls_ok_def)
  let ?v = "gate_text (ScanTimeout ?a) (OnTimeoutFailClosed ?a)"
  let ?ks = "put (scanGateKey i) \<lparr>rv = RStr ?v, deadline = Some (clock (view (w_r w)) + ms)\<rparr> (view (w_r w))"
  have "ks_set (scanGateKey i) ?v (set_ttl ?d) (view (w_r w)) = (Some (), ?ks)" using ms by (simp add: ks_set_def)
  from call_runs [OF SET this] obtain st1 where "SetScanGate R (je_pd E) (je_rc E) i (ScanTimeout ?a) (OnTimeoutFailClosed ?a) (w_r w) = (Some (), st1)" "view st1 = ?ks"
    by (metis SetScanGate_def)
  then show ?thesis using True assms(1) ms that [of "w\<lparr>w_r := st1\<rparr>"]
    by (simp add: gate_stage_def on_redis_def hret_def agree_def gate_at_def Let_def)
qed

lemma save_stage_stores:
  assumes "je_R E = R" "codec_ok (je_cd E)" "ttls_ok (je_pd E) (je_rc E)" "save_stage E def key job w = (Inr x, w1)"
  shows "holds (je_cd E) (view (w_r w1)) (ID job) job"
    "\<exists>xs d. list_at (view (w_r w1)) (pendingKey (Job.Model job)) = Some (xs, d) \<and> ID job \<in> set xs" "agree (job_keys job) (view (w_r w)) (view (w_r w1))"
proof -
  obtain tx where tx: "marshal (je_cd E) job = Some tx"
    using assms(4) by (cases "marshal (je_cd E) job") (simp_all add: save_stage_def SaveJob_def rfail_def on_redis_def writeError_def stop_with_def Let_def)
  let ?d = "ttlForStatus (je_pd E) (je_rc E) (Status job)"
  have "second \<le> ?d" using assms(3) by (simp add: ttls_ok_def)
  obtain y ks' where y: "save_script (ks_server ks_link) (je_rc E) ?d tx job (view (w_r w)) = (y, ks')" by fastforce
  obtain st1 where st1: "rcall R (save_script R (je_rc E) ?d tx job) (w_r w) = (y, st1)" "view st1 = ks'" using call_runs [OF save_script_sim y] by metis
  obtain v where v: "y = Some v" "w1 = w\<lparr>w_r := st1\<rparr>"
    using assms(1,4) st1(1) tx
    by (cases y) (simp_all add: save_stage_def SaveJob_def rbind_def rret_def on_redis_def writeError_def stop_with_def Let_def hret_def)
  note k = save_script_stores [OF y [unfolded v(1)] \<open>second \<le> ?d\<close>]
  have "reads (je_cd E) tx job" using assms(2) tx by (auto simp: codec_ok_def)
  then show "holds (je_cd E) (view (w_r w1)) (ID job) job" using k(1) st1(2) v(2) by (auto simp: holds_def)
  show "\<exists>xs d. list_at (view (w_r w1)) (pendingKey (Job.Model job)) = Some (xs, d) \<and> ID job \<in> set xs" using k(2) st1(2) v(2) by simp
  have "agree (job_keys job) (view (w_r w)) (snd (save_script (ks_server ks_link) (je_rc E) ?d tx job (view (w_r w))))"
    using touches_save touches_agree by metis
  then show "agree (job_keys job) (view (w_r w)) (view (w_r w1))" using y st1(2) v(2) by simp
qed

end

context live_server
begin

lemma reads_keep:
  "view (snd (GetJob R cd i st)) = view st" "view (snd (GetIdempotencyKey R c k st)) = view st"
proof -
  have v: "view (snd (rcall R (GET R k) st)) = view st" for k
    using GET [of k] by (auto simp: sim_def rcall_delivered [OF live] ks_get_def split: option.split rval.split)
  show "view (snd (GetJob R cd i st)) = view st"
    using v [of "jobKey i"] by (auto simp: GetJob_def split: prod.splits option.splits)
  show "view (snd (GetIdempotencyKey R c k st)) = view st"
    using v [of "idempotencyKey c k"] by (auto simp: GetIdempotencyKey_def rbind_def rret_def split: prod.splits option.splits)
qed

lemma idempotency_busy:
  assumes "je_R E = R" "second \<le> jh_idempotencyTTL h" "key \<noteq> []" "look (view (w_r w)) (idempotencyKey c key) = Some e"
  shows "\<exists>rep w1. idempotency_stage E h c key i w = (Inl rep, w1) \<and> Code rep \<noteq> 202 \<and> view (w_r w1) = view (w_r w)"
proof -
  have "SETNX_dur (ks_server ks_link) (idempotencyKey c key) i (jh_idempotencyTTL h) (view (w_r w)) = (Some False, view (w_r w))"
    using assms(2,4) by (simp add: SETNX_dur_def ks_server_simps ks_setnx_def)
  from call_runs [OF SETNX_dur_sim this] obtain st1 where st1: "ReserveIdempotencyKey R c key i (jh_idempotencyTTL h) (w_r w) = (Some False, st1)"
    "view st1 = view (w_r w)" by (metis ReserveIdempotencyKey_def)
  obtain x st2 where g: "GetIdempotencyKey R c key st1 = (x, st2)" "view st2 = view st1" using reads_keep(2) by (metis prod.collapse)
  obtain y st3 where j: "GetJob R (je_cd E) (case x of None \<Rightarrow> [] | Some i \<Rightarrow> i) st2 = (y, st3)" "view st3 = view st2"
    using reads_keep(1) by (metis prod.collapse)
  show ?thesis using st1 g j assms(1,3)
    by (auto simp: idempotency_stage_def on_redis_def writeError_def stop_with_def Let_def split: option.split sum.split)
qed

text \<open>What an accepted submission has left on the server.\<close>

lemma store_stages_accept:
  assumes E: "je_R E = R" "codec_ok (je_cd E)" "ttls_ok (je_pd E) (je_rc E)" "second \<le> jh_idempotencyTTL h"
    and run: "store_stages E h rq t i now (def, job) w = (Inl rep, w1)" "Code rep = 202" "ID job = i"
  shows "rep = \<lparr>Code = 202, Body = Submitted i t (Def.Model def) JobStatusPending\<rparr>" "holds (je_cd E) (view (w_r w1)) i job"
    "\<exists>xs d. list_at (view (w_r w1)) (pendingKey (Job.Model job)) = Some (xs, d) \<and> i \<in> set xs"
    "Enforcing (Async (Guardrails def)) \<longrightarrow> gate_at (view (w_r w1)) i =
       Some (parse_gate (gate_text (ScanTimeout (Async (Guardrails def))) (OnTimeoutFailClosed (Async (Guardrails def)))))"
    "hGet (rq_Header rq) ''Idempotency-Key'' \<noteq> [] \<longrightarrow>
       (\<exists>e. look (view (w_r w1)) (idempotencyKey (ConsumerName job) (hGet (rq_Header rq) ''Idempotency-Key'')) = Some e \<and> rv e = RStr i)"
proof -
  let ?key = "hGet (rq_Header rq) ''Idempotency-Key''"
  let ?idem = "idempotencyKey (ConsumerName job) ?key"
  obtain w2 where w2: "idempotency_stage E h (ConsumerName job) ?key i w = (Inr (), w2)" "?key \<noteq> [] \<longrightarrow> (\<exists>e. look (view (w_r w2)) ?idem = Some e \<and> rv e = RStr i)"
  proof (cases "?key = [] \<or> look (view (w_r w)) ?idem = None")
    case True
    then show ?thesis using that [of w] idempotency_new [OF E(1,4), of ?key w "ConsumerName job" i] that
      by (cases "?key = []") (auto simp: idempotency_stage_def hret_def)
  next
    case False
    then obtain e where "?key \<noteq> []" "look (view (w_r w)) ?idem = Some e" by auto
    from idempotency_busy [OF E(1,4) this, of i] run show ?thesis by (auto simp: store_stages_def hbind_def Let_def)
  qed
  obtain w3 where w3: "gate_stage E def (ConsumerName job) ?key i w2 = (Inr (), w3)" "agree {scanGateKey i} (view (w_r w2)) (view (w_r w3))"
    "Enforcing (Async (Guardrails def)) \<longrightarrow> gate_at (view (w_r w3)) i =
       Some (parse_gate (gate_text (ScanTimeout (Async (Guardrails def))) (OnTimeoutFailClosed (Async (Guardrails def)))))"
    using gate_arms [OF E(1,3)] by metis
  obtain res w4 where w4: "save_stage E def ?key job w3 = (res, w4)" by fastforce
  obtain u where u: "res = Inr u"
    using run w2(1) w3(1) w4 by (cases res) (auto simp: store_stages_def hbind_def Let_def save_stage_def writeError_def stop_with_def hret_def split: prod.splits option.splits)
  note sv = save_stage_stores [OF E(1-3) w4 [unfolded u]]
  have fin: "w_r w1 = w_r w4" and rep: "rep = \<lparr>Code = 202, Body = Submitted i t (Def.Model def) JobStatusPending\<rparr>"
    using run w2(1) w3(1) w4 u by (auto simp: store_stages_def hbind_def Let_def stop_with_def track_def)
  show "rep = \<lparr>Code = 202, Body = Submitted i t (Def.Model def) JobStatusPending\<rparr>" by (rule rep)
  show "holds (je_cd E) (view (w_r w1)) i job" "\<exists>xs d. list_at (view (w_r w1)) (pendingKey (Job.Model job)) = Some (xs, d) \<and> i \<in> set xs"
    using sv(1,2) fin run(3) by auto
  show "Enforcing (Async (Guardrails def)) \<longrightarrow> gate_at (view (w_r w1)) i =
       Some (parse_gate (gate_text (ScanTimeout (Async (Guardrails def))) (OnTimeoutFailClosed (Async (Guardrails def)))))"
    using w3(3) agree_look [OF sv(3), of "scanGateKey i"] fin by (simp add: gate_at_def)
  show "?key \<noteq> [] \<longrightarrow> (\<exists>e. look (view (w_r w1)) ?idem = Some e \<and> rv e = RStr i)"
    using w2(2) agree_look [OF w3(2), of ?idem] agree_look [OF sv(3), of ?idem] fin by simp
qed

lemma Submit_result:
  assumes "je_R E = R" "Submit E h rq t i now w = (rep, w')"
  obtains res w1 where "submit_request E h rq t i now (w\<lparr>w_hdr := [], w_slot := False\<rparr>) = (res, w1)"
    "rep = (case res of Inl rep \<Rightarrow> rep | Inr _ \<Rightarrow> \<lparr>Code = 200, Body = NoBody\<rparr>)" "agree limiter_keys (view (w_r w1)) (view (w_r w'))"
proof -
  obtain res w1 where s: "submit_request E h rq t i now (w\<lparr>w_hdr := [], w_slot := False\<rparr>) = (res, w1)" by fastforce
  show ?thesis
    by (rule that [OF s])
      (use s assms(2) in \<open>auto simp: assms(1) Submit_def Let_def on_redis_def split: option.splits bool.splits prod.splits dest: ReleaseSlot_agrees\<close>)
qed

end

context live_server
begin

lemma Submit_accepts:
  assumes E: "je_R E = R" "codec_ok (je_cd E)" "ttls_ok (je_pd E) (je_rc E)" "second \<le> jh_idempotencyTTL h"
    and run: "Submit E h rq t i now w = (rep, w')" "Code rep = 202"
  obtains def job w1 where "submits h rq t i now def job" "ID job = i" "agree limiter_keys (view (w_r w1)) (view (w_r w'))"
    "\<exists>w0. store_stages E h rq t i now (def, job) w0 = (Inl rep, w1)"
proof -
  obtain res w1 where s: "submit_request E h rq t i now (w\<lparr>w_hdr := [], w_slot := False\<rparr>) = (res, w1)"
    "rep = (case res of Inl rep \<Rightarrow> rep | Inr _ \<Rightarrow> \<lparr>Code = 200, Body = NoBody\<rparr>)" "agree limiter_keys (view (w_r w1)) (view (w_r w'))"
    using Submit_result [OF E(1) run(1)] by blast
  have r: "res = Inl rep" using s(2) run(2) by (cases res) auto
  have "\<not> refusal rep" using run(2) by (auto simp: refusal_def)
  then obtain y w0 where y: "store_if E h rq t i now y w0 = (res, w1)"
    using submit_request_reaches [OF E(1), of h rq t i now] s(1) r unfolding reaches_def by fastforce
  then have "submits h rq t i now (fst y) (snd y)" using r run(2) by (auto simp: store_if_def writeError_def stop_with_def split: if_splits)
  moreover from this have "ID (snd y) = i" by (auto simp: submits_def new_job_def)
  ultimately show ?thesis using that [of "fst y" "snd y", OF _ _ s(3)] y r by (auto simp: store_if_def)
qed

lemma Submit_replays:
  assumes E: "je_R E = R" "second \<le> jh_idempotencyTTL h"
    and key: "hGet (rq_Header rq) ''Idempotency-Key'' = key" "key \<noteq> []" "header_of rq (jh_consumerHeader h) = c"
      "look (view (w_r w)) (idempotencyKey c key) = Some e" "rv e = RStr i0" "i0 \<noteq> []" "holds (je_cd E) (view (w_r w)) i0 job"
    and run: "Submit E h rq t i now w = (rep, w')"
  shows "agree limiter_keys (view (w_r w)) (view (w_r w'))"
    "rep = \<lparr>Code = 200, Body = Submitted (ID job) (ServiceType job) (Job.Model job) (Status job)\<rparr> \<or> refusal rep"
proof -
  let ?replay = "\<lparr>Code = 200, Body = Submitted (ID job) (ServiceType job) (Job.Model job) (Status job)\<rparr>"
  obtain res w1 where s: "submit_request E h rq t i now (w\<lparr>w_hdr := [], w_slot := False\<rparr>) = (res, w1)"
    "rep = (case res of Inl rep \<Rightarrow> rep | Inr _ \<Rightarrow> \<lparr>Code = 200, Body = NoBody\<rparr>)" "agree limiter_keys (view (w_r w1)) (view (w_r w'))"
    using Submit_result [OF E(1) run] by blast
  have "agree limiter_keys (view (w_r w)) (view (w_r w1)) \<and> (res = Inl ?replay \<or> (\<exists>rep. res = Inl rep \<and> refusal rep))"
  proof (cases "agree limiter_keys (view (w_r w)) (view (w_r w1)) \<and> (\<exists>rep. res = Inl rep \<and> refusal rep)")
    case False
    then obtain y w0 where y: "agree limiter_keys (view (w_r w)) (view (w_r w0))" "store_if E h rq t i now y w0 = (res, w1)"
      using submit_request_reaches [OF E(1), of h rq t i now] s(1) unfolding reaches_def by fastforce
    show ?thesis
    proof (cases "submits h rq t i now (fst y) (snd y)")
      case False
      then show ?thesis using y by (auto simp: store_if_def refusal_def writeError_def stop_with_def)
    next
      case True
      then have c: "ConsumerName (snd y) = c" using key(3) by (auto simp: submits_def new_job_def)
      have "look (view (w_r w0)) (idempotencyKey c key) = Some e" "holds (je_cd E) (view (w_r w0)) i0 job"
        using agree_look [OF y(1)] key(4) holds_cong [OF key(7)] by simp_all
      from idempotency_used [OF E(1,2) key(2) this(1) key(5,6) this(2), of i] obtain w2
        where "idempotency_stage E h c key i w0 = (Inl ?replay, w2)" "view (w_r w2) = view (w_r w0)" by metis
      then show ?thesis using y True c key(1) by (cases y) (auto simp: store_if_def store_stages_def hbind_def Let_def)
    qed
  qed simp
  then show "agree limiter_keys (view (w_r w)) (view (w_r w'))" "rep = ?replay \<or> refusal rep"
    using s(2) agree_trans [OF _ s(3)] by auto
qed

end

text \<open>C29: A submission that is accepted has stored the job of the request, unchanged, and put it into the queue of its
  model; and where the service enforces guardrails on results, the job's gate stands, with the policy the service is
  configured with.\<close>

theorem accepted_job_stored_and_gated:
  assumes "live_server (je_R E) view" "codec_ok (je_cd E)" "ttls_ok (je_pd E) (je_rc E)" "second \<le> jh_idempotencyTTL h"
    and "Submit E h rq t i now w = (rep, w')" "Code rep = 202"
  shows "\<exists>def job. submits h rq t i now def job \<and> rep = \<lparr>Code = 202, Body = Submitted i t (Def.Model def) JobStatusPending\<rparr>
    \<and> holds (je_cd E) (view (w_r w')) i job
    \<and> (\<exists>xs d. list_at (view (w_r w')) (pendingKey (Def.Model def)) = Some (xs, d) \<and> i \<in> set xs)
    \<and> (Enforcing (Async (Guardrails def)) \<longrightarrow>
         (\<exists>g. gate_at (view (w_r w')) i = Some g \<and> FailClosed g = OnTimeoutFailClosed (Async (Guardrails def))))"
proof -
  obtain def job w1 w0 where s: "submits h rq t i now def job" "ID job = i" "agree limiter_keys (view (w_r w1)) (view (w_r w'))"
    "store_stages E h rq t i now (def, job) w0 = (Inl rep, w1)"
    using live_server.Submit_accepts [OF assms(1) refl assms(2-6)] by metis
  note k = live_server.store_stages_accept [OF assms(1) refl assms(2-4) s(4) assms(6) s(2)]
  note eq = agree_look [OF s(3)]
  have "Job.Model job = Def.Model def" using s(1) by (auto simp: submits_def new_job_def)
  then have "\<exists>xs d. list_at (view (w_r w')) (pendingKey (Def.Model def)) = Some (xs, d) \<and> i \<in> set xs"
    using k(3) list_at_look [OF eq, of "pendingKey (Def.Model def)"] by simp
  moreover have "holds (je_cd E) (view (w_r w')) i job" by (rule holds_cong [OF k(2) eq]) simp
  moreover have "gate_at (view (w_r w')) i = gate_at (view (w_r w1)) i" by (simp add: gate_at_def eq)
  ultimately show ?thesis using s(1) k(1,4) by (intro exI [of _ def] exI [of _ job]) auto
qed

text \<open>C30: An idempotency key is good for one job. While the key and the record of an accepted submission stand, a submission of
  the same consumer with the same key, whatever else it asks for, is answered with the first job, unless it is refused
  before its key is looked at. In Redis it changes nothing but counters of the limits, so that no second job is started (the file
  it has uploaded is left to the garbage collector).\<close>

theorem resubmission_replays:
  assumes "live_server (je_R E) view" "codec_ok (je_cd E)" "ttls_ok (je_pd E) (je_rc E)" "second \<le> jh_idempotencyTTL h" "i \<noteq> []"
    and "Submit E h rq t i now w = (rep, w1)" "Code rep = 202" "hGet (rq_Header rq) ''Idempotency-Key'' = key" "key \<noteq> []"
    and "header_of rq (jh_consumerHeader h) = c"
    and "\<forall>k \<in> {idempotencyKey c key, jobKey i}. look (view (w_r w2)) k = look (view (w_r w1)) k"
    and "hGet (rq_Header rq2) ''Idempotency-Key'' = key" "header_of rq2 (jh_consumerHeader h) = c"
    and "Submit E h rq2 t2 i2 now2 w2 = (rep2, w3)"
  shows "agree limiter_keys (view (w_r w2)) (view (w_r w3)) \<and> (rep2 = \<lparr>Code = 200, Body = Body rep\<rparr> \<or> refusal rep2)"
proof -
  obtain def job wa w0 where s: "submits h rq t i now def job" "ID job = i" "agree limiter_keys (view (w_r wa)) (view (w_r w1))"
    "store_stages E h rq t i now (def, job) w0 = (Inl rep, wa)"
    using live_server.Submit_accepts [OF assms(1) refl assms(2-4,6,7)] by metis
  note k = live_server.store_stages_accept [OF assms(1) refl assms(2-4) s(4) assms(7) s(2)]
  note eq = agree_look [OF s(3)]
  have job: "ConsumerName job = c" "ServiceType job = t" "Job.Model job = Def.Model def" "Status job = JobStatusPending"
    using s(1) assms(10) by (auto simp: submits_def new_job_def)
  obtain e where e: "look (view (w_r w2)) (idempotencyKey c key) = Some e" "rv e = RStr i" using k(5) assms(8,9,11) job(1) eq by auto
  have "holds (je_cd E) (view (w_r w1)) i job" by (rule holds_cong [OF k(2) eq]) simp
  then have h: "holds (je_cd E) (view (w_r w2)) i job" by (rule holds_cong) (use assms(11) in simp)
  from live_server.Submit_replays [OF assms(1) refl assms(4,12,9,13) e assms(5) h assms(14)] k(1) job s(2)
  show ?thesis by auto
qed

section \<open>A lost reply\<close>

lemma del_key_delivered:
  assumes "redis_server R view" "net R st = (Delivered, st)"
  obtains n st' where "rcall R (DEL R [k]) st = (Some n, st')" "\<And>k'. look (view st') k' = (if k' = k then None else look (view st) k')"
proof -
  obtain x ks where x: "ks_del [k] (view st) = (x, ks)" by fastforce
  have "x \<noteq> None" using x by (auto split: if_splits option.splits prod.splits)
  moreover have "rcall R (DEL R [k]) st = (x, snd (DEL R [k] st))" "view (snd (DEL R [k] st)) = ks"
    using simD [OF redis_server.DEL [OF assms(1)] x] rcall_delivered [OF assms(2), of "DEL R [k]"] by (metis prod.collapse)+
  moreover have "look ks k' = (if k' = k then None else look (view st) k')" for k' using look_ks_del [OF x] by simp
  ultimately show ?thesis using that by force
qed

text \<open>C31: When only the reply to saving a job is lost, the job is stored and queued, yet the caller is told that it failed, its
  idempotency key is free again and its gate is gone: a retry with the same key starts a second job, and the result of
  the first is not withheld.\<close>

theorem lost_save_reply_orphans_job:
  assumes "redis_server (je_R E) view" "codec_ok (je_cd E)" "ttls_ok (je_pd E) (je_rc E)" "second \<le> expiredMarkerTTL (je_rc E)"
    and "marshal (je_cd E) job = Some tx" "key \<noteq> []"
    and "list_at (view (w_r w)) (pendingKey (Job.Model job)) = Some (xs, d)" "zset_at (view (w_r w)) (queueKey (Job.Model job)) = Some (zs, dz)"
    and "zset_at (view (w_r w)) (consumerKey (ConsumerName job)) = Some (cs, dc)" "look (view (w_r w)) (jobKey (ID job)) = None"
    and "net (je_R E) (w_r w) = (ReplyLost, w_r w)" "\<forall>st. st \<noteq> w_r w \<longrightarrow> net (je_R E) st = (Delivered, st)"
  shows "\<exists>rep w'. save_stage E def key job w = (Inl rep, w') \<and> Code rep = 500
    \<and> holds (je_cd E) (view (w_r w')) (ID job) job
    \<and> (\<exists>xs d. list_at (view (w_r w')) (pendingKey (Job.Model job)) = Some (xs, d) \<and> ID job \<in> set xs)
    \<and> look (view (w_r w')) (idempotencyKey (ConsumerName job) key) = None
    \<and> (Enforcing (Async (Guardrails def)) \<longrightarrow> gate_at (view (w_r w')) (ID job) = None)"
proof -
  let ?R = "je_R E" and ?ttl = "ttlForStatus (je_pd E) (je_rc E) (Status job)"
  have ttl: "second \<le> ?ttl" using assms(3) by (simp add: ttls_ok_def)
  obtain a ks where ks: "save_script (ks_server ks_link) (je_rc E) ?ttl tx job (view (w_r w)) = (Some a, ks)"
    using save_script_ks [OF ttl assms(4,7,8,9), of ks_link tx] by metis
  define st1 where "st1 = snd (save_script ?R (je_rc E) ?ttl tx job (w_r w))"
  have st1: "view st1 = ks" using simD [OF redis_server.save_script_sim [OF assms(1)] ks] by (simp add: st1_def)
  have lost: "SaveJob ?R (je_cd E) (je_pd E) (je_rc E) job (w_r w) = (None, st1)"
    using assms(5,11) by (simp add: SaveJob_def rbind_def rcall_def st1_def split: prod.split)
  note k = save_script_stores [OF ks ttl]
  have ne: "st \<noteq> w_r w" if "look (view st) (jobKey (ID job)) = look ks (jobKey (ID job))" for st using k(1) that assms(10) by auto
  obtain n2 st2 where d2: "rcall ?R (DEL ?R [idempotencyKey (ConsumerName job) key]) st1 = (Some n2, st2)"
    "\<And>k'. look (view st2) k' = (if k' = idempotencyKey (ConsumerName job) key then None else look ks k')"
    using del_key_delivered [OF assms(1)] assms(12) ne st1 by metis
  obtain n3 st3 where d3: "rcall ?R (DEL ?R [scanGateKey (ID job)]) st2 = (Some n3, st3)"
    "\<And>k'. look (view st3) k' = (if k' = scanGateKey (ID job) then None else look (view st2) k')"
    using del_key_delivered [OF assms(1)] assms(12) ne [of st2] d2(2) by (metis submission_keys(3))
  let ?st = "if Enforcing (Async (Guardrails def)) then st3 else st2"
  have look: "look (view ?st) (jobKey (ID job)) = look ks (jobKey (ID job))" "look (view ?st) (pendingKey (Job.Model job)) = look ks (pendingKey (Job.Model job))"
    "look (view ?st) (idempotencyKey (ConsumerName job) key) = None" "Enforcing (Async (Guardrails def)) \<Longrightarrow> look (view ?st) (scanGateKey (ID job)) = None"
    by (simp_all add: d2(2) d3(2))
  have "reads (je_cd E) tx job" using assms(2,5) by (auto simp: codec_ok_def)
  then have h: "holds (je_cd E) (view ?st) (ID job) job" using k(1) look(1) by (auto simp: holds_def)
  have run: "save_stage E def key job w = (Inl \<lparr>Code = 500, Body = Err (Text ''failed to save job'')\<rparr>, set_hdr ''Content-Type'' ''application/json'' (w\<lparr>w_r := ?st\<rparr>))"
    using lost d2(1) d3(1) assms(6)
    by (simp add: save_stage_def on_redis_def release_key_def ReleaseIdempotencyKey_def ClearScanGate_def rbind_def rret_def writeError_def stop_with_def Let_def)
  show ?thesis using run h look(3,4) k(2) list_at_look [OF look(2)] by (auto simp: gate_at_def)
qed

section \<open>Concrete submissions\<close>

definition file_service :: ServiceConfig where
  "file_service = guarded_service\<lparr>sc_AcceptedExts := [''.txt''], sc_MaxFileSizeMB := 1\<rparr>"

definition file_handler :: JobHandler where
  "file_handler = NewJobHandler (NewRegistry no_durations [] [file_service]) [] ''X-Consumer'' None False"

definition upload_by :: "string \<Rightarrow> JobRequest" where
  "upload_by consumer = (poll_by consumer)\<lparr>rq_Header := [(''X-Consumer'', [consumer]), (''Idempotency-Key'', [''k''])],
     rq_form := (\<lambda>_. Some \<lparr>f_Value = [(''model'', [''m''])], f_File = Some \<lparr>fh_Filename = ''a.txt'', fh_ContentType = ''text/plain'', fh_Data = ''x''\<rparr>\<rparr>)\<rparr>"

lemma sample_submission:
  "Code (fst (Submit (sample_env ks_link) file_handler (upload_by ''bob'') ''ocr'' ''7'' 5 (sample_world no_keys))) = 202"
  by code_simp

definition after_submission :: "(keyspace, unit, unit, unit) world" where
  "after_submission = snd (Submit (sample_env ks_link) file_handler (upload_by ''bob'') ''ocr'' ''7'' 5 (sample_world no_keys))"

lemma sample_submits:
  "Submit (sample_env ks_link) file_handler (upload_by ''bob'') ''ocr'' ''7'' 5 (sample_world no_keys)
     = (fst (Submit (sample_env ks_link) file_handler (upload_by ''bob'') ''ocr'' ''7'' 5 (sample_world no_keys)), after_submission)"
  by (simp add: after_submission_def)

lemma sample_idempotency: "second \<le> jh_idempotencyTTL file_handler" "hGet (rq_Header (upload_by ''bob'')) ''Idempotency-Key'' \<noteq> []"
proof -
  show "second \<le> jh_idempotencyTTL file_handler" by (simp add: file_handler_def NewJobHandler_def)
  show "hGet (rq_Header (upload_by ''bob'')) ''Idempotency-Key'' \<noteq> []" by code_simp
qed

lemma sample_server: "live_server (je_R (sample_env ks_link)) id" "codec_ok (je_cd (sample_env ks_link))"
  "ttls_ok (je_pd (sample_env ks_link)) (je_rc (sample_env ks_link))"
  using lks.live_server_axioms sample_codec_ok sample_no_durations by simp_all

theorem accepted_job_stored_and_gated_witness:
  "\<exists>job. holds sample_codec (w_r after_submission) ''7'' job"
  using accepted_job_stored_and_gated [OF sample_server sample_idempotency(1) sample_submits sample_submission] by auto

theorem resubmission_replays_witness:
  "(let rep2 = fst (Submit (sample_env ks_link) file_handler (upload_by ''bob'') ''ocr'' ''8'' 6 after_submission) in
     rep2 = \<lparr>Code = 200, Body = Body (fst (Submit (sample_env ks_link) file_handler (upload_by ''bob'') ''ocr'' ''7'' 5 (sample_world no_keys)))\<rparr> \<or> refusal rep2)"
  using resubmission_replays [OF sample_server sample_idempotency(1) _ sample_submits sample_submission refl sample_idempotency(2) refl _ refl refl
      prod.collapse [symmetric], of after_submission "''ocr''" "''8''" 6] by simp

definition losing_link :: "keyspace \<Rightarrow> link \<times> keyspace" where
  "losing_link ks = (if ks = no_keys then ReplyLost else Delivered, ks)"

theorem lost_save_reply_orphans_job_witness:
  "\<exists>rep w'. save_stage (sample_env losing_link) guarded_def ''k'' sample_job (sample_world no_keys) = (Inl rep, w') \<and> Code rep = 500
     \<and> holds sample_codec (w_r w') ''1'' sample_job"
proof -
  have marker: "second \<le> expiredMarkerTTL sample_client" by (simp add: sample_client_def NewRedis_def)
  have empty: "list_at no_keys k = Some ([], None)" "zset_at no_keys k = Some ([], None)" for k
    by (simp_all add: list_at_def zset_at_def)
  show ?thesis
    using lost_save_reply_orphans_job [of "sample_env losing_link" id sample_job _ "''k''" "sample_world no_keys" "[]" None "[]" None "[]" None guarded_def]
      kss.redis_server_axioms sample_codec_ok sample_no_durations sample_marshal marker empty
    by (fastforce simp: ks_server_simps losing_link_def sample_pending(2))
qed

end
