(* ===== verification/Provider.thy ===== *)
theory Provider
  imports Guardrails StreamGuard Http
begin

text \<open>
  The LLM providers (\<^verbatim>\<open>internal/llmproxy/provider\<close>): how a request in the format of OpenAI is put to a backend and how the
  backend's answer is turned back, with the tokens it reports. Three of the four pass bodies on as they are; the one
  for Anthropic translates both ways.

  \<open>valid_url\<close> says which URLs \<^verbatim>\<open>http.NewRequest\<close> accepts. Numbers are kept by value: Go refuses a whole number that is written
  with a fraction or an exponent for an integer field, here it is that number. Tracing headers are left out.
\<close>

section \<open>Decoding of numbers and flags\<close>

definition dec_int :: "json \<Rightarrow> int option" where
  "dec_int j = (case j of
      JNum r \<Rightarrow> if snd (quotient_of r) = 1 \<and> int64 (fst (quotient_of r)) then Some (fst (quotient_of r)) else None
    | JNull \<Rightarrow> Some 0 | _ \<Rightarrow> None)"

definition dec_bool :: "json \<Rightarrow> bool option" where
  "dec_bool j = (case j of JBool b \<Rightarrow> Some b | JNull \<Rightarrow> Some False | _ \<Rightarrow> None)"

text \<open>A pointer field: \<^verbatim>\<open>nil\<close> where the member is absent or null.\<close>

definition dec_ptr :: "(json \<Rightarrow> 'a option) \<Rightarrow> json \<Rightarrow> 'a option option" where
  "dec_ptr f j = (if j = JNull then Some None else map_option Some (f j))"

section \<open>Requests and answers\<close>

record HttpRequest =
  up_URL :: string
  up_Header :: header
  up_Body :: string

record Usage =
  u_PromptTokens :: int
  u_CompletionTokens :: int

datatype Provider = OpenAI | Anthropic | Ollama | Passthrough

definition Name :: "Provider \<Rightarrow> string" where
  "Name p = (case p of OpenAI \<Rightarrow> ''openai'' | Anthropic \<Rightarrow> ''anthropic'' | Ollama \<Rightarrow> ''ollama'' | Passthrough \<Rightarrow> ''passthrough'')"

definition byName :: "(string \<times> Provider) list" where
  "byName = map (\<lambda>p. (Name p, p)) [OpenAI, Anthropic, Ollama, Passthrough]"

definition Get :: "string \<Rightarrow> Provider option" where
  "Get name = map_of byName name"

definition parseOpenAIUsage :: "json_codec \<Rightarrow> string \<Rightarrow> Usage option" where
  "parseOpenAIUsage jc body =
     Option.bind (Option.bind (parse jc body) dec_struct) (\<lambda>resp.
     Option.bind (dec_struct (jfield resp ''usage'')) (\<lambda>u.
     Option.bind (dec_int (jfield u ''prompt_tokens'')) (\<lambda>p.
     Option.bind (dec_int (jfield u ''completion_tokens'')) (\<lambda>c.
       Some \<lparr>u_PromptTokens = p, u_CompletionTokens = c\<rparr>))))"

section \<open>Translation for Anthropic\<close>

record openAIRequest =
  or_Model :: string
  or_Messages :: "(string \<times> json) list"
  or_MaxTokens :: "int option"
  or_MaxCompTokens :: "int option"
  or_Temperature :: "rat option"
  or_TopP :: "rat option"
  or_Stop :: json
  or_Stream :: bool

definition openAIMessage :: "json \<Rightarrow> (string \<times> json) option" where
  "openAIMessage j =
     Option.bind (dec_struct j) (\<lambda>m. Option.bind (dec_string (jfield m ''role'')) (\<lambda>role. Some (role, jfield m ''content'')))"

definition decode_request :: "json_codec \<Rightarrow> string \<Rightarrow> openAIRequest option" where
  "decode_request jc body =
     Option.bind (Option.bind (parse jc body) dec_struct) (\<lambda>r.
     Option.bind (dec_string (jfield r ''model'')) (\<lambda>model.
     Option.bind (dec_list openAIMessage (jfield r ''messages'')) (\<lambda>messages.
     Option.bind (dec_ptr dec_int (jfield r ''max_tokens'')) (\<lambda>maxTok.
     Option.bind (dec_ptr dec_int (jfield r ''max_completion_tokens'')) (\<lambda>maxComp.
     Option.bind (dec_ptr dec_num (jfield r ''temperature'')) (\<lambda>temp.
     Option.bind (dec_ptr dec_num (jfield r ''top_p'')) (\<lambda>topP.
     Option.bind (dec_bool (jfield r ''stream'')) (\<lambda>stream.
     Option.bind (dec_list Some (jfield r ''tools'')) (\<lambda>_.
       Some \<lparr>or_Model = model, or_Messages = messages, or_MaxTokens = maxTok, or_MaxCompTokens = maxComp, or_Temperature = temp,
         or_TopP = topP, or_Stop = jfield r ''stop'', or_Stream = stream\<rparr>)))))))))"

definition contentToString :: "json \<Rightarrow> string" where
  "contentToString content = (case content of JStr s \<Rightarrow> s | JArr parts \<Rightarrow> concat (map part_text parts) | _ \<Rightarrow> [])"

text \<open>One round of the loop over the messages, on the system prompt and the messages so far.\<close>

definition add_message :: "string \<times> json \<Rightarrow> string \<times> (string \<times> string) list \<Rightarrow> string \<times> (string \<times> string) list" where
  "add_message m acc =
     (let (system, msgs) = acc; content = contentToString (snd m) in
      if fst m = ''system'' then ((if system \<noteq> [] then system @ [CHR 0x0A] else system) @ content, msgs)
      else (system, msgs @ [(if fst m \<noteq> ''user'' \<and> fst m \<noteq> ''assistant'' then ''user'' else fst m, content)]))"

definition stop_sequences :: "json \<Rightarrow> string list" where
  "stop_sequences stop =
     (case stop of
        JStr s \<Rightarrow> if s \<noteq> [] then [s] else []
      | JArr xs \<Rightarrow> concat (map (\<lambda>x. case x of JStr s \<Rightarrow> [s] | _ \<Rightarrow> []) xs)
      | _ \<Rightarrow> [])"

text \<open>The document sent; empty values of the fields marked \<^verbatim>\<open>omitempty\<close> are left out, no message at all is \<^verbatim>\<open>null\<close>.\<close>

definition anthropic_doc :: "openAIRequest \<Rightarrow> json" where
  "anthropic_doc req =
     (let (system, msgs) = fold add_message (or_Messages req) ([], []);
          maxTok = (case or_MaxTokens req of Some n \<Rightarrow> n | None \<Rightarrow> (case or_MaxCompTokens req of Some n \<Rightarrow> n | None \<Rightarrow> 4096));
          stops = stop_sequences (or_Stop req)
      in JObj ([(''model'', JStr (or_Model req)),
                (''messages'', if msgs = [] then JNull else JArr (map (\<lambda>(role, c). JObj [(''role'', JStr role), (''content'', JStr c)]) msgs))]
        @ (if system = [] then [] else [(''system'', JStr system)])
        @ [(''max_tokens'', JNum (of_int maxTok))]
        @ (case or_Temperature req of None \<Rightarrow> [] | Some t \<Rightarrow> [(''temperature'', JNum t)])
        @ (case or_TopP req of None \<Rightarrow> [] | Some t \<Rightarrow> [(''top_p'', JNum t)])
        @ (if stops = [] then [] else [(''stop_sequences'', JArr (map JStr stops))])
        @ (if or_Stream req then [(''stream'', JBool True)] else [])))"

definition openAIToAnthropic :: "json_codec \<Rightarrow> string \<Rightarrow> string option" where
  "openAIToAnthropic jc body = Option.bind (decode_request jc body) (\<lambda>req. render jc (anthropic_doc req))"

record anthropicResponse =
  ar_ID :: string
  ar_Model :: string
  ar_Content :: "(string \<times> string) list"
  ar_StopReason :: string
  ar_InputTokens :: int
  ar_OutputTokens :: int

definition content_block :: "json \<Rightarrow> (string \<times> string) option" where
  "content_block j =
     Option.bind (dec_struct j) (\<lambda>b. Option.bind (dec_string (jfield b ''type'')) (\<lambda>ty.
       Option.bind (dec_string (jfield b ''text'')) (\<lambda>tx. Some (ty, tx))))"

definition decode_response :: "json_codec \<Rightarrow> string \<Rightarrow> anthropicResponse option" where
  "decode_response jc body =
     Option.bind (Option.bind (parse jc body) dec_struct) (\<lambda>r.
     Option.bind (dec_string (jfield r ''id'')) (\<lambda>i.
     Option.bind (dec_string (jfield r ''model'')) (\<lambda>model.
     Option.bind (dec_string (jfield r ''type'')) (\<lambda>_.
     Option.bind (dec_list content_block (jfield r ''content'')) (\<lambda>content.
     Option.bind (dec_string (jfield r ''stop_reason'')) (\<lambda>stop.
     Option.bind (dec_struct (jfield r ''usage'')) (\<lambda>u.
     Option.bind (dec_int (jfield u ''input_tokens'')) (\<lambda>input.
     Option.bind (dec_int (jfield u ''output_tokens'')) (\<lambda>output.
       Some \<lparr>ar_ID = i, ar_Model = model, ar_Content = content, ar_StopReason = stop, ar_InputTokens = input, ar_OutputTokens = output\<rparr>)))))))))"

definition anthropicFinishReason :: "string \<Rightarrow> string" where
  "anthropicFinishReason stopReason =
     (if stopReason = ''end_turn'' then ''stop''
      else if stopReason = ''max_tokens'' then ''length''
      else if stopReason = ''stop_sequence'' then ''stop''
      else if stopReason = ''tool_use'' then ''tool_calls''
      else stopReason)"

definition openai_doc :: "anthropicResponse \<Rightarrow> json" where
  "openai_doc resp =
     (let tx = concat (map (\<lambda>(ty, tx). if ty = ''text'' then tx else []) (ar_Content resp))
      in JObj [(''id'', JStr (ar_ID resp)), (''object'', JStr ''chat.completion''), (''model'', JStr (ar_Model resp)),
           (''choices'', JArr [JObj [(''index'', JNum 0), (''message'', JObj [(''content'', JStr tx), (''role'', JStr ''assistant'')]),
              (''finish_reason'', JStr (anthropicFinishReason (ar_StopReason resp)))]]),
           (''usage'', JObj [(''prompt_tokens'', JNum (of_int (ar_InputTokens resp))),
              (''completion_tokens'', JNum (of_int (ar_OutputTokens resp))),
              (''total_tokens'', JNum (of_int (wrap64 (ar_InputTokens resp + ar_OutputTokens resp))))])])"

definition anthropicToOpenAI :: "json_codec \<Rightarrow> string \<Rightarrow> (string \<times> Usage) option" where
  "anthropicToOpenAI jc body =
     Option.bind (decode_response jc body) (\<lambda>resp.
     Option.bind (render jc (openai_doc resp)) (\<lambda>translated.
       Some (translated, \<lparr>u_PromptTokens = ar_InputTokens resp, u_CompletionTokens = ar_OutputTokens resp\<rparr>)))"

section \<open>The provider's two methods\<close>

definition set_headers :: "(string, string) gomap \<Rightarrow> header \<Rightarrow> header" where
  "set_headers kvs h = fold (\<lambda>(k, v). hSet k v) kvs h"

definition post_json :: "(string \<Rightarrow> bool) \<Rightarrow> string \<Rightarrow> (string, string) gomap \<Rightarrow> Def \<Rightarrow> string \<Rightarrow> HttpRequest option" where
  "post_json valid_url url extra def body =
     (if \<not> valid_url url then None
      else Some \<lparr>up_URL = url, up_Header = set_headers (InferenceHeaders def) (set_headers extra (hSet ''Content-Type'' ''application/json'' [])),
                 up_Body = body\<rparr>)"

definition openai_BuildRequest :: "(string \<Rightarrow> bool) \<Rightarrow> Def \<Rightarrow> string \<Rightarrow> string \<Rightarrow> string \<Rightarrow> HttpRequest option" where
  "openai_BuildRequest valid_url def body urlPath baseURL =
     post_json valid_url ((if baseURL = [] then ''https://api.openai.com'' else baseURL) @ urlPath) [] def body"

definition ollama_BuildRequest :: "(string \<Rightarrow> bool) \<Rightarrow> Def \<Rightarrow> string \<Rightarrow> string \<Rightarrow> string \<Rightarrow> HttpRequest option" where
  "ollama_BuildRequest valid_url def body urlPath baseURL =
     post_json valid_url ((if baseURL = [] then ''http://localhost:11434'' else baseURL) @ urlPath) [] def body"

definition passthrough_BuildRequest :: "(string \<Rightarrow> bool) \<Rightarrow> Def \<Rightarrow> string \<Rightarrow> string \<Rightarrow> string \<Rightarrow> HttpRequest option" where
  "passthrough_BuildRequest valid_url def body urlPath baseURL = post_json valid_url (baseURL @ urlPath) [] def body"

definition anthropic_BuildRequest :: "(string \<Rightarrow> bool) \<Rightarrow> json_codec \<Rightarrow> Def \<Rightarrow> string \<Rightarrow> string \<Rightarrow> HttpRequest option" where
  "anthropic_BuildRequest valid_url jc def body baseURL =
     Option.bind (openAIToAnthropic jc body) (\<lambda>translated.
       post_json valid_url ((if baseURL = [] then ''https://api.anthropic.com'' else baseURL) @ ''/v1/messages'')
         [(''anthropic-version'', ''2023-06-01'')] def translated)"

definition BuildRequest :: "(string \<Rightarrow> bool) \<Rightarrow> json_codec \<Rightarrow> Provider \<Rightarrow> Def \<Rightarrow> string \<Rightarrow> string \<Rightarrow> string \<Rightarrow> HttpRequest option" where
  "BuildRequest valid_url jc p def body urlPath baseURL =
     (case p of
        OpenAI \<Rightarrow> openai_BuildRequest valid_url def body urlPath baseURL
      | Ollama \<Rightarrow> ollama_BuildRequest valid_url def body urlPath baseURL
      | Passthrough \<Rightarrow> passthrough_BuildRequest valid_url def body urlPath baseURL
      | Anthropic \<Rightarrow> anthropic_BuildRequest valid_url jc def body baseURL)"

definition TranslateResponse :: "json_codec \<Rightarrow> Provider \<Rightarrow> int \<Rightarrow> string \<Rightarrow> (int \<times> string \<times> Usage option) option" where
  "TranslateResponse jc p status body =
     (case p of
        Anthropic \<Rightarrow>
          if status \<noteq> 200 then Some (status, body, None)
          else map_option (\<lambda>(translated, usage). (status, translated, Some usage)) (anthropicToOpenAI jc body)
      | _ \<Rightarrow> Some (status, body, parseOpenAIUsage jc body))"

end
