(* ===== verification/LlmCache.thy ===== *)
theory LlmCache
  imports Guardrails JobStore
begin

text \<open>
  The response cache of the LLM proxy (\<^verbatim>\<open>internal/cache\<close>): the key of a request and the two operations, on Redis or on
  nothing. The digest and the encoding of an entry are parameters.
\<close>

section \<open>The key\<close>

definition cacheableFields :: "string list" where
  "cacheableFields = [''model'', ''messages'', ''temperature'', ''top_p'', ''top_k'', ''max_tokens'', ''max_completion_tokens'',
     ''response_format'', ''tools'', ''tool_choice'', ''seed'', ''stop'', ''presence_penalty'', ''frequency_penalty'', ''n'', ''logit_bias'', ''system'']"

fun sortedValue :: "json \<Rightarrow> json" where
  "sortedValue (JObj kvs) = JObj (sort_key fst (map (\<lambda>kv. (fst kv, sortedValue (snd kv))) kvs))"
| "sortedValue (JArr xs) = JArr (map sortedValue xs)"
| "sortedValue j = j"

definition canonicalize :: "json_codec \<Rightarrow> json \<Rightarrow> string option" where
  "canonicalize jc v = render jc (sortedValue v)"

text \<open>A body that is \<^verbatim>\<open>null\<close> decodes into a nil map, and the assignment of the model to it panics.\<close>

datatype cache_key = NotCacheable | KeyError | KeyPanic | CacheKey string

definition cacheable_doc :: "string \<Rightarrow> (string \<times> json) list \<Rightarrow> (string \<times> json) list" where
  "cacheable_doc model raw = filter (\<lambda>kv. fst kv \<in> set cacheableFields) (jput ''model'' (JStr model) raw)"

definition Key :: "json_codec \<Rightarrow> (string \<Rightarrow> string) \<Rightarrow> string \<Rightarrow> string \<Rightarrow> string \<Rightarrow> cache_key" where
  "Key jc sha provider model body =
     (if body = [] then NotCacheable
      else case parse_any jc body of
        Some (JObj raw) \<Rightarrow>
          if jget raw ''stream'' = Some (JBool True) then NotCacheable
          else (case canonicalize jc (JObj (cacheable_doc model raw)) of
                  None \<Rightarrow> KeyError
                | Some canonical \<Rightarrow> CacheKey (''llm:cache:'' @ sha (provider @ '':'' @ canonical)))
      | Some JNull \<Rightarrow> KeyPanic
      | _ \<Rightarrow> KeyError)"

section \<open>Entries\<close>

record Entry =
  ce_Body :: string
  ce_ContentType :: string
  ce_StatusCode :: int

record entry_codec =
  enc_entry :: "Entry \<Rightarrow> string option"
  dec_entry :: "string \<Rightarrow> Entry option"

datatype Cache = RedisCache | NoopCache

text \<open>\<open>None\<close> is an error, \<open>Some None\<close> a miss.\<close>

definition cache_Get :: "'r redis \<Rightarrow> entry_codec \<Rightarrow> Cache \<Rightarrow> string \<Rightarrow> ('r, Entry option) rop" where
  "cache_Get R ec c key =
     (case c of
        NoopCache \<Rightarrow> rret None
      | RedisCache \<Rightarrow>
          rbind (rcall R (GET R key)) (\<lambda>v. case v of
              None \<Rightarrow> rret None
            | Some data \<Rightarrow> (case dec_entry ec data of None \<Rightarrow> rfail | Some e \<Rightarrow> rret (Some e))))"

definition cache_Set :: "'r redis \<Rightarrow> entry_codec \<Rightarrow> Cache \<Rightarrow> string \<Rightarrow> Entry \<Rightarrow> int \<Rightarrow> ('r, unit) rop" where
  "cache_Set R ec c key entry ttl =
     (case c of
        NoopCache \<Rightarrow> rret ()
      | RedisCache \<Rightarrow> (case enc_entry ec entry of None \<Rightarrow> rfail | Some data \<Rightarrow> rcall R (SET R key data (set_ttl ttl))))"

end
