(* ===== verification/LlmProxy.thy ===== *)
theory LlmProxy
  imports JobsApi Semaphore Provider LlmCache
begin

text \<open>
  The LLM proxy (\<^verbatim>\<open>internal/llmproxy/handler.go\<close>): token budgets, the response cache, the slots of a backend pool, failover
  across backends with the circuit breaker, translation, output guardrails and accounting; whole answers and streams.

  Parameters, besides those of the components: the call of a backend, the client's connection for a stream, the clock and
  the random draws (all three read from the state \<open>'o\<close> of the world outside), and the trackers of consumption. The
  background write of the cache is the last step of a request. Metrics, audit log and spans are left out. Other
  requests may change the breaker only between requests.
\<close>

section \<open>The handler and its world\<close>

text \<open>The bytes of an answer, and whether they were read to their end.\<close>

record HttpResponse =
  rs_Status :: int
  rs_Header :: header
  rs_Body :: string
  rs_Complete :: bool

record ('r, 'o, 'g, 'u) sync_env =
  sy_R :: "'r redis"
  sy_pd :: parse_duration
  sy_show_dur :: "int \<Rightarrow> string"
  sy_jc :: json_codec
  sy_ec :: entry_codec
  sy_sha :: "string \<Rightarrow> string"
  sy_G :: "'g model_env"
  sy_U :: "usage_call \<Rightarrow> 'u \<Rightarrow> 'u"
  sy_track :: "string \<Rightarrow> string \<Rightarrow> string \<Rightarrow> int \<Rightarrow> 'u \<Rightarrow> 'u"
  sy_do :: "HttpRequest \<Rightarrow> 'o \<Rightarrow> (string + HttpResponse) \<times> 'o"
  sy_write :: "'o writer"
  sy_now :: "'o \<Rightarrow> int"
  sy_draw :: "'o \<Rightarrow> int \<Rightarrow> int"
  sy_valid_url :: "string \<Rightarrow> bool"

record Handler =
  lh_cache :: Cache
  lh_userTypeHeader :: string
  lh_tokenLimiter :: "Limiter option"
  lh_usageTracker :: bool
  lh_breaker :: bool
  lh_poolLimiter :: "Limiter option"
  lh_poolSemaphore :: "ModelSemaphore option"
  lh_priorityHeader :: string

definition llm_New :: "Cache \<Rightarrow> string \<Rightarrow> Limiter option \<Rightarrow> Handler" where
  "llm_New c userTypeH limiter =
     \<lparr>lh_cache = c, lh_userTypeHeader = userTypeH, lh_tokenLimiter = limiter, lh_usageTracker = False, lh_breaker = False,
      lh_poolLimiter = None, lh_poolSemaphore = None, lh_priorityHeader = []\<rparr>"

definition WithPoolLimiter :: "Handler \<Rightarrow> Limiter option \<Rightarrow> Handler" where
  "WithPoolLimiter h pl = h\<lparr>lh_poolLimiter := pl\<rparr>"

definition WithPoolSemaphore :: "Handler \<Rightarrow> ModelSemaphore option \<Rightarrow> Handler" where
  "WithPoolSemaphore h s = h\<lparr>lh_poolSemaphore := s\<rparr>"

definition WithPriorityHeader :: "Handler \<Rightarrow> string \<Rightarrow> Handler" where
  "WithPriorityHeader h hdr = h\<lparr>lh_priorityHeader := hdr\<rparr>"

definition WithCircuitBreaker :: "Handler \<Rightarrow> bool \<Rightarrow> Handler" where
  "WithCircuitBreaker h cb = h\<lparr>lh_breaker := cb\<rparr>"

definition llm_WithUsageTracker :: "Handler \<Rightarrow> bool \<Rightarrow> Handler" where
  "llm_WithUsageTracker h t = h\<lparr>lh_usageTracker := t\<rparr>"

definition llm_writeError :: "int \<Rightarrow> message \<Rightarrow> (('r, 'o, 'g, 'u) world, 'a) hop" where
  "llm_writeError c m = stop_with c (LlmErr m)"

text \<open>An answer that is not JSON of the gateway's own.\<close>

definition reply_raw :: "int \<Rightarrow> string \<Rightarrow> (('r, 'o, 'g, 'u) world, 'a) hop" where
  "reply_raw c data w = (Inl \<lparr>Code = c, Body = Raw data\<rparr>, w)"

definition panic :: "(('r, 'o, 'g, 'u) world, 'a) hop" where
  "panic w = (Inl \<lparr>Code = 500, Body = Panicked\<rparr>, w)"

section \<open>Token budgets\<close>

definition writeTokenLimitHeaders :: "(int \<Rightarrow> string) \<Rightarrow> CheckResult \<Rightarrow> header \<Rightarrow> header" where
  "writeTokenLimitHeaders show_dur res h =
     (if Limit res > 0 then
        (let h1 = WriteOpenAIHeaders show_dur ''tokens'' res
               (hSet ''X-TokenRateLimit-Remaining'' ''0'' (hSet ''X-TokenRateLimit-Limit'' (itoa (Limit res)) h));
             secs = itoa (trunc_secs (ResetAfter res))
         in if ResetAfter res > 0 then hSet ''Retry-After'' secs (hSet ''X-TokenRateLimit-Reset'' secs h1) else h1)
      else h)"

definition token_refusal :: "('r, 'o, 'g, 'u) sync_env \<Rightarrow> CheckResult \<Rightarrow> (('r, 'o, 'g, 'u) world, 'a) hop" where
  "token_refusal E res w =
     llm_writeError 429 (Text ''token rate limit exceeded'') (w\<lparr>w_hdr := writeTokenLimitHeaders (sy_show_dur E) res (w_hdr w)\<rparr>)"

definition checkAndWriteTokenLimit ::
  "('r, 'o, 'g, 'u) sync_env \<Rightarrow> Handler \<Rightarrow> JobRequest \<Rightarrow> Def \<Rightarrow> (('r, 'o, 'g, 'u) world, unit) hop" where
  "checkAndWriteTokenLimit E h rq def w =
     (case lh_tokenLimiter h of
        None \<Rightarrow> hret () w
      | Some l \<Rightarrow>
          (let ((res, _), w1) = on_redis (CheckTokens (sy_R E) (sy_pd E) l (rq_policy rq) (rq_Header rq) (Type def)) w in
           if \<not> CheckResult.Allowed res then token_refusal E res w1
           else
             (let ((mres, _), w2) =
                    (if Def.Model def \<noteq> [] then
                       on_redis (CheckModelTokens (sy_R E) (sy_pd E) l (rq_Header rq) (Def.Model def) (BudgetKey def)) w1
                     else ((res, None), w1))
              in if \<not> CheckResult.Allowed mres then token_refusal E mres w2
                 else
                   (let tighter = (if Limit mres > 0 \<and> (Limit res = 0 \<or> Remaining mres < Remaining res) then mres else res)
                    in hret () (w2\<lparr>w_hdr := WriteOpenAIHeaders (sy_show_dur E) ''tokens'' tighter (w_hdr w2)\<rparr>)))))"

text \<open>Accounting: the trackers, and the budgets the tokens count against.\<close>

definition track_tokens ::
  "('r, 'o, 'g, 'u) sync_env \<Rightarrow> Handler \<Rightarrow> Def \<Rightarrow> string \<Rightarrow> string \<Rightarrow> Usage option \<Rightarrow> ('r, 'o, 'g, 'u) world \<Rightarrow> ('r, 'o, 'g, 'u) world" where
  "track_tokens E h def consumer userType usage w =
     (case usage of
        None \<Rightarrow> w
      | Some u \<Rightarrow>
          if consumer = [] then w
          else
            (let u1 = sy_track E consumer userType ''completion'' (u_CompletionTokens u)
                        (sy_track E consumer userType ''prompt'' (u_PromptTokens u) (w_u w))
             in w\<lparr>w_u := (if lh_usageTracker h then sy_U E (TrackTokens consumer (Type def) (u_PromptTokens u) (u_CompletionTokens u)) u1 else u1)\<rparr>))"

definition add_tokens ::
  "('r, 'o, 'g, 'u) sync_env \<Rightarrow> Handler \<Rightarrow> JobRequest \<Rightarrow> Def \<Rightarrow> Usage option \<Rightarrow> ('r, 'o, 'g, 'u) world \<Rightarrow> ('r, 'o, 'g, 'u) world" where
  "add_tokens E h rq def usage w =
     (case (lh_tokenLimiter h, usage) of
        (Some l, Some u) \<Rightarrow>
          (let total = wrap64 (u_PromptTokens u + u_CompletionTokens u) in
           if total > 0 then
             (let w1 = snd (on_redis (AddTokens (sy_R E) (sy_pd E) l (rq_policy rq) (rq_Header rq) (Type def) total) w)
              in if Def.Model def \<noteq> [] then
                   snd (on_redis (AddModelTokens (sy_R E) (sy_pd E) l (rq_Header rq) (Def.Model def) (BudgetKey def) total) w1)
                 else w1)
           else w)
      | _ \<Rightarrow> w)"

text \<open>\<^verbatim>\<open>emitTokenMetrics\<close> decodes the counts as the providers do.\<close>

definition emitTokenMetrics :: "json_codec \<Rightarrow> string \<Rightarrow> Usage option" where
  "emitTokenMetrics jc body = parseOpenAIUsage jc body"

section \<open>Bodies\<close>

datatype rewrite = Rewritten string | RewriteError | RewritePanic

text \<open>A body that is \<^verbatim>\<open>null\<close> decodes into a nil map, and the assignment to it panics.\<close>

definition rewriteBodyModel :: "json_codec \<Rightarrow> string \<Rightarrow> string \<Rightarrow> rewrite" where
  "rewriteBodyModel jc body newModel =
     (case parse_any jc body of
        Some (JObj raw) \<Rightarrow>
          (case render jc (JObj (jput ''model'' (JStr newModel) raw)) of None \<Rightarrow> RewriteError | Some out \<Rightarrow> Rewritten out)
      | Some JNull \<Rightarrow> RewritePanic
      | _ \<Rightarrow> RewriteError)"

text \<open>A member of another kind leaves the field at its zero value; the error is ignored.\<close>

definition isStreamingRequest :: "json_codec \<Rightarrow> string \<Rightarrow> bool" where
  "isStreamingRequest jc body =
     (case parse jc body of
        Some (JObj kvs) \<Rightarrow> (case dec_bool (jfield kvs ''stream'') of Some b \<Rightarrow> b | None \<Rightarrow> False)
      | _ \<Rightarrow> False)"

definition injectStreamUsage :: "json_codec \<Rightarrow> string \<Rightarrow> string" where
  "injectStreamUsage jc body =
     (case parse_any jc body of
        Some (JObj raw) \<Rightarrow>
          (let opts = (case jget raw ''stream_options'' of Some (JObj o1) \<Rightarrow> o1 | _ \<Rightarrow> [])
           in case render jc (JObj (jput ''stream_options'' (JObj (jput ''include_usage'' (JBool True) opts)) raw)) of
                None \<Rightarrow> body | Some out \<Rightarrow> out)
      | _ \<Rightarrow> body)"

section \<open>Failover\<close>

definition record_failure :: "('r, 'o, 'g, 'u) sync_env \<Rightarrow> Handler \<Rightarrow> string \<Rightarrow> ('r, 'o, 'g, 'u) world \<Rightarrow> ('r, 'o, 'g, 'u) world" where
  "record_failure E h url w = (if lh_breaker h then w\<lparr>w_cb := RecordFailure (sy_now E (w_o w)) url (w_cb w)\<rparr> else w)"

definition record_success :: "Handler \<Rightarrow> string \<Rightarrow> ('r, 'o, 'g, 'u) world \<Rightarrow> ('r, 'o, 'g, 'u) world" where
  "record_success h url w = (if lh_breaker h then w\<lparr>w_cb := RecordSuccess url (w_cb w)\<rparr> else w)"

definition pool_admits ::
  "('r, 'o, 'g, 'u) sync_env \<Rightarrow> Limiter option \<Rightarrow> Def \<Rightarrow> string \<Rightarrow> ('r, 'o, 'g, 'u) world \<Rightarrow> bool \<times> ('r, 'o, 'g, 'u) world" where
  "pool_admits E limiter def url w =
     (case limiter of
        Some l \<Rightarrow>
          if PoolName def \<noteq> [] then
            (let ((res, _), w1) = on_redis (CheckBackendPool (sy_R E) (sy_pd E) l (PoolName def) url) w in (CheckResult.Allowed res, w1))
          else (True, w)
      | None \<Rightarrow> (True, w))"

definition effective_model :: "Def \<Rightarrow> Backend \<Rightarrow> string" where
  "effective_model def b = (if be_Model b = [] then BackendModel def else be_Model b)"

text \<open>The body for a backend: \<open>Inl\<close> ends the request.\<close>

definition upstream_request ::
  "('r, 'o, 'g, 'u) sync_env \<Rightarrow> Provider \<Rightarrow> Def \<Rightarrow> string \<Rightarrow> string \<Rightarrow> Backend \<Rightarrow> (('r, 'o, 'g, 'u) world, HttpRequest) hop" where
  "upstream_request E prov def body path b =
     (let send = (\<lambda>upstreamBody.
            case BuildRequest (sy_valid_url E) (sy_jc E) prov def upstreamBody path (URL b) of
              None \<Rightarrow> llm_writeError 500 (Text ''failed to build upstream request'')
            | Some req \<Rightarrow> hret (req\<lparr>up_Header := set_headers (Headers b) (up_Header req)\<rparr>))
      in if effective_model def b = [] then send body
         else case rewriteBodyModel (sy_jc E) body (effective_model def b) of
           Rewritten out \<Rightarrow> send out
         | RewriteError \<Rightarrow> llm_writeError 500 (Text ''failed to rewrite model field'')
         | RewritePanic \<Rightarrow> panic)"

datatype attempt = Won HttpResponse | Lost int string

fun try_backends ::
  "('r, 'o, 'g, 'u) sync_env \<Rightarrow> Handler \<Rightarrow> Provider \<Rightarrow> Def \<Rightarrow> string \<Rightarrow> string \<Rightarrow> int \<Rightarrow> string \<Rightarrow> Backend list \<Rightarrow> (('r, 'o, 'g, 'u) world, attempt) hop" where
  "try_backends E h prov def body path tried lastErr [] w = hret (Lost tried lastErr) w"
| "try_backends E h prov def body path tried lastErr (b # bs) w =
     (if lh_breaker h \<and> \<not> Allow (sy_now E (w_o w)) (w_cb w) (URL b) then try_backends E h prov def body path tried lastErr bs w
      else
        (let (ok, w1) = pool_admits E (lh_poolLimiter h) def (URL b) w in
         if \<not> ok then try_backends E h prov def body path tried lastErr bs w1
         else case upstream_request E prov def body path b w1 of
           (Inl rep, w2) \<Rightarrow> (Inl rep, w2)
         | (Inr req, w2) \<Rightarrow>
             (case on_objects (sy_do E req) w2 of
                (Inl err, w3) \<Rightarrow> try_backends E h prov def body path (tried + 1) err bs (record_failure E h (URL b) w3)
              | (Inr resp, w3) \<Rightarrow>
                  if rs_Status resp \<ge> 500 then
                    try_backends E h prov def body path (tried + 1) (''backend returned '' @ itoa (rs_Status resp)) bs (record_failure E h (URL b) w3)
                  else hret (Won resp) (record_success h (URL b) w3))))"

definition forward ::
  "('r, 'o, 'g, 'u) sync_env \<Rightarrow> Handler \<Rightarrow> Provider \<Rightarrow> Def \<Rightarrow> string \<Rightarrow> string \<Rightarrow> (('r, 'o, 'g, 'u) world, HttpResponse) hop" where
  "forward E h prov def body path w =
     (case OrderedBackends (sy_draw E (w_o w)) (Backends def) of
        None \<Rightarrow> panic w
      | Some bs \<Rightarrow>
          hbind (try_backends E h prov def body path 0 [] bs) (\<lambda>a. case a of
              Won resp \<Rightarrow> hret resp
            | Lost tried lastErr \<Rightarrow>
                if tried = 0 then llm_writeError 503 (Text ''all backends for model are unavailable (circuit open or rate limited)'')
                else llm_writeError 502 (Text (''all backends failed: '' @ lastErr))) w)"

text \<open>The slot of a pool, or of a model: taken before \<open>m\<close> runs and given back when it ends, however it ends.\<close>

definition with_slot ::
  "'r redis \<Rightarrow> ModelSemaphore option \<Rightarrow> string \<Rightarrow> bool \<Rightarrow> (('r, 'o, 'g, 'u) world, 'a) hop \<Rightarrow> (('r, 'o, 'g, 'u) world, 'a) hop \<Rightarrow> (('r, 'o, 'g, 'u) world, 'a) hop" where
  "with_slot R sem name prio busy m w =
     (case sem of
        None \<Rightarrow> m w
      | Some s \<Rightarrow>
          (case on_redis (TryAcquire R s name prio) w of
             ((False, _), w1) \<Rightarrow> busy w1
           | ((True, used), w1) \<Rightarrow> (let (res, w2) = m w1 in (res, w2\<lparr>w_r := Release R s name used (w_r w2)\<rparr>))))"

definition with_pool ::
  "('r, 'o, 'g, 'u) sync_env \<Rightarrow> Handler \<Rightarrow> JobRequest \<Rightarrow> Def \<Rightarrow> (('r, 'o, 'g, 'u) world, 'a) hop \<Rightarrow> (('r, 'o, 'g, 'u) world, 'a) hop" where
  "with_pool E h rq def =
     with_slot (sy_R E) (if PoolName def \<noteq> [] then lh_poolSemaphore h else None) (PoolName def)
       (header_of rq (lh_priorityHeader h) \<noteq> []) (llm_writeError 503 (Text ''backend pool too busy, retry later''))"

section \<open>Whole answers\<close>

text \<open>Output guardrails: the status and the body that go out, and whether the answer was blocked.\<close>

definition blocked_body :: string where
  "blocked_body = ''{'' @ [CHR 0x22] @ ''error'' @ [CHR 0x22] @ '':'' @ [CHR 0x22] @ ''response blocked by guardrails'' @ [CHR 0x22] @ ''}''"

definition output_guard :: "json_codec \<Rightarrow> GuardrailsStage \<Rightarrow> int \<Rightarrow> string \<Rightarrow> int \<times> string \<times> bool" where
  "output_guard jc stage status body =
     (if Enabled stage \<and> status < 300 then
        (if Action stage = ''redact'' then
           (let (redacted, found) = RedactResponse jc body (Checks stage) in (status, if found \<noteq> [] then redacted else body, False))
         else if Action stage = ''flag'' then (status, body, False)
         else if ScanResponse jc body (Checks stage) \<noteq> [] then (422, blocked_body, True)
         else (status, body, False))
      else (status, body, False))"

text \<open>The key under which an answer may be cached: \<open>None\<close> where it may not.\<close>

definition cache_key_for ::
  "('r, 'o, 'g, 'u) sync_env \<Rightarrow> JobRequest \<Rightarrow> Def \<Rightarrow> string \<Rightarrow> (('r, 'o, 'g, 'u) world, string option) hop" where
  "cache_key_for E rq def body =
     (if Contains (hGet (rq_Header rq) ''Cache-Control'') ''no-cache'' \<or> ResponseCacheTTL def \<le> 0 then hret None
      else case Key (sy_jc E) (sy_sha E) (Provider def) (Def.Model def) body of
        CacheKey k \<Rightarrow> hret (Some k)
      | KeyPanic \<Rightarrow> panic
      | _ \<Rightarrow> hret None)"

definition serve_hit ::
  "('r, 'o, 'g, 'u) sync_env \<Rightarrow> Handler \<Rightarrow> JobRequest \<Rightarrow> Def \<Rightarrow> string \<Rightarrow> string \<Rightarrow> Entry \<Rightarrow> (('r, 'o, 'g, 'u) world, unit) hop" where
  "serve_hit E h rq def consumer userType entry w =
     (let usage = emitTokenMetrics (sy_jc E) (ce_Body entry);
          w1 = set_hdr ''X-Cache'' ''HIT'' (set_hdr ''Content-Type'' (ce_ContentType entry) (track_tokens E h def consumer userType usage w))
      in reply_raw (ce_StatusCode entry) (ce_Body entry) (add_tokens E h rq def usage w1))"

definition answer ::
  "('r, 'o, 'g, 'u) sync_env \<Rightarrow> Handler \<Rightarrow> JobRequest \<Rightarrow> Provider \<Rightarrow> Def \<Rightarrow> string \<Rightarrow> string \<Rightarrow> string option \<Rightarrow> HttpResponse \<Rightarrow> (('r, 'o, 'g, 'u) world, unit) hop" where
  "answer E h rq prov def consumer userType key resp w =
     (if \<not> rs_Complete resp then llm_writeError 502 (Text ''failed to read upstream response'') w
      else case TranslateResponse (sy_jc E) prov (rs_Status resp) (rs_Body resp) of
        None \<Rightarrow> llm_writeError 500 (Text ''failed to translate provider response'') w
      | Some (status0, body0, usage) \<Rightarrow>
          (let w1 = track_tokens E h def consumer userType usage w;
               (status, data, outputBlocked) = output_guard (sy_jc E) (Output (Guardrails def)) status0 body0;
               ct = hGet (rs_Header resp) ''Content-Type'';
               w2 = set_hdr ''X-Cache'' ''MISS'' (set_hdr ''Content-Type'' (if ct = [] then ''application/json'' else ct) w1);
               w3 = add_tokens E h rq def usage w2;
               w4 = (case key of
                       Some k \<Rightarrow>
                         if \<not> outputBlocked \<and> status = 200 then
                           snd (on_redis (cache_Set (sy_R E) (sy_ec E) (lh_cache h) k
                             \<lparr>ce_Body = data, ce_ContentType = ''application/json'', ce_StatusCode = status\<rparr> (ResponseCacheTTL def)) w3)
                         else w3
                     | None \<Rightarrow> w3)
           in reply_raw status data w4))"

definition cache_lookup ::
  "('r, 'o, 'g, 'u) sync_env \<Rightarrow> Handler \<Rightarrow> string option \<Rightarrow> ('r, 'o, 'g, 'u) world \<Rightarrow> Entry option \<times> ('r, 'o, 'g, 'u) world" where
  "cache_lookup E h key w =
     (case key of
        None \<Rightarrow> (None, w)
      | Some k \<Rightarrow> (case on_redis (cache_Get (sy_R E) (sy_ec E) (lh_cache h) k) w of (Some (Some entry), w1) \<Rightarrow> (Some entry, w1) | (_, w1) \<Rightarrow> (None, w1)))"

section \<open>Streams\<close>

text \<open>The lines a \<^verbatim>\<open>bufio.Scanner\<close> with a buffer of one MiB yields: it stops at a line that does not fit.\<close>

definition scan_limit :: nat where
  "scan_limit = 2 ^ 20"

definition drop_cr :: "string \<Rightarrow> string" where
  "drop_cr l = (if l \<noteq> [] \<and> last l = CHR 0x0D then butlast l else l)"

function scan_lines :: "string \<Rightarrow> string list" where
  "scan_lines s =
     (let line = takeWhile (\<lambda>c. c \<noteq> CHR 0x0A) s; rest = dropWhile (\<lambda>c. c \<noteq> CHR 0x0A) s in
      if s = [] \<or> length line \<ge> scan_limit then []
      else drop_cr line # (case rest of [] \<Rightarrow> [] | _ # others \<Rightarrow> scan_lines others))"
  by pat_completeness auto
termination
proof (relation "measure length")
  fix s :: string and line rest c others
  assume *: "rest = dropWhile (\<lambda>c. c \<noteq> CHR 0x0A) s" "rest = c # others"
  have "length rest \<le> length s" unfolding *(1) by (rule length_dropWhile_le)
  then show "(others, s) \<in> measure length" by (simp add: *(2))
qed simp

declare scan_lines.simps [simp del]

definition payload :: "string \<Rightarrow> string \<Rightarrow> string" where
  "payload line lst =
     (if HasPrefix line ''data: '' \<and> TrimPrefix line ''data: '' \<noteq> ''[DONE]'' then TrimPrefix line ''data: '' else lst)"

text \<open>The two loops over the lines, with the last payload: guarded, and unguarded, which ends the request when the client is
  gone (\<open>None\<close>).\<close>

fun guarded_lines :: "'o writer \<Rightarrow> json_codec \<Rightarrow> string list \<Rightarrow> string \<Rightarrow> 'o streamGuard \<Rightarrow> string \<times> 'o streamGuard" where
  "guarded_lines wr jc [] lst g = (lst, g)"
| "guarded_lines wr jc (l # ls) lst g =
     (let (ok, g1) = guard_line wr jc l g in if ok then guarded_lines wr jc ls (payload l lst) g1 else (payload l lst, g1))"

fun plain_lines :: "'o writer \<Rightarrow> string list \<Rightarrow> string \<Rightarrow> 'o \<Rightarrow> string option \<times> 'o" where
  "plain_lines wr [] lst out = (Some lst, out)"
| "plain_lines wr (l # ls) lst out =
     (let (ok, out1) = wr (l @ [CHR 0x0A]) out in if ok then plain_lines wr ls (payload l lst) out1 else (None, out1))"

definition enforceStream :: "GuardrailsStage \<Rightarrow> bool" where
  "enforceStream out \<longleftrightarrow> Enabled out \<and> Checks out \<noteq> [] \<and> (Streaming out = ''block'' \<or> Streaming out = ''buffer'')"

definition pipe_stream :: "('r, 'o, 'g, 'u) sync_env \<Rightarrow> Def \<Rightarrow> HttpResponse \<Rightarrow> ('r, 'o, 'g, 'u) world \<Rightarrow> string option \<times> ('r, 'o, 'g, 'u) world" where
  "pipe_stream E def resp w =
     (let out = Output (Guardrails def); ls = scan_lines (rs_Body resp) in
      if enforceStream out then
        (let (lst, g) = guarded_lines (sy_write E) (sy_jc E) ls []
               (newStreamGuard (w_o w) (Checks out) (Streaming out = ''buffer'') (StreamWindowTokens out))
         in (Some lst, w\<lparr>w_o := g_w (finish (sy_write E) (sy_jc E) g)\<rparr>))
      else on_objects (plain_lines (sy_write E) ls []) w)"

definition stream_answer ::
  "('r, 'o, 'g, 'u) sync_env \<Rightarrow> Handler \<Rightarrow> JobRequest \<Rightarrow> Def \<Rightarrow> string \<Rightarrow> string \<Rightarrow> HttpResponse \<Rightarrow> (('r, 'o, 'g, 'u) world, unit) hop" where
  "stream_answer E h rq def consumer userType resp w =
     (let ct = hGet (rs_Header resp) ''Content-Type'';
          w1 = set_hdr ''X-Cache'' ''MISS'' (set_hdr ''X-Accel-Buffering'' ''no'' (set_hdr ''Cache-Control'' ''no-cache''
                 (set_hdr ''Content-Type'' (if ct = [] then ''text/event-stream'' else ct) w)));
          reply = Inl \<lparr>Code = rs_Status resp, Body = NoBody\<rparr>
      in case pipe_stream E def resp w1 of
           (None, w2) \<Rightarrow> (reply, w2)
         | (Some lst, w2) \<Rightarrow>
             (let usage = (if lst \<noteq> [] then emitTokenMetrics (sy_jc E) lst else None)
              in (reply, add_tokens E h rq def usage (track_tokens E h def consumer userType usage w2))))"

definition serveStream ::
  "('r, 'o, 'g, 'u) sync_env \<Rightarrow> Handler \<Rightarrow> JobRequest \<Rightarrow> string \<Rightarrow> Def \<Rightarrow> string \<Rightarrow> Provider \<Rightarrow> string \<Rightarrow> string \<Rightarrow> (('r, 'o, 'g, 'u) world, unit) hop" where
  "serveStream E h rq path def body prov consumer userType =
     hbind (checkAndWriteTokenLimit E h rq def) (\<lambda>_.
       let forwardBody = (if lh_tokenLimiter h \<noteq> None \<or> lh_usageTracker h then injectStreamUsage (sy_jc E) body else body)
       in with_pool E h rq def
            (hbind (forward E h prov def forwardBody path) (stream_answer E h rq def consumer userType)))"

section \<open>A request\<close>

definition ServeJSON ::
  "('r, 'o, 'g, 'u) sync_env \<Rightarrow> Handler \<Rightarrow> JobRequest \<Rightarrow> string \<Rightarrow> Def \<Rightarrow> string \<Rightarrow> string \<Rightarrow> (('r, 'o, 'g, 'u) world, unit) hop" where
  "ServeJSON E h rq path def body consumer =
     (let userType = header_of rq (lh_userTypeHeader h) in
      case Get (Provider def) of
        None \<Rightarrow> llm_writeError 500 (Text (''unknown provider: '' @ Provider def))
      | Some prov \<Rightarrow>
          if isStreamingRequest (sy_jc E) body then serveStream E h rq path def body prov consumer userType
          else
            hbind (checkAndWriteTokenLimit E h rq def) (\<lambda>_.
            hbind (cache_key_for E rq def body) (\<lambda>key w.
              case cache_lookup E h key w of
                (Some entry, w1) \<Rightarrow> serve_hit E h rq def consumer userType entry w1
              | (None, w1) \<Rightarrow>
                  with_pool E h rq def
                    (hbind (forward E h prov def body path) (answer E h rq prov def consumer userType key)) w1)))"

end
