(* ===== verification/Sync.thy ===== *)
theory Sync
  imports LlmProxy
begin

text \<open>
  The synchronous handler (\<^verbatim>\<open>internal/handler/sync.go\<close>): routing, fallback to another model, visibility, access policy, limits, the
  slot of the model, input guardrails, and then either the LLM proxy or the direct proxy to an inference backend
  with its retries. Uploads are buffered or streamed.

  Parameters, besides those of the LLM proxy: the media type of a request (\<^verbatim>\<open>mime.ParseMediaType\<close>), its parsed multipart form
  and the body rebuilt from it, the URL of a backend with path and query of the request (\<open>None\<close> where \<^verbatim>\<open>url.Parse\<close> fails), and the
  wait between two rounds (\<open>False\<close> when the client is gone meanwhile). Metrics, logs, spans and the trace header are left
  out. A reply is sent when it is complete; bytes read from a backend before an error are its body.
\<close>

section \<open>Requests and the handler\<close>

record MultipartForm =
  mf_model :: string
  mf_rebuilt :: "string option"
  mf_ContentType :: string

record SyncRequest =
  sq_rq :: JobRequest
  sq_Method :: string
  sq_Path :: string
  sq_RawQuery :: string
  sq_media :: string
  sq_ContentLength :: int
  sq_Body :: string
  sq_Complete :: bool
  sq_Form :: "MultipartForm option"

record ('r, 'o, 'g, 'u) proxy_env =
  px_E :: "('r, 'o, 'g, 'u) sync_env"
  px_target :: "string \<Rightarrow> string \<Rightarrow> string \<Rightarrow> string option"
  px_wait :: "int \<Rightarrow> 'o \<Rightarrow> bool \<times> 'o"

record SyncHandler =
  sh_registry :: Registry
  sh_consumerHeader :: string
  sh_rateLimiter :: "Limiter option"
  sh_semaphore :: "ModelSemaphore option"
  sh_llm :: "Handler option"
  sh_retryBackoff :: int
  sh_processingLimiter :: "Limiter option"
  sh_tokenLimiter :: "Limiter option"
  sh_userTypeHeader :: string
  sh_authz :: "Engine option"
  sh_usageTracker :: bool
  sh_maxBodyBytes :: int
  sh_priorityHeader :: string
  sh_breaker :: bool
  sh_poolSemaphore :: "ModelSemaphore option"
  sh_poolLimiter :: "Limiter option"

definition defaultMaxBodyBytes :: int where
  "defaultMaxBodyBytes = 2 ^ 20"

definition NewSyncHandler :: "Registry \<Rightarrow> string \<Rightarrow> Limiter option \<Rightarrow> Handler option \<Rightarrow> SyncHandler" where
  "NewSyncHandler reg consumerH limiter llm =
     \<lparr>sh_registry = reg, sh_consumerHeader = consumerH, sh_rateLimiter = limiter, sh_semaphore = None, sh_llm = llm,
      sh_retryBackoff = second div 2, sh_processingLimiter = None, sh_tokenLimiter = None, sh_userTypeHeader = [], sh_authz = None,
      sh_usageTracker = False, sh_maxBodyBytes = defaultMaxBodyBytes, sh_priorityHeader = [], sh_breaker = False,
      sh_poolSemaphore = None, sh_poolLimiter = None\<rparr>"

definition WithMaxBodyMB :: "int \<Rightarrow> SyncHandler \<Rightarrow> SyncHandler" where
  "WithMaxBodyMB mb h = (if mb > 0 then h\<lparr>sh_maxBodyBytes := wrap64 (mb * 2 ^ 20)\<rparr> else h)"

definition WithSemaphore :: "ModelSemaphore option \<Rightarrow> SyncHandler \<Rightarrow> SyncHandler" where
  "WithSemaphore s h = h\<lparr>sh_semaphore := s\<rparr>"

definition WithProcessingLimiter :: "Limiter option \<Rightarrow> string \<Rightarrow> SyncHandler \<Rightarrow> SyncHandler" where
  "WithProcessingLimiter l userTypeH h = h\<lparr>sh_processingLimiter := l, sh_userTypeHeader := userTypeH\<rparr>"

definition sync_WithTokenLimiter :: "Limiter option \<Rightarrow> SyncHandler \<Rightarrow> SyncHandler" where
  "sync_WithTokenLimiter tc h = h\<lparr>sh_tokenLimiter := tc\<rparr>"

definition sync_WithAuthz :: "Engine option \<Rightarrow> SyncHandler \<Rightarrow> SyncHandler" where
  "sync_WithAuthz e h = h\<lparr>sh_authz := e\<rparr>"

definition sync_WithUsageTracker :: "bool \<Rightarrow> SyncHandler \<Rightarrow> SyncHandler" where
  "sync_WithUsageTracker t h = h\<lparr>sh_usageTracker := t\<rparr>"

definition sync_WithPriorityHeader :: "string \<Rightarrow> SyncHandler \<Rightarrow> SyncHandler" where
  "sync_WithPriorityHeader prio h = h\<lparr>sh_priorityHeader := prio\<rparr>"

definition sync_WithCircuitBreaker :: "bool \<Rightarrow> SyncHandler \<Rightarrow> SyncHandler" where
  "sync_WithCircuitBreaker b h = h\<lparr>sh_breaker := b\<rparr>"

definition sync_WithPoolSemaphore :: "ModelSemaphore option \<Rightarrow> SyncHandler \<Rightarrow> SyncHandler" where
  "sync_WithPoolSemaphore s h = h\<lparr>sh_poolSemaphore := s\<rparr>"

definition sync_WithPoolLimiter :: "Limiter option \<Rightarrow> SyncHandler \<Rightarrow> SyncHandler" where
  "sync_WithPoolLimiter pl h = h\<lparr>sh_poolLimiter := pl\<rparr>"

definition WithRetryBackoff :: "int \<Rightarrow> SyncHandler \<Rightarrow> SyncHandler" where
  "WithRetryBackoff d h = h\<lparr>sh_retryBackoff := d\<rparr>"

section \<open>Access\<close>

text \<open>The request with the limits of the rule that grants access.\<close>

definition checkAccess :: "SyncHandler \<Rightarrow> JobRequest \<Rightarrow> Def \<Rightarrow> (('r, 'o, 'g, 'u) world, JobRequest) hop" where
  "checkAccess h rq def =
     (case sh_authz h of
        None \<Rightarrow> hret rq
      | Some e \<Rightarrow>
          (let decision = Evaluate e (rq_principal rq) (Type def) (Def.Model def) in
           if d_Allowed decision then hret (if d_Limits decision \<noteq> None then rq\<lparr>rq_policy := d_Limits decision\<rparr> else rq)
           else writeError 403 (AccessDenied (Def.Model def))))"

text \<open>What both kinds of request pass before their body is used.\<close>

definition admit ::
  "('r, 'o, 'g, 'u) sync_env \<Rightarrow> SyncHandler \<Rightarrow> JobRequest \<Rightarrow> Def \<Rightarrow> (('r, 'o, 'g, 'u) world, JobRequest) hop" where
  "admit E h rq0 def =
     hbind (checkModelVisible rq0 def (sh_userTypeHeader h)) (\<lambda>_.
     hbind (checkAccess h rq0 def) (\<lambda>rq.
     hbind (\<lambda>w. rate_stage (sy_R E) (sy_pd E) (sy_show_dur E) (sh_rateLimiter h) rq (Type def) (sy_now E (w_o w)) w) (\<lambda>_.
     hbind (time_stage (sy_R E) (sy_pd E) (sh_processingLimiter h) rq (Type def)) (\<lambda>_. hret rq))))"

definition with_model ::
  "('r, 'o, 'g, 'u) sync_env \<Rightarrow> SyncHandler \<Rightarrow> JobRequest \<Rightarrow> Def \<Rightarrow> (('r, 'o, 'g, 'u) world, 'a) hop \<Rightarrow> (('r, 'o, 'g, 'u) world, 'a) hop" where
  "with_model E h rq def =
     with_slot (sy_R E) (sh_semaphore h) (Def.Model def) (header_of rq (sh_priorityHeader h) \<noteq> [])
       (writeError 503 (Text ''model too busy, retry later''))"

definition resolveConsumerAndType :: "SyncHandler \<Rightarrow> JobRequest \<Rightarrow> string \<times> string" where
  "resolveConsumerAndType h rq =
     (header_of rq (sh_consumerHeader h), (let v = header_of rq (sh_userTypeHeader h) in if v = [] then ''*'' else v))"

definition track_request ::
  "('r, 'o, 'g, 'u) sync_env \<Rightarrow> SyncHandler \<Rightarrow> JobRequest \<Rightarrow> Def \<Rightarrow> ('r, 'o, 'g, 'u) world \<Rightarrow> ('r, 'o, 'g, 'u) world" where
  "track_request E h rq def w =
     (let (consumer, userType) = resolveConsumerAndType h rq in
      if sh_usageTracker h \<and> consumer \<noteq> [] then
        w\<lparr>w_u := sy_U E (TrackUserType consumer (Type def) userType) (sy_U E (TrackActive consumer) (sy_U E (TrackRequest consumer (Type def)) (w_u w)))\<rparr>
      else w)"

section \<open>The direct proxy\<close>

definition extractProcessingTimeFromResponse :: "json_codec \<Rightarrow> string \<Rightarrow> rat" where
  "extractProcessingTimeFromResponse jc body =
     (if body = [] then 0
      else case Option.bind (Option.bind (parse jc body) dec_struct) (\<lambda>v. dec_num (jfield v ''processing_time'')) of None \<Rightarrow> 0 | Some t \<Rightarrow> t)"

definition extractTokensFromResponse :: "json_codec \<Rightarrow> string \<Rightarrow> int \<times> int" where
  "extractTokensFromResponse jc body =
     (if body = [] then (0, 0)
      else case
          Option.bind (Option.bind (parse jc body) dec_struct) (\<lambda>v.
          Option.bind (dec_struct (jfield v ''usage'')) (\<lambda>u.
          Option.bind (dec_int (jfield u ''prompt_tokens'')) (\<lambda>p.
          Option.bind (dec_int (jfield u ''completion_tokens'')) (\<lambda>c.
          Option.bind (dec_int (jfield u ''total_tokens'')) (\<lambda>t. Some (p, c, t))))))
        of None \<Rightarrow> (0, 0)
         | Some (p, c, t) \<Rightarrow> (if p = 0 \<and> c = 0 \<and> t > 0 then t else p, c))"

text \<open>A body for the backends: \<open>reusable\<close> is false for one that is streamed and can be opened once.\<close>

record bodySource =
  bs_bytes :: string
  reusable :: bool

definition bytesBody :: "string \<Rightarrow> bodySource" where
  "bytesBody b = \<lparr>bs_bytes = b, reusable = True\<rparr>"

definition streamOnce :: "string \<Rightarrow> bodySource" where
  "streamOnce b = \<lparr>bs_bytes = b, reusable = False\<rparr>"

definition hAdd :: "string \<Rightarrow> string \<Rightarrow> header \<Rightarrow> header" where
  "hAdd k v h = (let c = CanonicalHeaderKey k in AList.update c ((case map_of h c of None \<Rightarrow> [] | Some vs \<Rightarrow> vs) @ [v]) h)"

definition copy_headers :: "header \<Rightarrow> header \<Rightarrow> header" where
  "copy_headers upstream h =
     fold (\<lambda>(key, values) out. if HasPrefix key ''X-Ratelimit'' \<and> hGet out key \<noteq> [] then out else fold (hAdd key) values out) upstream h"

definition direct_request :: "SyncRequest \<Rightarrow> Def \<Rightarrow> bodySource \<Rightarrow> string \<Rightarrow> string \<Rightarrow> Backend \<Rightarrow> HttpRequest" where
  "direct_request sq def src contentType url b =
     (let auth = hGet (rq_Header (sq_rq sq)) ''Authorization'';
          h1 = hSet ''Content-Type'' contentType [];
          h2 = (if auth \<noteq> [] then hSet ''Authorization'' auth h1 else h1)
      in \<lparr>up_URL = url, up_Header = set_headers (Headers b) (set_headers (InferenceHeaders def) h2), up_Body = bs_bytes src\<rparr>)"

datatype round = Served HttpResponse | Failed string

text \<open>One round over the backends, with whether the streamed body has been opened.\<close>

fun try_round ::
  "('r, 'o, 'g, 'u) proxy_env \<Rightarrow> SyncHandler \<Rightarrow> SyncRequest \<Rightarrow> Def \<Rightarrow> bodySource \<Rightarrow> string \<Rightarrow> bool \<Rightarrow> string \<Rightarrow> Backend list \<Rightarrow>
   ('r, 'o, 'g, 'u) world \<Rightarrow> (round \<times> bool) \<times> ('r, 'o, 'g, 'u) world" where
  "try_round P h sq def src ct used lastErr [] w = ((Failed lastErr, used), w)"
| "try_round P h sq def src ct used lastErr (b # bs) w =
     (let (ok, w1) = pool_admits (px_E P) (sh_poolLimiter h) def (URL b) w in
      if \<not> ok then try_round P h sq def src ct used ''backend pool rate limit exceeded'' bs w1
      else case px_target P (URL b) (sq_Path sq) (sq_RawQuery sq) of
        None \<Rightarrow> try_round P h sq def src ct used ''invalid backend url'' bs w1
      | Some url \<Rightarrow>
          if \<not> reusable src \<and> used then ((Failed ''streamed request body cannot be replayed'', used), w1)
          else if \<not> sy_valid_url (px_E P) url then try_round P h sq def src ct True ''failed to build upstream request'' bs w1
          else
            (let (res, w2) = on_objects (sy_do (px_E P) (direct_request sq def src ct url b)) w1;
                 next = (\<lambda>err. if \<not> reusable src then ((Failed err, True), w2) else try_round P h sq def src ct True err bs w2)
             in case res of
                  Inl err \<Rightarrow> next (''upstream error: '' @ err)
                | Inr resp \<Rightarrow>
                    if rs_Status resp \<ge> 500 then next (''backend returned '' @ itoa (rs_Status resp)) else ((Served resp, True), w2)))"

text \<open>Accounting of an answer, from the time \<open>start\<close> of the request on.\<close>

definition debit ::
  "('r, 'o, 'g, 'u) sync_env \<Rightarrow> SyncHandler \<Rightarrow> JobRequest \<Rightarrow> Def \<Rightarrow> int \<Rightarrow> string \<Rightarrow> ('r, 'o, 'g, 'u) world \<Rightarrow> ('r, 'o, 'g, 'u) world" where
  "debit E h rq def start respBody w =
     (let (consumer, userType) = resolveConsumerAndType h rq;
          pt0 = extractProcessingTimeFromResponse (sy_jc E) respBody;
          pt = (if pt0 = 0 then of_int (sy_now E (w_o w) - start) / of_int second else pt0);
          w1 = (case sh_processingLimiter h of
                  Some l \<Rightarrow> if consumer \<noteq> [] then snd (on_redis (AddProcessingTime (sy_R E) (sy_pd E) l consumer userType (Type def) pt) w) else w
                | None \<Rightarrow> w);
          w2 = (if sh_usageTracker h \<and> consumer \<noteq> [] then w1\<lparr>w_u := sy_U E (TrackProcessingTime consumer (Type def) pt) (w_u w1)\<rparr> else w1);
          (prompt, tcompletion) = extractTokensFromResponse (sy_jc E) respBody;
          total = wrap64 (prompt + tcompletion)
      in case sh_tokenLimiter h of
           None \<Rightarrow> w2
         | Some l \<Rightarrow>
             if IsLLM def \<or> total \<le> 0 then w2
             else
               (let w3 = snd (on_redis (AddTokens (sy_R E) (sy_pd E) l (rq_policy rq) (rq_Header rq) (Type def) total) w2)
                in if sh_usageTracker h \<and> consumer \<noteq> [] then w3\<lparr>w_u := sy_U E (TrackTokens consumer (Type def) prompt tcompletion) (w_u w3)\<rparr> else w3))"

definition captureBody :: "SyncHandler \<Rightarrow> Def \<Rightarrow> bool" where
  "captureBody h def \<longleftrightarrow> sh_processingLimiter h \<noteq> None \<or> sh_tokenLimiter h \<noteq> None \<and> \<not> IsLLM def"

definition forward_response ::
  "('r, 'o, 'g, 'u) sync_env \<Rightarrow> SyncHandler \<Rightarrow> JobRequest \<Rightarrow> Def \<Rightarrow> int \<Rightarrow> HttpResponse \<Rightarrow> (('r, 'o, 'g, 'u) world, unit) hop" where
  "forward_response E h rq def start resp w =
     (let w1 = track_request E h rq def w;
          w2 = w1\<lparr>w_hdr := copy_headers (rs_Header resp) (w_hdr w1)\<rparr>
      in reply_raw (rs_Status resp) (rs_Body resp)
           (if captureBody h def \<and> rs_Status resp < 400 then debit E h rq def start (rs_Body resp) w2 else w2))"

text \<open>The rounds, \<open>n\<close> of them; without any the handler returns and the server answers 200 with no body.\<close>

fun rounds ::
  "('r, 'o, 'g, 'u) proxy_env \<Rightarrow> SyncHandler \<Rightarrow> SyncRequest \<Rightarrow> JobRequest \<Rightarrow> Def \<Rightarrow> bodySource \<Rightarrow> string \<Rightarrow> int \<Rightarrow> nat \<Rightarrow> int option \<Rightarrow> bool \<Rightarrow>
   (('r, 'o, 'g, 'u) world, unit) hop" where
  "rounds P h sq rq def src ct start 0 wait used w = (Inl \<lparr>Code = 200, Body = NoBody\<rparr>, w)"
| "rounds P h sq rq def src ct start (Suc n) wait used w =
     (let (go, w1) = (case wait of None \<Rightarrow> (True, w) | Some d \<Rightarrow> on_objects (px_wait P d) w) in
      if \<not> go then writeError 502 (Text ''request cancelled during retry'') w1
      else case OrderedBackends (sy_draw (px_E P) (w_o w1)) (Backends def) of
        None \<Rightarrow> panic w1
      | Some bs \<Rightarrow>
          (case try_round P h sq def src ct used [] bs w1 of
             ((Served resp, _), w2) \<Rightarrow> forward_response (px_E P) h rq def start resp w2
           | ((Failed lastErr, used'), w2) \<Rightarrow>
               if n = 0 then writeError 502 (Text (''all backends failed: '' @ lastErr)) w2
               else rounds P h sq rq def src ct start n (Some (case wait of None \<Rightarrow> sh_retryBackoff h | Some d \<Rightarrow> wrap64 (2 * d))) used' w2))"

definition to_backends ::
  "('r, 'o, 'g, 'u) proxy_env \<Rightarrow> SyncHandler \<Rightarrow> SyncRequest \<Rightarrow> JobRequest \<Rightarrow> Def \<Rightarrow> bodySource \<Rightarrow> string \<Rightarrow> int \<Rightarrow> (('r, 'o, 'g, 'u) world, unit) hop" where
  "to_backends P h sq rq def src contentType start =
     (let maxAttempts = (if reusable src then wrap64 (1 + Retries def) else 1) in
      if Backends def = [] then writeError 500 (Text ''no backends configured'')
      else
        with_slot (sy_R (px_E P)) (if PoolName def \<noteq> [] then sh_poolSemaphore h else None) (PoolName def)
          (header_of rq (sh_priorityHeader h) \<noteq> []) (writeError 503 (Text ''backend pool too busy, retry later''))
          (rounds P h sq rq def src contentType start (nat maxAttempts) None False))"

definition proxyToInference ::
  "('r, 'o, 'g, 'u) proxy_env \<Rightarrow> SyncHandler \<Rightarrow> SyncRequest \<Rightarrow> JobRequest \<Rightarrow> Def \<Rightarrow> bodySource \<Rightarrow> string \<Rightarrow> (('r, 'o, 'g, 'u) world, unit) hop" where
  "proxyToInference P h sq rq def src contentType w =
     (let E = px_E P in
      hbind (token_stage (sy_R E) (sy_pd E) (sy_show_dur E) (if IsLLM def then None else sh_tokenLimiter h) rq (Type def))
        (\<lambda>_. to_backends P h sq rq def src contentType (sy_now E (w_o w))) w)"

section \<open>Input guardrails\<close>

definition regex_input :: "json_codec \<Rightarrow> GuardrailsStage \<Rightarrow> string \<Rightarrow> (('r, 'o, 'g, 'u) world, string) hop" where
  "regex_input jc g raw =
     (if Checks g = [] then hret raw
      else if Action g = ''redact'' then
        (let (cleaned, found) = Redact jc raw (Checks g) in hret (if found \<noteq> [] then cleaned else raw))
      else if Action g = ''flag'' then hret raw
      else (let found = Scan jc raw (Checks g) in if found \<noteq> [] then writeError 422 (violation found) else hret raw))"

definition model_input :: "('r, 'o, 'g, 'u) sync_env \<Rightarrow> GuardrailsStage \<Rightarrow> string \<Rightarrow> (('r, 'o, 'g, 'u) world, string) hop" where
  "model_input E g raw w =
     (if Models g = [] then hret raw w
      else
        (let texts = extractMessageTexts (sy_jc E) raw;
             w1 = snd (on_models (FireAsync (sy_G E) (Models g) texts) w);
             (results, w2) = on_models (EvaluateSync (sy_G E) (Models g) texts) w1
         in case blocking_result results of
              Some reason \<Rightarrow> writeError 422 (violation reason) w2
            | None \<Rightarrow>
                (let ((cleaned, redResults), w3) = on_models (EvaluateRedact (sy_G E) (sy_jc E) (Models g) raw) w2
                 in if list_ex rd_Err redResults then writeError 422 (Text ''guardrails violation: redaction unavailable'') w3
                    else hret cleaned w3)))"

definition input_guard :: "('r, 'o, 'g, 'u) sync_env \<Rightarrow> GuardrailsStage \<Rightarrow> string \<Rightarrow> (('r, 'o, 'g, 'u) world, string) hop" where
  "input_guard E g raw =
     (if Enabled g then hbind (regex_input (sy_jc E) g raw) (model_input E g) else hret raw)"

section \<open>Requests\<close>

definition serve_llm ::
  "('r, 'o, 'g, 'u) sync_env \<Rightarrow> SyncHandler \<Rightarrow> Handler \<Rightarrow> SyncRequest \<Rightarrow> JobRequest \<Rightarrow> Def \<Rightarrow> string \<Rightarrow> (('r, 'o, 'g, 'u) world, unit) hop" where
  "serve_llm E h llm sq rq def raw =
     hbind (input_guard E (Input (Guardrails def)) raw) (\<lambda>raw' w.
       case ServeJSON E llm rq (sq_Path sq) def raw' (fst (resolveConsumerAndType h rq)) w of
         (Inl rep, w1) \<Rightarrow> (Inl rep, if Code rep < 500 then track_request E h rq def w1 else w1)
       | (Inr x, w1) \<Rightarrow> (Inr x, w1))"

definition json_model :: "json_codec \<Rightarrow> string \<Rightarrow> string option" where
  "json_model jc raw =
     (if raw = [] then Some []
      else Option.bind (Option.bind (parse jc raw) dec_struct) (\<lambda>kvs. dec_string (jfield kvs ''model'')))"

definition backendsDegraded :: "bool \<Rightarrow> int \<Rightarrow> CircuitBreaker \<Rightarrow> Backend list \<Rightarrow> bool" where
  "backendsDegraded health now cb backends \<longleftrightarrow> health \<and> backends \<noteq> [] \<and> list_all (\<lambda>b. IsOpen now cb (URL b)) backends"

definition with_fallback :: "SyncHandler \<Rightarrow> string \<Rightarrow> int \<Rightarrow> CircuitBreaker \<Rightarrow> Def \<Rightarrow> Def" where
  "with_fallback h path now cb def =
     (if FallbackModel def \<noteq> [] \<and> backendsDegraded (sh_breaker h) now cb (Backends def) then
        (case RouteSync (sh_registry h) path (FallbackModel def) of Inr fb \<Rightarrow> if IsLLM fb then fb else def | Inl _ \<Rightarrow> def)
      else def)"

text \<open>The body of a JSON request and the service that serves it.\<close>

definition json_target :: "('r, 'o, 'g, 'u) sync_env \<Rightarrow> SyncHandler \<Rightarrow> SyncRequest \<Rightarrow> (('r, 'o, 'g, 'u) world, Def) hop" where
  "json_target E h sq w =
     (let limit = (if sh_maxBodyBytes h \<le> 0 then defaultMaxBodyBytes else sh_maxBodyBytes h) in
      if int (length (sq_Body sq)) > limit then writeError 413 (TooLarge limit) w
      else if \<not> sq_Complete sq then writeError 400 (Text ''failed to read body'') w
      else case json_model (sy_jc E) (sq_Body sq) of
        None \<Rightarrow> writeError 400 (Text ''invalid JSON body'') w
      | Some model \<Rightarrow>
          (case RouteSync (sh_registry h) (sq_Path sq) model of
             Inl e \<Rightarrow> writeError 400 (Route e) w
           | Inr def \<Rightarrow> hret (with_fallback h (sq_Path sq) (sy_now E (w_o w)) (w_cb w) def) w))"

definition handleJSON :: "('r, 'o, 'g, 'u) proxy_env \<Rightarrow> SyncHandler \<Rightarrow> SyncRequest \<Rightarrow> (('r, 'o, 'g, 'u) world, unit) hop" where
  "handleJSON P h sq =
     hbind (json_target (px_E P) h sq) (\<lambda>def.
     hbind (admit (px_E P) h (sq_rq sq) def) (\<lambda>rq.
       with_model (px_E P) h rq def
         (case sh_llm h of
            Some llm \<Rightarrow>
              if IsLLM def then serve_llm (px_E P) h llm sq rq def (sq_Body sq)
              else proxyToInference P h sq rq def (bytesBody (sq_Body sq)) (hGet (rq_Header rq) ''Content-Type'')
          | None \<Rightarrow> proxyToInference P h sq rq def (bytesBody (sq_Body sq)) (hGet (rq_Header rq) ''Content-Type''))))"

definition streamThresholdBytes :: int where
  "streamThresholdBytes = 32 * 2 ^ 20"

definition multipart_target :: "SyncHandler \<Rightarrow> SyncRequest \<Rightarrow> (('r, 'o, 'g, 'u) world, Def) hop" where
  "multipart_target h sq =
     (case ResolveSyncByPath (sh_registry h) (sq_Path sq) of
        Some def \<Rightarrow> hret def
      | None \<Rightarrow>
          (case sq_Form sq of
             None \<Rightarrow> writeError 400 BadForm
           | Some f \<Rightarrow> (case RouteSync (sh_registry h) (sq_Path sq) (mf_model f) of Inl e \<Rightarrow> writeError 400 (Route e) | Inr def \<Rightarrow> hret def)))"

text \<open>The body of an upload and its content type.\<close>

definition upload_body :: "SyncHandler \<Rightarrow> SyncRequest \<Rightarrow> JobRequest \<Rightarrow> (('r, 'o, 'g, 'u) world, bodySource \<times> string) hop" where
  "upload_body h sq rq =
     (let ct = hGet (rq_Header rq) ''Content-Type'' in
      case (ResolveSyncByPath (sh_registry h) (sq_Path sq), sq_Form sq) of
        (None, Some f) \<Rightarrow>
          (case mf_rebuilt f of
             None \<Rightarrow> writeError 500 (Text ''failed to read request body'')
           | Some buf \<Rightarrow> hret (bytesBody buf, mf_ContentType f))
      | _ \<Rightarrow>
          if 0 \<le> sq_ContentLength sq \<and> sq_ContentLength sq \<le> streamThresholdBytes then
            (if \<not> sq_Complete sq then writeError 400 (Text ''failed to read request body'') else hret (bytesBody (sq_Body sq), ct))
          else hret (streamOnce (sq_Body sq), ct))"

definition handleMultipart :: "('r, 'o, 'g, 'u) proxy_env \<Rightarrow> SyncHandler \<Rightarrow> SyncRequest \<Rightarrow> (('r, 'o, 'g, 'u) world, unit) hop" where
  "handleMultipart P h sq =
     hbind (multipart_target h sq) (\<lambda>def.
     hbind (admit (px_E P) h (sq_rq sq) def) (\<lambda>rq.
     hbind (upload_body h sq rq) (\<lambda>(src, ct).
       with_model (px_E P) h rq def (proxyToInference P h sq rq def src ct))))"

definition ServeHTTP :: "('r, 'o, 'g, 'u) proxy_env \<Rightarrow> SyncHandler \<Rightarrow> SyncRequest \<Rightarrow> (('r, 'o, 'g, 'u) world, unit) hop" where
  "ServeHTTP P h sq =
     (if sq_Method sq \<noteq> ''POST'' then writeError 405 (Text ''method not allowed'')
      else if HasPrefix (sq_media sq) ''multipart/form-data'' then handleMultipart P h sq
      else if sq_media sq = ''application/json'' then handleJSON P h sq
      else writeError 415 (Text ''Content-Type must be multipart/form-data or application/json''))"

end
