(* ===== verification/LlmRun.thy ===== *)
theory LlmRun
  imports SubmitRun LlmProxy
begin

text \<open>
  What the LLM proxy promises: backends are tried in order until one answers, the slot of a pool is given back however a
  request ends, an answer the output guardrails find something in is neither sent nor cached, and what a cached
  answer is given to.
\<close>

section \<open>What a request touches\<close>

text \<open>The keys of the limits, without and with those of the cache.\<close>

definition pool_keys :: "string set" where
  "pool_keys = limiter_keys \<union> {k. HasPrefix k ''poolrl:''}"

definition proxy_keys :: "string set" where
  "proxy_keys = pool_keys \<union> {k. HasPrefix k ''llm:cache:''}"

lemma pool_keysI [simp]: "k \<in> limiter_keys \<Longrightarrow> k \<in> pool_keys" "key2 ''poolrl'' a b \<in> pool_keys" "''poolrl:'' @ a \<in> pool_keys"
  by (simp_all add: pool_keys_def HasPrefix_def key2_def)

lemma proxy_keysI [simp]: "k \<in> limiter_keys \<Longrightarrow> k \<in> proxy_keys" "k \<in> pool_keys \<Longrightarrow> k \<in> proxy_keys" "''llm:cache:'' @ a \<in> proxy_keys"
  by (simp_all add: proxy_keys_def HasPrefix_def)

lemmas proxy_key_literals [simp] = pool_keysI(3) [unfolded append_Cons append_Nil] proxy_keysI(3) [unfolded append_Cons append_Nil]

lemma semkey_not_proxy [simp]: "semkey s m u \<notin> proxy_keys"
  by (simp add: proxy_keys_def pool_keys_def limiter_keys_def semkey_def HasPrefix_def reservedKeyFor_def sharedKeyFor_def)

lemma agree_mono: "agree K ks ks' \<Longrightarrow> K \<subseteq> K' \<Longrightarrow> agree K' ks ks'"
  by (auto simp: agree_def)

definition keeps :: "('r \<Rightarrow> keyspace) \<Rightarrow> string set \<Rightarrow> (('r, 'o, 'g, 'u) world, 'a) hop \<Rightarrow> bool" where
  "keeps view K m \<longleftrightarrow> (\<forall>w. agree K (view (w_r w)) (view (w_r (snd (m w)))))"

lemma keepsD: "keeps view K m \<Longrightarrow> m w = (res, w1) \<Longrightarrow> agree K (view (w_r w)) (view (w_r w1))"
  unfolding keeps_def by (metis snd_conv)

lemma keeps_mono: "keeps view K m \<Longrightarrow> K \<subseteq> K' \<Longrightarrow> keeps view K' m"
  unfolding keeps_def using agree_mono by metis

lemma keeps_hbind: "keeps view K m \<Longrightarrow> (\<And>x. keeps view K (k x)) \<Longrightarrow> keeps view K (hbind m k)"
  unfolding keeps_def hbind_def by (auto split: prod.split sum.split) (metis agree_trans snd_conv)+

lemma keeps_hbind_run: "keeps view K m \<Longrightarrow> (\<And>x w w1. m w = (Inr x, w1) \<Longrightarrow> keeps view K (k x)) \<Longrightarrow> keeps view K (hbind m k)"
  unfolding keeps_def hbind_def by (auto split: prod.split sum.split) (metis agree_trans snd_conv)+

lemma keeps_simple:
  "keeps view K (hret x)" "keeps view K (llm_writeError c msg)" "keeps view K (writeError c msg)" "keeps view K (reply_raw c d)" "keeps view K panic"
  by (simp_all add: keeps_def hret_def llm_writeError_def writeError_def stop_with_def reply_raw_def panic_def)

lemma track_keeps [simp]: "w_r (track_tokens E h def c u us w) = w_r w" "w_o (track_tokens E h def c u us w) = w_o w"
  by (simp_all add: track_tokens_def Let_def split: option.split)

lemma limits_objects: "w_o (snd (checkAndWriteTokenLimit E h rq def w)) = w_o w"
  by (auto simp: checkAndWriteTokenLimit_def on_redis_def token_refusal_def llm_writeError_def stop_with_def set_hdr_def hret_def Let_def
      split: option.splits prod.splits if_splits)

context live_server
begin

lemma add_script_agrees:
  "k \<in> limiter_keys \<Longrightarrow> agree limiter_keys (view st) (view (snd (rcall R (tokenAddScript R k t n) st)))"
  by (rule call_agrees [OF tokenAddScript_sim touches_tokenAdd])

lemma token_agrees:
  "CheckModelTokens R pd l r m b st = (x, st') \<Longrightarrow> agree limiter_keys (view st) (view st')"
  "agree limiter_keys (view st) (view (snd (AddTokens R pd l p r t n st)))"
  "agree limiter_keys (view st) (view (snd (AddModelTokens R pd l r m b n st)))"
proof -
  show "CheckModelTokens R pd l r m b st = (x, st') \<Longrightarrow> agree limiter_keys (view st) (view st')"
    by (auto simp: CheckModelTokens_def Let_def split: prod.splits option.splits if_splits dest!: limiter_calls(2))
  show "agree limiter_keys (view st) (view (snd (AddTokens R pd l p r t n st)))"
    using add_script_agrees agree_trans [OF add_script_agrees add_script_agrees]
    by (simp add: AddTokens_def Let_def split: prod.split option.split)
  show "agree limiter_keys (view st) (view (snd (AddModelTokens R pd l r m b n st)))"
    using add_script_agrees limiter_keysI(3) by (auto simp: AddModelTokens_def Let_def split: prod.split option.split)
qed

lemma add_tokens_agrees:
  assumes "sy_R E = R"
  shows "agree limiter_keys (view (w_r w)) (view (w_r (add_tokens E h rq def us w)))" "w_o (add_tokens E h rq def us w) = w_o w"
  using token_agrees(2,3) agree_trans [OF token_agrees(2) token_agrees(3)]
  by (simp_all add: add_tokens_def assms snd_on_redis Let_def split: option.split)

lemma window_agrees:
  "k \<in> pool_keys \<Longrightarrow> checkFixedWindow R pd k cfg st = (x, st') \<Longrightarrow> agree pool_keys (view st) (view st')"
  using call_agrees [OF window_script_sim touches_limiter(1), of k pool_keys]
  by (auto simp: checkFixedWindow_def Let_def split: option.splits prod.splits if_splits) (metis snd_conv)+

lemma CheckBackendPool_agrees: "CheckBackendPool R pd l p u st = (x, st') \<Longrightarrow> agree pool_keys (view st) (view st')"
  by (auto simp: CheckBackendPool_def Let_def split: option.splits prod.splits if_splits
      dest!: window_agrees [rotated] elim: agree_trans)

lemma limits_agree:
  assumes "sy_R E = R"
  shows "agree limiter_keys (view (w_r w)) (view (w_r (snd (checkAndWriteTokenLimit E h rq def w))))"
  by (auto simp: checkAndWriteTokenLimit_def assms on_redis_def token_refusal_def llm_writeError_def stop_with_def hret_def Let_def
      split: option.splits prod.splits if_splits dest!: CheckTokens_agrees token_agrees(1) elim: agree_trans)

lemma limits_keep: "sy_R E = R \<Longrightarrow> keeps view proxy_keys (checkAndWriteTokenLimit E h rq def)"
  unfolding keeps_def using agree_mono [OF limits_agree] by (metis proxy_keysI(1) subsetI)

lemma pool_admits_agrees:
  assumes "sy_R E = R"
  shows "agree pool_keys (view (w_r w)) (view (w_r (snd (pool_admits E l def u w))))" "w_o (snd (pool_admits E l def u w)) = w_o w"
  by (auto simp: pool_admits_def assms on_redis_def split: option.splits prod.splits dest: CheckBackendPool_agrees)

end

lemma request_keeps: "upstream_request E prov def body path b w = (res, w1) \<Longrightarrow> w_r w1 = w_r w \<and> w_o w1 = w_o w"
  by (auto simp: upstream_request_def Let_def llm_writeError_def stop_with_def panic_def hret_def set_hdr_def split: option.splits if_splits rewrite.splits)

lemma records_keep [simp]: "w_r (record_failure E h u w) = w_r w" "w_r (record_success h u w) = w_r w"
  "w_o (record_failure E h u w) = w_o w" "w_o (record_success h u w) = w_o w"
  by (simp_all add: record_failure_def record_success_def)

lemma on_objects_keeps: "on_objects f w = (x, w1) \<Longrightarrow> w_r w1 = w_r w"
  by (auto simp: on_objects_def split: prod.splits)

context live_server
begin

lemma try_backends_keeps:
  assumes "sy_R E = R"
  shows "agree pool_keys (view (w_r w)) (view (w_r (snd (try_backends E h prov def body path tried e bs w))))"
proof (induction bs arbitrary: tried e w)
  case (Cons b bs)
  obtain ok w1 where p: "pool_admits E (lh_poolLimiter h) def (URL b) w = (ok, w1)" by fastforce
  obtain res w2 where u: "upstream_request E prov def body path b w1 = (res, w2)" by fastforce
  have a: "agree pool_keys (view (w_r w)) (view (w_r w1))" using pool_admits_agrees(1) [OF assms, of w] p by (metis snd_conv)
  have v: "w_r w2 = w_r w1" using request_keeps [OF u] by simp
  show ?case
  proof (cases res)
    case (Inr req)
    obtain d w3 where d: "on_objects (sy_do E req) w2 = (d, w3)" by fastforce
    have "w_r w3 = w_r w1" using on_objects_keeps [OF d] v by simp
    then have f: "agree pool_keys (view (w_r w)) (view (w_r (snd (try_backends E h prov def body path n e' bs (record_failure E h (URL b) w3)))))" for n e'
      using agree_trans [OF a] Cons.IH [of "record_failure E h (URL b) w3" n e'] by simp
    show ?thesis using p u d Inr Cons.IH agree_trans [OF a Cons.IH] a \<open>w_r w3 = w_r w1\<close>
      by (simp add: hret_def f split: sum.split del: append.simps)
  qed (use p u v a Cons.IH agree_trans [OF a Cons.IH] in simp)
qed (simp add: hret_def)

lemma forward_keeps_pool:
  assumes "sy_R E = R"
  shows "keeps view pool_keys (forward E h prov def body path)"
proof -
  have "keeps view pool_keys (case a of Won resp \<Rightarrow> hret resp | Lost tried e \<Rightarrow> if tried = 0 then llm_writeError 503 m else llm_writeError 502 (m' e))"
    for a m m' by (cases a) (simp_all add: keeps_simple)
  moreover have "keeps view pool_keys (try_backends E h prov def body path 0 [] bs)" for bs
    using try_backends_keeps [OF assms] by (simp add: keeps_def)
  ultimately have "keeps view pool_keys (hbind (try_backends E h prov def body path 0 [] bs) (\<lambda>a. case a of Won resp \<Rightarrow> hret resp
      | Lost tried e \<Rightarrow> if tried = 0 then llm_writeError 503 m else llm_writeError 502 (m' e)))" for bs m m'
    by (intro keeps_hbind)
  then show ?thesis by (simp add: keeps_def forward_def panic_def split: option.split)
qed

lemma forward_keeps: "sy_R E = R \<Longrightarrow> keeps view proxy_keys (forward E h prov def body path)"
  by (rule keeps_mono [OF forward_keeps_pool]) auto

lemma Set_agrees_key: "agree {k} (view st) (view (snd (cache_Set R ec c k e t st)))"
  using call_agrees [OF SET touches_commands(1), of k "{k}"] by (simp add: cache_Set_def rret_def rfail_def split: Cache.split option.split)

lemma Set_agrees: "k \<in> proxy_keys \<Longrightarrow> agree proxy_keys (view st) (view (snd (cache_Set R ec c k e t st)))"
  by (rule agree_mono [OF Set_agrees_key]) simp

lemma tokens_after:
  assumes "sy_R E = R" "w_r w' = w_r w"
  shows "agree proxy_keys (view (w_r w)) (view (w_r (add_tokens E h rq def us w')))"
  using agree_mono [OF add_tokens_agrees(1) [OF assms(1)]] assms(2) by (metis proxy_keysI(1) subsetI)

lemma answer_keeps:
  assumes "sy_R E = R" "\<And>k. key = Some k \<Longrightarrow> k \<in> proxy_keys"
  shows "keeps view proxy_keys (answer E h rq prov def c u key resp)"
  using assms(2)
  by (auto simp: keeps_def answer_def assms(1) llm_writeError_def stop_with_def reply_raw_def snd_on_redis Let_def split: option.split prod.split
      intro!: tokens_after [OF assms(1)] intro: agree_trans [OF tokens_after [OF assms(1)] Set_agrees])

lemma stream_keeps:
  assumes "sy_R E = R"
  shows "keeps view proxy_keys (stream_answer E h rq def c u resp)"
proof -
  have p: "w_r w2 = w_r w1" if "pipe_stream E def resp w1 = (x, w2)" for w1 x w2
    using that by (auto simp: pipe_stream_def Let_def on_objects_def split: prod.splits if_splits)
  show ?thesis
    by (auto simp: keeps_def stream_answer_def Let_def split: prod.split option.split dest!: p intro!: tokens_after [OF assms])
qed

end

section \<open>Slots\<close>

text \<open>Both counters of a model or pool, within the range in which they are exact.\<close>

definition slot_counts :: "keyspace \<Rightarrow> ModelSemaphore \<Rightarrow> string \<Rightarrow> (bool \<Rightarrow> int) \<Rightarrow> bool" where
  "slot_counts ks s m f \<longleftrightarrow> (\<forall>u. counter ks (semkey s m u) = Some (f u) \<and> 0 \<le> f u \<and> f u < 2 ^ 61)"

lemma slot_counts_agree:
  assumes "agree K ks ks'" "\<And>u. semkey s m u \<notin> K"
  shows "slot_counts ks' s m f \<longleftrightarrow> slot_counts ks s m f"
  using agree_look [OF assms(1)] assms(2) by (simp add: slot_counts_def counter_def)

context live_server
begin

lemma slot_taken_and_returned:
  assumes "slot_counts (view st) s m f" "TryAcquire R s m prio st = ((True, used), st1)"
    and "\<And>u. look (view st2) (semkey s m u) = look (view st1) (semkey s m u)"
  shows "slot_counts (view (Release R s m used st2)) s m f"
proof (cases "m \<in> fst ` set (limits s)")
  case False
  then have "map_of (limits s) m = None" by (simp add: map_of_eq_None_iff)
  then show ?thesis using assms by (simp add: TryAcquire_def Release_def slot_counts_def counter_def)
next
  case True
  have f: "counter (view st) (semkey s m u) = Some (f u)" "0 \<le> f u" "f u < 2 ^ 62" "f u + 1 < 2 ^ 62" for u
    using assms(1) by (simp_all add: slot_counts_def) (smt (verit))+
  obtain st' where st': "TryAcquire R s m prio st = (fst (abs_acquire (cap s m True) (cap s m False) prio (f True, f False)), st')"
      "counter (view st') (semkey s m True) = Some (fst (snd (abs_acquire (cap s m True) (cap s m False) prio (f True, f False))))"
      "counter (view st') (semkey s m False) = Some (snd (snd (abs_acquire (cap s m True) (cap s m False) prio (f True, f False))))"
    using TryAcquire_tracked [OF live True f(1-3) f(1-3)] by metis
  then have c: "counter (view st1) (semkey s m u) = Some (f u + of_bool (u = used))" for u
    using assms(2) by (cases u) (auto simp: abs_acquire_def split: if_splits)
  then have c2: "counter (view st2) (semkey s m u) = Some (f u + of_bool (u = used))" for u
    using assms(3) by (simp add: counter_def)
  note rel = Release_tracked [OF live True c2 [of used]]
  have "counter (view (Release R s m used st2)) (semkey s m u) = Some (f u)" for u
  proof (cases "u = used")
    case False
    then have "semkey s m u \<noteq> semkey s m used" using semkey_pools by (cases u; cases used) (metis, metis, metis, metis)
    then show ?thesis using rel(2) f(2,4) [of used] c2 [of u] False by (simp add: counter_def)
  qed (use rel(1) f(2,4) [of used] in simp)
  then show ?thesis using assms(1) by (simp add: slot_counts_def)
qed

lemma slot_refused:
  assumes "slot_counts (view st) s m f" "TryAcquire R s m prio st = ((False, used), st1)"
  shows "slot_counts (view st1) s m f"
proof -
  have m: "m \<in> fst ` set (limits s)" using assms(2) by (cases "map_of (limits s) m") (auto simp: TryAcquire_def dest: map_of_SomeD intro: rev_image_eqI)
  have f: "counter (view st) (semkey s m u) = Some (f u)" "0 \<le> f u" "f u < 2 ^ 62" for u
    using assms(1) by (simp_all add: slot_counts_def) (smt (verit))
  obtain st' where "TryAcquire R s m prio st = (fst (abs_acquire (cap s m True) (cap s m False) prio (f True, f False)), st')"
      "counter (view st') (semkey s m True) = Some (fst (snd (abs_acquire (cap s m True) (cap s m False) prio (f True, f False))))"
      "counter (view st') (semkey s m False) = Some (snd (snd (abs_acquire (cap s m True) (cap s m False) prio (f True, f False))))"
    using TryAcquire_tracked [OF live m f f] by metis
  then have "counter (view st1) (semkey s m u) = Some (f u)" for u
    using assms(2) by (cases u) (auto simp: abs_acquire_def split: if_splits)
  then show ?thesis using assms(1) by (simp add: slot_counts_def)
qed

end

definition returns_slots :: "('r \<Rightarrow> keyspace) \<Rightarrow> ModelSemaphore \<Rightarrow> string \<Rightarrow> (('r, 'o, 'g, 'u) world, 'a) hop \<Rightarrow> bool" where
  "returns_slots view s m p \<longleftrightarrow>
     (\<forall>w f. slot_counts (view (w_r w)) s m f \<longrightarrow> slot_counts (view (w_r (snd (p w)))) s m f)"

lemma keeps_returns: "keeps view K p \<Longrightarrow> (\<And>u. semkey s m u \<notin> K) \<Longrightarrow> returns_slots view s m p"
  unfolding keeps_def returns_slots_def using slot_counts_agree by metis

lemma returns_hbind:
  "returns_slots view s m p \<Longrightarrow> (\<And>x w w1. p w = (Inr x, w1) \<Longrightarrow> returns_slots view s m (k x)) \<Longrightarrow> returns_slots view s m (hbind p k)"
  unfolding returns_slots_def hbind_def by (auto split: prod.split sum.split) (metis snd_conv)+

context live_server
begin

lemma with_slot_returns:
  assumes "keeps view K p" "keeps view K busy" "\<And>u. semkey s m u \<notin> K" "sem = None \<or> sem = Some s"
  shows "returns_slots view s m (with_slot R sem m prio busy p)"
proof -
  have "slot_counts (view (w_r (snd (with_slot R sem m prio busy p w)))) s m f" if c: "slot_counts (view (w_r w)) s m f" for w f
  proof (cases sem)
    case None
    then show ?thesis using keeps_returns [OF assms(1,3)] c by (simp add: with_slot_def returns_slots_def)
  next
    case (Some s')
    then have s: "sem = Some s" using assms(4) by simp
    obtain ok used st1 where t: "TryAcquire R s m prio (w_r w) = ((ok, used), st1)" by (metis prod.exhaust)
    show ?thesis
    proof (cases ok)
      case False
      then have "slot_counts (view st1) s m f" using slot_refused [OF c] t by simp
      moreover obtain res w2 where r: "busy (w\<lparr>w_r := st1\<rparr>) = (res, w2)" by fastforce
      moreover have "agree K (view st1) (view (w_r w2))" using keepsD [OF assms(2) r] by simp
      ultimately show ?thesis using s t False slot_counts_agree [of K "view st1" "view (w_r w2)" s m f] assms(3)
        by (simp add: with_slot_def on_redis_def)
    next
      case True
      obtain res w2 where r: "p (w\<lparr>w_r := st1\<rparr>) = (res, w2)" by fastforce
      have "agree K (view st1) (view (w_r w2))" using keepsD [OF assms(1) r] by simp
      from agree_look [OF this] assms(3) have "slot_counts (view (Release R s m used (w_r w2))) s m f"
        using slot_taken_and_returned [OF c] t True by simp
      then show ?thesis using s t True r by (simp add: with_slot_def on_redis_def)
    qed
  qed
  then show ?thesis by (simp add: returns_slots_def)
qed

lemma cache_lookup_keeps:
  assumes "sy_R E = R" "cache_lookup E h key w = (x, w1)"
  shows "view (w_r w1) = view (w_r w)" "w_o w1 = w_o w" "w_hdr w1 = w_hdr w"
proof -
  have v: "view (snd (rcall R (GET R k) st)) = view st" for k st
    using GET [of k] by (auto simp: sim_def rcall_delivered [OF live] ks_get_def split: option.split rval.split)
  have "view (snd (cache_Get R ec c k st)) = view st" for ec c k st
    using v [of k st] by (auto simp: cache_Get_def rbind_def rret_def rfail_def split: Cache.split option.split prod.split)
  then show "view (w_r w1) = view (w_r w)" "w_o w1 = w_o w" "w_hdr w1 = w_hdr w"
    using assms by (auto simp: cache_lookup_def on_redis_def split: option.splits prod.splits) (metis snd_conv)+
qed

end

lemma cache_key_keys: "cache_key_for E rq def body w = (Inr (Some k), w1) \<Longrightarrow> k \<in> proxy_keys"
  by (auto simp: cache_key_for_def Key_def hret_def panic_def split: if_splits cache_key.splits option.splits json.splits)

lemma cache_key_pure: "cache_key_for E rq def body w = (Inr x, w1) \<Longrightarrow> w1 = w"
  by (auto simp: cache_key_for_def hret_def panic_def split: if_splits cache_key.splits)

context live_server
begin

lemma cache_key_keeps: "keeps view K (cache_key_for E rq def body)"
  by (simp add: cache_key_for_def keeps_simple split: cache_key.split)

lemma serve_hit_keeps:
  assumes "sy_R E = R"
  shows "keeps view proxy_keys (serve_hit E h rq def c u e)"
  by (auto simp: keeps_def serve_hit_def Let_def reply_raw_def intro!: tokens_after [OF assms])

lemma pool_returns:
  assumes "sy_R E = R" "lh_poolSemaphore h = Some s" "keeps view proxy_keys p"
  shows "returns_slots view s (PoolName def) (with_pool E h rq def p)"
  unfolding with_pool_def assms(1,2) by (rule with_slot_returns [OF assms(3) keeps_simple(2)]) simp_all

lemma ServeJSON_returns:
  assumes "sy_R E = R" "lh_poolSemaphore h = Some s"
  shows "returns_slots view s (PoolName def) (ServeJSON E h rq path def body c)"
proof -
  note keep = keeps_returns [of view proxy_keys _ s "PoolName def", OF _ semkey_not_proxy]
  note pool = pool_returns [OF assms]
  have str: "returns_slots view s (PoolName def) (serveStream E h rq path def body prov c u)" for prov u
    unfolding serveStream_def Let_def
    by (intro returns_hbind keep [OF limits_keep [OF assms(1)]] pool keeps_hbind forward_keeps [OF assms(1)] stream_keeps [OF assms(1)])
  have miss: "returns_slots view s (PoolName def) (\<lambda>w. case cache_lookup E h key w of (Some entry, w1) \<Rightarrow> serve_hit E h rq def c u entry w1
      | (None, w1) \<Rightarrow> with_pool E h rq def (hbind (forward E h prov def body path) (answer E h rq prov def c u key)) w1)"
    if "\<And>k. key = Some k \<Longrightarrow> k \<in> proxy_keys" for key prov u
  proof -
    have "returns_slots view s (PoolName def) (serve_hit E h rq def c u entry)"
      "returns_slots view s (PoolName def) (with_pool E h rq def (hbind (forward E h prov def body path) (answer E h rq prov def c u key)))" for entry
      by (intro keep serve_hit_keeps pool keeps_hbind forward_keeps answer_keeps assms(1) that; assumption)+
    then show ?thesis using cache_lookup_keeps(1) [OF assms(1)] unfolding returns_slots_def
      by (auto split: prod.split option.split)
  qed
  show ?thesis
    unfolding ServeJSON_def Let_def
    using str keep [OF keeps_simple(2)]
    by (auto split: option.split intro!: returns_hbind keep [OF limits_keep [OF assms(1)]] keep [OF cache_key_keeps] miss dest: cache_key_keys)
qed

end

text \<open>However a request to the LLM proxy ends, answered or refused, with a backend that fails or a body that makes the
  handler panic, as a stream or as a whole, the slots of its pool that are in use are the same afterwards.\<close>

theorem pool_slots_returned:
  assumes "live_server (sy_R E) view" "lh_poolSemaphore h = Some s" "slot_counts (view (w_r w)) s (PoolName def) f"
  shows "slot_counts (view (w_r (snd (ServeJSON E h rq path def body consumer w)))) s (PoolName def) f"
  using live_server.ServeJSON_returns [OF assms(1) refl assms(2)] assms(3) by (simp add: returns_slots_def)

section \<open>Failover\<close>

text \<open>What a backend is expected to say, \<open>ask b\<close>: an answer below 500 wins. The backends that are asked are those up to the first
  that wins.\<close>

definition wins :: "string + HttpResponse \<Rightarrow> bool" where
  "wins a \<longleftrightarrow> (case a of Inl _ \<Rightarrow> False | Inr resp \<Rightarrow> rs_Status resp < 500)"

definition asked :: "(Backend \<Rightarrow> string + HttpResponse) \<Rightarrow> Backend list \<Rightarrow> Backend list" where
  "asked ask bs = takeWhile (\<lambda>b. \<not> wins (ask b)) bs @ take 1 (dropWhile (\<lambda>b. \<not> wins (ask b)) bs)"

definition failure_of :: "string + HttpResponse \<Rightarrow> string" where
  "failure_of a = (case a of Inl e \<Rightarrow> e | Inr resp \<Rightarrow> ''backend returned '' @ itoa (rs_Status resp))"

definition failover_result :: "(Backend \<Rightarrow> string + HttpResponse) \<Rightarrow> Backend list \<Rightarrow> Reply + HttpResponse" where
  "failover_result ask bs =
     (case dropWhile (\<lambda>b. \<not> wins (ask b)) bs of
        b # _ \<Rightarrow> Inr (projr (ask b))
      | [] \<Rightarrow> Inl (if bs = [] then \<lparr>Code = 503, Body = LlmErr (Text ''all backends for model are unavailable (circuit open or rate limited)'')\<rparr>
                  else \<lparr>Code = 502, Body = LlmErr (Text (''all backends failed: '' @ failure_of (ask (last bs))))\<rparr>))"

lemma Allow_other [simp]:
  "u \<noteq> u' \<Longrightarrow> Allow now (RecordFailure t u cb) u' = Allow now cb u'" "u \<noteq> u' \<Longrightarrow> Allow now (RecordSuccess u cb) u' = Allow now cb u'"
  by (simp_all add: Allow_def RecordFailure_def RecordSuccess_def Let_def update_conv' split: option.split)

lemma asked_simps [simp]:
  "asked ask [] = []" "asked ask (b # bs) = b # (if wins (ask b) then [] else asked ask bs)"
  by (simp_all add: asked_def)

text \<open>The outcome of the loop on the backends that the breaker lets through.\<close>

definition loop_result :: "(Backend \<Rightarrow> string + HttpResponse) \<Rightarrow> int \<Rightarrow> string \<Rightarrow> Backend list \<Rightarrow> attempt" where
  "loop_result ask tried e bs =
     (case dropWhile (\<lambda>b. \<not> wins (ask b)) bs of
        b # _ \<Rightarrow> Won (projr (ask b))
      | [] \<Rightarrow> Lost (tried + int (length bs)) (if bs = [] then e else failure_of (ask (last bs))))"

lemma loop_result_simps [simp]:
  "loop_result ask tried e [] = Lost tried e"
  "loop_result ask tried e (b # bs) = (if wins (ask b) then Won (projr (ask b)) else loop_result ask (tried + 1) (failure_of (ask b)) bs)"
  by (simp_all add: loop_result_def split: list.split del: dropWhile_eq_Nil_conv)

definition lets :: "('r, 'o, 'g, 'u) sync_env \<Rightarrow> Handler \<Rightarrow> ('r, 'o, 'g, 'u) world \<Rightarrow> Backend \<Rightarrow> bool" where
  "lets E h w b \<longleftrightarrow> \<not> lh_breaker h \<or> Allow (sy_now E (w_o w)) (w_cb w) (URL b)"

lemma lets_other:
  assumes "\<And>o1 o2. sy_now E o1 = sy_now E o2" "URL b \<noteq> URL b'" "w_cb w3 = w_cb w"
  shows "lets E h (record_failure E h (URL b) w3) b' = lets E h w b'"
  using assms(2,3) assms(1) [of "w_o w3" "w_o w"] by (simp add: lets_def record_failure_def)

lemma try_backends_asks:
  assumes env: "\<And>o1 o2. sy_now E o1 = sy_now E o2" "lh_poolLimiter h = None \<or> PoolName def = []"
    and calls: "\<And>req s. fst (sy_do E req s) = reply req" "\<And>req s. sent (snd (sy_do E req s)) = sent s @ [req]"
    and "distinct (map URL bs)" "\<And>b v. b \<in> set bs \<Longrightarrow> upstream_request E prov def body path b v = (Inr (req b), v)"
  shows "\<exists>w'. try_backends E h prov def body path tried e bs w = (Inr (loop_result (\<lambda>b. reply (req b)) tried e (filter (lets E h w) bs)), w') \<and>
    sent (w_o w') = sent (w_o w) @ map req (asked (\<lambda>b. reply (req b)) (filter (lets E h w) bs))"
  using assms(5,6)
proof (induction bs arbitrary: tried e w)
  case (Cons b bs)
  have pool: "pool_admits E (lh_poolLimiter h) def (URL b) w = (True, w)" using env(2) by (auto simp: pool_admits_def split: option.split)
  obtain o1 where d: "sy_do E (req b) (w_o w) = (reply (req b), o1)" "sent o1 = sent (w_o w) @ [req b]"
    using calls [of "req b" "w_o w"] by (metis prod.collapse)
  let ?w3 = "w\<lparr>w_o := o1\<rparr>" let ?w4 = "record_failure E h (URL b) ?w3"
  have "filter (lets E h ?w4) bs = filter (lets E h w) bs"
    using Cons.prems(1) by (intro filter_cong refl lets_other env(1)) auto
  moreover have "\<exists>w'. try_backends E h prov def body path t e' bs v = (Inr (loop_result (\<lambda>b. reply (req b)) t e' (filter (lets E h v) bs)), w') \<and>
      sent (w_o w') = sent (w_o v) @ map req (asked (\<lambda>b. reply (req b)) (filter (lets E h v) bs))" for t e' v
    by (rule Cons.IH) (use Cons.prems in simp_all)
  ultimately have IH: "\<exists>w'. try_backends E h prov def body path t e' bs v = (Inr (loop_result (\<lambda>b. reply (req b)) t e' (filter (lets E h w) bs)), w') \<and>
      sent (w_o w') = sent (w_o v) @ map req (asked (\<lambda>b. reply (req b)) (filter (lets E h w) bs))" if "v = ?w4 \<or> v = w" for t e' v
    using that by metis
  show ?case
  proof (cases "lets E h w b")
    case False
    then have "try_backends E h prov def body path tried e (b # bs) w = try_backends E h prov def body path tried e bs w" by (simp add: lets_def)
    then show ?thesis using IH [of w tried e] False by (simp del: try_backends.simps)
  next
    case True
    then have step: "try_backends E h prov def body path tried e (b # bs) w =
        (if wins (reply (req b)) then (Inr (Won (projr (reply (req b)))), record_success h (URL b) ?w3)
         else try_backends E h prov def body path (tried + 1) (failure_of (reply (req b))) bs ?w4)"
      using pool d(1) Cons.prems(2) by (auto simp: lets_def on_objects_def wins_def failure_of_def hret_def split: sum.split simp del: append.simps)
    show ?thesis using step IH [of ?w4 "tried + 1" "failure_of (reply (req b))"] d(2) True by (auto simp del: try_backends.simps)
  qed
qed (simp add: hret_def)

text \<open>C32: With backends at different URLs, no backend is asked while its breaker is open, the others are asked one after the
  other in the order of the draw, each once and only until one answers below 500; that answer is returned. If
  all of them fail the reply is 502, and 503 where the breaker lets none through. (On a clock that stands still meanwhile, without a
  limit on the pool, where a request can be made for each backend and the reply depends on the request only.)\<close>

theorem failover_in_order:
  assumes "\<And>o1 o2. sy_now E o1 = sy_now E o2" "lh_poolLimiter h = None \<or> PoolName def = []"
    and "\<And>req s. fst (sy_do E req s) = reply req" "\<And>req s. sent (snd (sy_do E req s)) = sent s @ [req]"
    and "OrderedBackends (sy_draw E (w_o w)) (Backends def) = Some bs" "distinct (map URL bs)"
    and "\<And>b v. b \<in> set bs \<Longrightarrow> upstream_request E prov def body path b v = (Inr (req b), v)"
  shows "\<exists>w'. forward E h prov def body path w = (failover_result (\<lambda>b. reply (req b)) (filter (lets E h w) bs), w') \<and>
    sent (w_o w') = sent (w_o w) @ map req (asked (\<lambda>b. reply (req b)) (filter (lets E h w) bs))"
proof -
  obtain w' where w': "try_backends E h prov def body path 0 [] bs w = (Inr (loop_result (\<lambda>b. reply (req b)) 0 [] (filter (lets E h w) bs)), w')"
      "sent (w_o w') = sent (w_o w) @ map req (asked (\<lambda>b. reply (req b)) (filter (lets E h w) bs))"
    using try_backends_asks [where sent = sent, OF assms(1-4,6,7)] by metis
  show ?thesis
    using w' assms(5)
    by (auto simp: forward_def hbind_def hret_def llm_writeError_def stop_with_def set_hdr_def failover_result_def loop_result_def split: list.split
        simp del: append.simps dropWhile_eq_Nil_conv)
qed

section \<open>The cache\<close>

definition cached :: "entry_codec \<Rightarrow> keyspace \<Rightarrow> string \<Rightarrow> Entry \<Rightarrow> bool" where
  "cached ec ks k entry \<longleftrightarrow> (\<exists>e v. look ks k = Some e \<and> rv e = RStr v \<and> dec_entry ec v = Some entry)"

definition entry_codec_ok :: "entry_codec \<Rightarrow> bool" where
  "entry_codec_ok ec \<longleftrightarrow> (\<forall>entry. \<exists>v. enc_entry ec entry = Some v \<and> dec_entry ec v = Some entry)"

text \<open>A request whose answer is looked for, and stored, under \<open>k\<close>.\<close>

definition cacheable :: "('r, 'o, 'g, 'u) sync_env \<Rightarrow> Handler \<Rightarrow> JobRequest \<Rightarrow> Def \<Rightarrow> string \<Rightarrow> string \<Rightarrow> bool" where
  "cacheable E h rq def body k \<longleftrightarrow> lh_cache h = RedisCache \<and> \<not> isStreamingRequest (sy_jc E) body \<and>
     \<not> Contains (hGet (rq_Header rq) ''Cache-Control'') ''no-cache'' \<and> second \<le> ResponseCacheTTL def \<and>
     Key (sy_jc E) (sy_sha E) (Provider def) (Def.Model def) body = CacheKey k"

lemma cacheable_key: "cacheable E h rq def body k \<Longrightarrow> cache_key_for E rq def body = hret (Some k)"
  by (simp add: cacheable_def cache_key_for_def)

lemma CacheKey_prefix:
  assumes "Key jc sha p m body = CacheKey k"
  obtains d where "k = ''llm:cache:'' @ d"
  using assms by (auto simp: Key_def split: if_splits option.splits json.splits)

lemma cache_key_literal: "''llm:cache:'' @ d \<notin> limiter_keys" "''llm:cache:'' @ d \<noteq> semkey s n u" "''llm:cache:'' @ d \<in> proxy_keys"
  by (simp_all add: limiter_keys_def HasPrefix_def semkey_def reservedKeyFor_def sharedKeyFor_def)

lemma cache_key_foreign:
  assumes "Key jc sha p m body = CacheKey k"
  shows "k \<notin> limiter_keys" "k \<noteq> semkey s n u" "k \<in> proxy_keys"
  using CacheKey_prefix [OF assms]
  by (metis cache_key_literal)+

lemma cached_agree: "agree K ks ks' \<Longrightarrow> k \<notin> K \<Longrightarrow> cached ec ks' k e = cached ec ks k e"
  by (simp add: cached_def agree_look)

lemma touches_acquire: "rk \<in> K \<Longrightarrow> sk \<in> K \<Longrightarrow> touches K (acquireScript (ks_server n) rk sk a b t p)"
  unfolding acquireScript_def acquire_shared_def Let_def INCR_def DECR_def ks_server_simps by (intro touches_intros; simp)

lemma touches_release: "k \<in> K \<Longrightarrow> touches K (releaseScript (ks_server n) k)"
  unfolding releaseScript_def Let_def DECR_def ks_server_simps by (intro touches_intros; simp)

context live_server
begin

lemma Release_agrees: "agree {semkey s m used} (view st) (view (Release R s m used st))"
  using call_agrees [OF releaseScript_sim touches_release, of "semkey s m used" "{semkey s m used}" st]
  by (cases used) (simp_all add: Release_def semkey_def Let_def split: option.split)

lemma TryAcquire_touches: "agree (\<Union>u. {semkey s m u}) (view st) (view (snd (TryAcquire R s m prio st)))"
proof -
  have "touches (\<Union>u. {semkey s m u}) (acquireScript (ks_server ks_link) (reservedKeyFor s m) (sharedKeyFor s m) a b t p)" for a b t p
    by (rule touches_acquire) (auto simp: semkey_def)
  from call_agrees [OF acquireScript_sim this] have "rcall R (acquireScript R (reservedKeyFor s m) (sharedKeyFor s m) a b t p) st = (x, st') \<Longrightarrow>
      agree (\<Union>u. {semkey s m u}) (view st) (view st')" for a b t p x st'
    by (metis snd_conv)
  then show ?thesis by (simp add: TryAcquire_def Let_def split: option.split prod.split)
qed

lemma TryAcquire_agrees: "agree (\<Union>s u. {semkey s m u}) (view st) (view (snd (TryAcquire R s m prio st)))"
  by (rule agree_mono [OF TryAcquire_touches]) blast

lemma with_slot_ends:
  assumes "with_slot R sem m prio busy p w = (res, w1)"
  obtains (Busy) v where "busy v = (res, w1)" "agree (\<Union>s u. {semkey s m u}) (view (w_r w)) (view (w_r v))"
  | (Run) v v1 where "p v = (res, v1)" "agree (\<Union>s u. {semkey s m u}) (view (w_r w)) (view (w_r v))"
      "agree (\<Union>s u. {semkey s m u}) (view (w_r v1)) (view (w_r w1))"
proof (cases sem)
  case None
  then show ?thesis using assms(1) Run [of w w1] by (simp add: with_slot_def)
next
  case (Some s)
  obtain ok used st1 where t: "TryAcquire R s m prio (w_r w) = ((ok, used), st1)" by (metis prod.exhaust)
  then have a: "agree (\<Union>s u. {semkey s m u}) (view (w_r w)) (view st1)" using TryAcquire_agrees [of m "w_r w" s prio] by simp
  show ?thesis
  proof (cases ok)
    case False
    then show ?thesis using assms Some t a Busy [of "w\<lparr>w_r := st1\<rparr>"] by (simp add: with_slot_def on_redis_def)
  next
    case True
    obtain r v1 where r: "p (w\<lparr>w_r := st1\<rparr>) = (r, v1)" by fastforce
    then have "r = res" "w1 = v1\<lparr>w_r := Release R s m used (w_r v1)\<rparr>" using assms(1) Some t True by (simp_all add: with_slot_def on_redis_def)
    then show ?thesis
      using Run [OF r [unfolded \<open>r = res\<close>]] a agree_mono [OF Release_agrees [of s m used "w_r v1"], of "\<Union>s u. {semkey s m u}"] by auto
  qed
qed

lemma Set_caches:
  assumes "entry_codec_ok ec" "second \<le> ttl"
  shows "cached ec (view (snd (cache_Set R ec RedisCache k entry ttl st))) k entry"
proof -
  obtain v where v: "enc_entry ec entry = Some v" "dec_entry ec v = Some entry" using assms(1) by (auto simp: entry_codec_ok_def)
  obtain t where t: "0 < t" "set_ttl ttl = Some t" using set_ttl_pos [OF assms(2)] by blast
  have "ks_set k v (set_ttl ttl) (view st) = (Some (), put k \<lparr>rv = RStr v, deadline = Some (clock (view st) + t)\<rparr> (view st))"
    using t by (simp add: ks_set_def)
  from call_runs [OF SET this] obtain st1 where "rcall R (SET R k v (set_ttl ttl)) st = (Some (), st1)"
    "view st1 = put k \<lparr>rv = RStr v, deadline = Some (clock (view st) + t)\<rparr> (view st)" by metis
  then show ?thesis using v t by (simp add: cache_Set_def cached_def)
qed

lemma lookup_cached:
  assumes "sy_R E = R" "lh_cache h = RedisCache" "cached (sy_ec E) (view (w_r w)) k entry"
  obtains w1 where "cache_lookup E h (Some k) w = (Some entry, w1)" "view (w_r w1) = view (w_r w)" "w_o w1 = w_o w"
proof -
  obtain e v where e: "look (view (w_r w)) k = Some e" "rv e = RStr v" "dec_entry (sy_ec E) v = Some entry" using assms(3) by (auto simp: cached_def)
  then have "ks_get k (view (w_r w)) = (Some (Some v), view (w_r w))" by (simp add: ks_get_def)
  from call_runs [OF GET this] obtain st1 where "rcall R (GET R k) (w_r w) = (Some (Some v), st1)" "view st1 = view (w_r w)" by metis
  then show ?thesis using that [of "w\<lparr>w_r := st1\<rparr>"] e(3) assms(1,2)
    by (simp add: cache_lookup_def cache_Get_def on_redis_def rbind_def rret_def)
qed

lemma lookup_finds:
  assumes "sy_R E = R" "lh_cache h = RedisCache" "cache_lookup E h (Some k) w = (Some entry, w1)"
  shows "cached (sy_ec E) (view (w_r w)) k entry"
proof -
  obtain x ks where x: "ks_get k (view (w_r w)) = (x, ks)" by fastforce
  from call_runs [OF GET this] obtain st1 where g: "rcall R (GET R k) (w_r w) = (x, st1)" by metis
  then obtain v where "x = Some (Some v)" "dec_entry (sy_ec E) v = Some entry"
    using assms by (auto simp: cache_lookup_def cache_Get_def on_redis_def rbind_def rret_def rfail_def split: option.splits prod.splits)
  then show ?thesis using x by (auto simp: ks_get_def cached_def split: option.splits rval.splits)
qed

lemma answer_caches:
  assumes "sy_R E = R" "lh_cache h = RedisCache" "entry_codec_ok (sy_ec E)" "second \<le> ResponseCacheTTL def"
    and "answer E h rq prov def c u (Some k) resp w = (Inl \<lparr>Code = 200, Body = Raw data\<rparr>, w1)"
  shows "cached (sy_ec E) (view (w_r w1)) k \<lparr>ce_Body = data, ce_ContentType = ''application/json'', ce_StatusCode = 200\<rparr>"
  using assms(5) Set_caches [OF assms(3,4)]
  by (auto simp: answer_def output_guard_def assms(1,2) llm_writeError_def stop_with_def reply_raw_def snd_on_redis Let_def
      split: option.splits prod.splits if_splits)

end

text \<open>Replies of the gateway's own are told from answers.\<close>

lemma limit_refusal: "checkAndWriteTokenLimit E h rq def w = (Inl rep, w1) \<Longrightarrow> Body rep = LlmErr (Text ''token rate limit exceeded'')"
  by (auto simp: checkAndWriteTokenLimit_def token_refusal_def llm_writeError_def stop_with_def hret_def Let_def split: option.splits prod.splits if_splits)

lemma forward_refusal:
  assumes "forward E h prov def body path w = (Inl rep, w1)"
  shows "\<forall>d. Body rep \<noteq> Raw d"
proof -
  have u: "upstream_request E prov def body path b v = (Inl rep', v1) \<Longrightarrow> \<forall>d. Body rep' \<noteq> Raw d" for b v rep' v1
    by (auto simp: upstream_request_def Let_def llm_writeError_def stop_with_def panic_def hret_def split: option.splits if_splits rewrite.splits)
  have "try_backends E h prov def body path n e bs v = (Inl rep', v1) \<Longrightarrow> \<forall>d. Body rep' \<noteq> Raw d" for n e bs v rep' v1
  proof (induction bs arbitrary: n e v)
    case (Cons b bs)
    obtain ok x where p: "pool_admits E (lh_poolLimiter h) def (URL b) v = (ok, x)" by fastforce
    obtain res y where q: "upstream_request E prov def body path b x = (res, y)" by fastforce
    show ?case
    proof (cases res)
      case (Inr req)
      obtain d z where "on_objects (sy_do E req) y = (d, z)" by fastforce
      then show ?thesis using Cons p q Inr by (auto simp: hret_def split: sum.splits if_splits simp del: append.simps)
    qed (use Cons p q u in \<open>auto split: if_splits\<close>)
  qed (simp add: hret_def)
  then show ?thesis using assms
    by (auto simp: forward_def hbind_def hret_def llm_writeError_def stop_with_def panic_def split: option.splits prod.splits sum.splits attempt.splits if_splits)
qed

lemma ServeJSON_after_limits:
  assumes "cacheable E h rq def body k" "Get (Provider def) = Some prov" "checkAndWriteTokenLimit E h rq def w = (Inr (), w0)"
  shows "ServeJSON E h rq path def body c w =
    (case cache_lookup E h (Some k) w0 of
       (Some entry, w1) \<Rightarrow> serve_hit E h rq def c (header_of rq (lh_userTypeHeader h)) entry w1
     | (None, w1) \<Rightarrow> with_pool E h rq def (hbind (forward E h prov def body path)
         (answer E h rq prov def c (header_of rq (lh_userTypeHeader h)) (Some k))) w1)"
  using assms(1) by (simp add: ServeJSON_def Let_def assms(2,3) cacheable_key [OF assms(1)] hbind_def hret_def cacheable_def)

context live_server
begin

lemma ServeJSON_caches:
  assumes "sy_R E = R" "entry_codec_ok (sy_ec E)" "cacheable E h rq def body k"
    and "ServeJSON E h rq path def body c w = (Inl \<lparr>Code = 200, Body = Raw data\<rparr>, w1)"
  shows "\<exists>entry. cached (sy_ec E) (view (w_r w1)) k entry \<and> ce_Body entry = data \<and> ce_StatusCode entry = 200"
proof -
  let ?u = "header_of rq (lh_userTypeHeader h)"
  have c: "lh_cache h = RedisCache" "second \<le> ResponseCacheTTL def" "Key (sy_jc E) (sy_sha E) (Provider def) (Def.Model def) body = CacheKey k"
    using assms(3) by (simp_all add: cacheable_def)
  note foreign = cache_key_foreign [OF c(3)]
  obtain prov where prov: "Get (Provider def) = Some prov"
    using assms(4) by (cases "Get (Provider def)") (auto simp: ServeJSON_def llm_writeError_def stop_with_def)
  obtain r w0 where l: "checkAndWriteTokenLimit E h rq def w = (r, w0)" by fastforce
  then have r: "r = Inr ()"
    using assms(3,4) limit_refusal [of E h rq def w] by (cases r) (auto simp: ServeJSON_def Let_def prov hbind_def cacheable_def)
  obtain x v where x: "cache_lookup E h (Some k) w0 = (x, v)" by fastforce
  note run = ServeJSON_after_limits [OF assms(3) prov l [unfolded r], of path c, unfolded x assms(4)]
  show ?thesis
  proof (cases x)
    case (Some entry)
    then have "cached (sy_ec E) (view (w_r v)) k entry" "ce_Body entry = data" "ce_StatusCode entry = 200"
      using run lookup_finds [OF assms(1) c(1)] x cache_lookup_keeps(1) [OF assms(1) x] by (auto simp: serve_hit_def Let_def reply_raw_def)
    moreover have "agree limiter_keys (view (w_r v)) (view (w_r w1))"
    proof -
      have "agree limiter_keys (view (w_r v')) (view (w_r (add_tokens E h rq def us v')))" for v' us using add_tokens_agrees(1) [OF assms(1)] .
      from this [of "set_hdr ''X-Cache'' ''HIT'' (set_hdr ''Content-Type'' (ce_ContentType entry) (track_tokens E h def c ?u (emitTokenMetrics (sy_jc E) (ce_Body entry)) v))"]
      show ?thesis using run Some by (simp add: serve_hit_def Let_def reply_raw_def)
    qed
    ultimately show ?thesis using cached_agree foreign(1) by metis
  next
    case None
    then have "with_slot R (if PoolName def \<noteq> [] then lh_poolSemaphore h else None) (PoolName def) (header_of rq (lh_priorityHeader h) \<noteq> [])
        (llm_writeError 503 (Text ''backend pool too busy, retry later''))
        (hbind (forward E h prov def body path) (answer E h rq prov def c ?u (Some k))) v = (Inl \<lparr>Code = 200, Body = Raw data\<rparr>, w1)"
      using run assms(1) by (simp add: with_pool_def)
    from with_slot_ends [OF this] obtain v0 v1 where
      a: "hbind (forward E h prov def body path) (answer E h rq prov def c ?u (Some k)) v0 = (Inl \<lparr>Code = 200, Body = Raw data\<rparr>, v1)"
      "agree (\<Union>s u. {semkey s (PoolName def) u}) (view (w_r v1)) (view (w_r w1))"
      by cases (simp_all add: llm_writeError_def stop_with_def)
    obtain resp v2 where "answer E h rq prov def c ?u (Some k) resp v2 = (Inl \<lparr>Code = 200, Body = Raw data\<rparr>, v1)"
      using a(1) forward_refusal [of E h prov def body path v0] by (auto simp: hbind_def split: prod.splits sum.splits)
    from answer_caches [OF assms(1) c(1) assms(2) c(2) this] show ?thesis
      using cached_agree [OF a(2)] foreign(2) by fastforce
  qed
qed

lemma ServeJSON_hit:
  assumes "sy_R E = R" "cacheable E h rq def body k" "Get (Provider def) = Some prov" "checkAndWriteTokenLimit E h rq def w = (Inr (), w0)"
    and "cached (sy_ec E) (view (w_r w)) k entry"
  shows "\<exists>w1. ServeJSON E h rq path def body c w = (Inl \<lparr>Code = ce_StatusCode entry, Body = Raw (ce_Body entry)\<rparr>, w1) \<and> w_o w1 = w_o w0"
proof -
  have c: "lh_cache h = RedisCache" "Key (sy_jc E) (sy_sha E) (Provider def) (Def.Model def) body = CacheKey k" using assms(2) by (simp_all add: cacheable_def)
  have "agree limiter_keys (view (w_r w)) (view (w_r w0))" using limits_agree [OF assms(1)] assms(4) by (metis snd_conv)
  then have "cached (sy_ec E) (view (w_r w0)) k entry" using assms(5) cached_agree cache_key_foreign(1) [OF c(2)] by metis
  then obtain w2 where "cache_lookup E h (Some k) w0 = (Some entry, w2)" "w_o w2 = w_o w0" using lookup_cached [OF assms(1) c(1)] by metis
  then show ?thesis
    using ServeJSON_after_limits [OF assms(2,3,4), of path c] add_tokens_agrees(2) [OF assms(1)] by (simp add: serve_hit_def Let_def reply_raw_def set_hdr_def)
qed

end

text \<open>C34: An answer of status 200 to a request that may be cached is given again, without asking a backend, to every later
  request with the same key that the token budgets admit while the entry is in the cache.\<close>

theorem cached_answer_served_again:
  assumes "live_server (sy_R E) view" "entry_codec_ok (sy_ec E)" "cacheable E h rq def body k" "cacheable E h rq' def body' k"
    and "ServeJSON E h rq path def body c w = (Inl \<lparr>Code = 200, Body = Raw data\<rparr>, w1)"
    and "look (view (w_r w2)) k = look (view (w_r w1)) k" "fst (checkAndWriteTokenLimit E h rq' def w2) = Inr ()"
  shows "\<exists>w3. ServeJSON E h rq' path' def body' c' w2 = (Inl \<lparr>Code = 200, Body = Raw data\<rparr>, w3) \<and> w_o w3 = w_o w2"
proof -
  note live = live_server.ServeJSON_caches [OF assms(1) refl assms(2,3,5)] live_server.ServeJSON_hit [OF assms(1) refl assms(4)]
  obtain entry where e: "cached (sy_ec E) (view (w_r w1)) k entry" "ce_Body entry = data" "ce_StatusCode entry = 200" using live(1) by blast
  then have "cached (sy_ec E) (view (w_r w2)) k entry" using assms(6) by (simp add: cached_def)
  moreover obtain prov where "Get (Provider def) = Some prov"
    using assms(5) by (cases "Get (Provider def)") (auto simp: ServeJSON_def llm_writeError_def stop_with_def)
  moreover obtain w0 where "checkAndWriteTokenLimit E h rq' def w2 = (Inr (), w0)" "w_o w0 = w_o w2"
    using assms(7) limits_objects [of E h rq' def w2] by (metis prod.collapse)
  ultimately show ?thesis using live(2) e(2,3) by metis
qed

lemma jput_filter: "P k \<Longrightarrow> filter (\<lambda>kv. P (fst kv)) (jput k v kvs) = jput k v (filter (\<lambda>kv. P (fst kv)) kvs)"
  by (induction kvs) (auto intro: filter_cong)

lemma cacheable_doc_ignores:
  assumes "f \<notin> set cacheableFields"
  shows "cacheable_doc m (xs @ (f, v) # ys) = cacheable_doc m (xs @ ys)"
  using assms jput_filter [of "\<lambda>f. f \<in> set cacheableFields" "''model''" "JStr m"] by (simp add: cacheable_doc_def cacheableFields_def)

text \<open>Bodies that differ in the value of one member.\<close>

lemma Key_ignores:
  assumes "f \<notin> set cacheableFields" "f \<noteq> ''stream''" "body \<noteq> []" "body' \<noteq> []"
    and "parse_any jc body = Some (JObj (xs @ (f, v) # ys))" "parse_any jc body' = Some (JObj (xs @ (f, v') # ys))"
  shows "Key jc sha p m body' = Key jc sha p m body"
proof -
  have "jget (xs @ (f, u) # ys) ''stream'' = jget (xs @ ys) ''stream''" for u
    using assms(2) by (simp add: jget_def map_add_def split: option.split)
  then show ?thesis using assms(3-6) by (simp add: Key_def cacheable_doc_ignores [OF assms(1)])
qed

text \<open>C35: The prompt of a completion request is no part of the cache key: a request with another prompt is given the cached
  answer to the first one, and no backend is asked.\<close>

theorem other_prompt_same_answer:
  assumes "live_server (sy_R E) view" "entry_codec_ok (sy_ec E)" "cacheable E h rq def body k"
    and "parse_any (sy_jc E) body = Some (JObj (xs @ (''prompt'', p) # ys))" "parse_any (sy_jc E) body' = Some (JObj (xs @ (''prompt'', p') # ys))"
    and "body' \<noteq> []" "\<not> isStreamingRequest (sy_jc E) body'"
    and "ServeJSON E h rq path def body c w = (Inl \<lparr>Code = 200, Body = Raw data\<rparr>, w1)" "fst (checkAndWriteTokenLimit E h rq def w1) = Inr ()"
  shows "\<exists>w2. ServeJSON E h rq path def body' c w1 = (Inl \<lparr>Code = 200, Body = Raw data\<rparr>, w2) \<and> w_o w2 = w_o w1"
proof -
  have "''prompt'' \<notin> set cacheableFields" by (simp add: cacheableFields_def)
  moreover have "body \<noteq> []" using assms(3) by (auto simp: cacheable_def Key_def)
  ultimately have "cacheable E h rq def body' k" using Key_ignores [OF _ _ _ assms(6,4,5)] assms(3,7) by (simp add: cacheable_def)
  note hit = live_server.ServeJSON_caches [OF assms(1) refl assms(2,3,8)] live_server.ServeJSON_hit [OF assms(1) refl this]
  obtain entry where "cached (sy_ec E) (view (w_r w1)) k entry" "ce_Body entry = data" "ce_StatusCode entry = 200" using hit(1) by blast
  moreover obtain prov where "Get (Provider def) = Some prov"
    using assms(8) by (cases "Get (Provider def)") (auto simp: ServeJSON_def llm_writeError_def stop_with_def)
  moreover obtain w0 where "checkAndWriteTokenLimit E h rq def w1 = (Inr (), w0)" "w_o w0 = w_o w1"
    using assms(9) limits_objects [of E h rq def w1] by (metis prod.collapse)
  ultimately show ?thesis using hit(2) by metis
qed

section \<open>Output guardrails\<close>

text \<open>A service whose output guardrails block; a body in which they find nothing; a cache of such bodies.\<close>

definition output_blocks :: "Def \<Rightarrow> bool" where
  "output_blocks def \<longleftrightarrow> Enabled (Output (Guardrails def)) \<and> Action (Output (Guardrails def)) \<notin> {''redact'', ''flag''}"

definition clean :: "json_codec \<Rightarrow> Def \<Rightarrow> string \<Rightarrow> bool" where
  "clean jc def data \<longleftrightarrow> ScanResponse jc data (Checks (Output (Guardrails def))) = []"

definition clean_cache :: "('r, 'o, 'g, 'u) sync_env \<Rightarrow> Def \<Rightarrow> keyspace \<Rightarrow> bool" where
  "clean_cache E def ks \<longleftrightarrow> (\<forall>k entry. HasPrefix k ''llm:cache:'' \<and> cached (sy_ec E) ks k entry \<longrightarrow> clean (sy_jc E) def (ce_Body entry))"

text \<open>A reply below 300 that carries a body carries a clean one.\<close>

definition clean_reply :: "json_codec \<Rightarrow> Def \<Rightarrow> Reply + 'a \<Rightarrow> bool" where
  "clean_reply jc def res \<longleftrightarrow> (\<forall>rep data. res = Inl rep \<and> Body rep = Raw data \<and> Code rep < 300 \<longrightarrow> clean jc def data)"

lemma cache_prefix_foreign: "HasPrefix k ''llm:cache:'' \<Longrightarrow> k \<notin> pool_keys \<and> k \<notin> limiter_keys \<and> k \<noteq> semkey s m u"
  unfolding HasPrefix_iff using cache_key_literal by (auto simp: pool_keys_def HasPrefix_def simp del: append.simps)

lemma clean_cache_agree:
  assumes "agree K ks ks'" "K \<inter> {k. HasPrefix k ''llm:cache:''} = {}"
  shows "clean_cache E def ks' = clean_cache E def ks"
proof -
  have "cached (sy_ec E) ks' k e = cached (sy_ec E) ks k e" if "HasPrefix k ''llm:cache:''" for k e
    using cached_agree [OF assms(1)] assms(2) that by blast
  then show ?thesis by (auto simp: clean_cache_def)
qed

context live_server
begin

lemma Set_clean:
  assumes "entry_codec_ok (sy_ec E)" "clean_cache E def (view st)" "clean (sy_jc E) def (ce_Body entry)"
  shows "clean_cache E def (view (snd (cache_Set R (sy_ec E) ca k entry ttl st)))"
proof -
  have "e = entry \<or> cached (sy_ec E) (view st) k' e" if "cached (sy_ec E) (view (snd (cache_Set R (sy_ec E) ca k entry ttl st))) k' e" for k' e
  proof (cases "k' = k \<and> ca = RedisCache")
    case False
    then show ?thesis using that cached_agree [OF Set_agrees_key [of k st "sy_ec E" ca entry ttl], of k'] by (cases ca) (auto simp: cache_Set_def rret_def)
  next
    case True
    obtain v where v: "enc_entry (sy_ec E) entry = Some v" "dec_entry (sy_ec E) v = Some entry" using assms(1) by (auto simp: entry_codec_ok_def)
    let ?ks = "put k \<lparr>rv = RStr v, deadline = map_option ((+) (clock (view st))) (set_ttl ttl)\<rparr> (view st)"
    have "ks_set k v (set_ttl ttl) (view st) = (Some (), ?ks)" by (simp add: ks_set_def)
    from call_runs [OF SET this] obtain st1 where "rcall R (SET R k v (set_ttl ttl)) st = (Some (), st1)" "view st1 = ?ks" by metis
    then show ?thesis using that True v by (auto simp: cache_Set_def cached_def look_put_same split: if_splits)
  qed
  then show ?thesis using assms(2,3) unfolding clean_cache_def by blast
qed

lemma answer_clean:
  assumes "sy_R E = R" "entry_codec_ok (sy_ec E)" "output_blocks def" "clean_cache E def (view (w_r w))"
    and "answer E h rq prov def c u key resp w = (res, w1)"
  shows "clean_cache E def (view (w_r w1)) \<and> clean_reply (sy_jc E) def res"
proof -
  have t: "clean_cache E def (view (w_r (add_tokens E h rq def us v))) = clean_cache E def (view (w_r v))" for us v
    by (rule clean_cache_agree [OF add_tokens_agrees(1) [OF assms(1)]]) (use cache_prefix_foreign in auto)
  have g: "clean (sy_jc E) def data \<or> 300 \<le> st \<and> \<not> (\<not> b \<and> st = 200)" if "output_guard (sy_jc E) (Output (Guardrails def)) st0 body0 = (st, data, b)" for st0 body0 st data b
    using that assms(3) by (auto simp: output_guard_def output_blocks_def clean_def split: if_splits)
  show ?thesis
    using assms(4,5) Set_clean [OF assms(2)]
    by (auto simp: answer_def assms(1) clean_reply_def llm_writeError_def stop_with_def reply_raw_def snd_on_redis t Let_def
        split: option.splits prod.splits if_splits dest!: g)
qed

lemma hit_clean:
  assumes "sy_R E = R" "clean_cache E def (view (w_r w))" "cache_key_for E rq def body w = (Inr key, w)" "cache_lookup E h key w = (Some entry, w1)"
  shows "clean (sy_jc E) def (ce_Body entry)"
proof -
  obtain k where k: "key = Some k" "lh_cache h = RedisCache"
    using assms(4) by (cases key; cases "lh_cache h") (auto simp: cache_lookup_def cache_Get_def on_redis_def rret_def)
  have "HasPrefix k ''llm:cache:''"
    using assms(3) k(1) by (auto simp: cache_key_for_def Key_def hret_def panic_def HasPrefix_def split: if_splits cache_key.splits option.splits json.splits)
  moreover have "cached (sy_ec E) (view (w_r w)) k entry" using lookup_finds [OF assms(1) k(2)] assms(4) k(1) by blast
  ultimately show ?thesis using assms(2) unfolding clean_cache_def by blast
qed

lemma pool_clean:
  assumes "sy_R E = R" "entry_codec_ok (sy_ec E)" "output_blocks def" "clean_cache E def (view (w_r w))"
    and "with_pool E h rq def (hbind (forward E h prov def body path) (answer E h rq prov def c u key)) w = (res, w1)"
  shows "clean_cache E def (view (w_r w1)) \<and> clean_reply (sy_jc E) def res"
proof -
  have slots: "clean_cache E def ks' = clean_cache E def ks" if "agree (\<Union>s u. {semkey s (PoolName def) u}) ks ks'" for ks ks'
    by (rule clean_cache_agree [OF that]) (use cache_prefix_foreign in auto)
  from assms(5) [unfolded with_pool_def assms(1)] show ?thesis
  proof (cases rule: with_slot_ends)
    case (Busy v)
    then show ?thesis using assms(4) slots by (auto simp: llm_writeError_def stop_with_def clean_reply_def)
  next
    case (Run v v1)
    obtain fr v2 where f: "forward E h prov def body path v = (fr, v2)" by fastforce
    have "clean_cache E def (view (w_r v2))"
      using clean_cache_agree [OF keepsD [OF forward_keeps_pool [OF assms(1)] f]] cache_prefix_foreign slots [OF Run(2)] assms(4) by blast
    then have "clean_cache E def (view (w_r v1)) \<and> clean_reply (sy_jc E) def res"
      using Run(1) f answer_clean [OF assms(1-3)] forward_refusal [of E h prov def body path v]
      by (cases fr) (auto simp: hbind_def clean_reply_def)
    then show ?thesis using slots [OF Run(3)] by simp
  qed
qed

lemma ServeJSON_clean:
  assumes "sy_R E = R" "entry_codec_ok (sy_ec E)" "output_blocks def" "\<not> isStreamingRequest (sy_jc E) body" "clean_cache E def (view (w_r w))"
    and "ServeJSON E h rq path def body c w = (res, w1)"
  shows "clean_cache E def (view (w_r w1)) \<and> clean_reply (sy_jc E) def res"
proof (cases "Get (Provider def)")
  case None
  then show ?thesis using assms(5,6) by (auto simp: ServeJSON_def Let_def llm_writeError_def stop_with_def clean_reply_def)
next
  case (Some prov)
  let ?u = "header_of rq (lh_userTypeHeader h)"
  obtain r w0 where l: "checkAndWriteTokenLimit E h rq def w = (r, w0)" by fastforce
  have c0: "clean_cache E def (view (w_r w0))"
    using clean_cache_agree [OF limits_agree [OF assms(1), of w h rq def]] cache_prefix_foreign l assms(5) by fastforce
  obtain kr w2 where k: "cache_key_for E rq def body w0 = (kr, w2)" by fastforce
  have w2: "w2 = w0" "clean_reply (sy_jc E) def kr"
    using k by (auto simp: cache_key_for_def hret_def panic_def clean_reply_def split: if_splits cache_key.splits)
  have run: "ServeJSON E h rq path def body c w =
      (case r of Inl rep \<Rightarrow> (Inl rep, w0) | Inr _ \<Rightarrow> (case kr of Inl rep \<Rightarrow> (Inl rep, w0) | Inr key \<Rightarrow>
        (case cache_lookup E h key w0 of (Some entry, v) \<Rightarrow> serve_hit E h rq def c ?u entry v
         | (None, v) \<Rightarrow> with_pool E h rq def (hbind (forward E h prov def body path) (answer E h rq prov def c ?u key)) v)))"
    using assms(4) l k w2(1) by (simp add: ServeJSON_def Let_def Some hbind_def split: sum.split)
  show ?thesis
  proof (cases r)
    case (Inl rep)
    then show ?thesis using run assms(6) limit_refusal [OF l [unfolded Inl]] c0 by (auto simp: clean_reply_def)
  next
    case r: (Inr x)
    show ?thesis
    proof (cases kr)
      case (Inl rep)
      then show ?thesis using run assms(6) r w2(2) c0 by (auto simp: clean_reply_def)
    next
      case (Inr key)
      obtain e v where e: "cache_lookup E h key w0 = (e, v)" by fastforce
      have cv: "clean_cache E def (view (w_r v))" using c0 cache_lookup_keeps(1) [OF assms(1) e] by simp
      show ?thesis
      proof (cases e)
        case None
        then have "with_pool E h rq def (hbind (forward E h prov def body path) (answer E h rq prov def c ?u key)) v = (res, w1)"
          using run assms(6) r Inr e by simp
        then show ?thesis by (rule pool_clean [OF assms(1-3) cv])
      next
        case (Some entry)
        have t: "clean_cache E def (view (w_r (add_tokens E h rq def us v'))) = clean_cache E def (view (w_r v'))" for us v'
          by (rule clean_cache_agree [OF add_tokens_agrees(1) [OF assms(1)]]) (use cache_prefix_foreign in auto)
        have "clean (sy_jc E) def (ce_Body entry)" using hit_clean [OF assms(1) c0] k Inr e Some w2(1) by blast
        then show ?thesis using run assms(6) r Inr e Some cv by (auto simp: serve_hit_def Let_def reply_raw_def clean_reply_def t)
      qed
    qed
  qed
qed

end

text \<open>C33: Where the output guardrails of a service block, every whole answer below 300 that is sent, and every one that is put
  into the cache, is one they find nothing in; so a cache of such answers stays one.\<close>

theorem unclean_answers_neither_sent_nor_cached:
  assumes "live_server (sy_R E) view" "entry_codec_ok (sy_ec E)" "output_blocks def" "\<not> isStreamingRequest (sy_jc E) body"
    and "clean_cache E def (view (w_r w))"
  shows "clean_cache E def (view (w_r (snd (ServeJSON E h rq path def body consumer w)))) \<and>
    clean_reply (sy_jc E) def (fst (ServeJSON E h rq path def body consumer w))"
  using live_server.ServeJSON_clean [OF assms(1) refl assms(2-5)] by (metis prod.collapse)

section \<open>Tokens\<close>

text \<open>The tokens that the gateway charges for a translated answer of Anthropic are the ones its translation reports, so a
  delivery from the cache is charged like the first one.\<close>

theorem translated_usage_kept:
  assumes "\<And>j s. render jc j = Some s \<Longrightarrow> parse jc s = Some j" "TranslateResponse jc Anthropic status body = Some (status', translated, Some usage)"
  shows "emitTokenMetrics jc translated = Some usage"
proof -
  obtain resp where r: "decode_response jc body = Some resp" "render jc (openai_doc resp) = Some translated"
      "usage = \<lparr>u_PromptTokens = ar_InputTokens resp, u_CompletionTokens = ar_OutputTokens resp\<rparr>"
    using assms(2) by (auto simp: TranslateResponse_def anthropicToOpenAI_def split: if_splits option.splits bind_splits)
  have i: "dec_int j = Some n \<Longrightarrow> int64 n" for j n by (auto simp: dec_int_def int64_def split: json.splits if_splits)
  have "int64 (ar_InputTokens resp)" "int64 (ar_OutputTokens resp)"
    using r(1) by (auto simp: decode_response_def split: bind_splits dest: i)
  then have "dec_int (JNum (of_int (ar_InputTokens resp))) = Some (ar_InputTokens resp)" "dec_int (JNum (of_int (ar_OutputTokens resp))) = Some (ar_OutputTokens resp)"
    by (simp_all add: dec_int_def)
  then show ?thesis using assms(1) [OF r(2)] r(3)
    by (simp add: emitTokenMetrics_def parseOpenAIUsage_def openai_doc_def Let_def jfield_def dec_struct_def)
qed

section \<open>Concrete requests\<close>

text \<open>Entries in unary, two bodies that differ in their prompt, a backend that is down and one that answers; the state of the
  world outside is the list of requests sent.\<close>

definition unary_codec :: entry_codec where
  "unary_codec = \<lparr>enc_entry = (\<lambda>e. Some ((if ce_StatusCode e < 0 then CHR ''-'' else CHR ''+'') # replicate (nat \<bar>ce_StatusCode e\<bar>) CHR ''x'' @ CHR ''|'' #
       replicate (length (ce_ContentType e)) CHR ''x'' @ CHR ''|'' # ce_ContentType e @ ce_Body e)),
     dec_entry = (\<lambda>v. let a = takeWhile (\<lambda>c. c = CHR ''x'') (tl v); r = drop (length a + 1) (tl v);
         b = takeWhile (\<lambda>c. c = CHR ''x'') r; t = drop (length b + 1) r
       in Some \<lparr>ce_Body = drop (length b) t, ce_ContentType = take (length b) t,
            ce_StatusCode = (if hd v = CHR ''-'' then - int (length a) else int (length a))\<rparr>)\<rparr>"

lemma unary_codec_ok: "entry_codec_ok unary_codec"
proof -
  have t: "takeWhile (\<lambda>c. c = CHR ''x'') (replicate n CHR ''x'' @ CHR ''|'' # zs) = replicate n CHR ''x''" for n zs
    by (induction n) simp_all
  have d: "drop (Suc (length (replicate n c))) (replicate n c @ x # zs) = zs" for n c x and zs :: string by (induction n) simp_all
  have "dec_entry unary_codec (the (enc_entry unary_codec e)) = Some e" for e
    by (cases e) (simp add: unary_codec_def Let_def t)
  then show ?thesis by (simp add: entry_codec_ok_def unary_codec_def)
qed

definition prompts :: json_codec where
  "prompts = (let p = (\<lambda>s. if s = ''a'' then Some (JObj [(''prompt'', JStr ''x'')]) else if s = ''b'' then Some (JObj [(''prompt'', JStr ''y'')]) else None)
     in \<lparr>parse = p, parse_any = p, render = (\<lambda>_. Some ''{}'')\<rparr>)"

lemma prompts_simps [simp]:
  "parse prompts ''a'' = Some (JObj [(''prompt'', JStr ''x'')])" "parse_any prompts ''a'' = Some (JObj [(''prompt'', JStr ''x'')])"
  "parse prompts ''b'' = Some (JObj [(''prompt'', JStr ''y'')])" "parse_any prompts ''b'' = Some (JObj [(''prompt'', JStr ''y'')])"
  "parse prompts ''ok'' = None" "render prompts j = Some ''{}''"
  by (simp_all add: prompts_def Let_def)

definition reply_of :: "HttpRequest \<Rightarrow> string + HttpResponse" where
  "reply_of req = (if HasPrefix (up_URL req) ''http://down'' then Inl ''refused'' else Inr \<lparr>rs_Status = 200, rs_Header = [], rs_Body = ''ok'', rs_Complete = True\<rparr>)"

definition lm_env :: "(keyspace, HttpRequest list, unit, unit) sync_env" where
  "lm_env = \<lparr>sy_R = ks_server ks_link, sy_pd = no_durations, sy_show_dur = (\<lambda>_. []), sy_jc = prompts, sy_ec = unary_codec, sy_sha = (\<lambda>_. ''d''),
     sy_G = no_models, sy_U = (\<lambda>_ u. u), sy_track = (\<lambda>_ _ _ _ u. u), sy_do = (\<lambda>req sent. (reply_of req, sent @ [req])),
     sy_write = (\<lambda>_ o1. (True, o1)), sy_now = (\<lambda>_. 0), sy_draw = (\<lambda>_ _. 0), sy_valid_url = (\<lambda>_. True)\<rparr>"

definition lm_world :: "(keyspace, HttpRequest list, unit, unit) world" where
  "lm_world = \<lparr>w_r = no_keys, w_o = [], w_g = (), w_u = (), w_cb = NewCircuitBreaker 0 0, w_hdr = [], w_slot = False\<rparr>"

definition lm_handler :: Handler where
  "lm_handler = WithCircuitBreaker (llm_New RedisCache [] None) True"

definition lm_pool_handler :: Handler where
  "lm_pool_handler = WithPoolSemaphore lm_handler (Some sample_sem)"

definition lm_backends :: "Backend list" where
  "lm_backends = [\<lparr>URL = ''http://down'', Weight = 1, Headers = [], be_Model = []\<rparr>, \<lparr>URL = ''http://up'', Weight = 0, Headers = [], be_Model = []\<rparr>]"

definition lm_def :: Def where
  "lm_def = guarded_def\<lparr>Provider := ''openai'', Backends := lm_backends, PoolName := ''m'', BackendModel := [], InferenceHeaders := [],
     ResponseCacheTTL := 60 * second, Guardrails := (Guardrails guarded_def)\<lparr>Output := no_stage\<lparr>Enabled := True, Checks := [CheckPIIFR], Action := ''block''\<rparr>\<rparr>\<rparr>"

lemmas lm_simps = lm_env_def lm_world_def lm_handler_def WithCircuitBreaker_def llm_New_def lm_def_def

lemma lm_order: "OrderedBackends (\<lambda>_. 0) lm_backends = Some lm_backends"
  by code_simp

lemma lm_draw: "OrderedBackends (sy_draw lm_env s) (Backends lm_def) = Some lm_backends"
  by (simp add: lm_env_def lm_def_def lm_order)

lemma json_header: "CanonicalHeaderKey ''Content-Type'' = ''Content-Type''"
  by code_simp

lemma lm_request: "upstream_request lm_env OpenAI lm_def body path b w = (Inr \<lparr>up_URL = (if URL b = [] then ''https://api.openai.com'' else URL b) @ path,
    up_Header = [(''Content-Type'', [''application/json''])], up_Body = body\<rparr>, w)" if "b \<in> set lm_backends"
  using that by (auto simp: upstream_request_def effective_model_def lm_simps lm_backends_def BuildRequest_def openai_BuildRequest_def post_json_def set_headers_def hret_def hSet_def json_header)

lemma lm_pools: "pool_admits lm_env (lh_poolLimiter lm_handler) def u w = (True, w)"
  by (simp add: pool_admits_def lm_handler_def WithCircuitBreaker_def llm_New_def)

lemma lm_first:
  "\<exists>w. try_backends lm_env lm_handler OpenAI lm_def body path 0 [] lm_backends (lm_world\<lparr>w_r := st\<rparr>) =
    (Inr (Won \<lparr>rs_Status = 200, rs_Header = [], rs_Body = ''ok'', rs_Complete = True\<rparr>), w) \<and> w_r w = st"
proof -
  have open0: "Allow 0 (NewCircuitBreaker 0 0) u" "Allow 0 (RecordFailure 0 ''http://down'' (NewCircuitBreaker 0 0)) ''http://up''" for u
    by (simp_all add: Allow_def NewCircuitBreaker_def RecordFailure_def Let_def)
  show ?thesis
    using lm_request [of "lm_backends ! 0"] lm_request [of "lm_backends ! 1"] lm_pools open0
    by (simp add: lm_backends_def) (simp add: lm_env_def lm_world_def on_objects_def reply_of_def HasPrefix_def record_failure_def hret_def)
qed

lemma lm_cacheable:
  assumes "body = ''a'' \<or> body = ''b''"
  shows "cacheable lm_env lm_handler (poll_by ''bob'') lm_def body ''llm:cache:d''"
proof -
  have "Contains (hGet [(''X-Consumer'', [''bob''])] ''Cache-Control'') ''no-cache'' = False" by code_simp
  moreover have "fold_key ''prompt'' = ''prompt''" by code_simp
  ultimately show ?thesis
    using assms by (auto simp: cacheable_def lm_simps poll_by_def isStreamingRequest_def Key_def canonicalize_def jfield_def dec_bool_def jget_def)
qed

lemma lm_unlimited: "checkAndWriteTokenLimit lm_env lm_handler rq lm_def w = (Inr (), w)"
  by (simp add: checkAndWriteTokenLimit_def lm_simps hret_def)

lemma lm_provider: "Get (Provider lm_def) = Some OpenAI"
  by (simp add: lm_def_def) code_simp

lemma lm_answered:
  assumes "body = ''a'' \<or> body = ''b''"
  shows "fst (ServeJSON lm_env lm_handler (poll_by ''bob'') path lm_def body c lm_world) = Inl \<lparr>Code = 200, Body = Raw ''ok''\<rparr>"
proof -
  have miss: "cache_lookup lm_env lm_handler (Some ''llm:cache:d'') lm_world = (None, lm_world\<lparr>w_r := no_keys\<rparr>)"
    by (simp add: cache_lookup_def lm_simps cache_Get_def on_redis_def rbind_def rret_def rcall_def ks_server_simps ks_link_def ks_get_def)
  obtain w where w: "try_backends lm_env lm_handler OpenAI lm_def body path 0 [] lm_backends (lm_world\<lparr>w_r := no_keys\<rparr>) =
    (Inr (Won \<lparr>rs_Status = 200, rs_Header = [], rs_Body = ''ok'', rs_Complete = True\<rparr>), w)" using lm_first by blast
  have "forward lm_env lm_handler OpenAI lm_def body path (lm_world\<lparr>w_r := no_keys\<rparr>) = (Inr \<lparr>rs_Status = 200, rs_Header = [], rs_Body = ''ok'', rs_Complete = True\<rparr>, w)"
    using w lm_draw by (simp add: forward_def hbind_def hret_def)
  moreover have "output_guard prompts (Output (Guardrails lm_def)) 200 ''ok'' = (200, ''ok'', False)"
    by (simp add: output_guard_def lm_def_def ScanResponse_def extractResponseTexts_def scanTexts_def)
  ultimately show ?thesis
    using ServeJSON_after_limits [OF lm_cacheable [OF assms] lm_provider lm_unlimited, of path c lm_world] miss
    by (simp add: with_pool_def with_slot_def hbind_def answer_def TranslateResponse_def Let_def reply_raw_def lm_handler_def WithCircuitBreaker_def llm_New_def lm_env_def)
qed

theorem failover_in_order_witness:
  "\<exists>w'. forward lm_env lm_handler OpenAI lm_def ''a'' [] lm_world = (Inr \<lparr>rs_Status = 200, rs_Header = [], rs_Body = ''ok'', rs_Complete = True\<rparr>, w') \<and>
     map up_URL (w_o w') = [''http://down'', ''http://up'']"
proof -
  let ?req = "\<lambda>b. \<lparr>up_URL = URL b, up_Header = [(''Content-Type'', [''application/json''])], up_Body = ''a''\<rparr>"
  have r: "upstream_request lm_env OpenAI lm_def ''a'' [] b v = (Inr (?req b), v)" if "b \<in> set lm_backends" for b v
    using lm_request [OF that] that by (auto simp: lm_backends_def)
  have l: "filter (lets lm_env lm_handler lm_world) lm_backends = lm_backends"
    by (simp add: lets_def lm_backends_def lm_env_def lm_world_def Allow_def NewCircuitBreaker_def)
  have "\<exists>w'. forward lm_env lm_handler OpenAI lm_def ''a'' [] lm_world =
        (failover_result (\<lambda>b. reply_of (?req b)) (filter (lets lm_env lm_handler lm_world) lm_backends), w') \<and>
      id (w_o w') = id (w_o lm_world) @ map ?req (asked (\<lambda>b. reply_of (?req b)) (filter (lets lm_env lm_handler lm_world) lm_backends))"
    by (rule failover_in_order) (use lm_order r in \<open>auto simp: lm_env_def lm_handler_def WithCircuitBreaker_def llm_New_def lm_def_def lm_backends_def\<close>)
  then show ?thesis
    unfolding l by (auto simp: failover_result_def lm_backends_def reply_of_def wins_def HasPrefix_def lm_world_def)
qed

theorem pool_slots_returned_witness:
  "slot_counts (w_r (snd (ServeJSON lm_env lm_pool_handler (poll_by ''bob'') [] lm_def ''a'' [] lm_world))) sample_sem ''m'' (\<lambda>_. 0)"
proof -
  have "slot_counts (id (w_r lm_world)) sample_sem (PoolName lm_def) (\<lambda>_. 0)" by (simp add: slot_counts_def lm_world_def)
  moreover have "PoolName lm_def = ''m''" by (simp add: lm_def_def)
  ultimately show ?thesis
    using pool_slots_returned [of lm_env id lm_pool_handler sample_sem lm_world lm_def "\<lambda>_. 0" "poll_by ''bob''" "[]" "''a''" "[]"] lks.live_server_axioms
    by (simp add: lm_env_def lm_pool_handler_def WithPoolSemaphore_def)
qed

lemma lm_live: "live_server (sy_R lm_env) id" "entry_codec_ok (sy_ec lm_env)"
  using lks.live_server_axioms unary_codec_ok by (simp_all add: lm_env_def)

definition lm_later :: "(keyspace, HttpRequest list, unit, unit) world" where
  "lm_later = snd (ServeJSON lm_env lm_handler (poll_by ''bob'') [] lm_def ''a'' [] lm_world)"

lemma lm_first_answer: "ServeJSON lm_env lm_handler (poll_by ''bob'') [] lm_def ''a'' [] lm_world = (Inl \<lparr>Code = 200, Body = Raw ''ok''\<rparr>, lm_later)"
  unfolding lm_later_def using lm_answered [of "''a''" "[]" "[]"] by (simp add: prod_eq_iff)

theorem cached_answer_served_again_witness:
  "\<exists>w. ServeJSON lm_env lm_handler (poll_by ''bob'') [] lm_def ''a'' [] lm_later = (Inl \<lparr>Code = 200, Body = Raw ''ok''\<rparr>, w) \<and> w_o w = w_o lm_later"
  using cached_answer_served_again [OF lm_live lm_cacheable lm_cacheable lm_first_answer, of "''a''"] lm_unlimited [of "poll_by ''bob''" lm_later] by simp

theorem other_prompt_same_answer_witness:
  "\<exists>w. ServeJSON lm_env lm_handler (poll_by ''bob'') [] lm_def ''b'' [] lm_later = (Inl \<lparr>Code = 200, Body = Raw ''ok''\<rparr>, w) \<and> w_o w = w_o lm_later"
proof -
  have "sy_jc lm_env = prompts" by (simp add: lm_env_def)
  moreover have "\<not> isStreamingRequest prompts ''b''" using lm_cacheable [of "''b''"] by (simp add: cacheable_def lm_env_def)
  ultimately show ?thesis
    using other_prompt_same_answer [OF lm_live lm_cacheable, of "''a''" "[]" "JStr ''x''" "[]" "''b''" "JStr ''y''" "[]" "[]" lm_world "''ok''" lm_later]
      lm_first_answer lm_unlimited [of "poll_by ''bob''" lm_later] by simp
qed

theorem unclean_answers_witness:
  "clean_cache lm_env lm_def (w_r lm_later) \<and> clean_reply prompts lm_def (fst (ServeJSON lm_env lm_handler (poll_by ''bob'') [] lm_def ''a'' [] lm_world))"
proof -
  have "output_blocks lm_def" by (simp add: output_blocks_def lm_def_def)
  moreover have "\<not> isStreamingRequest (sy_jc lm_env) ''a''" using lm_cacheable [of "''a''"] by (simp add: cacheable_def)
  moreover have "clean_cache lm_env lm_def (id (w_r lm_world))" by (simp add: clean_cache_def cached_def lm_world_def)
  moreover have "sy_jc lm_env = prompts" by (simp add: lm_env_def)
  ultimately show ?thesis
    using unclean_answers_neither_sent_nor_cached [OF lm_live, of lm_def "''a''" lm_world lm_handler "poll_by ''bob''" "[]" "[]"] by (simp add: lm_later_def)
qed

text \<open>An answer of Anthropic, in a codec that knows it and its translation.\<close>

definition claude :: anthropicResponse where
  "claude = \<lparr>ar_ID = ''i'', ar_Model = ''c'', ar_Content = [(''text'', ''hi'')], ar_StopReason = ''end_turn'', ar_InputTokens = 3, ar_OutputTokens = 4\<rparr>"

definition claude_codec :: json_codec where
  "claude_codec = \<lparr>parse = (\<lambda>s. if s = ''A'' then Some (JObj [(''id'', JStr ''i''), (''model'', JStr ''c''),
       (''content'', JArr [JObj [(''type'', JStr ''text''), (''text'', JStr ''hi'')]]), (''stop_reason'', JStr ''end_turn''),
       (''usage'', JObj [(''input_tokens'', JNum 3), (''output_tokens'', JNum 4)])])
     else if s = ''T'' then Some (openai_doc claude) else None),
     parse_any = (\<lambda>_. None), render = (\<lambda>j. if j = openai_doc claude then Some ''T'' else None)\<rparr>"

theorem translated_usage_kept_witness:
  "emitTokenMetrics claude_codec ''T'' = Some \<lparr>u_PromptTokens = 3, u_CompletionTokens = 4\<rparr>"
proof -
  have "TranslateResponse claude_codec Anthropic 200 ''A'' = Some (200, ''T'', Some \<lparr>u_PromptTokens = 3, u_CompletionTokens = 4\<rparr>)" by code_simp
  moreover have "render claude_codec j = Some s \<Longrightarrow> parse claude_codec s = Some j" for j s by (auto simp: claude_codec_def split: if_splits)
  ultimately show ?thesis using translated_usage_kept by blast
qed

end
