(* ===== verification/SyncRun.thy ===== *)
theory SyncRun
  imports Sync LlmRun "HOL-Library.Sublist"
begin

text \<open>
  What the synchronous handler promises: a backend is asked only for a service the caller may see and use, input that the
  guardrails block stays in the gateway, a request is put to the backends a bounded number of times and a streamed upload
  once, and the slot of a model is given back.
\<close>

section \<open>Requests to the backends\<close>

lemma pick_less: "pick x acc bs = Some i \<Longrightarrow> i < length bs"
  by (induction x acc bs arbitrary: i rule: pick.induct) (auto simp: Let_def split: if_splits)

lemma OrderedBackends_mset:
  assumes "OrderedBackends rnd bs = Some cs"
  shows "mset cs = mset bs"
proof -
  let ?pos = "filter (\<lambda>b. Weight b > 0) bs" and ?zero = "filter (\<lambda>b. \<not> Weight b > 0) bs"
  define i where "i = (case pick (rnd (total_weight ?pos)) 0 ?pos of Some i \<Rightarrow> i | None \<Rightarrow> 0)"
  have split: "mset ?pos + mset ?zero = mset bs" unfolding mset_filter by (rule multiset_partition [symmetric])
  have "i < length ?pos" if "?pos \<noteq> []" using that pick_less [of _ 0 ?pos] by (auto simp: i_def split: option.split)
  from mset_remove_nth [OF this]
  have "add_mset (?pos ! i) (mset (take i ?pos) + mset (drop (Suc i) ?pos)) = mset ?pos" if "?pos \<noteq> []" using that by simp
  then have "mset (?pos ! i # sort_key (\<lambda>b. - Weight b) (take i ?pos @ drop (Suc i) ?pos) @ ?zero) = mset bs" if "?pos \<noteq> []"
    using that split by (simp del: mset_filter) (metis union_mset_add_mset_left)
  then show ?thesis using assms by (auto simp: OrderedBackends_def Let_def simp del: mset_append mset.simps simp flip: i_def split: if_splits)
qed

text \<open>The exchanges with backends, each a request and its outcome, read off the world outside.\<close>

type_synonym exchange = "HttpRequest \<times> (string + HttpResponse)"

definition logs_exchanges :: "('o \<Rightarrow> exchange list) \<Rightarrow> ('r, 'o, 'g, 'u) proxy_env \<Rightarrow> bool" where
  "logs_exchanges sent P \<longleftrightarrow>
     (\<forall>req s. sent (snd (sy_do (px_E P) req s)) = sent s @ [(req, fst (sy_do (px_E P) req s))]) \<and> (\<forall>d s. sent (snd (px_wait P d s)) = sent s)"

definition no_answer :: "exchange \<Rightarrow> bool" where
  "no_answer x \<longleftrightarrow> (case snd x of Inl _ \<Rightarrow> True | Inr resp \<Rightarrow> rs_Status resp \<ge> 500)"

text \<open>What a round may put to the backends \<open>bs\<close>: one request each, in their order.\<close>

fun asks :: "('r, 'o, 'g, 'u) proxy_env \<Rightarrow> SyncRequest \<Rightarrow> Def \<Rightarrow> bodySource \<Rightarrow> string \<Rightarrow> Backend list \<Rightarrow> HttpRequest list" where
  "asks P sq def src ct [] = []"
| "asks P sq def src ct (b # bs) =
     (case px_target P (URL b) (sq_Path sq) (sq_RawQuery sq) of
        None \<Rightarrow> asks P sq def src ct bs | Some url \<Rightarrow> direct_request sq def src ct url b # asks P sq def src ct bs)"

text \<open>From \<open>s\<close> to \<open>s'\<close> the exchanges \<open>xs\<close> took place, as in a round over \<open>bs\<close>: without an answer they have all failed, else all
  but the last; a body that is streamed takes part in at most one.\<close>

definition asked_in_order :: "(exchange list \<Rightarrow> bool) \<Rightarrow> HttpRequest list \<Rightarrow> bodySource \<Rightarrow> bool \<Rightarrow> round \<Rightarrow> exchange list \<Rightarrow> bool" where
  "asked_in_order logged reqs src used r xs \<longleftrightarrow>
     logged xs \<and> subseq (map fst xs) reqs \<and> (reusable src \<or> length xs \<le> of_bool (\<not> used)) \<and>
     (case r of Served _ \<Rightarrow> \<forall>x \<in> set (butlast xs). no_answer x | Failed _ \<Rightarrow> \<forall>x \<in> set xs. no_answer x)"

lemma pool_admits_objects: "pool_admits E l def u w = (ok, w1) \<Longrightarrow> w_o w1 = w_o w"
  by (auto simp: pool_admits_def on_redis_def split: option.splits prod.splits if_splits)

lemma try_round_asks:
  assumes "logs_exchanges sent P"
  shows "\<exists>xs. asked_in_order (\<lambda>xs. sent (w_o (snd (try_round P h sq def src ct used e bs w))) = sent (w_o w) @ xs) (asks P sq def src ct bs) src used
    (fst (fst (try_round P h sq def src ct used e bs w))) xs"
proof (induction bs arbitrary: used e w)
  case Nil
  show ?case by (rule exI [of _ "[]"]) (simp add: asked_in_order_def)
next
  case (Cons b bs)
  let ?ask = "asked_in_order (\<lambda>xs. sent (w_o (snd (try_round P h sq def src ct used e (b # bs) w))) = sent (w_o w) @ xs) (asks P sq def src ct (b # bs)) src used
    (fst (fst (try_round P h sq def src ct used e (b # bs) w)))"
  obtain ok w1 where p: "pool_admits (px_E P) (sh_poolLimiter h) def (URL b) w = (ok, w1)" by fastforce
  have w1: "w_o w1 = w_o w" using pool_admits_objects [OF p] .
  have later: "\<exists>xs. ?ask xs" if "used \<longrightarrow> u" "try_round P h sq def src ct used e (b # bs) w = try_round P h sq def src ct u e' bs w1" for u e'
    unfolding that(2) using Cons.IH [of u e' w1] that(1) w1
    by (auto simp: asked_in_order_def split: option.split split_of_bool_asm)
  show ?case
  proof (cases "px_target P (URL b) (sq_Path sq) (sq_RawQuery sq)")
    case None
    then show ?thesis using p by (intro later [of used "if ok then ''invalid backend url'' else ''backend pool rate limit exceeded''"]) auto
  next
    case (Some url)
    let ?req = "direct_request sq def src ct url b"
    obtain res w2 where d: "on_objects (sy_do (px_E P) ?req) w1 = (res, w2)" by fastforce
    have one: "sent (w_o w2) = sent (w_o w) @ [(?req, res)]" using assms d w1 by (auto simp: logs_exchanges_def on_objects_def split: prod.splits) (metis fst_conv snd_conv)
    consider (skip) "\<not> ok" | (replay) "ok" "\<not> reusable src" "used" | (bad) "ok" "reusable src \<or> \<not> used" "\<not> sy_valid_url (px_E P) url"
      | (sends) "ok" "reusable src \<or> \<not> used" "sy_valid_url (px_E P) url" by blast
    then show ?thesis
    proof cases
      case skip
      then show ?thesis using p by (intro later) auto
    next
      case replay
      then show ?thesis using p Some w1 by (intro exI [of _ "[]"]) (simp add: asked_in_order_def)
    next
      case bad
      then show ?thesis using p Some by (intro later [of True]) (auto simp: Let_def)
    next
      case sends
      have stop: "\<exists>xs. ?ask xs" if "try_round P h sq def src ct used e (b # bs) w = ((r, True), w2)" "case r of Served _ \<Rightarrow> True | Failed _ \<Rightarrow> no_answer (?req, res)" for r
        unfolding that(1) using that(2) one sends(2) Some by (intro exI [of _ "[(?req, res)]"]) (auto simp: asked_in_order_def split: round.splits)
      have goes: "\<exists>xs. ?ask xs" if "reusable src" "no_answer (?req, res)" "try_round P h sq def src ct used e (b # bs) w = try_round P h sq def src ct True e' bs w2" for e'
      proof -
        obtain xs where "asked_in_order (\<lambda>xs. sent (w_o (snd (try_round P h sq def src ct True e' bs w2))) = sent (w_o w2) @ xs) (asks P sq def src ct bs) src True
          (fst (fst (try_round P h sq def src ct True e' bs w2))) xs" using Cons.IH by blast
        then show ?thesis unfolding that(3) using that(1,2) one Some
          by (intro exI [of _ "(?req, res) # xs"]) (auto simp: asked_in_order_def split: round.splits)
      qed
      have f: "no_answer (?req, res) \<longleftrightarrow> (case res of Inl _ \<Rightarrow> True | Inr resp \<Rightarrow> 500 \<le> rs_Status resp)" by (simp add: no_answer_def)
      show ?thesis
      proof (cases "no_answer (?req, res)")
        case True
        then obtain e' where "try_round P h sq def src ct used e (b # bs) w =
            (if \<not> reusable src then ((Failed e', True), w2) else try_round P h sq def src ct True e' bs w2)"
          using p Some d sends by (auto simp: f Let_def split: sum.splits)
        then show ?thesis using True stop [of "Failed e'"] goes [of e'] by (cases "reusable src") auto
      next
        case False
        then obtain resp where "try_round P h sq def src ct used e (b # bs) w = ((Served resp, True), w2)"
          using p Some d sends by (auto simp: f Let_def split: sum.splits)
        then show ?thesis using stop [of "Served resp"] by simp
      qed
    qed
  qed
qed

lemma debit_objects: "w_o (debit E h rq def start data w) = w_o w"
  by (auto simp: debit_def Let_def snd_on_redis split: prod.split option.split)

lemma response_objects [simp]: "w_o (snd (forward_response E h rq def start resp w)) = w_o w"
  by (simp add: forward_response_def reply_raw_def track_request_def debit_objects Let_def split: prod.split)

lemma wait_exchanges:
  assumes "logs_exchanges sent P" "(case wait of None \<Rightarrow> (True, w) | Some d \<Rightarrow> on_objects (px_wait P d) w) = (go, w1)"
  shows "sent (w_o w1) = sent (w_o w)"
proof (cases wait)
  case (Some d)
  then have "w_o w1 = snd (px_wait P d (w_o w))" using assms(2) by (auto simp: on_objects_def split: prod.splits)
  then show ?thesis using assms(1) by (simp add: logs_exchanges_def)
qed (use assms(2) in simp)

lemma error_objects [simp]: "w_o (snd (writeError c m w)) = w_o w" "w_o (snd (panic w)) = w_o w" "w_o (snd (hret x w)) = w_o w"
  by (simp_all add: writeError_def stop_with_def set_hdr_def panic_def hret_def)

text \<open>At most \<open>n\<close> rounds, each over all the backends in some order, the next only after one without an answer.\<close>

definition put_in_rounds ::
  "('o \<Rightarrow> exchange list) \<Rightarrow> ('r, 'o, 'g, 'u) proxy_env \<Rightarrow> SyncRequest \<Rightarrow> Def \<Rightarrow> bodySource \<Rightarrow> string \<Rightarrow> nat \<Rightarrow> 'o \<Rightarrow> 'o \<Rightarrow> bool" where
  "put_in_rounds sent P sq def src ct n s s' \<longleftrightarrow>
     (\<exists>xss. sent s' = sent s @ concat xss \<and> length xss \<le> n \<and>
        (\<forall>xs \<in> set xss. \<exists>bs. mset bs = mset (Backends def) \<and> subseq (map fst xs) (asks P sq def src ct bs)) \<and>
        (\<forall>x \<in> set (butlast (concat xss)). no_answer x) \<and> (reusable src \<or> length (concat xss) \<le> 1))"

lemma put_none: "sent s' = sent s \<Longrightarrow> put_in_rounds sent P sq def src ct n s s'"
  unfolding put_in_rounds_def by (rule exI [of _ "[]"]) simp

lemma put_round:
  assumes "asked_in_order (\<lambda>xs. sent s1 = sent s @ xs) (asks P sq def src ct bs) src used r xs" "mset bs = mset (Backends def)"
  shows "put_in_rounds sent P sq def src ct (Suc n) s s1"
    and "r = Failed e \<Longrightarrow> reusable src \<Longrightarrow> put_in_rounds sent P sq def src ct n s1 s2 \<Longrightarrow> put_in_rounds sent P sq def src ct (Suc n) s s2"
proof -
  show "put_in_rounds sent P sq def src ct (Suc n) s s1"
    unfolding put_in_rounds_def
    by (rule exI [of _ "[xs]"]) (use assms in \<open>auto simp: asked_in_order_def split: round.splits split_of_bool_asm dest: in_set_butlastD\<close>)
  assume r: "r = Failed e" "reusable src" and later: "put_in_rounds sent P sq def src ct n s1 s2"
  then obtain xss where xss: "sent s2 = sent s1 @ concat xss" "length xss \<le> n"
    "\<forall>xs \<in> set xss. \<exists>bs. mset bs = mset (Backends def) \<and> subseq (map fst xs) (asks P sq def src ct bs)" "\<forall>x \<in> set (butlast (concat xss)). no_answer x"
    by (auto simp: put_in_rounds_def)
  have "\<forall>x \<in> set (butlast (xs @ concat xss)). no_answer x"
    using assms(1) r(1) xss(4) by (auto simp: asked_in_order_def butlast_append dest: in_set_butlastD)
  then show "put_in_rounds sent P sq def src ct (Suc n) s s2"
    unfolding put_in_rounds_def by (intro exI [of _ "xs # xss"]) (use assms r xss in \<open>auto simp: asked_in_order_def\<close>)
qed

lemma rounds_put:
  assumes "logs_exchanges sent P" "reusable src \<or> n \<le> 1"
  shows "put_in_rounds sent P sq def src ct n (w_o w) (w_o (snd (rounds P h sq rq def src ct start n wait used w)))"
  using assms(2)
proof (induction n arbitrary: wait used w)
  case (Suc n)
  obtain go w1 where g: "(case wait of None \<Rightarrow> (True, w) | Some d \<Rightarrow> on_objects (px_wait P d) w) = (go, w1)" by fastforce
  have w1: "sent (w_o w1) = sent (w_o w)" using wait_exchanges [OF assms(1) g] .
  show ?case
  proof (cases "OrderedBackends (sy_draw (px_E P) (w_o w1)) (Backends def)")
    case None
    then show ?thesis using g w1 by (auto intro!: put_none)
  next
    case (Some bs)
    obtain r used' w2 where t: "try_round P h sq def src ct used [] bs w1 = ((r, used'), w2)" by (metis prod.exhaust)
    obtain xs where x: "asked_in_order (\<lambda>xs. sent (w_o w2) = sent (w_o w) @ xs) (asks P sq def src ct bs) src used r xs"
      using try_round_asks [OF assms(1), of h sq def src ct used "[]" bs w1] w1 by (auto simp: t)
    note put = put_round [OF x OrderedBackends_mset [OF Some], where n = n]
    show ?thesis
    proof (cases "go \<and> n \<noteq> 0 \<and> (\<exists>e. r = Failed e)")
      case False
      then have "w_o (snd (rounds P h sq rq def src ct start (Suc n) wait used w)) \<in> {w_o w1, w_o w2}" using g Some t by (cases r) auto
      then show ?thesis using put(1) w1 by (auto simp del: rounds.simps intro: put_none)
    next
      case True
      then obtain e where e: "r = Failed e" "go" "n \<noteq> 0" by blast
      then have "reusable src" using Suc.prems by auto
      from put(2) [OF e(1) this Suc.IH] Suc.prems show ?thesis using g Some t e by auto
    qed
  qed
qed (simp add: put_none)

lemma slot_objects:
  assumes "\<And>v. w_o v = w_o w \<Longrightarrow> Q (w_o (snd (p v)))" "\<And>v. w_o (snd (busy v)) = w_o v" "Q (w_o w)"
  shows "Q (w_o (snd (with_slot R sem m prio busy p w)))"
proof (cases sem)
  case (Some s)
  obtain ok used st1 where t: "TryAcquire R s m prio (w_r w) = ((ok, used), st1)" by (metis prod.exhaust)
  have "Q (w_o (snd (p (w\<lparr>w_r := st1\<rparr>))))" by (rule assms(1)) simp
  then show ?thesis using Some t assms(2,3) by (auto simp: with_slot_def on_redis_def Let_def split: prod.split bool.split)
qed (simp add: with_slot_def assms(1))

lemma hbind_objects:
  assumes "\<And>v. w_o (snd (p v)) = w_o v" "\<And>x v. p w = (Inr x, v) \<Longrightarrow> w_o v = w_o w \<Longrightarrow> Q (w_o (snd (k x v)))" "Q (w_o w)"
  shows "Q (w_o (snd (hbind p k w)))"
  using assms(1) [of w] assms(2,3) by (auto simp: hbind_def split: prod.split sum.split)

lemma stage_objects [simp]:
  "w_o (snd (rate_stage R pd f l rq t now w)) = w_o w" "w_o (snd (time_stage R pd l rq t w)) = w_o w" "w_o (snd (token_stage R pd f l rq t w)) = w_o w"
  "w_o (snd (checkModelVisible rq def u w)) = w_o w" "w_o (snd (checkAccess h rq def w)) = w_o w"
  by (auto simp: rate_stage_def time_stage_def token_stage_def checkModelVisible_def checkAccess_def setRateLimitHeaders_def set_hdr_def
      hret_def writeError_def stop_with_def on_redis_def Let_def split: option.splits prod.splits if_splits)

lemma to_backends_put:
  assumes "logs_exchanges sent P" "w_o v = w_o w"
  shows "put_in_rounds sent P sq def src ct (nat (if reusable src then wrap64 (1 + Retries def) else 1))
    (w_o w) (w_o (snd (to_backends P h sq rq def src ct start v)))"
proof -
  let ?n = "if reusable src then wrap64 (1 + Retries def) else 1"
  let ?Q = "put_in_rounds sent P sq def src ct (nat ?n) (w_o w)"
  have r: "?Q (w_o (snd (rounds P h sq rq def src ct start (nat ?n) None False u)))" if "w_o u = w_o w" for u
    using rounds_put [OF assms(1), of src "nat ?n" sq def ct u h rq start None False] that by (cases "reusable src") (simp_all del: rounds.simps)
  have "?Q (w_o (snd (with_slot R sem m prio (writeError c msg) (rounds P h sq rq def src ct start (nat ?n) None False) v)))" for R sem m prio c msg
    by (rule slot_objects [where Q = ?Q]) (use r assms(2) in \<open>auto simp del: rounds.simps split del: if_split intro: put_none\<close>)
  then show ?thesis using assms(2) unfolding to_backends_def Let_def
    by (cases "Backends def = []") (simp_all only: if_True if_False error_objects put_none simp_thms)
qed

text \<open>C39: The direct proxy puts a request to the backends in rounds, in at most one round more than the configured retries. A round
  asks the backends of the service in some order, each at most once and with the request made for it, which carries the body of the
  client; whatever is asked after an exchange, that one has failed or was answered with a status of 500 or more. A streamed upload
  is sent at most once.\<close>

theorem direct_requests_bounded:
  assumes "logs_exchanges sent P"
  shows "put_in_rounds sent P sq def src ct (nat (if reusable src then wrap64 (1 + Retries def) else 1))
    (w_o w) (w_o (snd (proxyToInference P h sq rq def src ct w)))"
  unfolding proxyToInference_def Let_def
  by (rule hbind_objects [where Q = "put_in_rounds sent P sq def src ct _ (w_o w)"]) (simp_all add: to_backends_put [OF assms] put_none split del: if_split)

section \<open>Access\<close>

text \<open>What the caller has to be for the service: in its audience, and allowed by the policies, where there are any.\<close>

definition granted :: "SyncHandler \<Rightarrow> JobRequest \<Rightarrow> Def \<Rightarrow> bool" where
  "granted h rq def \<longleftrightarrow>
     (IsRestricted def \<longrightarrow> VisibleTo def (fst (callerAudience rq (sh_userTypeHeader h))) (snd (callerAudience rq (sh_userTypeHeader h)))) \<and>
     (\<forall>e. sh_authz h = Some e \<longrightarrow> Authz.Allowed e (rq_principal rq) (Type def) (Def.Model def))"

lemma hbind_silent: "(\<And>v. w_o (snd (p v)) = w_o v) \<Longrightarrow> (\<And>x v. w_o (snd (k x v)) = w_o v) \<Longrightarrow> w_o (snd (hbind p k w)) = w_o w"
  by (rule hbind_objects) simp_all

lemma admit_objects [simp]: "w_o (snd (admit E h rq def w)) = w_o w"
  unfolding admit_def by (intro hbind_silent) simp_all

text \<open>Everything a request can change but the headers of its reply: Redis, the world outside, the external detectors, the usage
  tracker and the breakers.\<close>

definition outside :: "('r, 'o, 'g, 'u) world \<Rightarrow> 'r \<times> 'o \<times> 'g \<times> 'u \<times> CircuitBreaker" where
  "outside w = (w_r w, w_o w, w_g w, w_u w, w_cb w)"

lemma error_outside [simp]: "outside (snd (writeError c m w)) = outside w"
  by (simp add: writeError_def stop_with_def set_hdr_def outside_def)

lemma admit_ungranted:
  assumes "\<not> granted h rq def"
  shows "\<exists>rep v. admit E h rq def w = (Inl rep, v) \<and> outside v = outside w"
  using assms
  by (auto simp: granted_def admit_def hbind_def checkModelVisible_def checkAccess_def Authz.Allowed_def writeError_def stop_with_def set_hdr_def outside_def hret_def Let_def
      split: if_splits option.splits prod.splits)

definition target :: "('r, 'o, 'g, 'u) proxy_env \<Rightarrow> SyncHandler \<Rightarrow> SyncRequest \<Rightarrow> (('r, 'o, 'g, 'u) world, Def) hop" where
  "target P h sq = (if HasPrefix (sq_media sq) ''multipart/form-data'' then multipart_target h sq else json_target (px_E P) h sq)"

lemma target_cases:
  obtains def where "target P h sq w = (Inr def, w)" | rep v where "target P h sq w = (Inl rep, v)" "outside v = outside w"
proof -
  have "(\<exists>def. target P h sq w = (Inr def, w)) \<or> (\<exists>rep v. target P h sq w = (Inl rep, v) \<and> outside v = outside w)"
    by (auto simp: target_def json_target_def multipart_target_def writeError_def stop_with_def set_hdr_def outside_def hret_def Let_def
        split: if_splits option.splits sum.splits)
  then show ?thesis using that by blast
qed

text \<open>C36: Whatever a client sends, nothing but the headers of its reply changes, neither in Redis nor at a backend, a detector, the usage
  tracker or a breaker, unless the service the request resolves to, after a fallback to another model, is visible to the caller
  and allowed to the caller by the policies.\<close>

theorem acts_only_if_granted:
  assumes "outside (snd (ServeHTTP P h sq w)) \<noteq> outside w"
  shows "\<exists>def. target P h sq w = (Inr def, w) \<and> granted h (sq_rq sq) def"
proof (rule ccontr)
  assume none: "\<nexists>def. target P h sq w = (Inr def, w) \<and> granted h (sq_rq sq) def"
  have stops: "outside (snd (hbind (target P h sq) (\<lambda>def. hbind (admit (px_E P) h (sq_rq sq) def) (k def)) w)) = outside w"
    for k :: "Def \<Rightarrow> JobRequest \<Rightarrow> (('a, 'b, 'c, 'd) world, unit) hop"
  proof (rule target_cases [of P h sq w])
    fix def
    assume t: "target P h sq w = (Inr def, w)"
    with none have "\<not> granted h (sq_rq sq) def" by blast
    from admit_ungranted [OF this, of "px_E P" w] t show ?thesis by (auto simp: hbind_def)
  qed (auto simp: hbind_def)
  have "outside (snd (ServeHTTP P h sq w)) = outside w"
    using stops by (auto simp: ServeHTTP_def handleJSON_def handleMultipart_def target_def HasPrefix_def)
  with assms show False by contradiction
qed

section \<open>Blocked input\<close>

lemma admit_refuses: "admit E h rq def w = (Inl rep, w1) \<Longrightarrow> 400 \<le> Code rep"
  by (auto simp: admit_def hbind_def checkModelVisible_def checkAccess_def rate_stage_def time_stage_def writeError_def stop_with_def hret_def Let_def
      split: prod.splits sum.splits option.splits if_splits)

lemma slot_stops:
  assumes "\<And>v. \<exists>rep v'. p v = (Inl rep, v') \<and> 400 \<le> Code rep \<and> w_o v' = w_o v" "400 \<le> c"
  shows "\<exists>rep w'. with_slot R sem m prio (writeError c msg) p w = (Inl rep, w') \<and> 400 \<le> Code rep \<and> w_o w' = w_o w"
proof (cases sem)
  case None
  then show ?thesis using assms(1) by (simp add: with_slot_def)
next
  case (Some s)
  obtain ok used st1 where t: "TryAcquire R s m prio (w_r w) = ((ok, used), st1)" by (metis prod.exhaust)
  obtain rep v' where "p (w\<lparr>w_r := st1\<rparr>) = (Inl rep, v')" "400 \<le> Code rep" "w_o v' = w_o w" using assms(1) by fastforce
  then show ?thesis using Some t assms(2) by (cases ok) (auto simp: with_slot_def on_redis_def writeError_def stop_with_def set_hdr_def)
qed

text \<open>C37: A chat request in which the input guardrails of its service find something, where they block, is answered with an error and
  sent to no backend. (The checks meant are those by patterns.)\<close>

theorem blocked_input_not_forwarded:
  assumes "sq_Method sq = ''POST''" "sq_media sq = ''application/json''" "json_target (px_E P) h sq w = (Inr def, w)" "sh_llm h = Some llm" "IsLLM def"
    and "Enabled (Input (Guardrails def))" "Action (Input (Guardrails def)) \<notin> {''redact'', ''flag''}" "Checks (Input (Guardrails def)) \<noteq> []"
    and "Scan (sy_jc (px_E P)) (sq_Body sq) (Checks (Input (Guardrails def))) \<noteq> []"
  shows "\<exists>rep w'. ServeHTTP P h sq w = (Inl rep, w') \<and> 400 \<le> Code rep \<and> w_o w' = w_o w"
proof -
  have llm: "\<exists>rep v'. serve_llm (px_E P) h llm sq rq def (sq_Body sq) v = (Inl rep, v') \<and> 400 \<le> Code rep \<and> w_o v' = w_o v" for rq v
    using assms(6-9) by (simp add: serve_llm_def input_guard_def regex_input_def hbind_def writeError_def stop_with_def set_hdr_def Let_def)
  obtain r v where a: "admit (px_E P) h (sq_rq sq) def w = (r, v)" by fastforce
  have v: "w_o v = w_o w" using admit_objects [of "px_E P" h "sq_rq sq" def w] a by simp
  have s: "ServeHTTP P h sq w = (case r of Inl rep \<Rightarrow> (Inl rep, v) | Inr rq \<Rightarrow> with_model (px_E P) h rq def (serve_llm (px_E P) h llm sq rq def (sq_Body sq)) v)"
    using a assms(1-5) by (simp add: ServeHTTP_def HasPrefix_def handleJSON_def hbind_def split: sum.split)
  show ?thesis
  proof (cases r)
    case (Inl rep)
    then show ?thesis using s a v admit_refuses by auto
  next
    case (Inr rq)
    have "\<exists>rep w'. with_model (px_E P) h rq def (serve_llm (px_E P) h llm sq rq def (sq_Body sq)) v = (Inl rep, w') \<and> 400 \<le> Code rep \<and> w_o w' = w_o v"
      unfolding with_model_def by (rule slot_stops [OF llm]) simp
    then show ?thesis using s Inr v by simp
  qed
qed

section \<open>Retries\<close>

text \<open>The number of retries is not validated: with a negative one a request with a buffered body, where no pool and no token budget
  refuses it, is answered with an empty success, and no backend is asked.\<close>

lemma negative_retries_empty_success:
  assumes "Retries def < 0" "- (2 ^ 63) \<le> Retries def" "reusable src" "Backends def \<noteq> []" "PoolName def = []" "sh_tokenLimiter h = None"
  shows "proxyToInference P h sq rq def src ct w = (Inl \<lparr>Code = 200, Body = NoBody\<rparr>, w)"
proof -
  have "wrap64 (1 + Retries def) \<le> 0" using assms(1,2) wrap64_id [of "1 + Retries def"] by (simp add: int64_def)
  then show ?thesis using assms(3-6) by (simp add: proxyToInference_def to_backends_def token_stage_def hbind_def hret_def with_slot_def Let_def)
qed

section \<open>The slots of a model\<close>

text \<open>What a request may touch besides the slot of its model: the limits, the cache and the slots of pools.\<close>

definition sync_keys :: "string set" where
  "sync_keys = proxy_keys \<union> {k. HasPrefix k ''gateway:semaphore:pool:''}"

lemma sync_keysI [simp]: "k \<in> proxy_keys \<Longrightarrow> k \<in> sync_keys" "keyPrefix s = ''pool'' \<Longrightarrow> semkey s m u \<in> sync_keys"
  by (simp_all add: sync_keys_def semkey_def reservedKeyFor_def sharedKeyFor_def namespace_def HasPrefix_def)

lemma semkey_not_sync [simp]: "keyPrefix s = [] \<Longrightarrow> semkey s m u \<notin> sync_keys"
  using semkey_not_proxy [of s m u] by (simp add: sync_keys_def semkey_def reservedKeyFor_def sharedKeyFor_def namespace_def HasPrefix_def)

definition pool_sem :: "ModelSemaphore option \<Rightarrow> bool" where
  "pool_sem sem \<longleftrightarrow> (\<forall>s. sem = Some s \<longrightarrow> keyPrefix s = ''pool'')"

lemma keeps_same: "(\<And>w. w_r (snd (p w)) = w_r w) \<Longrightarrow> keeps view K p"
  by (simp add: keeps_def)

lemma input_guard_redis [simp]: "w_r (snd (input_guard E g raw w)) = w_r w"
  by (auto simp: input_guard_def regex_input_def model_input_def hbind_def hret_def writeError_def stop_with_def on_models_def Let_def
      split: prod.splits sum.splits option.splits if_splits)

context live_server
begin

lemma keeps_quiet: "quiet view p \<Longrightarrow> limiter_keys \<subseteq> K \<Longrightarrow> keeps view K p"
  unfolding quiet_def keeps_def using agree_mono by (metis prod.collapse)

lemma keeps_slot:
  assumes "keeps view K p" "keeps view K busy" "\<And>s u. sem = Some s \<Longrightarrow> semkey s m u \<in> K"
  shows "keeps view K (with_slot R sem m prio busy p)"
proof -
  have "agree K (view (w_r w)) (view (w_r (snd (with_slot R sem m prio busy p w))))" for w
  proof (cases sem)
    case None
    then show ?thesis using assms(1) by (simp add: with_slot_def keeps_def)
  next
    case (Some s)
    obtain ok used st1 where t: "TryAcquire R s m prio (w_r w) = ((ok, used), st1)" by (metis prod.exhaust)
    have a: "agree K (view (w_r w)) (view st1)" using TryAcquire_touches [of s m "w_r w" prio] t assms(3) [OF Some] by (auto elim: agree_mono)
    obtain r1 v1 where p: "p (w\<lparr>w_r := st1\<rparr>) = (r1, v1)" by fastforce
    obtain r2 v2 where b: "busy (w\<lparr>w_r := st1\<rparr>) = (r2, v2)" by fastforce
    have "agree K (view (w_r w)) (view (w_r v1))" "agree K (view (w_r w)) (view (w_r v2))"
      using agree_trans [OF a] keepsD [OF assms(1) p] keepsD [OF assms(2) b] by simp_all
    moreover have "agree K (view st) (view (Release R s m used st))" for st
      by (rule agree_mono [OF Release_agrees]) (use assms(3) [OF Some] in auto)
    ultimately show ?thesis using Some t p b agree_trans by (cases ok) (auto simp: with_slot_def on_redis_def)
  qed
  then show ?thesis by (simp add: keeps_def)
qed

lemma keeps_sync: "keeps view proxy_keys p \<Longrightarrow> keeps view sync_keys p"
  by (erule keeps_mono) auto

lemma pool_keeps:
  assumes "sy_R E = R" "pool_sem (lh_poolSemaphore llm)" "keeps view proxy_keys p"
  shows "keeps view sync_keys (with_pool E llm rq def p)"
  unfolding with_pool_def assms(1)
  by (rule keeps_slot [OF keeps_sync [OF assms(3)] keeps_simple(2)]) (use assms(2) in \<open>auto simp: pool_sem_def split: if_splits\<close>)

lemma ServeJSON_keeps:
  assumes "sy_R E = R" "pool_sem (lh_poolSemaphore llm)"
  shows "keeps view sync_keys (ServeJSON E llm rq path def body c)"
proof -
  note pool = pool_keeps [OF assms]
  have str: "keeps view sync_keys (serveStream E llm rq path def body prov c u)" for prov u
    unfolding serveStream_def Let_def
    by (intro keeps_hbind keeps_sync [OF limits_keep [OF assms(1)]] pool forward_keeps [OF assms(1)] stream_keeps [OF assms(1)])
  have miss: "keeps view sync_keys (\<lambda>w. case cache_lookup E llm key w of (Some entry, w1) \<Rightarrow> serve_hit E llm rq def c u entry w1
      | (None, w1) \<Rightarrow> with_pool E llm rq def (hbind (forward E llm prov def body path) (answer E llm rq prov def c u key)) w1)"
    if "\<And>k. key = Some k \<Longrightarrow> k \<in> proxy_keys" for key prov u
  proof -
    have "keeps view sync_keys (serve_hit E llm rq def c u entry)"
      "keeps view sync_keys (with_pool E llm rq def (hbind (forward E llm prov def body path) (answer E llm rq prov def c u key)))" for entry
      by (intro keeps_sync [OF serve_hit_keeps] pool keeps_hbind forward_keeps answer_keeps assms(1) that; assumption)+
    then show ?thesis using cache_lookup_keeps(1) [OF assms(1)] unfolding keeps_def
      by (auto split: prod.split option.split) metis+
  qed
  show ?thesis
    unfolding ServeJSON_def Let_def
    using str
    by (auto split: option.split intro!: keeps_hbind_run keeps_sync [OF limits_keep [OF assms(1)]] cache_key_keeps miss keeps_simple dest: cache_key_keys)
qed

lemma debit_agrees:
  assumes "sy_R E = R"
  shows "agree limiter_keys (view (w_r w)) (view (w_r (debit E h rq def start data w)))"
proof -
  have t: "agree limiter_keys (view st) (view (snd (AddProcessingTime R pd l c u t secs st)))" for pd l c u t secs st
    using add_script_agrees limiter_keysI(5) by (simp add: AddProcessingTime_def split: option.split)
  show ?thesis
    using t token_agrees(2) agree_trans [OF t token_agrees(2)]
    by (simp add: debit_def assms Let_def snd_on_redis split: prod.split option.split)
qed

lemma response_keeps:
  assumes "sy_R E = R"
  shows "keeps view pool_keys (forward_response E h rq def start resp)"
proof -
  have "w_r (track_request E h rq def w) = w_r w" for w by (simp add: track_request_def Let_def split: prod.split)
  then show ?thesis using agree_mono [OF debit_agrees [OF assms]] pool_keysI(1)
    by (simp add: keeps_def forward_response_def reply_raw_def Let_def) (metis pool_keysI(1) subsetI world.select_convs(1) world.surjective world.update_convs(6))
qed

lemma try_round_keeps:
  assumes "sy_R (px_E P) = R"
  shows "agree pool_keys (view (w_r w)) (view (w_r (snd (try_round P h sq def src ct used e bs w))))"
proof (induction bs arbitrary: used e w)
  case (Cons b bs)
  obtain ok w1 where p: "pool_admits (px_E P) (sh_poolLimiter h) def (URL b) w = (ok, w1)" by fastforce
  have a: "agree pool_keys (view (w_r w)) (view (w_r w1))" using pool_admits_agrees(1) [OF assms, of w] p by (metis snd_conv)
  show ?case
  proof (cases "px_target P (URL b) (sq_Path sq) (sq_RawQuery sq)")
    case None
    then show ?thesis using p agree_trans [OF a Cons.IH] by simp
  next
    case (Some url)
    obtain res w2 where d: "on_objects (sy_do (px_E P) (direct_request sq def src ct url b)) w1 = (res, w2)" by fastforce
    have "agree pool_keys (view (w_r w)) (view (w_r (snd (try_round P h sq def src ct u e' bs w2))))" for u e'
      using agree_trans [OF a] Cons.IH [of w2 u e'] on_objects_keeps [OF d] by simp
    then show ?thesis using p d Some a agree_trans [OF a Cons.IH] on_objects_keeps [OF d]
      by (simp add: Let_def split: sum.split del: append.simps)
  qed
qed simp

lemma rounds_keeps:
  assumes "sy_R (px_E P) = R"
  shows "agree pool_keys (view (w_r w)) (view (w_r (snd (rounds P h sq rq def src ct start n wait used w))))"
proof (induction n arbitrary: wait used w)
  case (Suc n)
  obtain go w1 where g: "(case wait of None \<Rightarrow> (True, w) | Some d \<Rightarrow> on_objects (px_wait P d) w) = (go, w1)" by fastforce
  then have w1: "w_r w1 = w_r w" by (auto split: option.splits dest: on_objects_keeps)
  show ?case
  proof (cases "OrderedBackends (sy_draw (px_E P) (w_o w1)) (Backends def)")
    case None
    then show ?thesis using g w1 by (simp add: writeError_def stop_with_def panic_def)
  next
    case (Some bs)
    obtain r used' w2 where t: "try_round P h sq def src ct used [] bs w1 = ((r, used'), w2)" by (metis prod.exhaust)
    have a: "agree pool_keys (view (w_r w)) (view (w_r w2))" using try_round_keeps [OF assms, of w1] t w1 by (metis snd_conv)
    have "agree pool_keys (view (w_r w)) (view (w_r (snd (forward_response (px_E P) h rq def start resp w2))))" for resp
      using response_keeps [OF assms] agree_trans [OF a] by (simp add: keeps_def)
    then show ?thesis using g Some t w1 a agree_trans [OF a Suc.IH]
      by (cases r) (simp_all add: writeError_def stop_with_def)
  qed
qed simp

lemma proxy_keeps:
  assumes "sy_R (px_E P) = R" "pool_sem (sh_poolSemaphore h)"
  shows "keeps view sync_keys (proxyToInference P h sq rq def src ct)"
proof -
  have "keeps view pool_keys (rounds P h sq rq def src ct start n None False)" for start n
    using rounds_keeps [OF assms(1)] by (simp add: keeps_def)
  then have r: "keeps view sync_keys (rounds P h sq rq def src ct start n None False)" for start n
    by (rule keeps_mono) auto
  have "keeps view sync_keys (to_backends P h sq rq def src ct start)" for start
    unfolding to_backends_def Let_def assms(1)
    by (auto intro!: keeps_slot [OF r] keeps_simple simp: pool_sem_def assms(2) [unfolded pool_sem_def] split: if_splits)
  then have "keeps view sync_keys (hbind (token_stage R pd f l rq t) (\<lambda>_. to_backends P h sq rq def src ct start))" for pd f l t start
    by (intro keeps_hbind keeps_quiet [OF quiet_limits(3)]) auto
  then show ?thesis by (simp add: keeps_def proxyToInference_def assms(1) Let_def)
qed

lemma llm_keeps:
  assumes "sy_R E = R" "pool_sem (lh_poolSemaphore llm)"
  shows "keeps view sync_keys (serve_llm E h llm sq rq def raw)"
proof -
  have t: "w_r (track_request E h rq def w) = w_r w" for w by (simp add: track_request_def Let_def split: prod.split)
  show ?thesis
    unfolding serve_llm_def
  proof (rule keeps_hbind)
    show "keeps view sync_keys (input_guard E (Input (Guardrails def)) raw)" by (rule keeps_same) simp
    show "keeps view sync_keys (\<lambda>w. case ServeJSON E llm rq (sq_Path sq) def x (fst (resolveConsumerAndType h rq)) w of
       (Inl rep, w1) \<Rightarrow> (Inl rep, if Code rep < 500 then track_request E h rq def w1 else w1) | (Inr x, w1) \<Rightarrow> (Inr x, w1))" for x
      using ServeJSON_keeps [OF assms, of rq "sq_Path sq" def x "fst (resolveConsumerAndType h rq)"]
      unfolding keeps_def by (auto simp: t split: prod.split sum.split) (metis snd_conv)+
  qed
qed

lemma model_returns:
  assumes "sy_R E = R" "sh_semaphore h = Some s" "keyPrefix s = []" "sem_ok s" "m \<in> fst ` set (limits s)" "keeps view sync_keys p"
  shows "returns_slots view s m (with_model E h rq def p)"
proof -
  consider "Def.Model def = m" | "Def.Model def \<noteq> m" "Def.Model def \<in> fst ` set (limits s)" | "Def.Model def \<notin> fst ` set (limits s)" by blast
  then show ?thesis
  proof cases
    case 1
    then show ?thesis unfolding with_model_def assms(1,2)
      by (auto intro!: with_slot_returns [OF assms(6) keeps_simple(3)] simp: assms(3))
  next
    case 2
    let ?K = "sync_keys \<union> (\<Union>u. {semkey s (Def.Model def) u})"
    have "keeps view ?K (with_model E h rq def p)"
      unfolding with_model_def assms(1,2)
      by (rule keeps_slot [OF keeps_mono [OF assms(6)] keeps_simple(3)]) auto
    then show ?thesis using semkey_inj [OF assms(4,5) 2(2)] 2(1) assms(3) by (auto intro: keeps_returns)
  next
    case 3
    then have "map_of (limits s) (Def.Model def) = None" by (simp add: map_of_eq_None_iff)
    then have "with_model E h rq def p = p"
      by (simp add: fun_eq_iff with_model_def assms(2) with_slot_def TryAcquire_def Release_def on_redis_def Let_def split: prod.split)
    then show ?thesis using keeps_returns [OF assms(6)] assms(3) by simp
  qed
qed

lemma admit_keeps:
  assumes "sy_R E = R"
  shows "keeps view sync_keys (admit E h rq def)"
proof -
  have rate: "keeps view sync_keys (\<lambda>w. rate_stage R pd f l rq' t (now w) w)" for pd f l rq' t now
    using keeps_quiet [OF quiet_limits(1)] unfolding keeps_def by (metis proxy_keysI(1) subsetI sync_keysI(1))
  have access: "keeps view sync_keys (checkAccess h rq def)"
    by (rule keeps_same) (simp add: checkAccess_def hret_def writeError_def stop_with_def Let_def split: option.split)
  show ?thesis
    unfolding admit_def assms
    by (intro keeps_hbind keeps_simple keeps_quiet [OF quiet_stages(1)] keeps_quiet [OF quiet_limits(2)] rate access) auto
qed

lemma target_keeps: "keeps view K (json_target E h sq)" "keeps view K (multipart_target h sq)" "keeps view K (upload_body h sq rq)"
  by (auto intro!: keeps_same simp: json_target_def multipart_target_def upload_body_def writeError_def stop_with_def hret_def Let_def split: option.split sum.split)

lemma ServeHTTP_returns:
  assumes "sy_R (px_E P) = R" "sh_semaphore h = Some s" "keyPrefix s = []" "sem_ok s" "m \<in> fst ` set (limits s)"
    and "pool_sem (sh_poolSemaphore h)" "\<And>llm. sh_llm h = Some llm \<Longrightarrow> pool_sem (lh_poolSemaphore llm)"
  shows "returns_slots view s m (ServeHTTP P h sq)"
proof -
  note keep = keeps_returns [of view sync_keys _ s m, OF _ semkey_not_sync [OF assms(3)]]
  note run = model_returns [OF assms(1-5)]
  have j: "returns_slots view s m (handleJSON P h sq)"
    unfolding handleJSON_def
    by (intro returns_hbind keep target_keeps admit_keeps [OF assms(1)] run) (auto simp: proxy_keeps [OF assms(1,6)] llm_keeps [OF assms(1,7)] split: option.split)
  have u: "returns_slots view s m (handleMultipart P h sq)"
    unfolding handleMultipart_def
    by (intro returns_hbind keep [OF target_keeps(2)] keep [OF target_keeps(3)] keep [OF admit_keeps [OF assms(1)]])
      (auto intro!: run proxy_keeps [OF assms(1,6)])
  show ?thesis using j u by (auto simp: ServeHTTP_def intro!: keep [OF keeps_simple(3)])
qed

end

text \<open>C38: However a synchronous request ends, the slots in use of every model, across the replicas, are the same afterwards; with the
  slots of the model semaphore and of the pool semaphores under keys of their own, a server that answers, and no lifetime of a
  counter ending meanwhile.\<close>

theorem model_slots_returned:
  assumes "live_server (sy_R (px_E P)) view" "sh_semaphore h = Some s" "keyPrefix s = []" "sem_ok s" "m \<in> fst ` set (limits s)"
    and "pool_sem (sh_poolSemaphore h)" "\<And>llm. sh_llm h = Some llm \<Longrightarrow> pool_sem (lh_poolSemaphore llm)"
    and "slot_counts (view (w_r w)) s m f"
  shows "slot_counts (view (w_r (snd (ServeHTTP P h sq w)))) s m f"
  using live_server.ServeHTTP_returns [OF assms(1) refl assms(2-7)] assms(8) by (simp add: returns_slots_def)

section \<open>Concrete requests\<close>

definition sync_env0 :: "(keyspace, HttpRequest list, unit, unit) proxy_env" where
  "sync_env0 = \<lparr>px_E = lm_env, px_target = (\<lambda>u p q. Some (u @ p)), px_wait = (\<lambda>_ s. (True, s))\<rparr>"

text \<open>A model with one slot, and a service for it whose backends are those of the samples above.\<close>

definition sync_def :: Def where
  "sync_def = lm_def\<lparr>Provider := [], PoolName := [], Retries := 1\<rparr>"

definition post_by :: "string \<Rightarrow> SyncRequest" where
  "post_by c = \<lparr>sq_rq = poll_by c, sq_Method = ''POST'', sq_Path = ''/o/m'', sq_RawQuery = [], sq_media = ''application/json'', sq_ContentLength = 1,
     sq_Body = ''a'', sq_Complete = True, sq_Form = None\<rparr>"

definition exchanges :: "HttpRequest list \<Rightarrow> exchange list" where
  "exchanges reqs = map (\<lambda>req. (req, reply_of req)) reqs"

lemma sync_logs: "logs_exchanges exchanges sync_env0"
  by (simp add: logs_exchanges_def sync_env0_def lm_env_def exchanges_def)

definition sync_handler :: SyncHandler where
  "sync_handler = WithSemaphore (Some sample_sem) (NewSyncHandler guarded_registry [] None (Some lm_handler))"

theorem direct_requests_bounded_witness:
  "put_in_rounds exchanges sync_env0 (post_by ''bob'') sync_def (bytesBody ''a'') [] 2 (w_o lm_world)
     (w_o (snd (proxyToInference sync_env0 sync_handler (post_by ''bob'') (poll_by ''bob'') sync_def (bytesBody ''a'') [] lm_world))) \<and>
   put_in_rounds exchanges sync_env0 (post_by ''bob'') sync_def (streamOnce ''a'') [] 1 (w_o lm_world)
     (w_o (snd (proxyToInference sync_env0 sync_handler (post_by ''bob'') (poll_by ''bob'') sync_def (streamOnce ''a'') [] lm_world)))"
  using direct_requests_bounded [OF sync_logs, of "post_by ''bob''" sync_def "bytesBody ''a''" "[]" lm_world sync_handler "poll_by ''bob''"]
    direct_requests_bounded [OF sync_logs, of "post_by ''bob''" sync_def "streamOnce ''a''" "[]" lm_world sync_handler "poll_by ''bob''"]
  by (simp add: bytesBody_def streamOnce_def sync_def_def wrap64_def)

theorem model_slots_returned_witness:
  "slot_counts (w_r (snd (ServeHTTP sync_env0 sync_handler (post_by ''bob'') lm_world))) sample_sem ''m'' (\<lambda>_. 0)"
proof -
  have "live_server (sy_R (px_E sync_env0)) id" using lm_live(1) by (simp add: sync_env0_def)
  moreover have "sh_semaphore sync_handler = Some sample_sem" "pool_sem (sh_poolSemaphore sync_handler)" "\<And>llm. sh_llm sync_handler = Some llm \<Longrightarrow> pool_sem (lh_poolSemaphore llm)"
    by (auto simp: sync_handler_def WithSemaphore_def NewSyncHandler_def pool_sem_def lm_handler_def WithCircuitBreaker_def llm_New_def)
  moreover have "keyPrefix sample_sem = []" "''m'' \<in> fst ` set (limits sample_sem)" by (simp_all add: sample_sem_def)
  moreover have "slot_counts (id (w_r lm_world)) sample_sem ''m'' (\<lambda>_. 0)" by (simp add: slot_counts_def lm_world_def)
  ultimately show ?thesis
    using model_slots_returned [of sync_env0 id sync_handler sample_sem "''m''" lm_world "\<lambda>_. 0" "post_by ''bob''"] sample_sem_ok by simp
qed

lemma guarded_sync: "RouteSync guarded_registry ''/o/m'' [] = Inr guarded_def" "\<not> IsRestricted guarded_def" "FallbackModel guarded_def = []"
  "Backends guarded_def = [\<lparr>URL = ''http://o'', Weight = 1, Headers = [], be_Model = []\<rparr>]" "PoolName guarded_def = []" "Retries guarded_def = 1"
  by code_simp+

definition open_handler :: SyncHandler where
  "open_handler = NewSyncHandler guarded_registry [] None None"

lemma post_target: "json_target lm_env open_handler (post_by ''bob'') lm_world = (Inr guarded_def, lm_world)"
proof -
  have "fold_key ''prompt'' = ''prompt''" by code_simp
  then have "json_model prompts ''a'' = Some []" by (simp add: json_model_def dec_struct_def jfield_def dec_string_def)
  moreover have "sy_jc lm_env = prompts" by (simp add: lm_env_def)
  ultimately show ?thesis using guarded_sync(1,3)
    by (simp add: json_target_def open_handler_def NewSyncHandler_def post_by_def defaultMaxBodyBytes_def with_fallback_def hret_def)
qed

theorem acts_only_if_granted_witness:
  "\<exists>def. target sync_env0 open_handler (post_by ''bob'') lm_world = (Inr def, lm_world) \<and> granted open_handler (sq_rq (post_by ''bob'')) def"
proof -
  have o: "OrderedBackends (sy_draw lm_env s) (Backends guarded_def) = Some [\<lparr>URL = ''http://o'', Weight = 1, Headers = [], be_Model = []\<rparr>]" for s
    unfolding guarded_sync(4) by (simp add: lm_env_def) code_simp
  have "admit lm_env open_handler (sq_rq (post_by ''bob'')) guarded_def w = (Inr (poll_by ''bob''), w)" for w
    by (simp add: admit_def hbind_def checkModelVisible_def guarded_sync(2) hret_def checkAccess_def rate_stage_def time_stage_def open_handler_def NewSyncHandler_def post_by_def)
  moreover have "w_o (snd (proxyToInference sync_env0 open_handler (post_by ''bob'') rq guarded_def (bytesBody ''a'') ct lm_world)) \<noteq> []" for rq ct
    using o guarded_sync(4-6)
    by (simp add: proxyToInference_def to_backends_def token_stage_def hbind_def hret_def with_slot_def sync_env0_def open_handler_def NewSyncHandler_def bytesBody_def
        wrap64_def numeral_2_eq_2 pool_admits_def on_objects_def)
      (simp add: lm_env_def lm_world_def reply_of_def HasPrefix_def direct_request_def Let_def post_by_def)
  ultimately have "outside (snd (ServeHTTP sync_env0 open_handler (post_by ''bob'') lm_world)) \<noteq> outside lm_world"
    using post_target
    by (simp add: ServeHTTP_def HasPrefix_def handleJSON_def hbind_def sync_env0_def with_model_def with_slot_def open_handler_def NewSyncHandler_def)
      (simp add: lm_world_def post_by_def outside_def)
  then show ?thesis by (rule acts_only_if_granted)
qed

definition guarded_chat :: ServiceConfig where
  "guarded_chat = chat_service\<lparr>sc_BackendPool := [], sc_InferenceURL := ''http://o'', sc_Guardrails := plain_guardrails\<lparr>g_Action := ''block'', g_Checks := [CheckPIIFR]\<rparr>\<rparr>"

definition chat_handler :: SyncHandler where
  "chat_handler = NewSyncHandler (NewRegistry no_durations [] [guarded_chat]) [] None (Some lm_handler)"

definition chat_def :: Def where
  "chat_def = mk_def no_durations [] guarded_chat"

definition chat_env :: "(keyspace, HttpRequest list, unit, unit) proxy_env" where
  "chat_env = sync_env0\<lparr>px_E := lm_env\<lparr>sy_jc := one_doc_codec (JObj [(''messages'', JArr [JObj [(''content'', JStr ''078051120'')]])])\<rparr>\<rparr>"

lemma chat_facts: "RouteSync (NewRegistry no_durations [] [guarded_chat]) ''/v1/chat'' [] = Inr chat_def" "FallbackModel chat_def = []" "IsLLM chat_def"
  "Enabled (Input (Guardrails chat_def))" "Action (Input (Guardrails chat_def)) = ''block''" "Checks (Input (Guardrails chat_def)) = [CheckPIIFR]"
  by code_simp+

theorem blocked_input_not_forwarded_witness:
  "\<exists>rep w'. ServeHTTP chat_env chat_handler ((post_by ''bob'')\<lparr>sq_Path := ''/v1/chat''\<rparr>) lm_world = (Inl rep, w') \<and> 400 \<le> Code rep \<and> w_o w' = w_o lm_world"
proof -
  let ?sq = "(post_by ''bob'')\<lparr>sq_Path := ''/v1/chat''\<rparr>"
  let ?jc = "one_doc_codec (JObj [(''messages'', JArr [JObj [(''content'', JStr ''078051120'')]])])"
  have k: "fold_key ''messages'' = ''messages''" "fold_key ''content'' = ''content''" by code_simp+
  then have m: "json_model ?jc ''a'' = Some []" by (simp add: json_model_def dec_struct_def jfield_def dec_string_def one_doc_codec_def)
  have jc: "sy_jc (px_E chat_env) = ?jc" by (simp add: chat_env_def)
  have "json_target (px_E chat_env) chat_handler ?sq lm_world = (Inr chat_def, lm_world)"
    using m chat_facts(1,2) by (simp add: json_target_def jc chat_handler_def NewSyncHandler_def post_by_def defaultMaxBodyBytes_def with_fallback_def hret_def)
  moreover have "Scan ?jc ''a'' [CheckPIIFR] \<noteq> []" by code_simp
  ultimately show ?thesis
    using chat_facts jc by (intro blocked_input_not_forwarded [where def = chat_def and llm = lm_handler]) (simp_all add: post_by_def chat_handler_def NewSyncHandler_def)
qed

end
